(* ===== verification/EvmPrelude.thy ===== *)
theory EvmPrelude
  imports Main "HOL-Library.Word" "HOL-Library.Finite_Map" "HOL-Library.List_Lexorder"
begin

text \<open>
  The vocabulary the components share.

  \<^item> Machine types of the Go sources: \<open>u8\<close>, \<open>u64\<close> and \<open>u256\<close> are the fixed-width unsigned
    integers (they wrap), \<open>Address\<close> and \<open>Hash\<close> the fixed-size byte arrays of go-ethereum, read as
    big-endian words (so that the byte order used for sorting is the word order), \<open>bytes\<close> a
    byte slice.  An \<open>AccAddress\<close> of the Cosmos SDK is a byte slice whose nil and empty values
    coincide.  \<open>math/big\<close> integers are \<open>int\<close>.
  \<^item> Go control flow: an \<open>outcome\<close> is a returned value, a returned error or a panic; a computation
    of type \<open>go\<close> threads the state through all three, so a function that fails after it has
    already written to its store is modelled as doing so.
  \<^item> Key-value stores and Go maps as finite maps, with the sum of the stored amounts.
\<close>

section \<open>Machine types\<close>

type_synonym u8 = "8 word"
type_synonym u32 = "32 word"
type_synonym u64 = "64 word"
type_synonym u256 = "256 word"
type_synonym Address = "160 word"
type_synonym Hash = "256 word"
type_synonym bytes = "8 word list"
type_synonym AccAddress = "8 word list"
type_synonym denom = string

text \<open>
  The integer division of \<open>math/big\<close>: \<open>Quo\<close> truncates towards zero, \<open>Mod\<close> is the Euclidean
  remainder (never negative).
\<close>

definition Quo :: "int \<Rightarrow> int \<Rightarrow> int" where
  "Quo a b = sgn a * sgn b * (\<bar>a\<bar> div \<bar>b\<bar>)"

definition Mod :: "int \<Rightarrow> int \<Rightarrow> int" where
  "Mod a b = a mod \<bar>b\<bar>"

text \<open>
  Byte arrays of go-ethereum are big-endian.  \<open>BytesToHash\<close> and \<open>BytesToAddress\<close> keep the last 32
  and 20 bytes of a longer slice and pad a shorter one on the left, which is what the conversion
  of the big-endian number to the word does.
\<close>

fun toBytes :: "nat \<Rightarrow> nat \<Rightarrow> bytes" where
  "toBytes 0 m = []"
| "toBytes (Suc n) m = toBytes n (m div 256) @ [of_nat (m mod 256)]"

definition fromBytes :: "bytes \<Rightarrow> nat" where
  "fromBytes bs = foldl (\<lambda>acc b. acc * 256 + unat b) 0 bs"

definition HashBytes :: "Hash \<Rightarrow> bytes" where
  "HashBytes h = toBytes 32 (unat h)"

definition BytesToHash :: "bytes \<Rightarrow> Hash" where
  "BytesToHash bs = of_nat (fromBytes bs)"

definition AddressBytes :: "Address \<Rightarrow> bytes" where
  "AddressBytes a = toBytes 20 (unat a)"

definition BytesToAddress :: "bytes \<Rightarrow> Address" where
  "BytesToAddress bs = of_nat (fromBytes bs)"

named_theorems go_eval \<open>evaluation of Go computations\<close>
named_theorems go_inv \<open>inversion of successful Go computations\<close>

lemma Quo_nonneg [simp]: "0 \<le> a \<Longrightarrow> 0 < b \<Longrightarrow> Quo a b = a div b"
  by (cases "a = 0") (auto simp: Quo_def)

lemma Mod_pos [simp]: "0 < b \<Longrightarrow> Mod a b = a mod b"
  by (simp add: Mod_def)

lemma length_toBytes [simp]: "length (toBytes n m) = n"
  by (induction n arbitrary: m) simp_all

lemma fromBytes_snoc [simp]: "fromBytes (bs @ [b]) = fromBytes bs * 256 + unat b"
  by (simp add: fromBytes_def)

lemma fromBytes_toBytes: "fromBytes (toBytes n m) = m mod 256 ^ n"
proof (induction n arbitrary: m)
  case 0
  then show ?case by (simp add: fromBytes_def)
next
  case (Suc n)
  have "unat (of_nat (m mod 256) :: 8 word) = m mod 256"
    by (simp add: unat_of_nat take_bit_eq_mod)
  then have "fromBytes (toBytes (Suc n) m) = (m div 256) mod 256 ^ n * 256 + m mod 256"
    by (simp add: Suc.IH)
  also have "\<dots> = m mod 256 ^ Suc n"
    by (simp add: mod_mult2_eq mult.commute)
  finally show ?case .
qed

lemma BytesToHash_HashBytes [simp]: "BytesToHash (HashBytes h) = h"
proof -
  have "unat h < 2 ^ LENGTH(256)" by (rule unsigned_less)
  then show ?thesis by (simp add: BytesToHash_def HashBytes_def fromBytes_toBytes)
qed

lemma BytesToAddress_AddressBytes [simp]: "BytesToAddress (AddressBytes a) = a"
proof -
  have "unat a < 2 ^ LENGTH(160)" by (rule unsigned_less)
  then show ?thesis by (simp add: BytesToAddress_def AddressBytes_def fromBytes_toBytes)
qed

lemma AddressBytes_inj [simp]: "AddressBytes a = AddressBytes b \<longleftrightarrow> a = b"
  by (metis BytesToAddress_AddressBytes)

lemma length_AddressBytes [simp]: "length (AddressBytes a) = 20"
  by (simp add: AddressBytes_def)

lemma AddressBytes_not_single [simp]: "AddressBytes a \<noteq> [x]" "[x] \<noteq> AddressBytes a"
  using length_AddressBytes [of a] by (auto dest: arg_cong [where f = length])

lemma HashBytes_nonempty [simp]: "HashBytes h \<noteq> []"
  by (metis HashBytes_def length_toBytes list.size(3) zero_neq_numeral)

lemma AddressBytes_nonempty [simp]: "AddressBytes a \<noteq> []"
  by (metis AddressBytes_def length_toBytes list.size(3) zero_neq_numeral)

section \<open>Go computations\<close>

datatype ('e, 'a) outcome = Ret 'a | Err 'e | Panic string

type_synonym ('s, 'e, 'a) go = "'s \<Rightarrow> ('e, 'a) outcome \<times> 's"

definition go_return :: "'a \<Rightarrow> ('s, 'e, 'a) go" where
  "go_return a = (\<lambda>s. (Ret a, s))"

definition go_err :: "'e \<Rightarrow> ('s, 'e, 'a) go" where
  "go_err e = (\<lambda>s. (Err e, s))"

definition go_panic :: "string \<Rightarrow> ('s, 'e, 'a) go" where
  "go_panic m = (\<lambda>s. (Panic m, s))"

definition go_bind :: "('s, 'e, 'a) go \<Rightarrow> ('a \<Rightarrow> ('s, 'e, 'b) go) \<Rightarrow> ('s, 'e, 'b) go" where
  "go_bind m f = (\<lambda>s. case m s of
      (Ret a, s') \<Rightarrow> f a s'
    | (Err e, s') \<Rightarrow> (Err e, s')
    | (Panic p, s') \<Rightarrow> (Panic p, s'))"

definition go_seq :: "('s, 'e, unit) go \<Rightarrow> ('s, 'e, 'b) go \<Rightarrow> ('s, 'e, 'b) go" where
  "go_seq m n = go_bind m (\<lambda>_. n)"

definition go_gets :: "('s \<Rightarrow> 'a) \<Rightarrow> ('s, 'e, 'a) go" where
  "go_gets f = (\<lambda>s. (Ret (f s), s))"

definition go_modify :: "('s \<Rightarrow> 's) \<Rightarrow> ('s, 'e, unit) go" where
  "go_modify f = (\<lambda>s. (Ret (), f s))"

definition go_when :: "bool \<Rightarrow> ('s, 'e, unit) go \<Rightarrow> ('s, 'e, unit) go" where
  "go_when b m = (if b then m else go_return ())"

text \<open>\<open>if err != nil { return g(ctx, err) }\<close>: the error is rewritten in the state it was raised in.\<close>

definition go_mapErr :: "('s \<Rightarrow> 'e \<Rightarrow> 'e) \<Rightarrow> ('s, 'e, 'a) go \<Rightarrow> ('s, 'e, 'a) go" where
  "go_mapErr h m = (\<lambda>s. case m s of
      (Err e, s') \<Rightarrow> (Err (h s' e), s')
    | (Ret a, s') \<Rightarrow> (Ret a, s')
    | (Panic p, s') \<Rightarrow> (Panic p, s'))"

text \<open>\<open>if err != nil { panic(..) }\<close>.\<close>

definition go_must :: "string \<Rightarrow> ('s, 'e, 'a) go \<Rightarrow> ('s, 'e, 'a) go" where
  "go_must p m = (\<lambda>s. case m s of
      (Err e, s') \<Rightarrow> (Panic p, s')
    | (Ret a, s') \<Rightarrow> (Ret a, s')
    | (Panic q, s') \<Rightarrow> (Panic q, s'))"

text \<open>A computation whose error is wrapped into another error type.\<close>

definition go_convErr :: "('e \<Rightarrow> 'f) \<Rightarrow> ('s, 'e, 'a) go \<Rightarrow> ('s, 'f, 'a) go" where
  "go_convErr h m = (\<lambda>s. case m s of
      (Err e, s') \<Rightarrow> (Err (h e), s')
    | (Ret a, s') \<Rightarrow> (Ret a, s')
    | (Panic p, s') \<Rightarrow> (Panic p, s'))"

text \<open>A computation on a part of the state.\<close>

definition go_zoom :: "('s \<Rightarrow> 't) \<Rightarrow> ('t \<Rightarrow> 's \<Rightarrow> 's) \<Rightarrow> ('t, 'e, 'a) go \<Rightarrow> ('s, 'e, 'a) go" where
  "go_zoom get put m = (\<lambda>s. case m (get s) of (r, t) \<Rightarrow> (r, put t s))"

text \<open>\<open>for _, x := range xs { .. }\<close> with early return on error or panic.\<close>

primrec go_for :: "'x list \<Rightarrow> ('x \<Rightarrow> ('s, 'e, unit) go) \<Rightarrow> ('s, 'e, unit) go" where
  "go_for [] f = go_return ()"
| "go_for (x # xs) f = go_seq (f x) (go_for xs f)"

lemmas go_defs = go_return_def go_err_def go_panic_def go_bind_def go_seq_def go_gets_def
  go_modify_def go_when_def go_mapErr_def go_must_def go_convErr_def go_zoom_def

subsection \<open>Evaluation and inversion\<close>

lemma go_return_app [simp, go_eval]: "go_return a s = (Ret a, s)"
  by (simp add: go_return_def)

lemma go_err_app [simp, go_eval]: "go_err e s = (Err e, s)"
  by (simp add: go_err_def)

lemma go_panic_app [simp, go_eval]: "go_panic p s = (Panic p, s)"
  by (simp add: go_panic_def)

lemma go_gets_app [simp, go_eval]: "go_gets f s = (Ret (f s), s)"
  by (simp add: go_gets_def)

lemma go_modify_app [simp, go_eval]: "go_modify f s = (Ret (), f s)"
  by (simp add: go_modify_def)

lemma go_when_app [simp, go_eval]: "go_when b m s = (if b then m s else (Ret (), s))"
  by (simp add: go_when_def)

lemma go_bind_Ret_eq [simp, go_eval]: "m s = (Ret a, s') \<Longrightarrow> go_bind m f s = f a s'"
  by (simp add: go_bind_def)

lemma go_bind_Err_eq [simp, go_eval]: "m s = (Err e, s') \<Longrightarrow> go_bind m f s = (Err e, s')"
  by (simp add: go_bind_def)

lemma go_bind_Panic_eq [simp, go_eval]: "m s = (Panic p, s') \<Longrightarrow> go_bind m f s = (Panic p, s')"
  by (simp add: go_bind_def)

lemma go_seq_app [simp, go_eval]: "go_seq m n s = go_bind m (\<lambda>_. n) s"
  by (simp add: go_seq_def)

lemma go_bind_RetD [go_inv]:
  "go_bind m f s = (Ret b, s'') \<longleftrightarrow> (\<exists>a s'. m s = (Ret a, s') \<and> f a s' = (Ret b, s''))"
  by (auto simp: go_bind_def split: prod.splits outcome.splits)

lemma go_bind_ErrD [go_inv]:
  "go_bind m f s = (Err e, s'') \<longleftrightarrow>
     m s = (Err e, s'') \<or> (\<exists>a s'. m s = (Ret a, s') \<and> f a s' = (Err e, s''))"
  by (auto simp: go_bind_def split: prod.splits outcome.splits)

lemma go_bind_PanicD [go_inv]:
  "go_bind m f s = (Panic p, s'') \<longleftrightarrow>
     m s = (Panic p, s'') \<or> (\<exists>a s'. m s = (Ret a, s') \<and> f a s' = (Panic p, s''))"
  by (auto simp: go_bind_def split: prod.splits outcome.splits)

lemma go_mapErr_Ret [simp, go_inv]: "go_mapErr h m s = (Ret a, s') \<longleftrightarrow> m s = (Ret a, s')"
  by (auto simp: go_mapErr_def split: prod.splits outcome.splits)

lemma go_mapErr_Panic [simp, go_inv]: "go_mapErr h m s = (Panic p, s') \<longleftrightarrow> m s = (Panic p, s')"
  by (auto simp: go_mapErr_def split: prod.splits outcome.splits)

lemma go_mapErr_Err [go_inv]:
  "go_mapErr h m s = (Err e', s') \<longleftrightarrow> (\<exists>e. m s = (Err e, s') \<and> e' = h s' e)"
  by (auto simp: go_mapErr_def split: prod.splits outcome.splits)

lemma go_mapErr_eq [go_eval]:
  "m s = (Ret a, s') \<Longrightarrow> go_mapErr h m s = (Ret a, s')"
  "m s = (Err e, s') \<Longrightarrow> go_mapErr h m s = (Err (h s' e), s')"
  "m s = (Panic p, s') \<Longrightarrow> go_mapErr h m s = (Panic p, s')"
  by (simp_all add: go_mapErr_def)

lemma go_must_Ret [simp, go_inv]: "go_must p m s = (Ret a, s') \<longleftrightarrow> m s = (Ret a, s')"
  by (auto simp: go_must_def split: prod.splits outcome.splits)

lemma go_must_Err [simp, go_inv]: "go_must p m s \<noteq> (Err e, s')"
  by (auto simp: go_must_def split: prod.splits outcome.splits)

lemma go_must_Panic [go_inv]:
  "go_must p m s = (Panic q, s') \<longleftrightarrow> m s = (Panic q, s') \<or> (q = p \<and> (\<exists>e. m s = (Err e, s')))"
  by (auto simp: go_must_def split: prod.splits outcome.splits)

lemma go_for_cong:
  assumes "\<And>x. x \<in> set xs \<Longrightarrow> f x = g x"
  shows "go_for xs f s = go_for xs g s"
  using assms
proof (induction xs arbitrary: s)
  case (Cons x xs)
  then have "go_for xs f = go_for xs g" by auto
  then show ?case using Cons.prems by simp
qed simp

lemma go_convErr_Ret [simp, go_inv]: "go_convErr h m s = (Ret a, s') \<longleftrightarrow> m s = (Ret a, s')"
  by (auto simp: go_convErr_def split: prod.splits outcome.splits)

lemma go_zoom_app [go_eval]:
  "m (get s) = (r, t) \<Longrightarrow> go_zoom get put m s = (r, put t s)"
  by (simp add: go_zoom_def)

lemma go_zoom_iff [go_inv]:
  "go_zoom get put m s = (r, s') \<longleftrightarrow> (\<exists>t. m (get s) = (r, t) \<and> s' = put t s)"
  by (auto simp: go_zoom_def split: prod.splits)

subsection \<open>Predicates that a computation keeps\<close>

text \<open>Whatever the outcome, the state satisfies the predicate again.\<close>

definition go_keeps :: "('s \<Rightarrow> bool) \<Rightarrow> ('s, 'e, 'a) go \<Rightarrow> bool" where
  "go_keeps P m \<longleftrightarrow> (\<forall>s. P s \<longrightarrow> P (snd (m s)))"

lemma go_keepsD: "go_keeps P m \<Longrightarrow> P s \<Longrightarrow> m s = (r, s') \<Longrightarrow> P s'"
  by (metis go_keeps_def snd_conv)

lemma go_keeps_base [intro!, simp]:
  "go_keeps P (go_return a)" "go_keeps P (go_err e)" "go_keeps P (go_panic p)" "go_keeps P (go_gets f)"
  by (simp_all add: go_keeps_def)

lemma go_keeps_modify [intro]: "(\<And>s. P s \<Longrightarrow> P (f s)) \<Longrightarrow> go_keeps P (go_modify f)"
  by (simp add: go_keeps_def)

lemma go_keeps_bind [intro!]: "go_keeps P m \<Longrightarrow> (\<And>a. go_keeps P (f a)) \<Longrightarrow> go_keeps P (go_bind m f)"
  unfolding go_keeps_def go_bind_def by (fastforce split: prod.split outcome.split)

lemma go_keeps_seq [intro!]: "go_keeps P m \<Longrightarrow> go_keeps P n \<Longrightarrow> go_keeps P (go_seq m n)"
  by (auto simp: go_seq_def)

lemma go_keeps_wrap [intro!]:
  "go_keeps P m \<Longrightarrow> go_keeps P (go_mapErr h m)" "go_keeps P m \<Longrightarrow> go_keeps P (go_must p m)"
  "go_keeps P m' \<Longrightarrow> go_keeps P (go_when b m')"
  unfolding go_keeps_def go_mapErr_def go_must_def go_when_def by (fastforce split: prod.split outcome.split)+

lemma go_keeps_convErr [intro!]: "go_keeps P m \<Longrightarrow> go_keeps P (go_convErr h m)"
  unfolding go_keeps_def go_convErr_def by (fastforce split: prod.split outcome.split)

lemma go_keeps_zoom:
  assumes "go_keeps Q m" "\<And>s. P s \<Longrightarrow> Q (get s)" "\<And>s t. P s \<Longrightarrow> Q t \<Longrightarrow> P (put t s)"
  shows "go_keeps P (go_zoom get put m)"
  using assms unfolding go_keeps_def go_zoom_def by (fastforce split: prod.split)

lemma go_keeps_for [intro!]: "(\<And>x. go_keeps P (f x)) \<Longrightarrow> go_keeps P (go_for xs f)"
  by (induction xs) auto

lemma go_keeps_if [intro!]: "(b \<Longrightarrow> go_keeps P m) \<Longrightarrow> (\<not> b \<Longrightarrow> go_keeps P n) \<Longrightarrow> go_keeps P (if b then m else n)"
  by simp

lemma go_keepsI: "(\<And>c. f (snd (m c)) = f c) \<Longrightarrow> go_keeps (\<lambda>c. f c = v) m"
  by (simp add: go_keeps_def)

lemma go_keeps_option [intro!]:
  "go_keeps P m \<Longrightarrow> (\<And>y. go_keeps P (f y)) \<Longrightarrow> go_keeps P (case x of None \<Rightarrow> m | Some y \<Rightarrow> f y)"
  by (cases x) simp_all

lemma go_keeps_eq: "(\<And>v. go_keeps (\<lambda>c. f c = v) m) \<Longrightarrow> f (snd (m c)) = f c"
  by (simp add: go_keeps_def)

lemma snd_bind_return: "snd (go_bind m (\<lambda>a. go_return (f a)) s) = snd (m s)"
  by (simp add: go_bind_def split: prod.split outcome.split)

section \<open>Stores of amounts\<close>

text \<open>
  A key-value store that holds amounts reads an absent key as zero, and a written zero deletes
  the key.
\<close>

definition fm_get0 :: "('k, int) fmap \<Rightarrow> 'k \<Rightarrow> int" where
  "fm_get0 m k = (case fmlookup m k of None \<Rightarrow> 0 | Some v \<Rightarrow> v)"

definition fm_put0 :: "'k \<Rightarrow> int \<Rightarrow> ('k, int) fmap \<Rightarrow> ('k, int) fmap" where
  "fm_put0 k v m = (if v = 0 then fmdrop k m else fmupd k v m)"

definition fm_total :: "('k, int) fmap \<Rightarrow> int" where
  "fm_total m = (\<Sum>k\<in>fset (fmdom m). fm_get0 m k)"

lemma fm_get0_put0 [simp]: "fm_get0 (fm_put0 k v m) k' = (if k' = k then v else fm_get0 m k')"
  by (auto simp: fm_get0_def fm_put0_def split: option.splits)

lemma fm_get0_empty [simp]: "fm_get0 fmempty k = 0"
  by (simp add: fm_get0_def)

lemma fm_get0_notin [simp]: "k |\<notin>| fmdom m \<Longrightarrow> fm_get0 m k = 0"
  by (auto simp: fm_get0_def fmlookup_dom_iff split: option.splits)

lemma fm_total_superset:
  assumes "finite A" and "fset (fmdom m) \<subseteq> A"
  shows "fm_total m = (\<Sum>k\<in>A. fm_get0 m k)"
  unfolding fm_total_def
  by (rule sum.mono_neutral_left) (use assms in \<open>auto\<close>)

lemma fm_total_empty [simp]: "fm_total fmempty = 0"
  by (simp add: fm_total_def)

lemma fm_total_put0 [simp]: "fm_total (fm_put0 k v m) = fm_total m - fm_get0 m k + v"
proof -
  define A where "A = insert k (fset (fmdom m))"
  have fin: "finite A" by (simp add: A_def)
  have "fm_total (fm_put0 k v m) = (\<Sum>j\<in>A. fm_get0 (fm_put0 k v m) j)"
    by (rule fm_total_superset [OF fin]) (auto simp: A_def fm_put0_def)
  also have "\<dots> = v + (\<Sum>j\<in>A - {k}. fm_get0 m j)"
    by (subst sum.remove [OF fin, of k]) (auto simp: A_def intro: sum.cong)
  also have "(\<Sum>j\<in>A - {k}. fm_get0 m j) = (\<Sum>j\<in>A. fm_get0 m j) - fm_get0 m k"
    by (subst sum.remove [OF fin, of k]) (simp_all add: A_def)
  also have "(\<Sum>j\<in>A. fm_get0 m j) = fm_total m"
    by (rule fm_total_superset [OF fin, symmetric]) (auto simp: A_def)
  finally show ?thesis by simp
qed

lemma fm_total_ge2:
  assumes nonneg: "\<And>k. 0 \<le> fm_get0 m k" and "a \<noteq> b"
  shows "fm_get0 m a + fm_get0 m b \<le> fm_total m"
proof -
  define A where "A = insert a (insert b (fset (fmdom m)))"
  have fin: "finite A" by (simp add: A_def)
  have "fm_get0 m a + fm_get0 m b = (\<Sum>k\<in>{a, b}. fm_get0 m k)"
    using \<open>a \<noteq> b\<close> by simp
  also have "\<dots> \<le> (\<Sum>k\<in>A. fm_get0 m k)"
    by (rule sum_mono2 [OF fin]) (use nonneg in \<open>auto simp: A_def\<close>)
  also have "\<dots> = fm_total m"
    by (rule fm_total_superset [OF fin, symmetric]) (auto simp: A_def)
  finally show ?thesis .
qed

lemma fm_total_nonneg: "(\<And>k. 0 \<le> fm_get0 m k) \<Longrightarrow> 0 \<le> fm_total m"
  unfolding fm_total_def by (rule sum_nonneg)

lemma fm_total_ge1: "(\<And>k. 0 \<le> fm_get0 m k) \<Longrightarrow> fm_get0 m a \<le> fm_total m"
proof -
  assume nonneg: "\<And>k. 0 \<le> fm_get0 m k"
  show ?thesis
  proof (cases "a |\<in>| fmdom m")
    case True
    then show ?thesis
      unfolding fm_total_def
      by (intro member_le_sum) (use nonneg in \<open>auto\<close>)
  next
    case False
    then show ?thesis using fm_total_nonneg [of m] nonneg by simp
  qed
qed

text \<open>Iterating a store in key order adds up to the same total.\<close>

lemma fold_sorted_total:
  fixes m :: "('k::linorder, int) fmap"
  shows "fold (\<lambda>k acc. acc + the (fmlookup m k)) (sorted_list_of_fset (fmdom m)) 0 = fm_total m"
proof -
  have gen: "fold (\<lambda>k acc. acc + the (fmlookup m k)) xs c = c + (\<Sum>k\<leftarrow>xs. the (fmlookup m k))"
    for xs c by (induction xs arbitrary: c) (simp_all add: add.assoc)
  have "(\<Sum>k\<leftarrow>sorted_list_of_fset (fmdom m). the (fmlookup m k))
      = (\<Sum>k\<in>fset (fmdom m). the (fmlookup m k))"
    by (simp add: sum_list_distinct_conv_sum_set sorted_list_of_fset.rep_eq)
  also have "\<dots> = fm_total m"
    unfolding fm_total_def
    by (rule sum.cong) (auto simp: fm_get0_def fmlookup_dom_iff)
  finally show ?thesis by (simp add: gen)
qed

end
