(* ===== verification/EvmDenom.thy ===== *)
theory EvmDenom
  imports EvmPrelude
begin

text \<open>
  The EVM coin: \<open>x/vm/types/denom.go\<close>, \<open>denom_config.go\<close> and the denom conversions of
  \<open>scaling.go\<close>.  The coin has an integer denom, managed by x/bank with \<open>Decimals\<close> decimals, and
  an extended denom that always has 18 decimals; \<open>ConversionFactor\<close> relates the two.
  The global \<open>evmCoinInfo\<close> pointer of the code is an explicit \<open>EvmCoinInfo option\<close> state for the
  setters and an argument everywhere else.  The Cosmos SDK's \<open>ValidateDenom\<close> and
  \<open>Coins.Sort\<close> are parameters.
\<close>

section \<open>Coins\<close>

record coin =
  Denom :: denom
  Amount :: int

type_synonym coins = "coin list"

abbreviation NewCoin :: "denom \<Rightarrow> int \<Rightarrow> coin" where
  "NewCoin d a \<equiv> \<lparr>Denom = d, Amount = a\<rparr>"

section \<open>Decimals\<close>

type_synonym Decimals = u8

definition EighteenDecimals :: Decimals where
  "EighteenDecimals = 18"

text \<open>The table \<open>ConversionFactor\<close>; a missing key reads as Go's zero value, a nil \<open>math.Int\<close>.\<close>

definition ConversionFactorTable :: "(Decimals \<times> int) list" where
  "ConversionFactorTable =
    [(1, 100000000000000000), (2, 10000000000000000), (3, 1000000000000000),
     (4, 100000000000000), (5, 10000000000000), (6, 1000000000000), (7, 100000000000),
     (8, 10000000000), (9, 1000000000), (10, 100000000), (11, 10000000), (12, 1000000),
     (13, 100000), (14, 10000), (15, 1000), (16, 100), (17, 10), (18, 1)]"

definition Decimals_Validate :: "Decimals \<Rightarrow> bool" where
  "Decimals_Validate d \<longleftrightarrow> 0 < d \<and> d \<le> EighteenDecimals"

definition ConversionFactor :: "Decimals \<Rightarrow> int option" where
  "ConversionFactor d = map_of ConversionFactorTable d"

section \<open>The coin configuration\<close>

record EvmCoinInfo =
  eci_Denom :: denom
  eci_ExtendedDenom :: denom
  eci_DisplayDenom :: denom
  eci_Decimals :: Decimals

datatype denom_error = UnsupportedDecimals | InvalidDenom | AlreadySet | DenomMismatch
  | UnexpectedDenom

type_synonym 'a denom_go = "(EvmCoinInfo option, denom_error, 'a) go"

definition setField :: "(EvmCoinInfo \<Rightarrow> EvmCoinInfo) \<Rightarrow> unit denom_go" where
  "setField f = (\<lambda>s. case s of None \<Rightarrow> (Panic ''nil evmCoinInfo'', s) | Some i \<Rightarrow> (Ret (), Some (f i)))"

definition setEVMCoinDecimals :: "Decimals \<Rightarrow> unit denom_go" where
  "setEVMCoinDecimals d =
    (if \<not> Decimals_Validate d then go_err UnsupportedDecimals
     else setField (\<lambda>i. i\<lparr>eci_Decimals := d\<rparr>))"

definition setEVMCoinDenom :: "(denom \<Rightarrow> bool) \<Rightarrow> denom \<Rightarrow> unit denom_go" where
  "setEVMCoinDenom ValidateDenom d =
    (if \<not> ValidateDenom d then go_err InvalidDenom else setField (\<lambda>i. i\<lparr>eci_Denom := d\<rparr>))"

definition setEVMCoinExtendedDenom :: "(denom \<Rightarrow> bool) \<Rightarrow> denom \<Rightarrow> unit denom_go" where
  "setEVMCoinExtendedDenom ValidateDenom d =
    (if \<not> ValidateDenom d then go_err InvalidDenom else setField (\<lambda>i. i\<lparr>eci_ExtendedDenom := d\<rparr>))"

definition setDisplayDenom :: "(denom \<Rightarrow> bool) \<Rightarrow> denom \<Rightarrow> unit denom_go" where
  "setDisplayDenom ValidateDenom d =
    (if \<not> ValidateDenom d then go_err InvalidDenom else setField (\<lambda>i. i\<lparr>eci_DisplayDenom := d\<rparr>))"

definition zeroCoinInfo :: EvmCoinInfo where
  "zeroCoinInfo = \<lparr>eci_Denom = [], eci_ExtendedDenom = [], eci_DisplayDenom = [], eci_Decimals = 0\<rparr>"

definition setEVMCoinInfo :: "(denom \<Rightarrow> bool) \<Rightarrow> EvmCoinInfo \<Rightarrow> unit denom_go" where
  "setEVMCoinInfo ValidateDenom eci =
    go_bind (go_gets (\<lambda>s. s \<noteq> None)) (\<lambda>already.
     if already then go_err AlreadySet
     else if eci_Decimals eci = EighteenDecimals \<and> eci_Denom eci \<noteq> eci_ExtendedDenom eci
     then go_err DenomMismatch
     else
       go_seq (go_modify (\<lambda>_. Some zeroCoinInfo))
       (go_seq (setEVMCoinDenom ValidateDenom (eci_Denom eci))
       (go_seq (setEVMCoinExtendedDenom ValidateDenom (eci_ExtendedDenom eci))
       (go_seq (setDisplayDenom ValidateDenom (eci_DisplayDenom eci))
               (setEVMCoinDecimals (eci_Decimals eci))))))"

definition coinFactor :: "EvmCoinInfo \<Rightarrow> int" where
  "coinFactor i = (case ConversionFactor (eci_Decimals i) of Some f \<Rightarrow> f | None \<Rightarrow> 0)"

section \<open>Conversions\<close>

definition ConvertAmountTo18DecimalsBigInt :: "EvmCoinInfo \<Rightarrow> int \<Rightarrow> int" where
  "ConvertAmountTo18DecimalsBigInt i amt = amt * coinFactor i"

definition ConvertAmountTo18Decimals256Int :: "EvmCoinInfo \<Rightarrow> u256 \<Rightarrow> u256" where
  "ConvertAmountTo18Decimals256Int i amt = amt * word_of_int (coinFactor i)"

definition ConvertEvmCoinDenomToExtendedDenom :: "EvmCoinInfo \<Rightarrow> coin \<Rightarrow> denom_error + coin" where
  "ConvertEvmCoinDenomToExtendedDenom i c =
    (if Denom c \<noteq> eci_Denom i then Inl UnexpectedDenom
     else Inr (NewCoin (eci_ExtendedDenom i) (Amount c)))"

definition ConvertCoinsDenomToExtendedDenom ::
    "(coins \<Rightarrow> coins) \<Rightarrow> EvmCoinInfo \<Rightarrow> coins \<Rightarrow> coins" where
  "ConvertCoinsDenomToExtendedDenom Sort i cs =
    Sort (map (\<lambda>c. if Denom c = eci_Denom i
                   then (case ConvertEvmCoinDenomToExtendedDenom i c of Inr c' \<Rightarrow> c' | Inl _ \<Rightarrow> c)
                   else c) cs)"

section \<open>Properties\<close>

lemma Decimals_Validate_cases:
  assumes "Decimals_Validate d"
  shows "d \<in> {1,2,3,4,5,6,7,8,9,10,11,12,13,14,15,16,17,18}"
proof -
  have "0 < unat d" "unat d \<le> 18"
    using assms by (auto simp: Decimals_Validate_def EighteenDecimals_def word_less_nat_alt word_le_nat_alt)
  then have "unat d \<in> {1..18}" by simp
  moreover have "{1..18::nat} = {1,2,3,4,5,6,7,8,9,10,11,12,13,14,15,16,17,18}" by code_simp
  ultimately have "unat d \<in> {1,2,3,4,5,6,7,8,9,10,11,12,13,14,15,16,17,18}" by (simp only:)
  then have "of_nat (unat d) \<in> (of_nat ` {1,2,3,4,5,6,7,8,9,10,11,12,13,14,15,16,17,18} :: u8 set)"
    by (rule imageI)
  then show ?thesis by (simp only: of_nat_unat ucast_id) simp
qed

lemma ConversionFactor_valid:
  assumes "Decimals_Validate d"
  shows "ConversionFactor d = Some (10 ^ (18 - unat d))"
  using Decimals_Validate_cases [OF assms]
  by (auto simp: ConversionFactor_def ConversionFactorTable_def)

lemma coinFactor_valid:
  "Decimals_Validate (eci_Decimals i) \<Longrightarrow> coinFactor i = 10 ^ (18 - unat (eci_Decimals i))"
  by (simp add: coinFactor_def ConversionFactor_valid)

lemma coinFactor_pos: "Decimals_Validate (eci_Decimals i) \<Longrightarrow> 0 < coinFactor i"
  by (simp add: coinFactor_valid)

end
