(* ===== verification/PreciseBankBase.thy ===== *)
theory PreciseBankBase
  imports EvmDenom
begin

text \<open>
  The state of \<open>x/precisebank\<close> and the accessors of its store: \<open>keeper/keeper.go\<close>,
  \<open>keeper/fractional_balance.go\<close>, \<open>keeper/remainder_amount.go\<close>, \<open>keeper/view.go\<close>,
  \<open>types/fractional_balance.go\<close>, \<open>types/extended_balance.go\<close> and \<open>types/events.go\<close>.

  The module extends the balances of x/bank: the extended balance of an account is its integer
  balance in x/bank times the conversion factor plus a fractional balance below the conversion
  factor, and the fractional balances are backed by the integer balance of the module account
  (the reserve).  x/bank, x/auth and the methods of \<open>sdk.Coins\<close> are Cosmos SDK code and enter as
  the fields of the records \<open>bank_keeper\<close>, \<open>account_keeper\<close> and \<open>coins_api\<close>; what the module relies
  on is stated as \<open>coins_contract\<close> and \<open>bank_contract\<close>.
\<close>

section \<open>The interfaces to the Cosmos SDK\<close>

datatype sdk_error = ErrInvalidCoins | ErrInsufficientFunds coins | ErrUnauthorized
  | ErrUnknownAddress | ErrInvalidAddress | ErrSendDisabled denom | ErrOther string

record coins_api =
  ValidDenom :: "denom \<Rightarrow> bool"
  IsValid :: "coins \<Rightarrow> bool"
  AmountOf :: "coins \<Rightarrow> denom \<Rightarrow> int"
  SubCoin :: "coins \<Rightarrow> coin \<Rightarrow> coins"
  IsAllPositive :: "coins \<Rightarrow> bool"
  EmptyCoins :: "coins \<Rightarrow> bool"
  NewCoins :: "coin \<Rightarrow> coins"

record 'b bank_keeper =
  bk_IsSendEnabledCoin :: "'b \<Rightarrow> coin \<Rightarrow> bool"
  bk_GetBalance :: "'b \<Rightarrow> AccAddress \<Rightarrow> denom \<Rightarrow> int"
  bk_GetSupply :: "'b \<Rightarrow> denom \<Rightarrow> int"
  bk_SpendableCoin :: "'b \<Rightarrow> AccAddress \<Rightarrow> denom \<Rightarrow> int"
  bk_BlockedAddr :: "AccAddress \<Rightarrow> bool"
  bk_SendCoins :: "AccAddress \<Rightarrow> AccAddress \<Rightarrow> coins \<Rightarrow> ('b, sdk_error, unit) go"
  bk_SendCoinsFromAccountToModule :: "AccAddress \<Rightarrow> string \<Rightarrow> coins \<Rightarrow> ('b, sdk_error, unit) go"
  bk_SendCoinsFromModuleToModule :: "string \<Rightarrow> string \<Rightarrow> coins \<Rightarrow> ('b, sdk_error, unit) go"
  bk_MintCoins :: "string \<Rightarrow> coins \<Rightarrow> ('b, sdk_error, unit) go"
  bk_BurnCoins :: "string \<Rightarrow> coins \<Rightarrow> ('b, sdk_error, unit) go"

record module_account =
  ma_Address :: AccAddress
  ma_Permissions :: "string list"

record account_keeper =
  ak_GetModuleAddress :: "string \<Rightarrow> AccAddress"
  ak_GetModuleAccount :: "string \<Rightarrow> module_account option"
  ak_StringToBytes :: "string \<Rightarrow> AccAddress option"

definition HasPermission :: "module_account \<Rightarrow> string \<Rightarrow> bool" where
  "HasPermission acc p \<longleftrightarrow> p \<in> set (ma_Permissions acc)"

section \<open>Keeper and state\<close>

definition ModuleName :: string where
  "ModuleName = ''precisebank''"

record 'b pb_keeper =
  bk :: "'b bank_keeper"
  ak :: account_keeper
  coinsApi :: coins_api
  coinInfo :: EvmCoinInfo

datatype pb_event = FractionalBalanceChange AccAddress int

record 'b pb_ctx =
  bankState :: 'b
  fracStore :: "(AccAddress, int) fmap"
  remStore :: "int option"
  pbEvents :: "pb_event list"

type_synonym ('b, 'a) pb_go = "('b pb_ctx, sdk_error, 'a) go"

definition onBank :: "('b, sdk_error, 'a) go \<Rightarrow> ('b, 'a) pb_go" where
  "onBank m = go_zoom bankState (\<lambda>b s. s\<lparr>bankState := b\<rparr>) m"

section \<open>Denoms and amounts\<close>

definition ConversionFactorPB :: "'b pb_keeper \<Rightarrow> int" where
  "ConversionFactorPB K = coinFactor (coinInfo K)"

definition IntegerCoinDenom :: "'b pb_keeper \<Rightarrow> denom" where
  "IntegerCoinDenom K = eci_Denom (coinInfo K)"

definition ExtendedCoinDenom :: "'b pb_keeper \<Rightarrow> denom" where
  "ExtendedCoinDenom K = eci_ExtendedDenom (coinInfo K)"

definition IsExtendedDenomSameAsIntegerDenom :: "'b pb_keeper \<Rightarrow> bool" where
  "IsExtendedDenomSameAsIntegerDenom K \<longleftrightarrow> IntegerCoinDenom K = ExtendedCoinDenom K"

datatype amount_error = NilAmount | NonPositiveAmount int | ExceedsMax int int

text \<open>An \<open>sdkmath.Int\<close> may be nil, here \<open>None\<close>.\<close>

definition ValidateFractionalAmount :: "'b pb_keeper \<Rightarrow> int option \<Rightarrow> amount_error option" where
  "ValidateFractionalAmount K amt =
    (case amt of None \<Rightarrow> Some NilAmount
     | Some a \<Rightarrow>
        if \<not> 0 < a then Some (NonPositiveAmount a)
        else if a \<ge> ConversionFactorPB K then Some (ExceedsMax a (ConversionFactorPB K - 1))
        else None)"

definition SumExtendedCoin :: "'b pb_keeper \<Rightarrow> coins \<Rightarrow> coin" where
  "SumExtendedCoin K amt =
    (let integerAmount = AmountOf (coinsApi K) amt (IntegerCoinDenom K) * ConversionFactorPB K;
         extendedAmount = AmountOf (coinsApi K) amt (ExtendedCoinDenom K)
     in NewCoin (ExtendedCoinDenom K) (integerAmount + extendedAmount))"

section \<open>Fractional balances and the remainder\<close>

definition GetFractionalBalance :: "AccAddress \<Rightarrow> 'b pb_ctx \<Rightarrow> int" where
  "GetFractionalBalance address s =
    (case fmlookup (fracStore s) address of None \<Rightarrow> 0 | Some bal \<Rightarrow> bal)"

definition DeleteFractionalBalance :: "AccAddress \<Rightarrow> ('b, unit) pb_go" where
  "DeleteFractionalBalance address = go_modify (\<lambda>s. s\<lparr>fracStore := fmdrop address (fracStore s)\<rparr>)"

definition SetFractionalBalance :: "'b pb_keeper \<Rightarrow> AccAddress \<Rightarrow> int \<Rightarrow> ('b, unit) pb_go" where
  "SetFractionalBalance K address amount =
    (if address = [] then go_panic ''address cannot be empty''
     else if amount = 0 then DeleteFractionalBalance address
     else case ValidateFractionalAmount K (Some amount) of
        Some e \<Rightarrow> go_panic ''amount is invalid''
      | None \<Rightarrow> go_modify (\<lambda>s. s\<lparr>fracStore := fmupd address amount (fracStore s)\<rparr>))"

text \<open>The store iterator visits the keys in ascending byte order; the callback may stop it.\<close>

fun iterateEntries ::
    "(AccAddress \<Rightarrow> int \<Rightarrow> 'acc \<Rightarrow> bool \<times> 'acc) \<Rightarrow> (AccAddress \<times> int) list \<Rightarrow> 'acc \<Rightarrow> 'acc" where
  "iterateEntries cb [] acc = acc"
| "iterateEntries cb ((address, amount) # rest) acc =
     (case cb address amount acc of (stop, acc') \<Rightarrow> if stop then acc' else iterateEntries cb rest acc')"

definition storeEntries :: "(AccAddress, int) fmap \<Rightarrow> (AccAddress \<times> int) list" where
  "storeEntries m = map (\<lambda>k. (k, the (fmlookup m k))) (sorted_list_of_fset (fmdom m))"

definition IterateFractionalBalances ::
    "(AccAddress \<Rightarrow> int \<Rightarrow> 'acc \<Rightarrow> bool \<times> 'acc) \<Rightarrow> 'acc \<Rightarrow> 'b pb_ctx \<Rightarrow> 'acc" where
  "IterateFractionalBalances cb acc s = iterateEntries cb (storeEntries (fracStore s)) acc"

definition GetTotalSumFractionalBalances :: "'b pb_ctx \<Rightarrow> int" where
  "GetTotalSumFractionalBalances s =
    IterateFractionalBalances (\<lambda>_ amount sum. (False, sum + amount)) 0 s"

definition GetRemainderAmount :: "'b pb_ctx \<Rightarrow> int" where
  "GetRemainderAmount s = (case remStore s of None \<Rightarrow> 0 | Some bal \<Rightarrow> bal)"

definition DeleteRemainderAmount :: "('b, unit) pb_go" where
  "DeleteRemainderAmount = go_modify (\<lambda>s. s\<lparr>remStore := None\<rparr>)"

definition SetRemainderAmount :: "'b pb_keeper \<Rightarrow> int \<Rightarrow> ('b, unit) pb_go" where
  "SetRemainderAmount K amount =
    (if amount = 0 then DeleteRemainderAmount
     else case ValidateFractionalAmount K (Some amount) of
        Some e \<Rightarrow> go_panic ''remainder amount is invalid''
      | None \<Rightarrow> go_modify (\<lambda>s. s\<lparr>remStore := Some amount\<rparr>))"

definition EmitEventFractionalBalanceChange :: "AccAddress \<Rightarrow> int \<Rightarrow> int \<Rightarrow> ('b, unit) pb_go" where
  "EmitEventFractionalBalanceChange address beforeAmount afterAmount =
    (let delta = afterAmount - beforeAmount
     in go_modify (\<lambda>s. s\<lparr>pbEvents := pbEvents s @ [FractionalBalanceChange address delta]\<rparr>))"

section \<open>Balances\<close>

definition reserveAddr :: "'b pb_keeper \<Rightarrow> AccAddress" where
  "reserveAddr K = ak_GetModuleAddress (ak K) ModuleName"

definition GetBalance :: "'b pb_keeper \<Rightarrow> AccAddress \<Rightarrow> denom \<Rightarrow> 'b pb_ctx \<Rightarrow> coin" where
  "GetBalance K addr denom s =
    (if denom = ExtendedCoinDenom K \<and> addr = reserveAddr K then NewCoin denom 0
     else if denom \<noteq> ExtendedCoinDenom K
     then NewCoin denom (bk_GetBalance (bk K) (bankState s) addr denom)
     else
       let integerCoins = bk_GetBalance (bk K) (bankState s) addr (IntegerCoinDenom K);
           fractionalAmount = GetFractionalBalance addr s;
           fullAmount = integerCoins * ConversionFactorPB K + fractionalAmount
       in NewCoin (ExtendedCoinDenom K) fullAmount)"

definition SpendableCoin :: "'b pb_keeper \<Rightarrow> AccAddress \<Rightarrow> denom \<Rightarrow> 'b pb_ctx \<Rightarrow> coin" where
  "SpendableCoin K addr denom s =
    (if denom = ExtendedCoinDenom K \<and> addr = reserveAddr K then NewCoin denom 0
     else if denom \<noteq> ExtendedCoinDenom K
     then NewCoin denom (bk_SpendableCoin (bk K) (bankState s) addr denom)
     else
       let integerCoin = bk_SpendableCoin (bk K) (bankState s) addr (IntegerCoinDenom K);
           fractionalAmount = GetFractionalBalance addr s;
           fullAmount = integerCoin * ConversionFactorPB K + fractionalAmount
       in NewCoin (ExtendedCoinDenom K) fullAmount)"

definition GetSupply :: "'b pb_keeper \<Rightarrow> denom \<Rightarrow> 'b pb_ctx \<Rightarrow> int" where
  "GetSupply K denom s = bk_GetSupply (bk K) (bankState s) denom"

definition BlockedAddr :: "'b pb_keeper \<Rightarrow> AccAddress \<Rightarrow> bool" where
  "BlockedAddr K addr = bk_BlockedAddr (bk K) addr"

definition updateInsufficientFundsError ::
    "'b pb_keeper \<Rightarrow> AccAddress \<Rightarrow> int \<Rightarrow> 'b pb_ctx \<Rightarrow> sdk_error \<Rightarrow> sdk_error" where
  "updateInsufficientFundsError K addr amt s err =
    (case err of
       ErrInsufficientFunds _ \<Rightarrow>
         (let bal = SpendableCoin K addr (ExtendedCoinDenom K) s;
              coin = NewCoin (ExtendedCoinDenom K) amt
          in ErrInsufficientFunds [bal, coin])
     | _ \<Rightarrow> err)"

section \<open>What the module relies on\<close>

text \<open>The documented behaviour of the \<open>sdk.Coins\<close> methods on valid coins.\<close>

definition coins_contract :: "coins_api \<Rightarrow> bool" where
  "coins_contract C \<longleftrightarrow>
    (\<forall>cs d. IsValid C cs \<longrightarrow> 0 \<le> AmountOf C cs d) \<and>
    (\<forall>cs d a. IsValid C cs \<longrightarrow> 0 < a \<longrightarrow> AmountOf C cs d = a \<longrightarrow>
       IsValid C (SubCoin C cs (NewCoin d a)) \<and>
       (\<forall>d'. AmountOf C (SubCoin C cs (NewCoin d a)) d' = (if d' = d then 0 else AmountOf C cs d'))) \<and>
    (\<forall>d a. ValidDenom C d \<longrightarrow> 0 < a \<longrightarrow>
       NewCoins C (NewCoin d a) = [NewCoin d a] \<and> IsValid C [NewCoin d a] \<and>
       (\<forall>d'. AmountOf C [NewCoin d a] d' = (if d' = d then a else 0))) \<and>
    (\<forall>cs. IsValid C cs \<longrightarrow> EmptyCoins C cs \<longrightarrow> (\<forall>d. AmountOf C cs d = 0)) \<and>
    (\<forall>cs. IsValid C cs \<longrightarrow> \<not> IsAllPositive C cs \<longrightarrow> (\<forall>d. AmountOf C cs d = 0))"

text \<open>
  The documented behaviour of x/bank.  A transfer of valid coins moves exactly the amounts and
  needs them to be spendable; minting adds to a module account and to the supply, burning
  removes from both.  Only the spendable part of a balance can leave an account, and the
  balance of a module account is spendable.  The two denoms of the coin configuration pass
  \<open>ValidateDenom\<close>, which \<open>setEVMCoinInfo\<close> has checked.
\<close>

definition transfers ::
    "'b pb_keeper \<Rightarrow> AccAddress \<Rightarrow> AccAddress \<Rightarrow> coins \<Rightarrow> ('b, sdk_error, unit) go \<Rightarrow> bool" where
  "transfers K from to cs m \<longleftrightarrow>
    (\<forall>b. if \<forall>d. AmountOf (coinsApi K) cs d \<le> bk_SpendableCoin (bk K) b from d
      then \<exists>b'. m b = (Ret (), b') \<and>
        (\<forall>a d. bk_GetBalance (bk K) b' a d = bk_GetBalance (bk K) b a d
            - (if a = from then AmountOf (coinsApi K) cs d else 0)
            + (if a = to then AmountOf (coinsApi K) cs d else 0)) \<and>
        (\<forall>a d. a \<noteq> to \<longrightarrow> bk_SpendableCoin (bk K) b' a d = bk_SpendableCoin (bk K) b a d
            - (if a = from then AmountOf (coinsApi K) cs d else 0)) \<and>
        (\<forall>d. bk_GetSupply (bk K) b' d = bk_GetSupply (bk K) b d)
      else \<exists>cs'. m b = (Err (ErrInsufficientFunds cs'), b))"

definition mints :: "'b pb_keeper \<Rightarrow> AccAddress \<Rightarrow> coins \<Rightarrow> ('b, sdk_error, unit) go \<Rightarrow> bool" where
  "mints K to cs m \<longleftrightarrow>
    (\<forall>b. \<exists>b'. m b = (Ret (), b') \<and>
       (\<forall>a d. bk_GetBalance (bk K) b' a d = bk_GetBalance (bk K) b a d
           + (if a = to then AmountOf (coinsApi K) cs d else 0)) \<and>
       (\<forall>a d. a \<noteq> to \<longrightarrow> bk_SpendableCoin (bk K) b' a d = bk_SpendableCoin (bk K) b a d) \<and>
       (\<forall>d. bk_GetSupply (bk K) b' d = bk_GetSupply (bk K) b d + AmountOf (coinsApi K) cs d))"

definition burns :: "'b pb_keeper \<Rightarrow> AccAddress \<Rightarrow> coins \<Rightarrow> ('b, sdk_error, unit) go \<Rightarrow> bool" where
  "burns K from cs m \<longleftrightarrow>
    (\<forall>b. if \<forall>d. AmountOf (coinsApi K) cs d \<le> bk_SpendableCoin (bk K) b from d
      then \<exists>b'. m b = (Ret (), b') \<and>
        (\<forall>a d. bk_GetBalance (bk K) b' a d = bk_GetBalance (bk K) b a d
            - (if a = from then AmountOf (coinsApi K) cs d else 0)) \<and>
        (\<forall>a d. bk_SpendableCoin (bk K) b' a d = bk_SpendableCoin (bk K) b a d
            - (if a = from then AmountOf (coinsApi K) cs d else 0)) \<and>
        (\<forall>d. bk_GetSupply (bk K) b' d = bk_GetSupply (bk K) b d - AmountOf (coinsApi K) cs d)
      else \<exists>cs'. m b = (Err (ErrInsufficientFunds cs'), b))"

definition isModule :: "'b pb_keeper \<Rightarrow> string \<Rightarrow> bool" where
  "isModule K n \<longleftrightarrow> (\<exists>acc. ak_GetModuleAccount (ak K) n = Some acc)"

definition bank_contract :: "'b pb_keeper \<Rightarrow> bool" where
  "bank_contract K \<longleftrightarrow>
    coins_contract (coinsApi K) \<and>
    ValidDenom (coinsApi K) (IntegerCoinDenom K) \<and> ValidDenom (coinsApi K) (ExtendedCoinDenom K) \<and>
    (\<forall>b a d. 0 \<le> bk_SpendableCoin (bk K) b a d \<and>
             bk_SpendableCoin (bk K) b a d \<le> bk_GetBalance (bk K) b a d) \<and>
    (\<forall>f t cs. IsValid (coinsApi K) cs \<longrightarrow> transfers K f t cs (bk_SendCoins (bk K) f t cs)) \<and>
    (\<forall>f n cs. IsValid (coinsApi K) cs \<longrightarrow> isModule K n \<longrightarrow>
       transfers K f (ak_GetModuleAddress (ak K) n) cs (bk_SendCoinsFromAccountToModule (bk K) f n cs)) \<and>
    (\<forall>n n' cs. IsValid (coinsApi K) cs \<longrightarrow> isModule K n \<longrightarrow> isModule K n' \<longrightarrow>
       transfers K (ak_GetModuleAddress (ak K) n) (ak_GetModuleAddress (ak K) n') cs
         (bk_SendCoinsFromModuleToModule (bk K) n n' cs)) \<and>
    (\<forall>n acc cs. IsValid (coinsApi K) cs \<longrightarrow> ak_GetModuleAccount (ak K) n = Some acc \<longrightarrow>
       HasPermission acc ''minter'' \<longrightarrow> mints K (ma_Address acc) cs (bk_MintCoins (bk K) n cs)) \<and>
    (\<forall>n acc cs. IsValid (coinsApi K) cs \<longrightarrow> ak_GetModuleAccount (ak K) n = Some acc \<longrightarrow>
       HasPermission acc ''burner'' \<longrightarrow> burns K (ma_Address acc) cs (bk_BurnCoins (bk K) n cs)) \<and>
    (\<forall>n acc. ak_GetModuleAccount (ak K) n = Some acc \<longrightarrow>
       ak_GetModuleAddress (ak K) n = ma_Address acc \<and> ma_Address acc \<noteq> [] \<and>
       (\<forall>b d. bk_SpendableCoin (bk K) b (ma_Address acc) d = bk_GetBalance (bk K) b (ma_Address acc) d))"

text \<open>
  The wiring of the application: the coin configuration is valid and the module account of
  \<open>x/precisebank\<close> exists and may mint and burn.
\<close>

definition pb_wired :: "'b pb_keeper \<Rightarrow> bool" where
  "pb_wired K \<longleftrightarrow>
    Decimals_Validate (eci_Decimals (coinInfo K)) \<and>
    (\<exists>acc. ak_GetModuleAccount (ak K) ModuleName = Some acc \<and>
       HasPermission acc ''minter'' \<and> HasPermission acc ''burner'') \<and>
    (\<forall>n. isModule K n \<longrightarrow> n \<noteq> ModuleName \<longrightarrow> ak_GetModuleAddress (ak K) n \<noteq> reserveAddr K)"

section \<open>The invariant\<close>

text \<open>
  Every stored fractional balance lies strictly between zero and the conversion factor and
  belongs to a named account other than the reserve, the remainder is below the conversion factor, and the
  reserve holds exactly the integer coins that back the fractional balances and the remainder.
\<close>

definition pb_inv :: "'b pb_keeper \<Rightarrow> 'b pb_ctx \<Rightarrow> bool" where
  "pb_inv K s \<longleftrightarrow>
    (\<forall>a v. fmlookup (fracStore s) a = Some v \<longrightarrow> 0 < v \<and> v < ConversionFactorPB K \<and> a \<noteq> []) \<and>
    (\<forall>r. remStore s = Some r \<longrightarrow> 0 < r \<and> r < ConversionFactorPB K) \<and>
    fmlookup (fracStore s) (reserveAddr K) = None \<and>
    bk_GetBalance (bk K) (bankState s) (reserveAddr K) (IntegerCoinDenom K) * ConversionFactorPB K
      = GetTotalSumFractionalBalances s + GetRemainderAmount s"

end
