(* ===== verification/PreciseBankLaws.thy ===== *)
theory PreciseBankLaws
  imports PreciseBankBase
begin

text \<open>
  The rewriting theory of the \<open>x/precisebank\<close> store and of the contract with x/bank: the store
  accessors in terms of amount stores, the effect of a single integer coin sent, minted or
  burned, and the view of a state as an abstract ledger of extended balances.
\<close>

section \<open>Abstract state\<close>

abbreviation bal :: "'b pb_keeper \<Rightarrow> 'b \<Rightarrow> AccAddress \<Rightarrow> int" where
  "bal K b a \<equiv> bk_GetBalance (bk K) b a (IntegerCoinDenom K)"

abbreviation spd :: "'b pb_keeper \<Rightarrow> 'b \<Rightarrow> AccAddress \<Rightarrow> int" where
  "spd K b a \<equiv> bk_SpendableCoin (bk K) b a (IntegerCoinDenom K)"

abbreviation sup :: "'b pb_keeper \<Rightarrow> 'b \<Rightarrow> int" where
  "sup K b \<equiv> bk_GetSupply (bk K) b (IntegerCoinDenom K)"

abbreviation CF :: "'b pb_keeper \<Rightarrow> int" where
  "CF K \<equiv> ConversionFactorPB K"

abbreviation oneDenom :: "'b pb_keeper \<Rightarrow> int \<Rightarrow> coins" where
  "oneDenom K n \<equiv> NewCoins (coinsApi K) (NewCoin (IntegerCoinDenom K) n)"

text \<open>The ledger of extended balances, and the supply of extended coins.\<close>

definition extBalance :: "'b pb_keeper \<Rightarrow> 'b pb_ctx \<Rightarrow> AccAddress \<Rightarrow> int" where
  "extBalance K s a = Amount (GetBalance K a (ExtendedCoinDenom K) s)"

definition extSpendable :: "'b pb_keeper \<Rightarrow> 'b pb_ctx \<Rightarrow> AccAddress \<Rightarrow> int" where
  "extSpendable K s a = Amount (SpendableCoin K a (ExtendedCoinDenom K) s)"

definition extSupply :: "'b pb_keeper \<Rightarrow> 'b pb_ctx \<Rightarrow> int" where
  "extSupply K s = GetSupply K (IntegerCoinDenom K) s * ConversionFactorPB K - GetRemainderAmount s"

text \<open>The abstract operations the keeper implements.\<close>

definition ledgerTransfer :: "AccAddress \<Rightarrow> AccAddress \<Rightarrow> int \<Rightarrow> (AccAddress \<Rightarrow> int) \<Rightarrow> AccAddress \<Rightarrow> int" where
  "ledgerTransfer from to amt l = (\<lambda>a. l a - (if a = from then amt else 0) + (if a = to then amt else 0))"

definition ledgerAdd :: "AccAddress \<Rightarrow> int \<Rightarrow> (AccAddress \<Rightarrow> int) \<Rightarrow> AccAddress \<Rightarrow> int" where
  "ledgerAdd to amt l = (\<lambda>a. l a + (if a = to then amt else 0))"

text \<open>The change of the integer coin from one x/bank state to another.\<close>

definition bankStep ::
    "'b pb_keeper \<Rightarrow> (AccAddress \<Rightarrow> int) \<Rightarrow> AccAddress set \<Rightarrow> int \<Rightarrow> 'b \<Rightarrow> 'b \<Rightarrow> bool" where
  "bankStep K \<delta> gain \<sigma> b b' \<longleftrightarrow>
    (\<forall>a. bal K b' a = bal K b a + \<delta> a) \<and>
    (\<forall>a d. d \<noteq> IntegerCoinDenom K \<longrightarrow> bk_GetBalance (bk K) b' a d = bk_GetBalance (bk K) b a d) \<and>
    (\<forall>a. a \<notin> gain \<longrightarrow> spd K b' a = spd K b a + \<delta> a) \<and>
    sup K b' = sup K b + \<sigma>"

definition rem_put :: "int \<Rightarrow> int option" where
  "rem_put v = (if v = 0 then None else Some v)"

definition moveDelta :: "AccAddress \<Rightarrow> AccAddress \<Rightarrow> int \<Rightarrow> AccAddress \<Rightarrow> int" where
  "moveDelta from to n = (\<lambda>a. (if a = to then n else 0) - (if a = from then n else 0))"

definition gainDelta :: "AccAddress \<Rightarrow> int \<Rightarrow> AccAddress \<Rightarrow> int" where
  "gainDelta to n = (\<lambda>a. if a = to then n else 0)"

lemma ledger_zero [simp]: "ledgerAdd m 0 l = l" "ledgerTransfer f t 0 l = l"
  by (simp_all add: ledgerAdd_def ledgerTransfer_def)

lemma bankStep_refl [simp]: "bankStep K (\<lambda>_. 0) A 0 b b"
  by (simp add: bankStep_def)

lemma bankStep_trans:
  "bankStep K \<delta> A \<sigma> b b' \<Longrightarrow> bankStep K \<delta>' A' \<sigma>' b' b'' \<Longrightarrow>
     bankStep K (\<lambda>a. \<delta> a + \<delta>' a) (A \<union> A') (\<sigma> + \<sigma>') b b''"
  by (simp add: bankStep_def)

lemma bankStep_cong:
  "bankStep K \<delta> A \<sigma> b b' \<Longrightarrow> (\<And>a. \<delta> a = \<delta>' a) \<Longrightarrow> A \<subseteq> A' \<Longrightarrow> \<sigma> = \<sigma>' \<Longrightarrow> bankStep K \<delta>' A' \<sigma>' b b'"
  by (auto simp: bankStep_def)

lemma bankStep_bal: "bankStep K \<delta> A \<sigma> b b' \<Longrightarrow> bal K b' a = bal K b a + \<delta> a"
  by (simp add: bankStep_def)

lemma bankStep_other:
  "bankStep K \<delta> A \<sigma> b b' \<Longrightarrow> d \<noteq> IntegerCoinDenom K \<Longrightarrow>
     bk_GetBalance (bk K) b' a d = bk_GetBalance (bk K) b a d"
  by (simp add: bankStep_def)

lemma bankStep_spd: "bankStep K \<delta> A \<sigma> b b' \<Longrightarrow> a \<notin> A \<Longrightarrow> spd K b' a = spd K b a + \<delta> a"
  by (simp add: bankStep_def)

lemma bankStep_sup: "bankStep K \<delta> A \<sigma> b b' \<Longrightarrow> sup K b' = sup K b + \<sigma>"
  by (simp add: bankStep_def)

section \<open>The store accessors\<close>

lemma GetFractionalBalance_fm: "GetFractionalBalance a s = fm_get0 (fracStore s) a"
  by (simp add: GetFractionalBalance_def fm_get0_def)

lemma iterateEntries_sum:
  "iterateEntries (\<lambda>_ amount sum. (False, sum + amount)) (map (\<lambda>k. (k, g k)) ks) acc
     = fold (\<lambda>k acc. acc + g k) ks acc"
  by (induction ks arbitrary: acc) simp_all

lemma GetTotalSum_fm: "GetTotalSumFractionalBalances s = fm_total (fracStore s)"
  by (simp add: GetTotalSumFractionalBalances_def IterateFractionalBalances_def storeEntries_def
      iterateEntries_sum fold_sorted_total)

lemma ValidateFractionalAmount_None [simp]:
  "ValidateFractionalAmount K (Some v) = None \<longleftrightarrow> 0 < v \<and> v < CF K"
  by (simp add: ValidateFractionalAmount_def)

lemma SetFractionalBalance_eq:
  assumes "a \<noteq> []" "0 \<le> v" "v < CF K"
  shows "SetFractionalBalance K a v s = (Ret (), s\<lparr>fracStore := fm_put0 a v (fracStore s)\<rparr>)"
  using assms
  by (cases "v = 0") (auto simp: SetFractionalBalance_def DeleteFractionalBalance_def fm_put0_def
      split: option.split)

lemma SetRemainderAmount_eq:
  assumes "0 \<le> v" "v < CF K"
  shows "SetRemainderAmount K v s = (Ret (), s\<lparr>remStore := rem_put v\<rparr>)"
  using assms
  by (cases "v = 0") (auto simp: SetRemainderAmount_def DeleteRemainderAmount_def rem_put_def
      split: option.split)

lemma GetRemainderAmount_put [simp]: "remStore s = rem_put v \<Longrightarrow> GetRemainderAmount s = v"
  by (simp add: GetRemainderAmount_def rem_put_def split: if_splits)

lemma EmitEvent_eq [simp]:
  "EmitEventFractionalBalanceChange a u v s
     = (Ret (), s\<lparr>pbEvents := pbEvents s @ [FractionalBalanceChange a (v - u)]\<rparr>)"
  by (simp add: EmitEventFractionalBalanceChange_def)

section \<open>The contract, for one integer coin\<close>

lemma CF_pos: "pb_wired K \<Longrightarrow> 0 < CF K"
  by (simp add: pb_wired_def ConversionFactorPB_def coinFactor_pos)

lemma contract_send:
  assumes "bank_contract K" "IsValid (coinsApi K) cs"
  shows "transfers K f t cs (bk_SendCoins (bk K) f t cs)"
    and "isModule K n \<Longrightarrow>
      transfers K f (ak_GetModuleAddress (ak K) n) cs (bk_SendCoinsFromAccountToModule (bk K) f n cs)"
    and "isModule K n \<Longrightarrow> isModule K n' \<Longrightarrow>
      transfers K (ak_GetModuleAddress (ak K) n) (ak_GetModuleAddress (ak K) n') cs
        (bk_SendCoinsFromModuleToModule (bk K) n n' cs)"
  using assms by (simp_all add: bank_contract_def)

lemma contract_mint_burn:
  assumes "bank_contract K" "IsValid (coinsApi K) cs" "ak_GetModuleAccount (ak K) n = Some acc"
  shows "HasPermission acc ''minter'' \<Longrightarrow> mints K (ak_GetModuleAddress (ak K) n) cs (bk_MintCoins (bk K) n cs)"
    and "HasPermission acc ''burner'' \<Longrightarrow> burns K (ak_GetModuleAddress (ak K) n) cs (bk_BurnCoins (bk K) n cs)"
  using assms by (auto simp: bank_contract_def)

lemma oneDenom_valid:
  assumes "bank_contract K" "0 < n"
  shows "IsValid (coinsApi K) (oneDenom K n)"
    and "AmountOf (coinsApi K) (oneDenom K n) d = (if d = IntegerCoinDenom K then n else 0)"
  using assms by (auto simp: bank_contract_def coins_contract_def)

lemma spd_bounds:
  assumes "bank_contract K"
  shows "0 \<le> bk_SpendableCoin (bk K) b a d" "bk_SpendableCoin (bk K) b a d \<le> bk_GetBalance (bk K) b a d"
  using assms by (auto simp: bank_contract_def)

lemma affordable_iff:
  assumes "bank_contract K" "0 < n"
  shows "(\<forall>d. AmountOf (coinsApi K) (oneDenom K n) d \<le> bk_SpendableCoin (bk K) b f d) \<longleftrightarrow> n \<le> spd K b f"
  using oneDenom_valid(2) [OF assms] spd_bounds [OF assms(1)] by auto

lemma transfers_one:
  assumes tr: "transfers K f t (oneDenom K n) m" and bc: "bank_contract K" and n: "0 < n"
  shows "n \<le> spd K b f \<Longrightarrow> \<exists>b'. m b = (Ret (), b') \<and> bankStep K (moveDelta f t n) {t} 0 b b'"
    and "\<not> n \<le> spd K b f \<Longrightarrow> \<exists>cs. m b = (Err (ErrInsufficientFunds cs), b)"
  using tr [unfolded transfers_def, rule_format, of b] affordable_iff [OF bc n, of b f]
  by (auto simp: oneDenom_valid(2) [OF bc n] bankStep_def moveDelta_def)

lemma burns_one:
  assumes tr: "burns K f (oneDenom K n) m" and bc: "bank_contract K" and n: "0 < n"
  shows "n \<le> spd K b f \<Longrightarrow> \<exists>b'. m b = (Ret (), b') \<and> bankStep K (gainDelta f (- n)) {} (- n) b b'"
    and "\<not> n \<le> spd K b f \<Longrightarrow> \<exists>cs. m b = (Err (ErrInsufficientFunds cs), b)"
  using tr [unfolded burns_def, rule_format, of b] affordable_iff [OF bc n, of b f]
  by (auto simp: oneDenom_valid(2) [OF bc n] bankStep_def gainDelta_def)

lemma mints_one:
  assumes tr: "mints K f (oneDenom K n) m" and bc: "bank_contract K" and n: "0 < n"
  shows "\<exists>b'. m b = (Ret (), b') \<and> bankStep K (gainDelta f n) {f} n b b'"
proof -
  from tr obtain b' where "m b = (Ret (), b')"
      "\<forall>a d. bk_GetBalance (bk K) b' a d = bk_GetBalance (bk K) b a d
           + (if a = f then AmountOf (coinsApi K) (oneDenom K n) d else 0)"
      "\<forall>a d. a \<noteq> f \<longrightarrow> bk_SpendableCoin (bk K) b' a d = bk_SpendableCoin (bk K) b a d"
      "\<forall>d. bk_GetSupply (bk K) b' d = bk_GetSupply (bk K) b d + AmountOf (coinsApi K) (oneDenom K n) d"
    unfolding mints_def by blast
  then show ?thesis
    by (intro exI [of _ b']) (auto simp: oneDenom_valid(2) [OF bc n] bankStep_def gainDelta_def)
qed

section \<open>Optional bank operations of the keeper\<close>

lemma onBank_eq:
  "m (bankState s) = (r, b') \<Longrightarrow> onBank m s = (r, s\<lparr>bankState := b'\<rparr>)"
  by (simp add: onBank_def go_zoom_app)

text \<open>
  The code guards every integer transfer with \<open>IsPositive\<close>; a guarded transfer of a
  non-negative amount behaves like a transfer of that amount.
\<close>

lemma guarded_transfer:
  assumes P: "P \<longleftrightarrow> 0 < n" and op: "P \<Longrightarrow> transfers K f t (oneDenom K n) m" and bc: "bank_contract K"
    and n: "0 \<le> n" "n \<le> spd K (bankState s) f"
  obtains b' where "go_when P (onBank m) s = (Ret (), s\<lparr>bankState := b'\<rparr>)"
    "bankStep K (moveDelta f t n) {t} 0 (bankState s) b'"
proof (cases P)
  case True
  from transfers_one(1) [OF op [OF True] bc _ n(2)] True P obtain b' where
    "m (bankState s) = (Ret (), b')" "bankStep K (moveDelta f t n) {t} 0 (bankState s) b'" by blast
  then show thesis using True by (intro that [of b']) (simp_all add: onBank_eq)
next
  case False
  then show thesis using n P by (intro that [of "bankState s"]) (simp_all add: moveDelta_def gainDelta_def)
qed

lemma guarded_burn:
  assumes P: "P \<longleftrightarrow> 0 < n" and op: "P \<Longrightarrow> burns K f (oneDenom K n) m" and bc: "bank_contract K"
    and n: "0 \<le> n" "n \<le> spd K (bankState s) f"
  obtains b' where "go_when P (onBank m) s = (Ret (), s\<lparr>bankState := b'\<rparr>)"
    "bankStep K (gainDelta f (- n)) {} (- n) (bankState s) b'"
proof (cases P)
  case True
  from burns_one(1) [OF op [OF True] bc _ n(2)] True P obtain b' where
    "m (bankState s) = (Ret (), b')" "bankStep K (gainDelta f (- n)) {} (- n) (bankState s) b'" by blast
  then show thesis using True by (intro that [of b']) (simp_all add: onBank_eq)
next
  case False
  then show thesis using n P by (intro that [of "bankState s"]) (simp_all add: moveDelta_def gainDelta_def)
qed

lemma guarded_mint:
  assumes P: "P \<longleftrightarrow> 0 < n" and op: "P \<Longrightarrow> mints K f (oneDenom K n) m" and bc: "bank_contract K"
    and n: "0 \<le> n"
  obtains b' where "go_when P (onBank m) s = (Ret (), s\<lparr>bankState := b'\<rparr>)"
    "bankStep K (gainDelta f n) {f} n (bankState s) b'"
proof (cases P)
  case True
  from mints_one [OF op [OF True] bc] True P obtain b' where
    "m (bankState s) = (Ret (), b')" "bankStep K (gainDelta f n) {f} n (bankState s) b'" by blast
  then show thesis using True by (intro that [of b']) (simp_all add: onBank_eq)
next
  case False
  then show thesis using n P by (intro that [of "bankState s"]) (simp_all add: moveDelta_def gainDelta_def)
qed

lemma guarded_transfer_one:
  assumes "transfers K f t (oneDenom K 1) m" "bank_contract K" "P \<Longrightarrow> 1 \<le> spd K (bankState s) f"
  obtains b' where "go_when P (onBank m) s = (Ret (), s\<lparr>bankState := b'\<rparr>)"
    "bankStep K (moveDelta f t (of_bool P)) {t} 0 (bankState s) b'"
  by (rule guarded_transfer [where n = "of_bool P" and P = P and s = s]) (use assms spd_bounds(1) [OF assms(2)] in \<open>auto simp: of_bool_def\<close>)

lemma guarded_burn_one:
  assumes "burns K f (oneDenom K 1) m" "bank_contract K" "P \<Longrightarrow> 1 \<le> spd K (bankState s) f"
  obtains b' where "go_when P (onBank m) s = (Ret (), s\<lparr>bankState := b'\<rparr>)"
    "bankStep K (gainDelta f (- of_bool P)) {} (- of_bool P) (bankState s) b'"
  by (rule guarded_burn [where n = "of_bool P" and P = P and s = s]) (use assms spd_bounds(1) [OF assms(2)] in \<open>auto simp: of_bool_def\<close>)

lemma guarded_mint_one:
  assumes "mints K f (oneDenom K 1) m" "bank_contract K"
  obtains b' where "go_when P (onBank m) s = (Ret (), s\<lparr>bankState := b'\<rparr>)"
    "bankStep K (gainDelta f (of_bool P)) {f} (of_bool P) (bankState s) b'"
  by (rule guarded_mint [where n = "of_bool P" and P = P and s = s]) (use assms in \<open>auto simp: of_bool_def\<close>)

section \<open>The invariant, componentwise\<close>

lemma pb_invD:
  assumes "pb_inv K s"
  shows "0 \<le> fm_get0 (fracStore s) a"
    and "0 < CF K \<Longrightarrow> fm_get0 (fracStore s) a < CF K"
    and "fm_get0 (fracStore s) (reserveAddr K) = 0"
    and "fm_get0 (fracStore s) [] = 0"
    and "0 \<le> GetRemainderAmount s"
    and "0 < CF K \<Longrightarrow> GetRemainderAmount s < CF K"
    and "bal K (bankState s) (reserveAddr K) * CF K = fm_total (fracStore s) + GetRemainderAmount s"
  using assms unfolding pb_inv_def GetRemainderAmount_def GetTotalSum_fm
  by (auto simp: fm_get0_def split: option.splits dest: less_imp_le)

lemma pb_inv_frac:
  "pb_inv K s \<Longrightarrow> fmlookup (fracStore s) a = Some v \<Longrightarrow> 0 < v \<and> v < CF K \<and> a \<noteq> []"
  unfolding pb_inv_def by blast

lemma pb_inv_rem: "pb_inv K s \<Longrightarrow> remStore s = Some r \<Longrightarrow> 0 < r \<and> r < CF K"
  by (simp add: pb_inv_def)

lemma pb_invI:
  assumes "\<forall>a v. fmlookup (fracStore s) a = Some v \<longrightarrow> 0 < v \<and> v < CF K \<and> a \<noteq> []"
    and "\<And>r. remStore s = Some r \<Longrightarrow> 0 < r \<and> r < CF K"
    and "fmlookup (fracStore s) (reserveAddr K) = None"
    and "bal K (bankState s) (reserveAddr K) * CF K = fm_total (fracStore s) + GetRemainderAmount s"
  shows "pb_inv K s"
  using assms by (simp add: pb_inv_def GetTotalSum_fm)

lemma GetRemainderAmount_upd [simp]:
  "GetRemainderAmount (s\<lparr>bankState := b\<rparr>) = GetRemainderAmount s"
  "GetRemainderAmount (s\<lparr>fracStore := m\<rparr>) = GetRemainderAmount s"
  "GetRemainderAmount (s\<lparr>pbEvents := e\<rparr>) = GetRemainderAmount s"
  by (simp_all add: GetRemainderAmount_def)

lemma frac_ok_put:
  assumes "\<forall>a v. fmlookup m a = Some v \<longrightarrow> 0 < v \<and> v < c \<and> a \<noteq> []"
    and "0 \<le> v" "v < c" "k \<noteq> []"
  shows "\<forall>a w. fmlookup (fm_put0 k v m) a = Some w \<longrightarrow> 0 < w \<and> w < c \<and> a \<noteq> []"
  using assms by (auto simp: fm_put0_def)

lemma fmlookup_put0_other [simp]: "a \<noteq> k \<Longrightarrow> fmlookup (fm_put0 k v m) a = fmlookup m a"
  by (simp add: fm_put0_def)

lemma reserve_module:
  assumes "bank_contract K" "pb_wired K"
  shows "isModule K ModuleName" "reserveAddr K \<noteq> []"
    "spd K b (reserveAddr K) = bal K b (reserveAddr K)"
  using assms unfolding pb_wired_def isModule_def reserveAddr_def bank_contract_def by fastforce+

lemma extBalance_eq:
  "a \<noteq> reserveAddr K \<Longrightarrow> extBalance K s a = bal K (bankState s) a * CF K + fm_get0 (fracStore s) a"
  by (simp add: extBalance_def GetBalance_def GetFractionalBalance_fm Let_def)

lemma extBalance_reserve [simp]: "extBalance K s (reserveAddr K) = 0"
  by (simp add: extBalance_def GetBalance_def)

lemma extSpendable_eq:
  "a \<noteq> reserveAddr K \<Longrightarrow> extSpendable K s a = spd K (bankState s) a * CF K + fm_get0 (fracStore s) a"
  by (simp add: extSpendable_def SpendableCoin_def GetFractionalBalance_fm Let_def)

end
