(* ===== verification/PreciseBankSend.thy ===== *)
theory PreciseBankSend
  imports PreciseBankLaws
begin

text \<open>
  Transfers of extended coins: \<open>x/precisebank/keeper/send.go\<close>.  \<open>sendExtendedCoins\<close> splits the
  amount into integer and fractional coins; the sender may have to borrow one integer coin and
  the receiver to carry one, which moves integer coins between the accounts and the reserve.
\<close>

section \<open>Definitions\<close>

definition subFromFractionalBalance ::
    "'b pb_keeper \<Rightarrow> int \<Rightarrow> int \<Rightarrow> ('b, int \<times> bool) pb_go" where
  "subFromFractionalBalance K currentFractionalBalance amountToSub =
    (if currentFractionalBalance \<ge> ConversionFactorPB K
     then go_panic ''currentFractionalBalance must be less than ConversionFactor''
     else if amountToSub \<ge> ConversionFactorPB K
     then go_panic ''amountToSub must be less than ConversionFactor''
     else
       let newFractionalBalance = currentFractionalBalance - amountToSub;
           borrowRequired = newFractionalBalance < 0
       in go_return (if borrowRequired then newFractionalBalance + ConversionFactorPB K
                     else newFractionalBalance, borrowRequired))"

definition addToFractionalBalance ::
    "'b pb_keeper \<Rightarrow> int \<Rightarrow> int \<Rightarrow> ('b, int \<times> bool) pb_go" where
  "addToFractionalBalance K currentFractionalBalance amountToAdd =
    (if currentFractionalBalance \<ge> ConversionFactorPB K
     then go_panic ''currentFractionalBalance must be less than ConversionFactor''
     else if amountToAdd \<ge> ConversionFactorPB K
     then go_panic ''amountToAdd must be less than ConversionFactor''
     else
       let newFractionalBalance = currentFractionalBalance + amountToAdd;
           carryRequired = newFractionalBalance \<ge> ConversionFactorPB K
       in go_return (if carryRequired then newFractionalBalance - ConversionFactorPB K
                     else newFractionalBalance, carryRequired))"

definition sendExtendedCoins ::
    "'b pb_keeper \<Rightarrow> AccAddress \<Rightarrow> AccAddress \<Rightarrow> int \<Rightarrow> ('b, unit) pb_go" where
  "sendExtendedCoins K from to amt =
    (let moduleAddr = ak_GetModuleAddress (ak K) ModuleName
     in if from = moduleAddr \<or> to = moduleAddr
     then
       let integerAmt = Quo amt (ConversionFactorPB K)
       in go_mapErr (updateInsufficientFundsError K from amt)
            (go_when (0 < integerAmt)
              (onBank (bk_SendCoins (bk K) from to
                 (NewCoins (coinsApi K) (NewCoin (IntegerCoinDenom K) integerAmt)))))
     else if from = to then go_return ()
     else
       go_bind (go_gets (GetFractionalBalance from)) (\<lambda>senderFracBal.
       go_bind (go_gets (GetFractionalBalance to)) (\<lambda>recipientFracBal.
       let integerAmt0 = Quo amt (ConversionFactorPB K);
           fractionalAmt = Mod amt (ConversionFactorPB K)
       in
       go_bind (subFromFractionalBalance K senderFracBal fractionalAmt)
         (\<lambda>(senderNewFracBal, senderNeedsBorrow).
       go_bind (addToFractionalBalance K recipientFracBal fractionalAmt)
         (\<lambda>(recipientNewFracBal, recipientNeedsCarry).
       let integerAmt = (if senderNeedsBorrow \<and> recipientNeedsCarry then integerAmt0 + 1
                         else integerAmt0)
       in
       go_seq (go_mapErr (updateInsufficientFundsError K from amt)
         (go_when (0 < integerAmt)
           (onBank (bk_SendCoins (bk K) from to
              (NewCoins (coinsApi K) (NewCoin (IntegerCoinDenom K) integerAmt))))))
       (go_seq (go_mapErr (updateInsufficientFundsError K from amt)
         (go_when (senderNeedsBorrow \<and> \<not> recipientNeedsCarry)
           (onBank (bk_SendCoinsFromAccountToModule (bk K) from ModuleName
              (NewCoins (coinsApi K) (NewCoin (IntegerCoinDenom K) 1))))))
       (go_seq (go_must ''failed to carry fractional coins''
         (go_when (\<not> senderNeedsBorrow \<and> recipientNeedsCarry)
           (onBank (bk_SendCoins (bk K) (ak_GetModuleAddress (ak K) ModuleName) to
              (NewCoins (coinsApi K) (NewCoin (IntegerCoinDenom K) 1))))))
       (go_seq (SetFractionalBalance K from senderNewFracBal)
       (go_seq (SetFractionalBalance K to recipientNewFracBal)
       (go_seq (EmitEventFractionalBalanceChange from senderFracBal senderNewFracBal)
               (EmitEventFractionalBalanceChange to recipientFracBal recipientNewFracBal)))))))))))"

definition SendCoins :: "'b pb_keeper \<Rightarrow> AccAddress \<Rightarrow> AccAddress \<Rightarrow> coins \<Rightarrow> ('b, unit) pb_go" where
  "SendCoins K from to amt =
    (if \<not> IsValid (coinsApi K) amt then go_err ErrInvalidCoins
     else
       let extendedCoinAmount = AmountOf (coinsApi K) amt (ExtendedCoinDenom K);
           passthroughCoins =
             (if 0 < extendedCoinAmount
              then SubCoin (coinsApi K) amt (NewCoin (ExtendedCoinDenom K) extendedCoinAmount)
              else amt)
       in go_seq (go_when (IsAllPositive (coinsApi K) passthroughCoins)
            (onBank (bk_SendCoins (bk K) from to passthroughCoins)))
          (go_when (0 < extendedCoinAmount)
            (sendExtendedCoins K from to extendedCoinAmount)))"

definition IsSendEnabledCoin :: "'b pb_keeper \<Rightarrow> coin \<Rightarrow> 'b pb_ctx \<Rightarrow> bool" where
  "IsSendEnabledCoin K c s =
    (if Denom c = ExtendedCoinDenom K
     then bk_IsSendEnabledCoin (bk K) (bankState s)
            (NewCoin (IntegerCoinDenom K) (Quo (Amount c) (ConversionFactorPB K)))
     else bk_IsSendEnabledCoin (bk K) (bankState s) c)"

fun IsSendEnabledCoins :: "'b pb_keeper \<Rightarrow> coins \<Rightarrow> ('b, unit) pb_go" where
  "IsSendEnabledCoins K [] = go_return ()"
| "IsSendEnabledCoins K (c # cs) =
     go_bind (go_gets (IsSendEnabledCoin K c)) (\<lambda>enabled.
       if \<not> enabled then go_err (ErrSendDisabled (Denom c)) else IsSendEnabledCoins K cs)"

definition SendCoinsFromAccountToModule ::
    "'b pb_keeper \<Rightarrow> AccAddress \<Rightarrow> string \<Rightarrow> coins \<Rightarrow> ('b, unit) pb_go" where
  "SendCoinsFromAccountToModule K senderAddr recipientModule amt =
    (case ak_GetModuleAccount (ak K) recipientModule of
       None \<Rightarrow> go_panic ''module account does not exist''
     | Some recipientAcc \<Rightarrow>
         if recipientModule = ModuleName then go_err ErrUnauthorized
         else SendCoins K senderAddr (ma_Address recipientAcc) amt)"

definition SendCoinsFromModuleToAccount ::
    "'b pb_keeper \<Rightarrow> string \<Rightarrow> AccAddress \<Rightarrow> coins \<Rightarrow> ('b, unit) pb_go" where
  "SendCoinsFromModuleToAccount K senderModule recipientAddr amt =
    (let senderAddr = ak_GetModuleAddress (ak K) senderModule
     in if senderAddr = [] then go_panic ''module account does not exist''
     else if senderModule = ModuleName then go_err ErrUnauthorized
     else if bk_BlockedAddr (bk K) recipientAddr then go_err ErrUnauthorized
     else SendCoins K senderAddr recipientAddr amt)"

definition SendCoinsFromModuleToModule ::
    "'b pb_keeper \<Rightarrow> string \<Rightarrow> string \<Rightarrow> coins \<Rightarrow> ('b, unit) pb_go" where
  "SendCoinsFromModuleToModule K senderModule recipientModule amt =
    (let senderAddr = ak_GetModuleAddress (ak K) senderModule
     in if senderAddr = [] then go_panic ''module account does not exist''
     else case ak_GetModuleAccount (ak K) recipientModule of
       None \<Rightarrow> go_panic ''module account does not exist''
     | Some recipientAcc \<Rightarrow>
         if recipientModule = ModuleName then go_err ErrUnauthorized
         else SendCoins K senderAddr (ma_Address recipientAcc) amt)"

record MsgSend =
  FromAddress :: string
  ToAddress :: string
  MsgAmount :: coins

definition Send :: "'b pb_keeper \<Rightarrow> MsgSend \<Rightarrow> ('b, unit) pb_go" where
  "Send K msg =
    (case ak_StringToBytes (ak K) (FromAddress msg) of
       None \<Rightarrow> go_err ErrInvalidAddress
     | Some from \<Rightarrow>
    (case ak_StringToBytes (ak K) (ToAddress msg) of
       None \<Rightarrow> go_err ErrInvalidAddress
     | Some to \<Rightarrow>
       if \<not> IsValid (coinsApi K) (MsgAmount msg) then go_err ErrInvalidCoins
       else if \<not> IsAllPositive (coinsApi K) (MsgAmount msg) then go_err ErrInvalidCoins
       else go_seq (IsSendEnabledCoins K (MsgAmount msg))
         (if BlockedAddr K to then go_err ErrUnauthorized
          else SendCoins K from to (MsgAmount msg))))"

section \<open>Borrow and carry\<close>

definition borrows :: "'b pb_keeper \<Rightarrow> 'b pb_ctx \<Rightarrow> AccAddress \<Rightarrow> int \<Rightarrow> int" where
  "borrows K s a amt = of_bool (fm_get0 (fracStore s) a < amt mod CF K)"

definition carries :: "'b pb_keeper \<Rightarrow> 'b pb_ctx \<Rightarrow> AccAddress \<Rightarrow> int \<Rightarrow> int" where
  "carries K s a amt = of_bool (CF K \<le> fm_get0 (fracStore s) a + amt mod CF K)"

text \<open>The fractional store after a transfer.\<close>

definition sentFrac :: "'b pb_keeper \<Rightarrow> 'b pb_ctx \<Rightarrow> AccAddress \<Rightarrow> AccAddress \<Rightarrow> int \<Rightarrow> (AccAddress, int) fmap" where
  "sentFrac K s from to amt =
    fm_put0 to (fm_get0 (fracStore s) to + amt mod CF K - carries K s to amt * CF K)
      (fm_put0 from (fm_get0 (fracStore s) from - amt mod CF K + borrows K s from amt * CF K)
        (fracStore s))"

definition sentDelta :: "'b pb_keeper \<Rightarrow> 'b pb_ctx \<Rightarrow> AccAddress \<Rightarrow> AccAddress \<Rightarrow> int \<Rightarrow> AccAddress \<Rightarrow> int" where
  "sentDelta K s from to amt = (\<lambda>a.
     (if a = to then amt div CF K + carries K s to amt else 0)
     - (if a = from then amt div CF K + borrows K s from amt else 0)
     + (if a = reserveAddr K then borrows K s from amt - carries K s to amt else 0))"

text \<open>The side conditions under which accounts take part in an extended transfer.\<close>

definition plain_pair :: "'b pb_keeper \<Rightarrow> AccAddress \<Rightarrow> AccAddress \<Rightarrow> bool" where
  "plain_pair K from to \<longleftrightarrow> from \<noteq> [] \<and> to \<noteq> [] \<and> from \<noteq> to \<and>
     from \<noteq> reserveAddr K \<and> to \<noteq> reserveAddr K"

definition passthrough :: "'b pb_keeper \<Rightarrow> coins \<Rightarrow> coins" where
  "passthrough K amt =
    (let e = AmountOf (coinsApi K) amt (ExtendedCoinDenom K)
     in if 0 < e then SubCoin (coinsApi K) amt (NewCoin (ExtendedCoinDenom K) e) else amt)"

definition payable :: "'b pb_keeper \<Rightarrow> AccAddress \<Rightarrow> coins \<Rightarrow> 'b pb_ctx \<Rightarrow> bool" where
  "payable K from amt s \<longleftrightarrow>
    (\<forall>d. d \<noteq> ExtendedCoinDenom K \<longrightarrow> AmountOf (coinsApi K) amt d \<le> bk_SpendableCoin (bk K) (bankState s) from d) \<and>
    Amount (SumExtendedCoin K amt) \<le> extSpendable K s from"

lemma borrows_carries_range:
  "borrows K s a amt \<in> {0, 1}" "carries K s a amt \<in> {0, 1}"
  by (simp_all add: borrows_def carries_def)

lemma mod_range:
  assumes "0 < CF K"
  shows "0 \<le> amt mod CF K" "\<not> CF K \<le> amt mod CF K"
  using assms by (simp_all add: not_le)

lemma subFrac_eq:
  assumes "pb_inv K s" "0 < CF K"
  shows "subFromFractionalBalance K (fm_get0 (fracStore s) a) (amt mod CF K) s' =
    (Ret (fm_get0 (fracStore s) a - amt mod CF K + borrows K s a amt * CF K, borrows K s a amt = 1), s')"
  using pb_invD(2) [OF assms, of a] mod_range(2) [OF assms(2), of amt]
  by (simp add: subFromFractionalBalance_def borrows_def)

lemma addFrac_eq:
  assumes "pb_inv K s" "0 < CF K"
  shows "addToFractionalBalance K (fm_get0 (fracStore s) a) (amt mod CF K) s' =
    (Ret (fm_get0 (fracStore s) a + amt mod CF K - carries K s a amt * CF K, carries K s a amt = 1), s')"
  using pb_invD(2) [OF assms, of a] mod_range(2) [OF assms(2), of amt]
  by (simp add: addToFractionalBalance_def carries_def)

lemma new_frac_range:
  assumes inv: "pb_inv K s" and C: "0 < CF K"
  shows "0 \<le> fm_get0 (fracStore s) a - amt mod CF K + borrows K s a amt * CF K"
    "fm_get0 (fracStore s) a - amt mod CF K + borrows K s a amt * CF K < CF K"
    "0 \<le> fm_get0 (fracStore s) a + amt mod CF K - carries K s a amt * CF K"
    "fm_get0 (fracStore s) a + amt mod CF K - carries K s a amt * CF K < CF K"
proof -
  define F f where "F = fm_get0 (fracStore s) a" and "f = amt mod CF K"
  have "0 \<le> F" "F < CF K" "0 \<le> f" "f < CF K"
    using pb_invD(1,2) [OF inv, of a] C by (simp_all add: F_def f_def)
  then show "0 \<le> fm_get0 (fracStore s) a - amt mod CF K + borrows K s a amt * CF K"
    "fm_get0 (fracStore s) a - amt mod CF K + borrows K s a amt * CF K < CF K"
    "0 \<le> fm_get0 (fracStore s) a + amt mod CF K - carries K s a amt * CF K"
    "fm_get0 (fracStore s) a + amt mod CF K - carries K s a amt * CF K < CF K"
    unfolding borrows_def carries_def F_def [symmetric] f_def [symmetric] by auto
qed

text \<open>The sender can pay exactly when it has the integer coins, borrowed coin included.\<close>

lemma borrow_arith:
  fixes C :: int
  assumes C: "0 < C" and F: "0 \<le> F" "F < C"
  shows "amt \<le> n * C + F \<longleftrightarrow> amt div C + of_bool (F < amt mod C) \<le> n"
proof -
  define q f where "q = amt div C" and "f = amt mod C"
  have f: "0 \<le> f" "f < C" using C by (simp_all add: f_def)
  have amt: "amt = q * C + f" by (simp add: q_def f_def)
  have up: "(q + 1) * C \<le> n * C" if "q + 1 \<le> n" using that C by (intro mult_right_mono) simp_all
  have eq: "q * C \<le> n * C" if "q \<le> n" using that C by (intro mult_right_mono) simp_all
  have down: "(n + 1) * C \<le> q * C" if "\<not> q \<le> n" using that C by (intro mult_right_mono) simp_all
  have low: "n * C \<le> q * C" if "\<not> q + 1 \<le> n" using that C by (intro mult_right_mono) simp_all
  have "q * C + f \<le> n * C + F \<longleftrightarrow> q + of_bool (F < f) \<le> n"
  proof (cases "F < f")
    case True
    show ?thesis
    proof (cases "q + 1 \<le> n")
      case le: True
      have "q * C + f \<le> n * C + F" using up [OF le] f F by (simp add: algebra_simps)
      then show ?thesis using True le by simp
    next
      case nle: False
      have "\<not> q * C + f \<le> n * C + F" using low [OF nle] True by linarith
      then show ?thesis using True nle by simp
    qed
  next
    case False
    show ?thesis
    proof (cases "q \<le> n")
      case le: True
      have "q * C + f \<le> n * C + F" using eq [OF le] False by linarith
      then show ?thesis using False le by simp
    next
      case nle: False
      have "\<not> q * C + f \<le> n * C + F" using down [OF nle] f F by (simp add: algebra_simps)
      then show ?thesis using False nle by simp
    qed
  qed
  then show ?thesis by (simp add: amt [symmetric] q_def f_def)
qed

lemma affordable_extended:
  assumes "pb_inv K s" "0 < CF K"
  shows "amt \<le> spd K b a * CF K + fm_get0 (fracStore s) a \<longleftrightarrow> amt div CF K + borrows K s a amt \<le> spd K b a"
  unfolding borrows_def by (rule borrow_arith [OF assms(2) pb_invD(1) [OF assms(1)] pb_invD(2) [OF assms]])

text \<open>A carry without a borrow is always backed by the reserve.\<close>

lemma reserve_backs_carry:
  assumes inv: "pb_inv K s" and C: "0 < CF K" and ne: "from \<noteq> to"
    and "borrows K s from amt = 0" "carries K s to amt = 1"
  shows "1 \<le> bal K (bankState s) (reserveAddr K)"
proof -
  have "CF K \<le> fm_get0 (fracStore s) from + fm_get0 (fracStore s) to"
    using assms(4,5) by (simp add: borrows_def carries_def split: if_splits)
  also have "\<dots> \<le> fm_total (fracStore s)"
    by (rule fm_total_ge2 [OF pb_invD(1) [OF inv] ne])
  also have "\<dots> \<le> bal K (bankState s) (reserveAddr K) * CF K"
    using pb_invD(5,7) [OF inv] by simp
  finally have "1 * CF K \<le> bal K (bankState s) (reserveAddr K) * CF K" by simp
  then show ?thesis using C mult_le_cancel_right [of 1 "CF K"] by auto
qed

section \<open>A transfer runs to completion\<close>

lemma sendExtended_run:
  assumes bc: "bank_contract K" and wired: "pb_wired K" and inv: "pb_inv K s"
    and pair: "plain_pair K from to" and amt: "0 \<le> amt"
    and pay: "amt div CF K + borrows K s from amt \<le> spd K (bankState s) from"
  obtains b' where
    "sendExtendedCoins K from to amt s = (Ret (), s\<lparr>bankState := b', fracStore := sentFrac K s from to amt,
       pbEvents := pbEvents s @
         [FractionalBalanceChange from (borrows K s from amt * CF K - amt mod CF K),
          FractionalBalanceChange to (amt mod CF K - carries K s to amt * CF K)]\<rparr>)"
    "bankStep K (sentDelta K s from to amt) {to, reserveAddr K} 0 (bankState s) b'"
proof -
  define R where "R = reserveAddr K"
  define B where "B = (borrows K s from amt = 1)"
  define A where "A = (carries K s to amt = 1)"
  define n where "n = amt div CF K + of_bool (B \<and> A)"
  note C = CF_pos [OF wired]
  note pp = pair [unfolded plain_pair_def, folded R_def]
  note one = oneDenom_valid(1) [OF bc zero_less_one]
  have BA: "borrows K s from amt = of_bool B" "carries K s to amt = of_bool A"
    using borrows_carries_range [of K s "from" amt] borrows_carries_range [of K s to amt]
    by (auto simp: B_def A_def)
  have n: "0 \<le> n" "n + of_bool (B \<and> \<not> A) \<le> spd K (bankState s) from"
    using amt C pay by (auto simp: n_def BA pos_imp_zdiv_nonneg_iff)
  obtain b1 where s1: "go_when (0 < n) (onBank (bk_SendCoins (bk K) from to (oneDenom K n))) s
        = (Ret (), s\<lparr>bankState := b1\<rparr>)"
      and e1: "bankStep K (moveDelta from to n) {to} 0 (bankState s) b1"
    by (rule guarded_transfer [of "0 < n" n K "from" to "bk_SendCoins (bk K) from to (oneDenom K n)" s])
      (use n bc oneDenom_valid(1) [OF bc] in \<open>auto intro!: contract_send(1) simp: of_bool_def split: if_splits\<close>)
  have "1 \<le> spd K b1 from" if "B \<and> \<not> A"
    using bankStep_spd [OF e1, of "from"] n(2) that pp by (auto simp: moveDelta_def)
  then obtain b2 where s2: "go_when (B \<and> \<not> A) (onBank (bk_SendCoinsFromAccountToModule (bk K) from
        ModuleName (oneDenom K 1))) (s\<lparr>bankState := b1\<rparr>) = (Ret (), s\<lparr>bankState := b2\<rparr>)"
      and e2: "bankStep K (moveDelta from R (of_bool (B \<and> \<not> A))) {R} 0 b1 b2"
    using guarded_transfer_one [OF contract_send(2) [OF bc one reserve_module(1) [OF bc wired]] bc,
        where s = "s\<lparr>bankState := b1\<rparr>" and P = "B \<and> \<not> A" and f = "from"]
    by (auto simp: R_def reserveAddr_def)
  have "1 \<le> spd K b2 R" if "\<not> B \<and> A"
    using reserve_backs_carry [OF inv C, of "from" to amt] pp that
      bankStep_bal [OF e1, of R] bankStep_bal [OF e2, of R] reserve_module(3) [OF bc wired]
    by (auto simp: moveDelta_def BA R_def)
  then obtain b3 where s3: "go_when (\<not> B \<and> A) (onBank (bk_SendCoins (bk K) R to (oneDenom K 1)))
        (s\<lparr>bankState := b2\<rparr>) = (Ret (), s\<lparr>bankState := b3\<rparr>)"
      and e3: "bankStep K (moveDelta R to (of_bool (\<not> B \<and> A))) {to} 0 b2 b3"
    using guarded_transfer_one [OF contract_send(1) [OF bc one] bc,
        where s = "s\<lparr>bankState := b2\<rparr>" and P = "\<not> B \<and> A" and f = R and t = to]
    by auto
  have step: "bankStep K (sentDelta K s from to amt) {to, reserveAddr K} 0 (bankState s) b3"
    by (rule bankStep_cong [OF bankStep_trans [OF bankStep_trans [OF e1 e2] e3]])
      (auto simp: moveDelta_def sentDelta_def BA n_def R_def)
  have if_n: "(if B \<and> A then amt div CF K + 1 else amt div CF K) = n"
    by (simp add: n_def)
  have run: "sendExtendedCoins K from to amt s = (Ret (), s\<lparr>bankState := b3,
      fracStore := sentFrac K s from to amt, pbEvents := pbEvents s @
         [FractionalBalanceChange from (borrows K s from amt * CF K - amt mod CF K),
          FractionalBalanceChange to (amt mod CF K - carries K s to amt * CF K)]\<rparr>)"
    using s1 s2 s3 pp new_frac_range [OF inv C] amt C
    by (simp add: sendExtendedCoins_def Let_def R_def reserveAddr_def [symmetric] if_n
        subFrac_eq [OF inv C] addFrac_eq [OF inv C] B_def [symmetric] A_def [symmetric]
        SetFractionalBalance_eq sentFrac_def GetFractionalBalance_fm del: go_when_app)
  show thesis by (rule that [OF run step])
qed

lemma guarded_send_fails:
  assumes "transfers K f t (oneDenom K n) m" "bank_contract K" "0 < n"
    and "\<not> n \<le> spd K (bankState s) f" "f \<noteq> reserveAddr K"
  shows "go_mapErr (updateInsufficientFundsError K f amt) (onBank m) s =
    (Err (ErrInsufficientFunds [NewCoin (ExtendedCoinDenom K) (extSpendable K s f),
       NewCoin (ExtendedCoinDenom K) amt]), s)"
proof -
  from transfers_one(2) [OF assms(1-4)] obtain cs where
    "m (bankState s) = (Err (ErrInsufficientFunds cs), bankState s)" by blast
  then have "onBank m s = (Err (ErrInsufficientFunds cs), s)" by (simp add: onBank_eq)
  then show ?thesis
    using assms(5)
    by (simp add: go_mapErr_eq updateInsufficientFundsError_def extSpendable_def SpendableCoin_def Let_def)
qed

lemma sendExtended_fail:
  assumes bc: "bank_contract K" and wired: "pb_wired K" and inv: "pb_inv K s"
    and pair: "plain_pair K from to" and amt: "0 \<le> amt"
    and nopay: "\<not> amt div CF K + borrows K s from amt \<le> spd K (bankState s) from"
  shows "\<exists>b' x. sendExtendedCoins K from to amt s =
      (Err (ErrInsufficientFunds [NewCoin (ExtendedCoinDenom K) x, NewCoin (ExtendedCoinDenom K) amt]),
       s\<lparr>bankState := b'\<rparr>) \<and> x \<le> extSpendable K s from"
proof -
  define B where "B = (borrows K s from amt = 1)"
  define A where "A = (carries K s to amt = 1)"
  define n where "n = amt div CF K + of_bool (B \<and> A)"
  note C = CF_pos [OF wired]
  note pp = pair [unfolded plain_pair_def]
  note one = oneDenom_valid(1) [OF bc zero_less_one]
  have BA: "borrows K s from amt = of_bool B" "carries K s to amt = of_bool A"
    using borrows_carries_range [of K s "from" amt] borrows_carries_range [of K s to amt]
    by (auto simp: B_def A_def)
  have n: "0 \<le> n" using amt C by (auto simp: n_def pos_imp_zdiv_nonneg_iff)
  have if_n: "(if B \<and> A then amt div CF K + 1 else amt div CF K) = n"
    by (simp add: n_def)
  note unfold = sendExtendedCoins_def Let_def reserveAddr_def [symmetric] if_n
    subFrac_eq [OF inv C] addFrac_eq [OF inv C] B_def [symmetric] A_def [symmetric] GetFractionalBalance_fm
  show ?thesis
  proof (cases "n \<le> spd K (bankState s) from")
    case False
    then have "0 < n" using spd_bounds(1) [OF bc, of "bankState s" "from" "IntegerCoinDenom K"] by simp
    from guarded_send_fails [OF contract_send(1) [OF bc oneDenom_valid(1) [OF bc this]] bc this False]
    show ?thesis
      using pp \<open>0 < n\<close> amt C by (intro exI [of _ "bankState s"]) (simp add: unfold go_when_def)
  next
    case True
    obtain b1 where s1: "go_when (0 < n) (onBank (bk_SendCoins (bk K) from to (oneDenom K n))) s
          = (Ret (), s\<lparr>bankState := b1\<rparr>)"
        and e1: "bankStep K (moveDelta from to n) {to} 0 (bankState s) b1"
      by (rule guarded_transfer [of "0 < n" n K "from" to "bk_SendCoins (bk K) from to (oneDenom K n)" s])
        (use n True bc oneDenom_valid(1) [OF bc] in \<open>auto intro!: contract_send(1)\<close>)
    have spd1: "spd K b1 from = spd K (bankState s) from - n"
      using bankStep_spd [OF e1, of "from"] pp by (simp add: moveDelta_def)
    have BnA: "B" "\<not> A" and zero: "\<not> 1 \<le> spd K b1 from"
      using nopay True spd1 by (auto simp: BA n_def of_bool_def split: if_splits)
    have less: "extSpendable K (s\<lparr>bankState := b1\<rparr>) from \<le> extSpendable K s from"
      using pp n C by (simp add: extSpendable_eq spd1 mult_right_mono)
    have "go_mapErr (updateInsufficientFundsError K from amt) (go_when (B \<and> \<not> A)
        (onBank (bk_SendCoinsFromAccountToModule (bk K) from ModuleName (oneDenom K 1))))
        (s\<lparr>bankState := b1\<rparr>) = (Err (ErrInsufficientFunds [NewCoin (ExtendedCoinDenom K)
          (extSpendable K (s\<lparr>bankState := b1\<rparr>) from), NewCoin (ExtendedCoinDenom K) amt]), s\<lparr>bankState := b1\<rparr>)"
      using guarded_send_fails [OF contract_send(2) [OF bc one reserve_module(1) [OF bc wired]] bc
          zero_less_one, of "s\<lparr>bankState := b1\<rparr>" "from" amt] zero pp BnA
      by (simp add: go_when_def)
    then show ?thesis using s1 pp amt C less
      by (intro exI [of _ b1] exI [of _ "extSpendable K (s\<lparr>bankState := b1\<rparr>) from"] conjI)
        (simp_all add: unfold del: go_when_app)
  qed
qed

section \<open>Invariant and ledger\<close>

lemma sentFrac_get:
  assumes "from \<noteq> to"
  shows "fm_get0 (sentFrac K s from to amt) a = fm_get0 (fracStore s) a
     + (if a = to then amt mod CF K - carries K s to amt * CF K else 0)
     - (if a = from then amt mod CF K - borrows K s from amt * CF K else 0)"
  using assms by (simp add: sentFrac_def)

lemma sent_inv:
  assumes inv: "pb_inv K s" and C: "0 < CF K" and pair: "plain_pair K from to"
    and step: "bankStep K (sentDelta K s from to amt) G 0 (bankState s) b'"
  shows "pb_inv K (s\<lparr>bankState := b', fracStore := sentFrac K s from to amt, pbEvents := evs\<rparr>)"
proof -
  note pp = pair [unfolded plain_pair_def]
  have tot: "fm_total (sentFrac K s from to amt)
      = fm_total (fracStore s) + (borrows K s from amt - carries K s to amt) * CF K"
    using pp by (auto simp: sentFrac_def algebra_simps)
  have balR: "bal K b' (reserveAddr K) =
      bal K (bankState s) (reserveAddr K) + borrows K s from amt - carries K s to amt"
    using bankStep_bal [OF step, of "reserveAddr K"] pp by (auto simp: sentDelta_def)
  have "\<forall>a v. fmlookup (sentFrac K s from to amt) a = Some v \<longrightarrow> 0 < v \<and> v < CF K \<and> a \<noteq> []"
    unfolding sentFrac_def
    by (intro frac_ok_put) (use inv pp new_frac_range [OF inv C] in \<open>auto simp: pb_inv_def\<close>)
  moreover have "fmlookup (sentFrac K s from to amt) (reserveAddr K) = None"
    using inv pp not_sym [of "from" "reserveAddr K"] not_sym [of to "reserveAddr K"]
    by (simp add: sentFrac_def pb_inv_def)
  moreover have "bal K b' (reserveAddr K) * CF K = fm_total (sentFrac K s from to amt) + GetRemainderAmount s"
    unfolding tot balR using pb_invD(7) [OF inv] by (simp add: algebra_simps)
  ultimately show ?thesis using pb_inv_rem [OF inv] by (intro pb_invI) simp_all
qed

lemma sent_ledger:
  assumes pair: "plain_pair K from to"
    and step: "bankStep K (sentDelta K s from to amt) G 0 (bankState s) b'"
  shows "extBalance K (s\<lparr>bankState := b', fracStore := sentFrac K s from to amt, pbEvents := evs\<rparr>)
    = ledgerTransfer from to amt (extBalance K s)"
proof
  fix a
  show "extBalance K (s\<lparr>bankState := b', fracStore := sentFrac K s from to amt, pbEvents := evs\<rparr>) a
    = ledgerTransfer from to amt (extBalance K s) a"
  proof (cases "a = reserveAddr K")
    case True
    then show ?thesis using pair by (auto simp: ledgerTransfer_def plain_pair_def)
  next
    case False
    have "amt = amt div CF K * CF K + amt mod CF K" by simp
    then show ?thesis
      using pair False
      by (auto simp: ledgerTransfer_def plain_pair_def extBalance_eq sentFrac_get sentDelta_def
          bankStep_bal [OF step] algebra_simps)
  qed
qed

lemma payable_iff:
  assumes "pb_inv K s" "0 < CF K" "a \<noteq> reserveAddr K"
  shows "amt div CF K + borrows K s a amt \<le> spd K (bankState s) a \<longleftrightarrow> amt \<le> extSpendable K s a"
  using affordable_extended [OF assms(1,2), of amt "bankState s" a] assms(3)
  by (simp add: extSpendable_eq)

section \<open>The whole of SendCoins\<close>

lemma coins_nonneg: "bank_contract K \<Longrightarrow> IsValid (coinsApi K) cs \<Longrightarrow> 0 \<le> AmountOf (coinsApi K) cs d"
  by (simp add: bank_contract_def coins_contract_def)

lemma passthrough_amounts:
  assumes bc: "bank_contract K" and v: "IsValid (coinsApi K) amt"
  shows "IsValid (coinsApi K) (passthrough K amt)"
    and "AmountOf (coinsApi K) (passthrough K amt) d =
      (if d = ExtendedCoinDenom K then 0 else AmountOf (coinsApi K) amt d)"
proof -
  have cc: "coins_contract (coinsApi K)" using bc by (simp add: bank_contract_def)
  show "IsValid (coinsApi K) (passthrough K amt)"
    using cc v by (simp add: passthrough_def coins_contract_def Let_def)
  show "AmountOf (coinsApi K) (passthrough K amt) d =
      (if d = ExtendedCoinDenom K then 0 else AmountOf (coinsApi K) amt d)"
    using cc v coins_nonneg [OF bc v, of d]
    by (auto simp: passthrough_def coins_contract_def Let_def not_less intro: order_antisym)
qed

text \<open>The passthrough coins move through x/bank alone.\<close>

lemma passthrough_send:
  assumes bc: "bank_contract K" and v: "IsValid (coinsApi K) cs"
  shows "\<forall>d. AmountOf (coinsApi K) cs d \<le> bk_SpendableCoin (bk K) (bankState s) from d \<Longrightarrow>
      \<exists>b'. go_when (IsAllPositive (coinsApi K) cs) (onBank (bk_SendCoins (bk K) from to cs)) s
          = (Ret (), s\<lparr>bankState := b'\<rparr>) \<and>
        (\<forall>a d. bk_GetBalance (bk K) b' a d = bk_GetBalance (bk K) (bankState s) a d
            - (if a = from then AmountOf (coinsApi K) cs d else 0)
            + (if a = to then AmountOf (coinsApi K) cs d else 0)) \<and>
        (\<forall>a d. a \<noteq> to \<longrightarrow> bk_SpendableCoin (bk K) b' a d = bk_SpendableCoin (bk K) (bankState s) a d
            - (if a = from then AmountOf (coinsApi K) cs d else 0)) \<and>
        (\<forall>d. bk_GetSupply (bk K) b' d = bk_GetSupply (bk K) (bankState s) d)" (is "?ok \<Longrightarrow> ?moved")
    and "\<not> (\<forall>d. AmountOf (coinsApi K) cs d \<le> bk_SpendableCoin (bk K) (bankState s) from d) \<Longrightarrow>
      \<exists>cs'. go_when (IsAllPositive (coinsApi K) cs) (onBank (bk_SendCoins (bk K) from to cs)) s
          = (Err (ErrInsufficientFunds cs'), s)"
proof -
  note tr = contract_send(1) [OF bc v, of "from" to, unfolded transfers_def, rule_format, of "bankState s"]
  have zero: "AmountOf (coinsApi K) cs d = 0" if "\<not> IsAllPositive (coinsApi K) cs" for d
    using bc v that by (simp add: bank_contract_def coins_contract_def)
  show ?moved if ok: ?ok
  proof (cases "IsAllPositive (coinsApi K) cs")
    case True
    from tr ok obtain b' where "bk_SendCoins (bk K) from to cs (bankState s) = (Ret (), b')"
      and "(\<forall>a d. bk_GetBalance (bk K) b' a d = bk_GetBalance (bk K) (bankState s) a d
            - (if a = from then AmountOf (coinsApi K) cs d else 0)
            + (if a = to then AmountOf (coinsApi K) cs d else 0)) \<and>
        (\<forall>a d. a \<noteq> to \<longrightarrow> bk_SpendableCoin (bk K) b' a d = bk_SpendableCoin (bk K) (bankState s) a d
            - (if a = from then AmountOf (coinsApi K) cs d else 0)) \<and>
        (\<forall>d. bk_GetSupply (bk K) b' d = bk_GetSupply (bk K) (bankState s) d)"
      by (auto simp del: fun_upd_apply)
    then show ?thesis using True by (intro exI [of _ b']) (simp add: onBank_eq)
  next
    case False
    then show ?thesis by (intro exI [of _ "bankState s"]) (simp add: zero)
  qed
  show "\<exists>cs'. go_when (IsAllPositive (coinsApi K) cs) (onBank (bk_SendCoins (bk K) from to cs)) s
          = (Err (ErrInsufficientFunds cs'), s)"
    if no: "\<not> (\<forall>d. AmountOf (coinsApi K) cs d \<le> bk_SpendableCoin (bk K) (bankState s) from d)"
  proof -
    have "IsAllPositive (coinsApi K) cs" using no zero spd_bounds(1) [OF bc] by fastforce
    moreover from tr no obtain cs' where
      "bk_SendCoins (bk K) from to cs (bankState s) = (Err (ErrInsufficientFunds cs'), bankState s)"
      by (auto split: if_splits)
    ultimately show ?thesis by (intro exI [of _ cs']) (simp add: onBank_eq)
  qed
qed

lemma passthrough_inv:
  assumes "pb_inv K s" "bal K b' (reserveAddr K) = bal K (bankState s) (reserveAddr K)"
  shows "pb_inv K (s\<lparr>bankState := b'\<rparr>)"
  using assms by (simp add: pb_inv_def GetTotalSum_fm)

lemma sendExtended_dichotomy:
  assumes bc: "bank_contract K" and wired: "pb_wired K" and inv: "pb_inv K s"
    and pair: "plain_pair K from to" and amt: "0 \<le> amt"
  shows "amt \<le> extSpendable K s from \<Longrightarrow> \<exists>s'. sendExtendedCoins K from to amt s = (Ret (), s') \<and> pb_inv K s' \<and>
      extBalance K s' = ledgerTransfer from to amt (extBalance K s) \<and> extSupply K s' = extSupply K s \<and>
      remStore s' = remStore s \<and> (\<forall>d a. d \<noteq> IntegerCoinDenom K \<longrightarrow>
        bk_GetBalance (bk K) (bankState s') a d = bk_GetBalance (bk K) (bankState s) a d)"
    and "\<not> amt \<le> extSpendable K s from \<Longrightarrow>
      \<exists>b' x. sendExtendedCoins K from to amt s = (Err (ErrInsufficientFunds
          [NewCoin (ExtendedCoinDenom K) x, NewCoin (ExtendedCoinDenom K) amt]), s\<lparr>bankState := b'\<rparr>) \<and>
        x \<le> extSpendable K s from"
proof -
  have R: "from \<noteq> reserveAddr K" using pair by (simp add: plain_pair_def)
  note C = CF_pos [OF wired]
  note pay = payable_iff [OF inv C R, of amt]
  {
    assume "amt \<le> extSpendable K s from"
    then obtain b' where run: "sendExtendedCoins K from to amt s = (Ret (), s\<lparr>bankState := b',
         fracStore := sentFrac K s from to amt, pbEvents := pbEvents s @
         [FractionalBalanceChange from (borrows K s from amt * CF K - amt mod CF K),
          FractionalBalanceChange to (amt mod CF K - carries K s to amt * CF K)]\<rparr>)"
      and step: "bankStep K (sentDelta K s from to amt) {to, reserveAddr K} 0 (bankState s) b'"
      using sendExtended_run [OF bc wired inv pair amt] pay by blast
    show "\<exists>s'. sendExtendedCoins K from to amt s = (Ret (), s') \<and> pb_inv K s' \<and>
      extBalance K s' = ledgerTransfer from to amt (extBalance K s) \<and> extSupply K s' = extSupply K s \<and>
      remStore s' = remStore s \<and> (\<forall>d a. d \<noteq> IntegerCoinDenom K \<longrightarrow>
        bk_GetBalance (bk K) (bankState s') a d = bk_GetBalance (bk K) (bankState s) a d)"
      using run sent_inv [OF inv C pair step] sent_ledger [OF pair step] bankStep_sup [OF step]
        bankStep_other [OF step]
      by (simp add: extSupply_def GetSupply_def)
  }
  show "\<not> amt \<le> extSpendable K s from \<Longrightarrow>
      \<exists>b' x. sendExtendedCoins K from to amt s = (Err (ErrInsufficientFunds
          [NewCoin (ExtendedCoinDenom K) x, NewCoin (ExtendedCoinDenom K) amt]), s\<lparr>bankState := b'\<rparr>) \<and>
        x \<le> extSpendable K s from"
    using sendExtended_fail [OF bc wired inv pair amt] pay by blast
qed

lemma SendCoins_alt:
  "IsValid (coinsApi K) amt \<Longrightarrow> SendCoins K from to amt =
    go_seq (go_when (IsAllPositive (coinsApi K) (passthrough K amt))
        (onBank (bk_SendCoins (bk K) from to (passthrough K amt))))
      (go_when (0 < AmountOf (coinsApi K) amt (ExtendedCoinDenom K))
        (sendExtendedCoins K from to (AmountOf (coinsApi K) amt (ExtendedCoinDenom K))))"
  by (simp add: SendCoins_def passthrough_def Let_def)

lemma SumExtendedCoin_amount [simp]:
  "Amount (SumExtendedCoin K amt) = AmountOf (coinsApi K) amt (IntegerCoinDenom K) * CF K
     + AmountOf (coinsApi K) amt (ExtendedCoinDenom K)"
  by (simp add: SumExtendedCoin_def)

lemma SendCoins_ok:
  assumes bc: "bank_contract K" and wired: "pb_wired K" and inv: "pb_inv K s"
    and pair: "plain_pair K from to" and v: "IsValid (coinsApi K) amt"
    and denoms: "\<not> IsExtendedDenomSameAsIntegerDenom K" and pay: "payable K from amt s"
  shows "\<exists>s'. SendCoins K from to amt s = (Ret (), s') \<and> pb_inv K s' \<and>
    extBalance K s' = ledgerTransfer from to (Amount (SumExtendedCoin K amt)) (extBalance K s) \<and>
    (\<forall>d. d \<notin> {IntegerCoinDenom K, ExtendedCoinDenom K} \<longrightarrow>
      (\<lambda>a. bk_GetBalance (bk K) (bankState s') a d) =
      ledgerTransfer from to (AmountOf (coinsApi K) amt d) (\<lambda>a. bk_GetBalance (bk K) (bankState s) a d)) \<and>
    extSupply K s' = extSupply K s"
proof -
  define e where "e = AmountOf (coinsApi K) amt (ExtendedCoinDenom K)"
  note pp = pair [unfolded plain_pair_def]
  note pa = passthrough_amounts [OF bc v]
  have IE: "IntegerCoinDenom K \<noteq> ExtendedCoinDenom K" using denoms by (simp add: IsExtendedDenomSameAsIntegerDenom_def)
  have "\<forall>d. AmountOf (coinsApi K) (passthrough K amt) d \<le> bk_SpendableCoin (bk K) (bankState s) from d"
    using pay spd_bounds(1) [OF bc] by (simp add: pa(2) payable_def)
  from passthrough_send(1) [OF bc pa(1) this, of to] obtain b1 where
    s1: "go_when (IsAllPositive (coinsApi K) (passthrough K amt))
        (onBank (bk_SendCoins (bk K) from to (passthrough K amt))) s = (Ret (), s\<lparr>bankState := b1\<rparr>)"
    and bal1: "\<And>a d. bk_GetBalance (bk K) b1 a d = bk_GetBalance (bk K) (bankState s) a d
            - (if a = from then AmountOf (coinsApi K) (passthrough K amt) d else 0)
            + (if a = to then AmountOf (coinsApi K) (passthrough K amt) d else 0)"
    and sp1: "\<And>a d. a \<noteq> to \<Longrightarrow> bk_SpendableCoin (bk K) b1 a d = bk_SpendableCoin (bk K) (bankState s) a d
            - (if a = from then AmountOf (coinsApi K) (passthrough K amt) d else 0)"
    and sup1: "\<And>d. bk_GetSupply (bk K) b1 d = bk_GetSupply (bk K) (bankState s) d" by blast
  have inv1: "pb_inv K (s\<lparr>bankState := b1\<rparr>)"
    by (rule passthrough_inv [OF inv]) (use pp in \<open>auto simp: bal1\<close>)
  have e: "0 \<le> e" "e \<le> extSpendable K (s\<lparr>bankState := b1\<rparr>) from"
    using coins_nonneg [OF bc v] pay pp IE
    by (auto simp: e_def payable_def extSpendable_eq sp1 pa(2) algebra_simps)
  obtain s' where s': "go_when (0 < e) (sendExtendedCoins K from to e) (s\<lparr>bankState := b1\<rparr>) = (Ret (), s')"
      "pb_inv K s'" "extBalance K s' = ledgerTransfer from to e (extBalance K (s\<lparr>bankState := b1\<rparr>))"
      "extSupply K s' = extSupply K (s\<lparr>bankState := b1\<rparr>)"
      "\<forall>d a. d \<noteq> IntegerCoinDenom K \<longrightarrow> bk_GetBalance (bk K) (bankState s') a d = bk_GetBalance (bk K) b1 a d"
    using sendExtended_dichotomy(1) [OF bc wired inv1 pair e] e(1) inv1
    by (cases "0 < e") (auto simp: ledgerTransfer_def)
  have "extBalance K (s\<lparr>bankState := b1\<rparr>) =
      ledgerTransfer from to (AmountOf (coinsApi K) amt (IntegerCoinDenom K) * CF K) (extBalance K s)"
  proof
    show "extBalance K (s\<lparr>bankState := b1\<rparr>) a =
      ledgerTransfer from to (AmountOf (coinsApi K) amt (IntegerCoinDenom K) * CF K) (extBalance K s) a" for a
      using pp IE by (cases "a = reserveAddr K") (auto simp: ledgerTransfer_def extBalance_eq bal1 pa(2) algebra_simps)
  qed
  then show ?thesis
    using s1 s' v IE
    by (intro exI [of _ s']) (auto simp: SendCoins_alt e_def [symmetric] ledgerTransfer_def bal1 pa(2)
        extSupply_def GetSupply_def sup1 fun_eq_iff simp del: go_when_app)
qed

lemma SendCoins_refused:
  assumes bc: "bank_contract K" and wired: "pb_wired K" and inv: "pb_inv K s"
    and pair: "plain_pair K from to" and v: "IsValid (coinsApi K) amt"
    and denoms: "\<not> IsExtendedDenomSameAsIntegerDenom K" and nopay: "\<not> payable K from amt s"
  shows "\<exists>cs b'. SendCoins K from to amt s = (Err (ErrInsufficientFunds cs), s\<lparr>bankState := b'\<rparr>)"
proof -
  define e where "e = AmountOf (coinsApi K) amt (ExtendedCoinDenom K)"
  note pp = pair [unfolded plain_pair_def]
  note pa = passthrough_amounts [OF bc v]
  note C = CF_pos [OF wired]
  have IE: "IntegerCoinDenom K \<noteq> ExtendedCoinDenom K" using denoms by (simp add: IsExtendedDenomSameAsIntegerDenom_def)
  show ?thesis
  proof (cases "\<forall>d. AmountOf (coinsApi K) (passthrough K amt) d \<le> bk_SpendableCoin (bk K) (bankState s) from d")
    case False
    from passthrough_send(2) [OF bc pa(1) this, of to] obtain cs where
      "go_when (IsAllPositive (coinsApi K) (passthrough K amt))
          (onBank (bk_SendCoins (bk K) from to (passthrough K amt))) s = (Err (ErrInsufficientFunds cs), s)"
      by blast
    then show ?thesis using v
      by (intro exI [of _ cs] exI [of _ "bankState s"]) (simp add: SendCoins_alt del: go_when_app)
  next
    case True
    from passthrough_send(1) [OF bc pa(1) this, of to] obtain b1 where
      s1: "go_when (IsAllPositive (coinsApi K) (passthrough K amt))
          (onBank (bk_SendCoins (bk K) from to (passthrough K amt))) s = (Ret (), s\<lparr>bankState := b1\<rparr>)"
      and bal1: "\<And>a d. bk_GetBalance (bk K) b1 a d = bk_GetBalance (bk K) (bankState s) a d
              - (if a = from then AmountOf (coinsApi K) (passthrough K amt) d else 0)
              + (if a = to then AmountOf (coinsApi K) (passthrough K amt) d else 0)"
      and sp1: "\<And>a d. a \<noteq> to \<Longrightarrow> bk_SpendableCoin (bk K) b1 a d = bk_SpendableCoin (bk K) (bankState s) a d
              - (if a = from then AmountOf (coinsApi K) (passthrough K amt) d else 0)" by blast
    have inv1: "pb_inv K (s\<lparr>bankState := b1\<rparr>)"
      by (rule passthrough_inv [OF inv]) (use pp in \<open>auto simp: bal1\<close>)
    have "\<not> Amount (SumExtendedCoin K amt) \<le> extSpendable K s from"
      using nopay True by (auto simp: payable_def pa(2) split: if_splits)
    then have e: "\<not> e \<le> extSpendable K (s\<lparr>bankState := b1\<rparr>) from"
      using pp IE by (auto simp: e_def extSpendable_eq sp1 pa(2) algebra_simps)
    have e0: "0 < e"
      using e C spd_bounds(1) [OF bc, of b1 "from" "IntegerCoinDenom K"] pb_invD(1) [OF inv, of "from"] pp
      by (auto simp: extSpendable_eq not_le intro: le_less_trans [rotated])
    from sendExtended_dichotomy(2) [OF bc wired inv1 pair less_imp_le [OF e0] e] s1 v e0 show ?thesis
      by (auto simp: SendCoins_alt e_def [symmetric] simp del: go_when_app) (auto simp: go_when_def)
  qed
qed

end
