(* ===== verification/PreciseBankMint.thy ===== *)
theory PreciseBankMint
  imports PreciseBankSend
begin

text \<open>
  Minting and burning extended coins: \<open>x/precisebank/keeper/mint.go\<close> and \<open>burn.go\<close>.  The
  integer supply of x/bank only changes in whole coins; the remainder holds the part of the
  reserve that is not in circulation.
\<close>

section \<open>Definitions\<close>

definition mintExtendedCoin :: "'b pb_keeper \<Rightarrow> string \<Rightarrow> int \<Rightarrow> ('b, unit) pb_go" where
  "mintExtendedCoin K recipientModuleName amt =
    (let moduleAddr = ak_GetModuleAddress (ak K) recipientModuleName
     in if recipientModuleName = ModuleName
     then
       let integerMintAmount = Quo amt (ConversionFactorPB K)
       in go_when (0 < integerMintAmount)
            (onBank (bk_MintCoins (bk K) recipientModuleName
               (NewCoins (coinsApi K) (NewCoin (IntegerCoinDenom K) integerMintAmount))))
     else
       go_bind (go_gets (GetFractionalBalance moduleAddr)) (\<lambda>fractionalAmount.
       let integerMintAmount0 = Quo amt (ConversionFactorPB K);
           fractionalMintAmount = Mod amt (ConversionFactorPB K)
       in
       go_bind (go_gets GetRemainderAmount) (\<lambda>prevRemainder.
       let newRemainder0 = prevRemainder - fractionalMintAmount;
           newFractionalBalance0 = fractionalAmount + fractionalMintAmount
       in
       go_seq
         (go_when (newFractionalBalance0 \<ge> ConversionFactorPB K \<and> newRemainder0 \<ge> 0)
           (onBank (bk_SendCoinsFromModuleToModule (bk K) ModuleName recipientModuleName
              (NewCoins (coinsApi K) (NewCoin (IntegerCoinDenom K) 1)))))
       (let integerMintAmount =
              (if newFractionalBalance0 \<ge> ConversionFactorPB K \<and> newRemainder0 < 0
               then integerMintAmount0 + 1 else integerMintAmount0);
            newFractionalBalance =
              (if newFractionalBalance0 \<ge> ConversionFactorPB K
               then newFractionalBalance0 - ConversionFactorPB K else newFractionalBalance0)
        in
       go_seq
         (go_when (0 < integerMintAmount)
           (onBank (bk_MintCoins (bk K) recipientModuleName
              (NewCoins (coinsApi K) (NewCoin (IntegerCoinDenom K) integerMintAmount)))))
       (go_seq (SetFractionalBalance K moduleAddr newFractionalBalance)
       (let wasCarried = fractionalAmount + fractionalMintAmount \<ge> ConversionFactorPB K
        in
       go_seq
         (go_when (prevRemainder < fractionalMintAmount \<and> \<not> wasCarried)
           (onBank (bk_MintCoins (bk K) ModuleName
              (NewCoins (coinsApi K) (NewCoin (IntegerCoinDenom K) 1)))))
       (let newRemainder =
              (if newRemainder0 < 0 then newRemainder0 + ConversionFactorPB K else newRemainder0)
        in
       go_seq (SetRemainderAmount K newRemainder)
         (EmitEventFractionalBalanceChange moduleAddr fractionalAmount newFractionalBalance))))))))"

definition MintCoins :: "'b pb_keeper \<Rightarrow> string \<Rightarrow> coins \<Rightarrow> ('b, unit) pb_go" where
  "MintCoins K moduleName amt =
    (if moduleName = ModuleName then go_panic ''module account cannot be minted to''
     else case ak_GetModuleAccount (ak K) moduleName of
       None \<Rightarrow> go_panic ''module account does not exist''
     | Some acc \<Rightarrow>
       if \<not> HasPermission acc ''minter''
       then go_panic ''module account does not have permissions to mint tokens''
       else if \<not> IsValid (coinsApi K) amt then go_err ErrInvalidCoins
       else
         let extendedAmount = AmountOf (coinsApi K) amt (ExtendedCoinDenom K);
             passthroughCoins =
               (if 0 < extendedAmount
                then SubCoin (coinsApi K) amt (NewCoin (ExtendedCoinDenom K) extendedAmount)
                else amt)
         in go_seq (go_when (\<not> EmptyCoins (coinsApi K) passthroughCoins)
              (onBank (bk_MintCoins (bk K) moduleName passthroughCoins)))
            (go_when (0 < extendedAmount) (mintExtendedCoin K moduleName extendedAmount)))"

definition burnExtendedCoin :: "'b pb_keeper \<Rightarrow> string \<Rightarrow> int \<Rightarrow> ('b, unit) pb_go" where
  "burnExtendedCoin K moduleName amt =
    (let moduleAddr = ak_GetModuleAddress (ak K) moduleName
     in if moduleName = ModuleName
     then
       let integerBurnAmount = Quo amt (ConversionFactorPB K)
       in go_when (0 < integerBurnAmount)
            (onBank (bk_BurnCoins (bk K) moduleName
               (NewCoins (coinsApi K) (NewCoin (IntegerCoinDenom K) integerBurnAmount))))
     else
       go_bind (go_gets (GetFractionalBalance moduleAddr)) (\<lambda>prevFractionalBalance.
       go_bind (go_gets GetRemainderAmount) (\<lambda>prevRemainder.
       let integerBurnAmount0 = Quo amt (ConversionFactorPB K);
           fractionalBurnAmount = Mod amt (ConversionFactorPB K);
           newFractionalBalance0 = prevFractionalBalance - fractionalBurnAmount;
           requiresBorrow = newFractionalBalance0 < 0;
           newRemainder0 = prevRemainder + fractionalBurnAmount;
           overflowingRemainder = newRemainder0 \<ge> ConversionFactorPB K;
           newFractionalBalance =
             (if requiresBorrow then newFractionalBalance0 + ConversionFactorPB K
              else newFractionalBalance0);
           newRemainder =
             (if overflowingRemainder then newRemainder0 - ConversionFactorPB K else newRemainder0);
           integerBurnAmount =
             (if requiresBorrow \<and> overflowingRemainder then integerBurnAmount0 + 1
              else integerBurnAmount0)
       in
       go_seq (go_mapErr (updateInsufficientFundsError K moduleAddr amt)
         (go_when (requiresBorrow \<and> \<not> overflowingRemainder)
           (onBank (bk_SendCoinsFromModuleToModule (bk K) moduleName ModuleName
              (NewCoins (coinsApi K) (NewCoin (IntegerCoinDenom K) 1))))))
       (go_seq
         (go_when (\<not> requiresBorrow \<and> overflowingRemainder)
           (onBank (bk_BurnCoins (bk K) ModuleName
              (NewCoins (coinsApi K) (NewCoin (IntegerCoinDenom K) 1)))))
       (go_seq (go_mapErr (updateInsufficientFundsError K moduleAddr amt)
         (go_when (integerBurnAmount \<noteq> 0)
           (onBank (bk_BurnCoins (bk K) moduleName
              (NewCoins (coinsApi K) (NewCoin (IntegerCoinDenom K) integerBurnAmount))))))
       (go_seq (SetFractionalBalance K moduleAddr newFractionalBalance)
       (go_seq (SetRemainderAmount K newRemainder)
         (EmitEventFractionalBalanceChange moduleAddr prevFractionalBalance newFractionalBalance))))))))"

definition BurnCoins :: "'b pb_keeper \<Rightarrow> string \<Rightarrow> coins \<Rightarrow> ('b, unit) pb_go" where
  "BurnCoins K moduleName amt =
    (if moduleName = ModuleName then go_panic ''module account cannot be burned from''
     else case ak_GetModuleAccount (ak K) moduleName of
       None \<Rightarrow> go_panic ''module account does not exist''
     | Some acc \<Rightarrow>
       if \<not> HasPermission acc ''burner''
       then go_panic ''module account does not have permissions to burn tokens''
       else if \<not> IsValid (coinsApi K) amt then go_err ErrInvalidCoins
       else
         let extendedAmount = AmountOf (coinsApi K) amt (ExtendedCoinDenom K);
             passthroughCoins =
               (if 0 < extendedAmount
                then SubCoin (coinsApi K) amt (NewCoin (ExtendedCoinDenom K) extendedAmount)
                else amt)
         in go_seq (go_when (\<not> EmptyCoins (coinsApi K) passthroughCoins)
              (onBank (bk_BurnCoins (bk K) moduleName passthroughCoins)))
            (go_when (0 < extendedAmount) (burnExtendedCoin K moduleName extendedAmount)))"

section \<open>Remainder arithmetic\<close>

definition underflows :: "'b pb_keeper \<Rightarrow> 'b pb_ctx \<Rightarrow> int \<Rightarrow> int" where
  "underflows K s amt = of_bool (GetRemainderAmount s < amt mod CF K)"

definition overflows :: "'b pb_keeper \<Rightarrow> 'b pb_ctx \<Rightarrow> int \<Rightarrow> int" where
  "overflows K s amt = of_bool (CF K \<le> GetRemainderAmount s + amt mod CF K)"

definition mintedDelta :: "'b pb_keeper \<Rightarrow> 'b pb_ctx \<Rightarrow> AccAddress \<Rightarrow> int \<Rightarrow> AccAddress \<Rightarrow> int" where
  "mintedDelta K s m amt = (\<lambda>a.
     (if a = m then amt div CF K + carries K s m amt else 0)
     + (if a = reserveAddr K then underflows K s amt - carries K s m amt else 0))"

definition burnedDelta :: "'b pb_keeper \<Rightarrow> 'b pb_ctx \<Rightarrow> AccAddress \<Rightarrow> int \<Rightarrow> AccAddress \<Rightarrow> int" where
  "burnedDelta K s m amt = (\<lambda>a.
     (if a = reserveAddr K then borrows K s m amt - overflows K s amt else 0)
     - (if a = m then amt div CF K + borrows K s m amt else 0))"

definition mintedState :: "'b pb_keeper \<Rightarrow> 'b pb_ctx \<Rightarrow> AccAddress \<Rightarrow> int \<Rightarrow> 'b \<Rightarrow> 'b pb_ctx" where
  "mintedState K s m amt b' = s\<lparr>bankState := b',
     fracStore := fm_put0 m (fm_get0 (fracStore s) m + amt mod CF K - carries K s m amt * CF K) (fracStore s),
     remStore := rem_put (GetRemainderAmount s - amt mod CF K + underflows K s amt * CF K),
     pbEvents := pbEvents s @ [FractionalBalanceChange m (amt mod CF K - carries K s m amt * CF K)]\<rparr>"

definition burnedState :: "'b pb_keeper \<Rightarrow> 'b pb_ctx \<Rightarrow> AccAddress \<Rightarrow> int \<Rightarrow> 'b \<Rightarrow> 'b pb_ctx" where
  "burnedState K s m amt b' = s\<lparr>bankState := b',
     fracStore := fm_put0 m (fm_get0 (fracStore s) m - amt mod CF K + borrows K s m amt * CF K) (fracStore s),
     remStore := rem_put (GetRemainderAmount s + amt mod CF K - overflows K s amt * CF K),
     pbEvents := pbEvents s @ [FractionalBalanceChange m (borrows K s m amt * CF K - amt mod CF K)]\<rparr>"

text \<open>A module account other than the reserve, with the permission it needs.\<close>

definition plain_module :: "'b pb_keeper \<Rightarrow> string \<Rightarrow> string \<Rightarrow> bool" where
  "plain_module K n perm \<longleftrightarrow> n \<noteq> ModuleName \<and>
     (\<exists>acc. ak_GetModuleAccount (ak K) n = Some acc \<and> HasPermission acc perm)"

lemma new_rem_range:
  assumes inv: "pb_inv K s" and C: "0 < CF K"
  shows "0 \<le> GetRemainderAmount s - amt mod CF K + underflows K s amt * CF K"
    "GetRemainderAmount s - amt mod CF K + underflows K s amt * CF K < CF K"
    "0 \<le> GetRemainderAmount s + amt mod CF K - overflows K s amt * CF K"
    "GetRemainderAmount s + amt mod CF K - overflows K s amt * CF K < CF K"
proof -
  define f where "f = amt mod CF K"
  have "0 \<le> f" "f < CF K" "0 \<le> GetRemainderAmount s" "GetRemainderAmount s < CF K"
    using pb_invD(5,6) [OF inv] C by (simp_all add: f_def)
  then show "0 \<le> GetRemainderAmount s - amt mod CF K + underflows K s amt * CF K"
    "GetRemainderAmount s - amt mod CF K + underflows K s amt * CF K < CF K"
    "0 \<le> GetRemainderAmount s + amt mod CF K - overflows K s amt * CF K"
    "GetRemainderAmount s + amt mod CF K - overflows K s amt * CF K < CF K"
    unfolding underflows_def overflows_def f_def [symmetric] by auto
qed

lemma plain_moduleD:
  assumes "bank_contract K" "pb_wired K" "plain_module K n perm"
  shows "ak_GetModuleAddress (ak K) n \<noteq> reserveAddr K" "ak_GetModuleAddress (ak K) n \<noteq> []"
    "n \<noteq> ModuleName" "isModule K n"
    "\<exists>acc. ak_GetModuleAccount (ak K) n = Some acc \<and> HasPermission acc perm"
proof -
  from assms(3) obtain acc where acc: "ak_GetModuleAccount (ak K) n = Some acc" "HasPermission acc perm"
      and n: "n \<noteq> ModuleName" by (auto simp: plain_module_def)
  show m: "isModule K n" using acc by (simp add: isModule_def)
  show "ak_GetModuleAddress (ak K) n \<noteq> reserveAddr K" using assms(2) m n by (simp add: pb_wired_def)
  show "ak_GetModuleAddress (ak K) n \<noteq> []" using assms(1) acc by (simp add: bank_contract_def)
qed (use assms(3) in \<open>auto simp: plain_module_def\<close>)

lemma reserve_minter:
  assumes "bank_contract K" "pb_wired K" "IsValid (coinsApi K) cs"
  shows "mints K (reserveAddr K) cs (bk_MintCoins (bk K) ModuleName cs)"
    and "burns K (reserveAddr K) cs (bk_BurnCoins (bk K) ModuleName cs)"
  using assms contract_mint_burn [OF assms(1,3)] unfolding pb_wired_def reserveAddr_def by auto

text \<open>
  An account's fractional balance and the remainder that together reach a whole coin are backed
  by at least one integer coin of the reserve.
\<close>

lemma reserve_backs_remainder:
  assumes inv: "pb_inv K s" and C: "0 < CF K"
    and "CF K \<le> fm_get0 (fracStore s) a + GetRemainderAmount s"
  shows "1 \<le> bal K (bankState s) (reserveAddr K)"
proof -
  have "1 * CF K \<le> bal K (bankState s) (reserveAddr K) * CF K"
    using assms(3) fm_total_ge1 [OF pb_invD(1) [OF inv], of a] pb_invD(7) [OF inv] by simp
  then show ?thesis using C mult_le_cancel_right [of 1 "CF K"] by auto
qed

section \<open>Minting\<close>

lemma mintExtended_run:
  assumes bc: "bank_contract K" and wired: "pb_wired K" and inv: "pb_inv K s"
    and mod: "plain_module K n ''minter''" and amt: "0 \<le> amt"
  defines "m \<equiv> ak_GetModuleAddress (ak K) n"
  obtains b' where "mintExtendedCoin K n amt s = (Ret (), mintedState K s m amt b')"
    "bankStep K (mintedDelta K s m amt) {m, reserveAddr K} (amt div CF K + underflows K s amt) (bankState s) b'"
proof -
  define R where "R = reserveAddr K"
  define A where "A = (CF K \<le> fm_get0 (fracStore s) m + amt mod CF K)"
  define U where "U = (GetRemainderAmount s < amt mod CF K)"
  define i where "i = amt div CF K + of_bool (A \<and> U)"
  note C = CF_pos [OF wired]
  note md = plain_moduleD [OF bc wired mod, folded m_def]
  note one = oneDenom_valid(1) [OF bc zero_less_one]
  have AU: "carries K s m amt = of_bool A" "underflows K s amt = of_bool U"
    by (simp_all add: A_def U_def carries_def underflows_def)
  have i: "0 \<le> i" using amt C by (simp add: i_def pos_imp_zdiv_nonneg_iff)
  have "1 \<le> spd K (bankState s) R" if "A \<and> \<not> U"
    using reserve_backs_remainder [OF inv C, of m] that reserve_module(3) [OF bc wired]
    by (simp add: A_def U_def R_def)
  then obtain b1 where s1: "go_when (A \<and> \<not> U) (onBank (bk_SendCoinsFromModuleToModule (bk K) ModuleName n
        (oneDenom K 1))) s = (Ret (), s\<lparr>bankState := b1\<rparr>)"
      and e1: "bankStep K (moveDelta R m (of_bool (A \<and> \<not> U))) {m} 0 (bankState s) b1"
    using guarded_transfer_one [OF contract_send(3) [OF bc one reserve_module(1) [OF bc wired] md(4)] bc,
        where s = s and P = "A \<and> \<not> U"]
    by (auto simp: R_def reserveAddr_def m_def)
  from md(5) obtain acc where acc: "ak_GetModuleAccount (ak K) n = Some acc" "HasPermission acc ''minter''" by blast
  obtain b2 where s2: "go_when (0 < i) (onBank (bk_MintCoins (bk K) n (oneDenom K i))) (s\<lparr>bankState := b1\<rparr>)
        = (Ret (), s\<lparr>bankState := b2\<rparr>)"
      and e2: "bankStep K (gainDelta m i) {m} i b1 b2"
    using guarded_mint [of "0 < i" i K m "bk_MintCoins (bk K) n (oneDenom K i)" "s\<lparr>bankState := b1\<rparr>"]
      contract_mint_burn(1) [OF bc oneDenom_valid(1) [OF bc] acc(1) acc(2)] bc i
    by (auto simp: m_def)
  obtain b3 where s3: "\<And>F. go_when (U \<and> \<not> A) (onBank (bk_MintCoins (bk K) ModuleName (oneDenom K 1)))
        (s\<lparr>bankState := b2, fracStore := F\<rparr>) = (Ret (), s\<lparr>bankState := b3, fracStore := F\<rparr>)"
      and e3: "bankStep K (gainDelta R (of_bool (U \<and> \<not> A))) {R} (of_bool (U \<and> \<not> A)) b2 b3"
  proof -
    obtain b3 where b3: "bk_MintCoins (bk K) ModuleName (oneDenom K 1) b2 = (Ret (), b3)"
        "bankStep K (gainDelta R 1) {R} 1 b2 b3"
      using mints_one [OF reserve_minter(1) [OF bc wired one] bc zero_less_one, of b2] by (auto simp: R_def)
    show thesis
      by (rule that [of "if U \<and> \<not> A then b3 else b2"]) (use b3 in \<open>auto simp: onBank_eq gainDelta_def\<close>)
  qed
  have step: "bankStep K (mintedDelta K s m amt) {m, reserveAddr K}
      (amt div CF K + underflows K s amt) (bankState s) b3"
    by (rule bankStep_cong [OF bankStep_trans [OF bankStep_trans [OF e1 e2] e3]])
      (use md(1) in \<open>auto simp: moveDelta_def gainDelta_def mintedDelta_def AU i_def R_def\<close>)
  have if_i: "(if A \<and> U then amt div CF K + 1 else amt div CF K) = i" by (simp add: i_def)
  have if_frac: "(if A then x - CF K else x) = x - of_bool A * CF K"
    "(if U then x + CF K else x) = x + of_bool U * CF K" for x by simp_all
  have U_cmp: "amt mod CF K \<le> GetRemainderAmount s \<longleftrightarrow> \<not> U" by (auto simp: U_def)
  have run: "mintExtendedCoin K n amt s = (Ret (), mintedState K s m amt b3)"
    using s1 s2 s3 md(2,3) amt C new_frac_range(3,4) [OF inv C, of m amt] new_rem_range(1,2) [OF inv C, of amt]
    by (simp add: mintExtendedCoin_def Let_def m_def [symmetric] GetFractionalBalance_fm
        A_def [symmetric] U_def [symmetric] U_cmp if_i if_frac AU
        SetFractionalBalance_eq SetRemainderAmount_eq mintedState_def del: go_when_app)
  show thesis by (rule that [OF run step])
qed

section \<open>Burning\<close>

lemma burnExtended_run:
  assumes bc: "bank_contract K" and wired: "pb_wired K" and inv: "pb_inv K s"
    and mod: "plain_module K n ''burner''" and amt: "0 \<le> amt"
  defines "m \<equiv> ak_GetModuleAddress (ak K) n"
  assumes pay: "amt div CF K + borrows K s m amt \<le> spd K (bankState s) m"
  obtains b' where "burnExtendedCoin K n amt s = (Ret (), burnedState K s m amt b')"
    "bankStep K (burnedDelta K s m amt) {reserveAddr K} (- (amt div CF K) - overflows K s amt) (bankState s) b'"
proof -
  define R where "R = reserveAddr K"
  define B where "B = (fm_get0 (fracStore s) m < amt mod CF K)"
  define V where "V = (CF K \<le> GetRemainderAmount s + amt mod CF K)"
  define i where "i = amt div CF K + of_bool (B \<and> V)"
  note C = CF_pos [OF wired]
  note md = plain_moduleD [OF bc wired mod, folded m_def]
  note one = oneDenom_valid(1) [OF bc zero_less_one]
  have BV: "borrows K s m amt = of_bool B" "overflows K s amt = of_bool V"
    by (simp_all add: B_def V_def borrows_def overflows_def)
  have i: "0 \<le> i" "i + of_bool (B \<and> \<not> V) \<le> spd K (bankState s) m"
    using amt C pay by (auto simp: i_def BV pos_imp_zdiv_nonneg_iff)
  have "1 \<le> spd K (bankState s) m" if "B \<and> \<not> V" using i that by (auto simp: of_bool_def split: if_splits)
  then obtain b1 where s1: "go_when (B \<and> \<not> V) (onBank (bk_SendCoinsFromModuleToModule (bk K) n ModuleName
        (oneDenom K 1))) s = (Ret (), s\<lparr>bankState := b1\<rparr>)"
      and e1: "bankStep K (moveDelta m R (of_bool (B \<and> \<not> V))) {R} 0 (bankState s) b1"
    using guarded_transfer_one [OF contract_send(3) [OF bc one md(4) reserve_module(1) [OF bc wired]] bc,
        where s = s and P = "B \<and> \<not> V"]
    by (auto simp: R_def reserveAddr_def m_def)
  have "1 \<le> spd K b1 R" if "\<not> B \<and> V"
    using reserve_backs_remainder [OF inv C, of m] that reserve_module(3) [OF bc wired] bankStep_bal [OF e1, of R] md(1)
    by (auto simp: B_def V_def R_def moveDelta_def)
  then obtain b2 where s2: "go_when (\<not> B \<and> V) (onBank (bk_BurnCoins (bk K) ModuleName (oneDenom K 1)))
        (s\<lparr>bankState := b1\<rparr>) = (Ret (), s\<lparr>bankState := b2\<rparr>)"
      and e2: "bankStep K (gainDelta R (- of_bool (\<not> B \<and> V))) {} (- of_bool (\<not> B \<and> V)) b1 b2"
    using guarded_burn_one [OF reserve_minter(2) [OF bc wired one] bc, where s = "s\<lparr>bankState := b1\<rparr>" and P = "\<not> B \<and> V"]
    by (auto simp: R_def)
  from md(5) obtain acc where acc: "ak_GetModuleAccount (ak K) n = Some acc" "HasPermission acc ''burner''" by blast
  have spd2: "spd K b2 m = spd K (bankState s) m - of_bool (B \<and> \<not> V)"
    using bankStep_spd [OF bankStep_trans [OF e1 e2], of m] md(1) by (simp add: moveDelta_def gainDelta_def R_def)
  obtain b3 where s3: "go_when (i \<noteq> 0) (onBank (bk_BurnCoins (bk K) n (oneDenom K i))) (s\<lparr>bankState := b2\<rparr>)
        = (Ret (), s\<lparr>bankState := b3\<rparr>)"
      and e3: "bankStep K (gainDelta m (- i)) {} (- i) b2 b3"
    by (rule guarded_burn [of "i \<noteq> 0" i K m "bk_BurnCoins (bk K) n (oneDenom K i)" "s\<lparr>bankState := b2\<rparr>"])
      (use contract_mint_burn(2) [OF bc oneDenom_valid(1) [OF bc] acc(1) acc(2)] bc i spd2 in \<open>auto simp: m_def\<close>)
  have step: "bankStep K (burnedDelta K s m amt) {reserveAddr K} (- (amt div CF K) - overflows K s amt) (bankState s) b3"
    by (rule bankStep_cong [OF bankStep_trans [OF bankStep_trans [OF e1 e2] e3]])
      (use md(1) in \<open>auto simp: moveDelta_def gainDelta_def burnedDelta_def BV i_def R_def\<close>)
  have if_i: "(if B \<and> V then amt div CF K + 1 else amt div CF K) = i" by (simp add: i_def)
  have if_frac: "(if V then x - CF K else x) = x - of_bool V * CF K"
    "(if B then x + CF K else x) = x + of_bool B * CF K" for x by simp_all
  have run: "burnExtendedCoin K n amt s = (Ret (), burnedState K s m amt b3)"
    using s1 s2 s3 md(2,3) amt C new_frac_range(1,2) [OF inv C, of m amt] new_rem_range(3,4) [OF inv C, of amt]
    by (simp add: burnExtendedCoin_def Let_def m_def [symmetric] GetFractionalBalance_fm
        B_def [symmetric] V_def [symmetric] if_i if_frac BV
        SetFractionalBalance_eq SetRemainderAmount_eq burnedState_def del: go_when_app)
  show thesis by (rule that [OF run step])
qed

text \<open>A module that cannot pay is refused, possibly after the borrow has been transferred.\<close>

lemma refused_mapErr:
  assumes "\<exists>cs. m (bankState s) = (Err (ErrInsufficientFunds cs), bankState s)"
  shows "\<exists>cs. go_mapErr (updateInsufficientFundsError K a amt) (onBank m) s = (Err (ErrInsufficientFunds cs), s)"
proof -
  from assms obtain cs where "onBank m s = (Err (ErrInsufficientFunds cs), s)" by (auto simp: onBank_eq)
  then show ?thesis by (simp add: go_mapErr_eq updateInsufficientFundsError_def Let_def)
qed

lemma burnExtended_fail:
  assumes bc: "bank_contract K" and wired: "pb_wired K" and inv: "pb_inv K s"
    and mod: "plain_module K n ''burner''" and amt: "0 \<le> amt"
  defines "m \<equiv> ak_GetModuleAddress (ak K) n"
  assumes nopay: "\<not> amt div CF K + borrows K s m amt \<le> spd K (bankState s) m"
  shows "\<exists>cs b'. burnExtendedCoin K n amt s = (Err (ErrInsufficientFunds cs), s\<lparr>bankState := b'\<rparr>)"
proof -
  define B where "B = (fm_get0 (fracStore s) m < amt mod CF K)"
  define V where "V = (CF K \<le> GetRemainderAmount s + amt mod CF K)"
  define i where "i = amt div CF K + of_bool (B \<and> V)"
  note C = CF_pos [OF wired]
  note md = plain_moduleD [OF bc wired mod, folded m_def]
  note one = oneDenom_valid(1) [OF bc zero_less_one]
  note tr = contract_send(3) [OF bc one md(4) reserve_module(1) [OF bc wired], folded m_def reserveAddr_def]
  from md(5) obtain acc where acc: "ak_GetModuleAccount (ak K) n = Some acc" "HasPermission acc ''burner''" by blast
  note br = contract_mint_burn(2) [OF bc oneDenom_valid(1) [OF bc] acc(1) acc(2), folded m_def]
  have Bb: "borrows K s m amt = of_bool B" by (simp add: B_def borrows_def)
  have q: "0 \<le> amt div CF K" using amt C by (simp add: pos_imp_zdiv_nonneg_iff)
  have if_i: "(if B \<and> V then amt div CF K + 1 else amt div CF K) = i" by (simp add: i_def)
  note unfold = burnExtendedCoin_def Let_def m_def [symmetric] GetFractionalBalance_fm
    B_def [symmetric] V_def [symmetric] if_i
  show ?thesis
  proof (cases "B \<and> \<not> V \<and> \<not> 1 \<le> spd K (bankState s) m")
    case True
    from transfers_one(2) [OF tr bc zero_less_one, of "bankState s"] True
    have "\<exists>cs. go_mapErr (updateInsufficientFundsError K m amt) (onBank (bk_SendCoinsFromModuleToModule (bk K) n
        ModuleName (oneDenom K 1))) s = (Err (ErrInsufficientFunds cs), s)"
      by (intro refused_mapErr) auto
    then obtain cs where "go_mapErr (updateInsufficientFundsError K m amt) (go_when (B \<and> \<not> V)
        (onBank (bk_SendCoinsFromModuleToModule (bk K) n ModuleName (oneDenom K 1)))) s
      = (Err (ErrInsufficientFunds cs), s)" using True by (auto simp: go_when_def)
    then show ?thesis using md(3) C amt
      by (intro exI [of _ cs] exI [of _ "bankState s"]) (simp add: unfold del: go_when_app)
  next
    case False
    then obtain b1 where s1: "go_when (B \<and> \<not> V) (onBank (bk_SendCoinsFromModuleToModule (bk K) n ModuleName
        (oneDenom K 1))) s = (Ret (), s\<lparr>bankState := b1\<rparr>)"
      and e1: "bankStep K (moveDelta m (reserveAddr K) (of_bool (B \<and> \<not> V))) {reserveAddr K} 0 (bankState s) b1"
      using guarded_transfer_one [OF tr bc, where s = s and P = "B \<and> \<not> V"] by auto
    have "1 \<le> spd K b1 (reserveAddr K)" if "\<not> B \<and> V"
      using reserve_backs_remainder [OF inv C, of m] that reserve_module(3) [OF bc wired]
        bankStep_bal [OF e1, of "reserveAddr K"] md(1)
      by (auto simp: B_def V_def moveDelta_def)
    then obtain b2 where s2: "go_when (\<not> B \<and> V) (onBank (bk_BurnCoins (bk K) ModuleName (oneDenom K 1)))
        (s\<lparr>bankState := b1\<rparr>) = (Ret (), s\<lparr>bankState := b2\<rparr>)"
      and e2: "bankStep K (gainDelta (reserveAddr K) (- of_bool (\<not> B \<and> V))) {} (- of_bool (\<not> B \<and> V)) b1 b2"
      using guarded_burn_one [OF reserve_minter(2) [OF bc wired one] bc, where s = "s\<lparr>bankState := b1\<rparr>" and P = "\<not> B \<and> V"]
      by auto
    have "spd K b2 m = spd K (bankState s) m - of_bool (B \<and> \<not> V)"
      using bankStep_spd [OF bankStep_trans [OF e1 e2], of m] md(1) by (simp add: moveDelta_def gainDelta_def)
    then have i: "\<not> i \<le> spd K b2 m" "0 < i"
      using nopay q False spd_bounds(1) [OF bc, of "bankState s" m "IntegerCoinDenom K"]
      by (auto simp: Bb i_def of_bool_def split: if_splits)
    obtain cs where "go_mapErr (updateInsufficientFundsError K m amt) (onBank (bk_BurnCoins (bk K) n (oneDenom K i)))
        (s\<lparr>bankState := b2\<rparr>) = (Err (ErrInsufficientFunds cs), s\<lparr>bankState := b2\<rparr>)"
      using refused_mapErr [of "bk_BurnCoins (bk K) n (oneDenom K i)" "s\<lparr>bankState := b2\<rparr>" K m amt]
        burns_one(2) [OF br [OF i(2)] bc i(2), of b2] i(1) by auto
    then have "go_mapErr (updateInsufficientFundsError K m amt) (go_when (i \<noteq> 0)
        (onBank (bk_BurnCoins (bk K) n (oneDenom K i)))) (s\<lparr>bankState := b2\<rparr>)
      = (Err (ErrInsufficientFunds cs), s\<lparr>bankState := b2\<rparr>)" using i(2) by (simp add: go_when_def)
    then show ?thesis using s1 s2 md(3) C amt
      by (intro exI [of _ cs] exI [of _ b2]) (simp add: unfold del: go_when_app)
  qed
qed

section \<open>Invariant, ledger and supply\<close>

lemma rem_put_range: "0 \<le> v \<Longrightarrow> v < c \<Longrightarrow> rem_put v = Some r \<Longrightarrow> 0 < r \<and> r < c"
  by (auto simp: rem_put_def split: if_splits)

lemma minted_inv:
  assumes inv: "pb_inv K s" and C: "0 < CF K" and m: "m \<noteq> reserveAddr K" "m \<noteq> []"
    and step: "bankStep K (mintedDelta K s m amt) G \<sigma> (bankState s) b'"
  shows "pb_inv K (mintedState K s m amt b')"
proof (rule pb_invI)
  show "\<forall>a v. fmlookup (fracStore (mintedState K s m amt b')) a = Some v \<longrightarrow> 0 < v \<and> v < CF K \<and> a \<noteq> []"
    unfolding mintedState_def
    by simp (rule frac_ok_put, use inv m new_frac_range [OF inv C] in \<open>auto simp: pb_inv_def\<close>)
  show "0 < r \<and> r < CF K" if "remStore (mintedState K s m amt b') = Some r" for r
    by (rule rem_put_range [OF new_rem_range(1,2) [OF inv C]]) (use that in \<open>simp add: mintedState_def\<close>)
  show "fmlookup (fracStore (mintedState K s m amt b')) (reserveAddr K) = None"
    using inv m by (simp add: mintedState_def pb_inv_def not_sym)
  have "bal K b' (reserveAddr K) = bal K (bankState s) (reserveAddr K) + (underflows K s amt - carries K s m amt)"
    using bankStep_bal [OF step, of "reserveAddr K"] m by (auto simp: mintedDelta_def)
  then show "bal K (bankState (mintedState K s m amt b')) (reserveAddr K) * CF K
      = fm_total (fracStore (mintedState K s m amt b')) + GetRemainderAmount (mintedState K s m amt b')"
    using pb_invD(7) [OF inv] by (simp add: mintedState_def distrib_right left_diff_distrib)
qed

lemma burned_inv:
  assumes inv: "pb_inv K s" and C: "0 < CF K" and m: "m \<noteq> reserveAddr K" "m \<noteq> []"
    and step: "bankStep K (burnedDelta K s m amt) G \<sigma> (bankState s) b'"
  shows "pb_inv K (burnedState K s m amt b')"
proof (rule pb_invI)
  show "\<forall>a v. fmlookup (fracStore (burnedState K s m amt b')) a = Some v \<longrightarrow> 0 < v \<and> v < CF K \<and> a \<noteq> []"
    unfolding burnedState_def
    by simp (rule frac_ok_put, use inv m new_frac_range [OF inv C] in \<open>auto simp: pb_inv_def\<close>)
  show "0 < r \<and> r < CF K" if "remStore (burnedState K s m amt b') = Some r" for r
    by (rule rem_put_range [OF new_rem_range(3,4) [OF inv C]]) (use that in \<open>simp add: burnedState_def\<close>)
  show "fmlookup (fracStore (burnedState K s m amt b')) (reserveAddr K) = None"
    using inv m by (simp add: burnedState_def pb_inv_def not_sym)
  have "bal K b' (reserveAddr K) = bal K (bankState s) (reserveAddr K) + (borrows K s m amt - overflows K s amt)"
    using bankStep_bal [OF step, of "reserveAddr K"] m by (auto simp: burnedDelta_def)
  then show "bal K (bankState (burnedState K s m amt b')) (reserveAddr K) * CF K
      = fm_total (fracStore (burnedState K s m amt b')) + GetRemainderAmount (burnedState K s m amt b')"
    using pb_invD(7) [OF inv] by (simp add: burnedState_def distrib_right left_diff_distrib)
qed

lemma minted_ledger:
  assumes m: "m \<noteq> reserveAddr K" and step: "bankStep K (mintedDelta K s m amt) G \<sigma> (bankState s) b'"
  shows "extBalance K (mintedState K s m amt b') = ledgerAdd m amt (extBalance K s)"
proof
  show "extBalance K (mintedState K s m amt b') a = ledgerAdd m amt (extBalance K s) a" for a
    using m
    by (cases "a = reserveAddr K")
      (auto simp: ledgerAdd_def extBalance_eq mintedState_def mintedDelta_def bankStep_bal [OF step] algebra_simps)
qed

lemma burned_ledger:
  assumes m: "m \<noteq> reserveAddr K" and step: "bankStep K (burnedDelta K s m amt) G \<sigma> (bankState s) b'"
  shows "extBalance K (burnedState K s m amt b') = ledgerAdd m (- amt) (extBalance K s)"
proof
  show "extBalance K (burnedState K s m amt b') a = ledgerAdd m (- amt) (extBalance K s) a" for a
    using m
    by (cases "a = reserveAddr K")
      (auto simp: ledgerAdd_def extBalance_eq burnedState_def burnedDelta_def bankStep_bal [OF step] algebra_simps)
qed

lemma minted_supply:
  assumes "bankStep K \<delta> G (amt div CF K + underflows K s amt) (bankState s) b'"
  shows "extSupply K (mintedState K s m amt b') = extSupply K s + amt"
  by (simp add: extSupply_def GetSupply_def mintedState_def bankStep_sup [OF assms] algebra_simps)

lemma burned_supply:
  assumes "bankStep K \<delta> G (- (amt div CF K) - overflows K s amt) (bankState s) b'"
  shows "extSupply K (burnedState K s m amt b') = extSupply K s - amt"
  by (simp add: extSupply_def GetSupply_def burnedState_def bankStep_sup [OF assms] algebra_simps)

section \<open>MintCoins and BurnCoins\<close>

lemma mintExtended_ok:
  assumes bc: "bank_contract K" and wired: "pb_wired K" and inv: "pb_inv K s"
    and mod: "plain_module K n ''minter''" and amt: "0 \<le> amt"
  shows "\<exists>s'. mintExtendedCoin K n amt s = (Ret (), s') \<and> pb_inv K s' \<and>
      extBalance K s' = ledgerAdd (ak_GetModuleAddress (ak K) n) amt (extBalance K s) \<and>
      extSupply K s' = extSupply K s + amt"
proof -
  note md = plain_moduleD(1,2) [OF bc wired mod]
  obtain b' where run: "mintExtendedCoin K n amt s = (Ret (), mintedState K s (ak_GetModuleAddress (ak K) n) amt b')"
    and step: "bankStep K (mintedDelta K s (ak_GetModuleAddress (ak K) n) amt)
      {ak_GetModuleAddress (ak K) n, reserveAddr K} (amt div CF K + underflows K s amt) (bankState s) b'"
    by (rule mintExtended_run [OF bc wired inv mod amt])
  show ?thesis
    using run minted_inv [OF inv CF_pos [OF wired] md step] minted_ledger [OF md(1) step] minted_supply [OF step]
    by blast
qed

lemma burnExtended_ok:
  assumes bc: "bank_contract K" and wired: "pb_wired K" and inv: "pb_inv K s"
    and mod: "plain_module K n ''burner''" and amt: "0 \<le> amt"
    and pay: "amt \<le> extSpendable K s (ak_GetModuleAddress (ak K) n)"
  shows "\<exists>s'. burnExtendedCoin K n amt s = (Ret (), s') \<and> pb_inv K s' \<and>
      extBalance K s' = ledgerAdd (ak_GetModuleAddress (ak K) n) (- amt) (extBalance K s) \<and>
      extSupply K s' = extSupply K s - amt"
proof -
  note md = plain_moduleD(1,2) [OF bc wired mod]
  note C = CF_pos [OF wired]
  obtain b' where run: "burnExtendedCoin K n amt s = (Ret (), burnedState K s (ak_GetModuleAddress (ak K) n) amt b')"
    and step: "bankStep K (burnedDelta K s (ak_GetModuleAddress (ak K) n) amt)
      {reserveAddr K} (- (amt div CF K) - overflows K s amt) (bankState s) b'"
    using burnExtended_run [OF bc wired inv mod amt] pay payable_iff [OF inv C md(1)] by blast
  show ?thesis
    using run burned_inv [OF inv C md step] burned_ledger [OF md(1) step] burned_supply [OF step]
    by blast
qed

lemma MintCoins_alt:
  assumes "plain_module K n ''minter''" "IsValid (coinsApi K) amt"
  shows "MintCoins K n amt =
    go_seq (go_when (\<not> EmptyCoins (coinsApi K) (passthrough K amt)) (onBank (bk_MintCoins (bk K) n (passthrough K amt))))
      (go_when (0 < AmountOf (coinsApi K) amt (ExtendedCoinDenom K))
        (mintExtendedCoin K n (AmountOf (coinsApi K) amt (ExtendedCoinDenom K))))"
  using assms by (auto simp: MintCoins_def passthrough_def Let_def plain_module_def)

lemma BurnCoins_alt:
  assumes "plain_module K n ''burner''" "IsValid (coinsApi K) amt"
  shows "BurnCoins K n amt =
    go_seq (go_when (\<not> EmptyCoins (coinsApi K) (passthrough K amt)) (onBank (bk_BurnCoins (bk K) n (passthrough K amt))))
      (go_when (0 < AmountOf (coinsApi K) amt (ExtendedCoinDenom K))
        (burnExtendedCoin K n (AmountOf (coinsApi K) amt (ExtendedCoinDenom K))))"
  using assms by (auto simp: BurnCoins_def passthrough_def Let_def plain_module_def)

lemma empty_coins_zero:
  "bank_contract K \<Longrightarrow> IsValid (coinsApi K) cs \<Longrightarrow> EmptyCoins (coinsApi K) cs \<Longrightarrow> AmountOf (coinsApi K) cs d = 0"
  by (simp add: bank_contract_def coins_contract_def)

lemma passthrough_mint:
  assumes bc: "bank_contract K" and v: "IsValid (coinsApi K) cs" and mod: "plain_module K n ''minter''"
  shows "\<exists>b'. go_when (\<not> EmptyCoins (coinsApi K) cs) (onBank (bk_MintCoins (bk K) n cs)) s
      = (Ret (), s\<lparr>bankState := b'\<rparr>) \<and>
    (\<forall>a d. bk_GetBalance (bk K) b' a d = bk_GetBalance (bk K) (bankState s) a d
       + (if a = ak_GetModuleAddress (ak K) n then AmountOf (coinsApi K) cs d else 0)) \<and>
    (\<forall>d. bk_GetSupply (bk K) b' d = bk_GetSupply (bk K) (bankState s) d + AmountOf (coinsApi K) cs d)"
proof (cases "EmptyCoins (coinsApi K) cs")
  case True
  then show ?thesis using empty_coins_zero [OF bc v True] by (intro exI [of _ "bankState s"]) simp
next
  case False
  from mod obtain acc where acc: "ak_GetModuleAccount (ak K) n = Some acc" "HasPermission acc ''minter''"
    by (auto simp: plain_module_def)
  from contract_mint_burn(1) [OF bc v acc] obtain b' where "bk_MintCoins (bk K) n cs (bankState s) = (Ret (), b')"
    "(\<forall>a d. bk_GetBalance (bk K) b' a d = bk_GetBalance (bk K) (bankState s) a d
       + (if a = ak_GetModuleAddress (ak K) n then AmountOf (coinsApi K) cs d else 0)) \<and>
    (\<forall>d. bk_GetSupply (bk K) b' d = bk_GetSupply (bk K) (bankState s) d + AmountOf (coinsApi K) cs d)"
    unfolding mints_def by blast
  then show ?thesis using False by (intro exI [of _ b']) (simp add: onBank_eq)
qed

lemma passthrough_burn:
  assumes bc: "bank_contract K" and v: "IsValid (coinsApi K) cs" and mod: "plain_module K n ''burner''"
    and pay: "\<forall>d. AmountOf (coinsApi K) cs d \<le> bk_SpendableCoin (bk K) (bankState s) (ak_GetModuleAddress (ak K) n) d"
  shows "\<exists>b'. go_when (\<not> EmptyCoins (coinsApi K) cs) (onBank (bk_BurnCoins (bk K) n cs)) s
      = (Ret (), s\<lparr>bankState := b'\<rparr>) \<and>
    (\<forall>a d. bk_GetBalance (bk K) b' a d = bk_GetBalance (bk K) (bankState s) a d
       - (if a = ak_GetModuleAddress (ak K) n then AmountOf (coinsApi K) cs d else 0)) \<and>
    (\<forall>a d. bk_SpendableCoin (bk K) b' a d = bk_SpendableCoin (bk K) (bankState s) a d
       - (if a = ak_GetModuleAddress (ak K) n then AmountOf (coinsApi K) cs d else 0)) \<and>
    (\<forall>d. bk_GetSupply (bk K) b' d = bk_GetSupply (bk K) (bankState s) d - AmountOf (coinsApi K) cs d)"
proof (cases "EmptyCoins (coinsApi K) cs")
  case True
  then show ?thesis using empty_coins_zero [OF bc v True] by (intro exI [of _ "bankState s"]) simp
next
  case False
  from mod obtain acc where acc: "ak_GetModuleAccount (ak K) n = Some acc" "HasPermission acc ''burner''"
    by (auto simp: plain_module_def)
  from contract_mint_burn(2) [OF bc v acc, unfolded burns_def, rule_format, of "bankState s"] pay
  obtain b' where "bk_BurnCoins (bk K) n cs (bankState s) = (Ret (), b')"
    "(\<forall>a d. bk_GetBalance (bk K) b' a d = bk_GetBalance (bk K) (bankState s) a d
       - (if a = ak_GetModuleAddress (ak K) n then AmountOf (coinsApi K) cs d else 0)) \<and>
    (\<forall>a d. bk_SpendableCoin (bk K) b' a d = bk_SpendableCoin (bk K) (bankState s) a d
       - (if a = ak_GetModuleAddress (ak K) n then AmountOf (coinsApi K) cs d else 0)) \<and>
    (\<forall>d. bk_GetSupply (bk K) b' d = bk_GetSupply (bk K) (bankState s) d - AmountOf (coinsApi K) cs d)"
    by auto
  then show ?thesis using False by (intro exI [of _ b']) (simp add: onBank_eq)
qed

lemma ext_passthrough:
  assumes "m \<noteq> reserveAddr K" "\<forall>a. bal K b' a = bal K (bankState s) a + (if a = m then x else 0)"
  shows "extBalance K (s\<lparr>bankState := b'\<rparr>) = ledgerAdd m (x * CF K) (extBalance K s)"
proof
  show "extBalance K (s\<lparr>bankState := b'\<rparr>) a = ledgerAdd m (x * CF K) (extBalance K s) a" for a
    using assms by (cases "a = reserveAddr K") (auto simp: ledgerAdd_def extBalance_eq algebra_simps)
qed

lemma MintCoins_ok:
  assumes bc: "bank_contract K" and wired: "pb_wired K" and inv: "pb_inv K s"
    and mod: "plain_module K n ''minter''" and v: "IsValid (coinsApi K) amt"
    and denoms: "\<not> IsExtendedDenomSameAsIntegerDenom K"
  shows "\<exists>s'. MintCoins K n amt s = (Ret (), s') \<and> pb_inv K s' \<and>
    extBalance K s' = ledgerAdd (ak_GetModuleAddress (ak K) n) (Amount (SumExtendedCoin K amt)) (extBalance K s) \<and>
    extSupply K s' = extSupply K s + Amount (SumExtendedCoin K amt)"
proof -
  define e where "e = AmountOf (coinsApi K) amt (ExtendedCoinDenom K)"
  note md = plain_moduleD(1,2) [OF bc wired mod]
  note pa = passthrough_amounts [OF bc v]
  have IE: "IntegerCoinDenom K \<noteq> ExtendedCoinDenom K" using denoms by (simp add: IsExtendedDenomSameAsIntegerDenom_def)
  from passthrough_mint [OF bc pa(1) mod, of s] obtain b1 where
    s1: "go_when (\<not> EmptyCoins (coinsApi K) (passthrough K amt)) (onBank (bk_MintCoins (bk K) n (passthrough K amt))) s
      = (Ret (), s\<lparr>bankState := b1\<rparr>)"
    and bal1: "\<And>a d. bk_GetBalance (bk K) b1 a d = bk_GetBalance (bk K) (bankState s) a d
       + (if a = ak_GetModuleAddress (ak K) n then AmountOf (coinsApi K) (passthrough K amt) d else 0)"
    and sup1: "\<And>d. bk_GetSupply (bk K) b1 d = bk_GetSupply (bk K) (bankState s) d + AmountOf (coinsApi K) (passthrough K amt) d"
    by blast
  have inv1: "pb_inv K (s\<lparr>bankState := b1\<rparr>)"
    by (rule passthrough_inv [OF inv]) (use md in \<open>auto simp: bal1\<close>)
  have e0: "0 \<le> e" using coins_nonneg [OF bc v] by (simp add: e_def)
  obtain s' where s': "go_when (0 < e) (mintExtendedCoin K n e) (s\<lparr>bankState := b1\<rparr>) = (Ret (), s')" "pb_inv K s'"
      "extBalance K s' = ledgerAdd (ak_GetModuleAddress (ak K) n) e (extBalance K (s\<lparr>bankState := b1\<rparr>))"
      "extSupply K s' = extSupply K (s\<lparr>bankState := b1\<rparr>) + e"
    using mintExtended_ok [OF bc wired inv1 mod, of e] e0 inv1 by (cases "0 < e") auto
  show ?thesis
    using s1 s' v mod IE ext_passthrough [OF md(1), of b1 s "AmountOf (coinsApi K) amt (IntegerCoinDenom K)"]
    by (intro exI [of _ s']) (auto simp: MintCoins_alt e_def [symmetric] ledgerAdd_def bal1 pa(2) fun_eq_iff
        extSupply_def GetSupply_def sup1 algebra_simps simp del: go_when_app)
qed

lemma BurnCoins_ok:
  assumes bc: "bank_contract K" and wired: "pb_wired K" and inv: "pb_inv K s"
    and mod: "plain_module K n ''burner''" and v: "IsValid (coinsApi K) amt"
    and denoms: "\<not> IsExtendedDenomSameAsIntegerDenom K"
    and pay: "payable K (ak_GetModuleAddress (ak K) n) amt s"
  shows "\<exists>s'. BurnCoins K n amt s = (Ret (), s') \<and> pb_inv K s' \<and>
    extBalance K s' = ledgerAdd (ak_GetModuleAddress (ak K) n) (- Amount (SumExtendedCoin K amt)) (extBalance K s) \<and>
    extSupply K s' = extSupply K s - Amount (SumExtendedCoin K amt)"
proof -
  define e where "e = AmountOf (coinsApi K) amt (ExtendedCoinDenom K)"
  note md = plain_moduleD(1,2) [OF bc wired mod]
  note pa = passthrough_amounts [OF bc v]
  have IE: "IntegerCoinDenom K \<noteq> ExtendedCoinDenom K" using denoms by (simp add: IsExtendedDenomSameAsIntegerDenom_def)
  have "\<forall>d. AmountOf (coinsApi K) (passthrough K amt) d \<le> bk_SpendableCoin (bk K) (bankState s) (ak_GetModuleAddress (ak K) n) d"
    using pay spd_bounds(1) [OF bc] by (simp add: pa(2) payable_def)
  from passthrough_burn [OF bc pa(1) mod this] obtain b1 where
    s1: "go_when (\<not> EmptyCoins (coinsApi K) (passthrough K amt)) (onBank (bk_BurnCoins (bk K) n (passthrough K amt))) s
      = (Ret (), s\<lparr>bankState := b1\<rparr>)"
    and bal1: "\<And>a d. bk_GetBalance (bk K) b1 a d = bk_GetBalance (bk K) (bankState s) a d
       - (if a = ak_GetModuleAddress (ak K) n then AmountOf (coinsApi K) (passthrough K amt) d else 0)"
    and sp1: "\<And>a d. bk_SpendableCoin (bk K) b1 a d = bk_SpendableCoin (bk K) (bankState s) a d
       - (if a = ak_GetModuleAddress (ak K) n then AmountOf (coinsApi K) (passthrough K amt) d else 0)"
    and sup1: "\<And>d. bk_GetSupply (bk K) b1 d = bk_GetSupply (bk K) (bankState s) d - AmountOf (coinsApi K) (passthrough K amt) d"
    by blast
  have inv1: "pb_inv K (s\<lparr>bankState := b1\<rparr>)"
    by (rule passthrough_inv [OF inv]) (use md in \<open>auto simp: bal1\<close>)
  have e: "0 \<le> e" "e \<le> extSpendable K (s\<lparr>bankState := b1\<rparr>) (ak_GetModuleAddress (ak K) n)"
    using coins_nonneg [OF bc v] pay md IE
    by (auto simp: e_def payable_def extSpendable_eq sp1 pa(2) algebra_simps)
  obtain s' where s': "go_when (0 < e) (burnExtendedCoin K n e) (s\<lparr>bankState := b1\<rparr>) = (Ret (), s')" "pb_inv K s'"
      "extBalance K s' = ledgerAdd (ak_GetModuleAddress (ak K) n) (- e) (extBalance K (s\<lparr>bankState := b1\<rparr>))"
      "extSupply K s' = extSupply K (s\<lparr>bankState := b1\<rparr>) - e"
    using burnExtended_ok [OF bc wired inv1 mod e] e(1) inv1 by (cases "0 < e") auto
  show ?thesis
    using s1 s' v mod IE ext_passthrough [OF md(1), of b1 s "- AmountOf (coinsApi K) amt (IntegerCoinDenom K)"]
    by (intro exI [of _ s']) (auto simp: BurnCoins_alt e_def [symmetric] ledgerAdd_def bal1 pa(2) fun_eq_iff
        extSupply_def GetSupply_def sup1 algebra_simps simp del: go_when_app)
qed

lemma BurnCoins_refused:
  assumes bc: "bank_contract K" and wired: "pb_wired K" and inv: "pb_inv K s"
    and mod: "plain_module K n ''burner''" and v: "IsValid (coinsApi K) amt"
    and denoms: "\<not> IsExtendedDenomSameAsIntegerDenom K"
    and nopay: "\<not> payable K (ak_GetModuleAddress (ak K) n) amt s"
  shows "\<exists>cs b'. BurnCoins K n amt s = (Err (ErrInsufficientFunds cs), s\<lparr>bankState := b'\<rparr>)"
proof -
  define m where "m = ak_GetModuleAddress (ak K) n"
  define e where "e = AmountOf (coinsApi K) amt (ExtendedCoinDenom K)"
  note md = plain_moduleD [OF bc wired mod, folded m_def]
  note pa = passthrough_amounts [OF bc v]
  note C = CF_pos [OF wired]
  have IE: "IntegerCoinDenom K \<noteq> ExtendedCoinDenom K" using denoms by (simp add: IsExtendedDenomSameAsIntegerDenom_def)
  from md(5) obtain acc where acc: "ak_GetModuleAccount (ak K) n = Some acc" "HasPermission acc ''burner''" by blast
  show ?thesis
  proof (cases "\<forall>d. AmountOf (coinsApi K) (passthrough K amt) d \<le> bk_SpendableCoin (bk K) (bankState s) m d")
    case False
    then have "\<not> EmptyCoins (coinsApi K) (passthrough K amt)"
      using empty_coins_zero [OF bc pa(1)] spd_bounds(1) [OF bc] by fastforce
    moreover from False contract_mint_burn(2) [OF bc pa(1) acc, folded m_def, unfolded burns_def, rule_format, of "bankState s"]
    obtain cs where "bk_BurnCoins (bk K) n (passthrough K amt) (bankState s) = (Err (ErrInsufficientFunds cs), bankState s)"
      by (auto split: if_splits)
    ultimately show ?thesis
      by (intro exI [of _ cs] exI [of _ "bankState s"]) (simp add: BurnCoins_alt [OF mod v] onBank_eq)
  next
    case True
    from passthrough_burn [OF bc pa(1) mod True [unfolded m_def]] obtain b1 where
      s1: "go_when (\<not> EmptyCoins (coinsApi K) (passthrough K amt)) (onBank (bk_BurnCoins (bk K) n (passthrough K amt))) s
        = (Ret (), s\<lparr>bankState := b1\<rparr>)"
      and bal1: "\<And>a d. bk_GetBalance (bk K) b1 a d = bk_GetBalance (bk K) (bankState s) a d
         - (if a = m then AmountOf (coinsApi K) (passthrough K amt) d else 0)"
      and sp1: "\<And>a d. bk_SpendableCoin (bk K) b1 a d = bk_SpendableCoin (bk K) (bankState s) a d
         - (if a = m then AmountOf (coinsApi K) (passthrough K amt) d else 0)" unfolding m_def by blast
    have inv1: "pb_inv K (s\<lparr>bankState := b1\<rparr>)"
      by (rule passthrough_inv [OF inv]) (use md in \<open>auto simp: bal1\<close>)
    have "\<not> Amount (SumExtendedCoin K amt) \<le> extSpendable K s m"
      using nopay True by (auto simp: payable_def pa(2) m_def split: if_splits)
    then have e: "\<not> e \<le> extSpendable K (s\<lparr>bankState := b1\<rparr>) m"
      using md(1) IE by (auto simp: e_def extSpendable_eq sp1 pa(2) algebra_simps)
    have e0: "0 < e"
      using e C spd_bounds(1) [OF bc, of b1 m "IntegerCoinDenom K"] pb_invD(1) [OF inv, of m] md(1)
      by (auto simp: extSpendable_eq not_le intro: le_less_trans [rotated])
    from burnExtended_fail [OF bc wired inv1 mod less_imp_le [OF e0]] payable_iff [OF inv1 C md(1), of e] e
    obtain cs b' where "burnExtendedCoin K n e (s\<lparr>bankState := b1\<rparr>) = (Err (ErrInsufficientFunds cs), s\<lparr>bankState := b'\<rparr>)"
      by (auto simp: m_def)
    then have "go_when (0 < e) (burnExtendedCoin K n e) (s\<lparr>bankState := b1\<rparr>)
      = (Err (ErrInsufficientFunds cs), s\<lparr>bankState := b'\<rparr>)" using e0 by simp
    with s1 show ?thesis
      by (intro exI [of _ cs] exI [of _ b']) (simp add: BurnCoins_alt [OF mod v] e_def [symmetric] del: go_when_app)
  qed
qed

end
