(* ===== verification/PreciseBankGenesis.thy ===== *)
theory PreciseBankGenesis
  imports PreciseBankMint
begin

text \<open>
  Genesis and queries of \<open>x/precisebank\<close>: \<open>genesis.go\<close>, \<open>types/genesis.go\<close>,
  \<open>types/fractional_balances.go\<close> and \<open>keeper/grpc_query.go\<close>.  The bech32 codec of the Cosmos SDK
  is the record \<open>bech32\<close>; \<open>bech32_contract\<close> states what is used of it.
\<close>

section \<open>Definitions\<close>

record bech32 =
  AccAddressFromBech32 :: "string \<Rightarrow> AccAddress option"
  AccAddressString :: "AccAddress \<Rightarrow> string"

text \<open>\<open>strings.ToLower\<close>, on the ASCII strings that are bech32 addresses.\<close>

definition ToLower :: "string \<Rightarrow> string" where
  "ToLower = map (\<lambda>c. let n = of_char c :: nat in if 65 \<le> n \<and> n \<le> 90 then char_of (n + 32) else c)"

record FractionalBalanceRec =
  fb_Address :: string
  fb_Amount :: "int option"

definition NewFractionalBalance :: "string \<Rightarrow> int \<Rightarrow> FractionalBalanceRec" where
  "NewFractionalBalance address amount = \<lparr>fb_Address = address, fb_Amount = Some amount\<rparr>"

record GenesisState =
  gs_Balances :: "FractionalBalanceRec list"
  gs_Remainder :: "int option"

datatype genesis_error = InvalidBech32 string | InvalidAmount string amount_error
  | DuplicateAddress string | NilRemainder | NegativeRemainder int | RemainderExceedsMax int
  | SumNotMultiple int

definition FractionalBalance_Validate ::
    "'b pb_keeper \<Rightarrow> bech32 \<Rightarrow> FractionalBalanceRec \<Rightarrow> genesis_error option" where
  "FractionalBalance_Validate K B fb =
    (case AccAddressFromBech32 B (fb_Address fb) of
       None \<Rightarrow> Some (InvalidBech32 (fb_Address fb))
     | Some _ \<Rightarrow>
       (case ValidateFractionalAmount K (fb_Amount fb) of
          Some e \<Rightarrow> Some (InvalidAmount (fb_Address fb) e)
        | None \<Rightarrow> None))"

fun validateBalances ::
    "'b pb_keeper \<Rightarrow> bech32 \<Rightarrow> string set \<Rightarrow> FractionalBalanceRec list \<Rightarrow> genesis_error option" where
  "validateBalances K B seenAddresses [] = None"
| "validateBalances K B seenAddresses (fb # fbs) =
    (case FractionalBalance_Validate K B fb of
       Some e \<Rightarrow> Some e
     | None \<Rightarrow>
       let lowerAddr = ToLower (fb_Address fb)
       in if lowerAddr \<in> seenAddresses then Some (DuplicateAddress lowerAddr)
          else validateBalances K B (insert lowerAddr seenAddresses) fbs)"

definition FractionalBalances_Validate ::
    "'b pb_keeper \<Rightarrow> bech32 \<Rightarrow> FractionalBalanceRec list \<Rightarrow> genesis_error option" where
  "FractionalBalances_Validate K B fbs = validateBalances K B {} fbs"

text \<open>Only called after the amounts have been validated, so none is nil.\<close>

definition SumAmount :: "FractionalBalanceRec list \<Rightarrow> int" where
  "SumAmount fbs = fold (\<lambda>fb sum. sum + (case fb_Amount fb of Some a \<Rightarrow> a | None \<Rightarrow> 0)) fbs 0"

definition NewGenesisState :: "FractionalBalanceRec list \<Rightarrow> int \<Rightarrow> GenesisState" where
  "NewGenesisState balances remainder = \<lparr>gs_Balances = balances, gs_Remainder = Some remainder\<rparr>"

definition DefaultGenesisState :: GenesisState where
  "DefaultGenesisState = NewGenesisState [] 0"

definition GenesisState_Validate :: "'b pb_keeper \<Rightarrow> bech32 \<Rightarrow> GenesisState \<Rightarrow> genesis_error option" where
  "GenesisState_Validate K B gs =
    (case FractionalBalances_Validate K B (gs_Balances gs) of
       Some e \<Rightarrow> Some e
     | None \<Rightarrow>
       (case gs_Remainder gs of
          None \<Rightarrow> Some NilRemainder
        | Some r \<Rightarrow>
          if r < 0 then Some (NegativeRemainder r)
          else if r \<ge> ConversionFactorPB K then Some (RemainderExceedsMax r)
          else
            let sumWithRemainder = SumAmount (gs_Balances gs) + r;
                offBy = Mod sumWithRemainder (ConversionFactorPB K)
            in if offBy \<noteq> 0 then Some (SumNotMultiple sumWithRemainder) else None))"

definition TotalAmountWithRemainder :: "GenesisState \<Rightarrow> int" where
  "TotalAmountWithRemainder gs =
    SumAmount (gs_Balances gs) + (case gs_Remainder gs of Some r \<Rightarrow> r | None \<Rightarrow> 0)"

definition InitGenesis :: "'b pb_keeper \<Rightarrow> bech32 \<Rightarrow> GenesisState \<Rightarrow> ('b, unit) pb_go" where
  "InitGenesis K B gs =
    (if GenesisState_Validate K B gs \<noteq> None then go_panic ''failed to validate genesis state''
     else if ak_GetModuleAccount (ak K) ModuleName = None
     then go_panic ''module account has not been set''
     else
       go_bind (go_gets (\<lambda>s. bk_GetBalance (bk K) (bankState s)
            (ak_GetModuleAddress (ak K) ModuleName) (IntegerCoinDenom K))) (\<lambda>moduleBal.
       let totalAmt = TotalAmountWithRemainder gs;
           moduleBalExtended = moduleBal * ConversionFactorPB K
       in
       if totalAmt \<noteq> moduleBalExtended \<and>
          \<not> (gs_Balances gs = [] \<and> gs_Remainder gs = Some 0)
       then go_panic ''module account balance does not match sum of fractional balances and remainder''
       else
         go_seq
           (go_for (gs_Balances gs) (\<lambda>bal.
              case AccAddressFromBech32 B (fb_Address bal) of
                None \<Rightarrow> go_panic ''MustAccAddressFromBech32''
              | Some addr \<Rightarrow>
                 (case fb_Amount bal of
                    None \<Rightarrow> go_panic ''nil amount''
                  | Some amount \<Rightarrow> SetFractionalBalance K addr amount)))
           (case gs_Remainder gs of
              None \<Rightarrow> go_panic ''nil amount''
            | Some r \<Rightarrow> SetRemainderAmount K r)))"

definition ExportGenesis :: "bech32 \<Rightarrow> 'b pb_ctx \<Rightarrow> GenesisState" where
  "ExportGenesis B s =
    (let balances = IterateFractionalBalances
           (\<lambda>addr amount balances.
              (False, balances @ [NewFractionalBalance (AccAddressString B addr) amount])) [] s;
         remainder = GetRemainderAmount s
     in NewGenesisState balances remainder)"

definition QueryRemainder :: "'b pb_keeper \<Rightarrow> 'b pb_ctx \<Rightarrow> coin" where
  "QueryRemainder K s = NewCoin (ExtendedCoinDenom K) (GetRemainderAmount s)"

definition QueryFractionalBalance ::
    "'b pb_keeper \<Rightarrow> bech32 \<Rightarrow> string \<Rightarrow> 'b pb_ctx \<Rightarrow> genesis_error + coin" where
  "QueryFractionalBalance K B reqAddress s =
    (case AccAddressFromBech32 B reqAddress of
       None \<Rightarrow> Inl (InvalidBech32 reqAddress)
     | Some address \<Rightarrow> Inr (NewCoin (ExtendedCoinDenom K) (GetFractionalBalance address s)))"

section \<open>The codec, and the addresses of a genesis state\<close>

text \<open>
  A bech32 string decodes to a non-empty address, decoding inverts the canonical rendering, and
  the strings that decode to an address are the canonical one up to case.
\<close>

definition bech32_contract :: "bech32 \<Rightarrow> bool" where
  "bech32_contract B \<longleftrightarrow>
    (\<forall>a. a \<noteq> [] \<longrightarrow> AccAddressFromBech32 B (AccAddressString B a) = Some a) \<and>
    (\<forall>str a. AccAddressFromBech32 B str = Some a \<longrightarrow> a \<noteq> [] \<and> ToLower str = AccAddressString B a)"

definition entryAddr :: "bech32 \<Rightarrow> FractionalBalanceRec \<Rightarrow> AccAddress" where
  "entryAddr B fb = (case AccAddressFromBech32 B (fb_Address fb) of Some a \<Rightarrow> a | None \<Rightarrow> [])"

definition entryAmount :: "FractionalBalanceRec \<Rightarrow> int" where
  "entryAmount fb = (case fb_Amount fb of Some a \<Rightarrow> a | None \<Rightarrow> 0)"

text \<open>The store a genesis state describes.\<close>

definition genesisStore :: "bech32 \<Rightarrow> FractionalBalanceRec list \<Rightarrow> (AccAddress, int) fmap \<Rightarrow> (AccAddress, int) fmap" where
  "genesisStore B fbs m = fold (\<lambda>fb. fm_put0 (entryAddr B fb) (entryAmount fb)) fbs m"

definition exportEntry :: "bech32 \<Rightarrow> AccAddress \<times> int \<Rightarrow> FractionalBalanceRec" where
  "exportEntry B = (\<lambda>(a, v). NewFractionalBalance (AccAddressString B a) v)"

lemma FractionalBalance_Validate_None:
  "FractionalBalance_Validate K B fb = None \<longleftrightarrow>
     (\<exists>a v. AccAddressFromBech32 B (fb_Address fb) = Some a \<and> fb_Amount fb = Some v \<and> 0 < v \<and> v < CF K)"
  by (cases "fb_Amount fb") (auto simp: FractionalBalance_Validate_def ValidateFractionalAmount_def
      split: option.splits)

lemma validateBalances_None:
  assumes "bech32_contract B"
  shows "validateBalances K B seen fbs = None \<longleftrightarrow>
    (\<forall>fb\<in>set fbs. FractionalBalance_Validate K B fb = None) \<and>
    distinct (map (\<lambda>fb. ToLower (fb_Address fb)) fbs) \<and>
    (\<forall>fb\<in>set fbs. ToLower (fb_Address fb) \<notin> seen)"
  by (induction fbs arbitrary: seen) (auto simp: Let_def image_iff split: option.split)

lemma valid_entry:
  assumes bc: "bech32_contract B" and "FractionalBalance_Validate K B fb = None"
  shows "AccAddressFromBech32 B (fb_Address fb) = Some (entryAddr B fb)" "fb_Amount fb = Some (entryAmount fb)"
    "0 < entryAmount fb" "entryAmount fb < CF K" "entryAddr B fb \<noteq> []"
    "ToLower (fb_Address fb) = AccAddressString B (entryAddr B fb)"
  using assms by (auto simp: FractionalBalance_Validate_None entryAddr_def entryAmount_def bech32_contract_def)

text \<open>Entries that differ as lower-case strings belong to different accounts.\<close>

lemma valid_balances:
  assumes bc: "bech32_contract B" and v: "FractionalBalances_Validate K B fbs = None"
  shows "\<forall>fb\<in>set fbs. FractionalBalance_Validate K B fb = None" "distinct (map (entryAddr B) fbs)"
proof -
  show valid: "\<forall>fb\<in>set fbs. FractionalBalance_Validate K B fb = None"
    using v by (simp add: FractionalBalances_Validate_def validateBalances_None [OF bc])
  have "map (\<lambda>fb. ToLower (fb_Address fb)) fbs = map (AccAddressString B) (map (entryAddr B) fbs)"
    using valid valid_entry(6) [OF bc] by auto
  moreover have "distinct (map (\<lambda>fb. ToLower (fb_Address fb)) fbs)"
    using v by (simp add: FractionalBalances_Validate_def validateBalances_None [OF bc])
  ultimately have "distinct (map (AccAddressString B) (map (entryAddr B) fbs))" by (simp only:)
  then show "distinct (map (entryAddr B) fbs)" unfolding distinct_map [of "AccAddressString B"] by blast
qed

lemma SumAmount_eq: "SumAmount fbs = (\<Sum>fb\<leftarrow>fbs. entryAmount fb)"
proof -
  have "fold (\<lambda>fb sum. sum + entryAmount fb) fbs c = c + (\<Sum>fb\<leftarrow>fbs. entryAmount fb)" for c
    by (induction fbs arbitrary: c) simp_all
  then show ?thesis by (simp add: SumAmount_def entryAmount_def)
qed

lemma genesisStore_total:
  assumes "distinct (map (entryAddr B) fbs)" "\<forall>fb\<in>set fbs. fm_get0 m (entryAddr B fb) = 0"
  shows "fm_total (genesisStore B fbs m) = fm_total m + SumAmount fbs"
  using assms
proof (induction fbs arbitrary: m)
  case Nil
  then show ?case by (simp add: genesisStore_def SumAmount_eq)
next
  case (Cons fb fbs)
  have "\<forall>fb'\<in>set fbs. fm_get0 (fm_put0 (entryAddr B fb) (entryAmount fb) m) (entryAddr B fb') = 0"
    using Cons.prems by (auto simp: image_iff)
  from Cons.IH [OF _ this] Cons.prems show ?case by (simp add: genesisStore_def SumAmount_eq)
qed

lemma genesisStore_ok:
  assumes "\<forall>fb\<in>set fbs. 0 < entryAmount fb \<and> entryAmount fb < c \<and> entryAddr B fb \<noteq> []"
    and "\<forall>a v. fmlookup m a = Some v \<longrightarrow> 0 < v \<and> v < c \<and> a \<noteq> []"
  shows "\<forall>a v. fmlookup (genesisStore B fbs m) a = Some v \<longrightarrow> 0 < v \<and> v < c \<and> a \<noteq> []"
  using assms
proof (induction fbs arbitrary: m)
  case Nil
  then show ?case by (simp add: genesisStore_def)
next
  case (Cons fb fbs)
  have "\<forall>a v. fmlookup (fm_put0 (entryAddr B fb) (entryAmount fb) m) a = Some v \<longrightarrow> 0 < v \<and> v < c \<and> a \<noteq> []"
    using Cons.prems by (intro frac_ok_put) auto
  from Cons.IH [OF _ this] Cons.prems(1) have "\<forall>a v. fmlookup (genesisStore B fbs
      (fm_put0 (entryAddr B fb) (entryAmount fb) m)) a = Some v \<longrightarrow> 0 < v \<and> v < c \<and> a \<noteq> []" by force
  then show ?case unfolding genesisStore_def by (simp only: fold_Cons comp_apply)
qed

lemma genesisStore_other:
  "a \<notin> entryAddr B ` set fbs \<Longrightarrow> fmlookup (genesisStore B fbs m) a = fmlookup m a"
  by (induction fbs arbitrary: m) (simp_all add: genesisStore_def)

lemma set_balances_run:
  assumes "bech32_contract B" "\<forall>fb\<in>set fbs. FractionalBalance_Validate K B fb = None"
  shows "go_for fbs (\<lambda>bal. case AccAddressFromBech32 B (fb_Address bal) of
                None \<Rightarrow> go_panic ''MustAccAddressFromBech32''
              | Some addr \<Rightarrow>
                 (case fb_Amount bal of
                    None \<Rightarrow> go_panic ''nil amount''
                  | Some amount \<Rightarrow> SetFractionalBalance K addr amount)) s
    = (Ret (), s\<lparr>fracStore := genesisStore B fbs (fracStore s)\<rparr>)"
  using assms(2)
proof (induction fbs arbitrary: s)
  case Nil
  then show ?case by (simp add: genesisStore_def)
next
  case (Cons fb fbs)
  have fb: "FractionalBalance_Validate K B fb = None" using Cons.prems by simp
  note e = valid_entry(1-5) [OF assms(1) fb]
  have "SetFractionalBalance K (entryAddr B fb) (entryAmount fb) s
      = (Ret (), s\<lparr>fracStore := fm_put0 (entryAddr B fb) (entryAmount fb) (fracStore s)\<rparr>)"
    using e by (intro SetFractionalBalance_eq) auto
  then show ?case using Cons by (simp add: e genesisStore_def)
qed

section \<open>Initialisation\<close>

lemma InitGenesis_run:
  assumes bech: "bech32_contract B" and wired: "pb_wired K"
    and v: "GenesisState_Validate K B gs = None"
    and fresh: "fracStore s = fmempty" "remStore s = None"
    and backed: "TotalAmountWithRemainder gs = bal K (bankState s) (reserveAddr K) * CF K \<or>
      gs = DefaultGenesisState"
  shows "InitGenesis K B gs s = (Ret (), s\<lparr>fracStore := genesisStore B (gs_Balances gs) fmempty,
    remStore := rem_put (the (gs_Remainder gs))\<rparr>)"
proof -
  obtain r where r: "gs_Remainder gs = Some r" "0 \<le> r" "r < CF K"
      and bv: "FractionalBalances_Validate K B (gs_Balances gs) = None"
    using v by (auto simp: GenesisState_Validate_def split: option.splits if_splits)
  have dflt: "gs = DefaultGenesisState \<Longrightarrow> gs_Balances gs = [] \<and> gs_Remainder gs = Some 0"
    by (simp add: DefaultGenesisState_def NewGenesisState_def)
  obtain acc where acc: "ak_GetModuleAccount (ak K) ModuleName = Some acc" using wired by (auto simp: pb_wired_def)
  have ok: "\<not> (TotalAmountWithRemainder gs \<noteq> bal K (bankState s) (reserveAddr K) * CF K \<and>
      \<not> (gs_Balances gs = [] \<and> gs_Remainder gs = Some 0))"
    using backed dflt by auto
  show ?thesis
    using v acc ok set_balances_run [OF bech valid_balances(1) [OF bech bv], of s] r fresh
    by (auto simp: InitGenesis_def Let_def reserveAddr_def SetRemainderAmount_eq)
qed

lemma genesis_inv:
  assumes bech: "bech32_contract B" and wired: "pb_wired K"
    and v: "GenesisState_Validate K B gs = None"
    and backed: "TotalAmountWithRemainder gs = bal K (bankState s) (reserveAddr K) * CF K"
    and noR: "reserveAddr K \<notin> entryAddr B ` set (gs_Balances gs)"
  shows "pb_inv K (s\<lparr>fracStore := genesisStore B (gs_Balances gs) fmempty, remStore := rem_put (the (gs_Remainder gs))\<rparr>)"
proof (rule pb_invI)
  obtain r where r: "gs_Remainder gs = Some r" "0 \<le> r" "r < CF K"
      and bv: "FractionalBalances_Validate K B (gs_Balances gs) = None"
    using v by (auto simp: GenesisState_Validate_def split: option.splits if_splits)
  note vb = valid_balances [OF bech bv]
  let ?s = "s\<lparr>fracStore := genesisStore B (gs_Balances gs) fmempty, remStore := rem_put (the (gs_Remainder gs))\<rparr>"
  have fs: "fracStore ?s = genesisStore B (gs_Balances gs) fmempty" by simp
  have "\<forall>fb\<in>set (gs_Balances gs). 0 < entryAmount fb \<and> entryAmount fb < CF K \<and> entryAddr B fb \<noteq> []"
    using vb(1) valid_entry(3-5) [OF bech, of K] by blast
  then show "\<forall>a v. fmlookup (fracStore ?s) a = Some v \<longrightarrow> 0 < v \<and> v < CF K \<and> a \<noteq> []"
    unfolding fs by (rule genesisStore_ok) simp
  show "0 < x \<and> x < CF K" if "remStore ?s = Some x" for x
    using that r by (intro rem_put_range [of r]) auto
  show "fmlookup (fracStore ?s) (reserveAddr K) = None"
    using genesisStore_other [OF noR, of fmempty] by simp
  show "bal K (bankState ?s) (reserveAddr K) * CF K = fm_total (fracStore ?s) + GetRemainderAmount ?s"
    using backed genesisStore_total [OF vb(2), of fmempty] r(1) by (simp add: TotalAmountWithRemainder_def)
qed

section \<open>Export\<close>

lemma iterate_append:
  "iterateEntries (\<lambda>a v acc. (False, acc @ [f a v])) es acc = acc @ map (\<lambda>(a, v). f a v) es"
  by (induction es arbitrary: acc) auto

lemma ExportGenesis_eq:
  "ExportGenesis B s = NewGenesisState (map (exportEntry B) (storeEntries (fracStore s))) (GetRemainderAmount s)"
  by (simp add: ExportGenesis_def IterateFractionalBalances_def iterate_append exportEntry_def)

lemma storeEntries_props:
  "distinct (map fst (storeEntries m))" "(a, v) \<in> set (storeEntries m) \<longleftrightarrow> fmlookup m a = Some v"
  "map_of (storeEntries m) a = fmlookup m a"
proof -
  show d: "distinct (map fst (storeEntries m))"
    by (simp add: storeEntries_def comp_def sorted_list_of_fset.rep_eq)
  show e: "(a, v) \<in> set (storeEntries m) \<longleftrightarrow> fmlookup m a = Some v" for a v
    by (auto simp: storeEntries_def image_iff sorted_list_of_fset.rep_eq fmlookup_dom_iff)
  show "map_of (storeEntries m) a = fmlookup m a"
  proof (cases "fmlookup m a")
    case None
    then have "a \<notin> fst ` set (storeEntries m)" using e by force
    then show ?thesis using None by (simp add: map_of_eq_None_iff)
  next
    case (Some v)
    then show ?thesis using d e by (simp add: map_of_is_SomeI)
  qed
qed

lemma exported_entry:
  "bech32_contract B \<Longrightarrow> fst p \<noteq> [] \<Longrightarrow> entryAddr B (exportEntry B p) = fst p"
  "entryAmount (exportEntry B p) = snd p"
  by (cases p; simp add: entryAddr_def entryAmount_def exportEntry_def NewFractionalBalance_def bech32_contract_def)+

lemma genesisStore_exported:
  assumes bech: "bech32_contract B" and "distinct (map fst es)" "\<forall>(a, v)\<in>set es. a \<noteq> [] \<and> v \<noteq> 0"
  shows "fmlookup (genesisStore B (map (exportEntry B) es) m) a
    = (case map_of es a of Some v \<Rightarrow> Some v | None \<Rightarrow> fmlookup m a)"
  using assms(2,3)
proof (induction es arbitrary: m)
  case Nil
  then show ?case by (simp add: genesisStore_def)
next
  case (Cons p es)
  have p: "fst p \<noteq> []" "snd p \<noteq> 0" using Cons.prems by auto
  have "fmlookup (genesisStore B (map (exportEntry B) (p # es)) m) a
      = (case map_of es a of Some v \<Rightarrow> Some v | None \<Rightarrow> fmlookup (fm_put0 (fst p) (snd p) m) a)"
    using Cons.IH [of "fm_put0 (fst p) (snd p) m"] Cons.prems
    by (simp add: genesisStore_def exported_entry(1) [OF bech p(1)] exported_entry(2))
  moreover have "map_of es (fst p) = None" using Cons.prems by (auto simp: map_of_eq_None_iff)
  ultimately show ?case using p by (cases p) (auto simp: fm_put0_def split: option.split)
qed

lemma exported_sum:
  assumes "bech32_contract B" "\<forall>(a, v)\<in>set (storeEntries m). a \<noteq> []"
  shows "SumAmount (map (exportEntry B) (storeEntries m)) = fm_total m"
proof -
  have "(\<Sum>fb\<leftarrow>map (exportEntry B) (storeEntries m). entryAmount fb) = (\<Sum>p\<leftarrow>storeEntries m. snd p)"
    by (simp add: comp_def exported_entry(2))
  also have "\<dots> = fm_total m"
    unfolding fm_total_def storeEntries_def
    by (simp add: comp_def sum_list_distinct_conv_sum_set sorted_list_of_fset.rep_eq)
      (rule sum.cong, auto simp: fm_get0_def fmlookup_dom_iff)
  finally show ?thesis by (simp add: SumAmount_eq)
qed

lemma exported_valid:
  assumes bech: "bech32_contract B" and es: "distinct (map fst es)"
    "\<forall>(a, v)\<in>set es. a \<noteq> [] \<and> 0 < v \<and> v < CF K"
  shows "FractionalBalances_Validate K B (map (exportEntry B) es) = None"
proof -
  have valid: "FractionalBalance_Validate K B (exportEntry B p) = None" if "p \<in> set es" for p
    using that es(2) bech
    by (auto simp: FractionalBalance_Validate_None exportEntry_def NewFractionalBalance_def bech32_contract_def)
  have lower: "ToLower (fb_Address (exportEntry B p)) = AccAddressString B (fst p)" if "p \<in> set es" for p
    using valid_entry(6) [OF bech valid [OF that]] exported_entry(1) [OF bech, of p] es(2) that by auto
  have inj: "inj_on (\<lambda>p. AccAddressString B (fst p)) (set es)"
  proof (rule inj_onI)
    fix p q assume pq: "p \<in> set es" "q \<in> set es" "AccAddressString B (fst p) = AccAddressString B (fst q)"
    then have "AccAddressFromBech32 B (AccAddressString B (fst p)) = Some (fst q)"
      using bech es(2) by (auto simp: bech32_contract_def)
    then have "fst p = fst q" using bech es(2) pq(1) by (auto simp: bech32_contract_def)
    then show "p = q" using es(1) pq(1,2) by (cases p, cases q) (auto dest: eq_key_imp_eq_value)
  qed
  have "distinct (map (\<lambda>p. ToLower (fb_Address (exportEntry B p))) es)"
    using es(1) inj lower by (simp add: distinct_map inj_on_def)
  then show ?thesis
    using valid by (simp add: FractionalBalances_Validate_def validateBalances_None [OF bech] comp_def)
qed

end
