(* ===== verification/PreciseBankLedger.thy ===== *)
theory PreciseBankLedger
  imports PreciseBankGenesis
begin

text \<open>
  A concrete x/bank, used to instantiate the Cosmos SDK parameters of \<open>x/precisebank\<close>: balances
  per account and denom with nothing locked, a supply, and the sequence numbers of x/auth.  \<open>ledger_contract\<close> shows that the
  contract the module relies on can be met; the evaluations of the module run on this ledger.
\<close>

section \<open>The ledger\<close>

record ledger =
  lg_bal :: "AccAddress \<Rightarrow> denom \<Rightarrow> nat"
  lg_sup :: "denom \<Rightarrow> int"
  lg_acc :: "(AccAddress, u64) fmap"

definition lgAmountOf :: "coins \<Rightarrow> denom \<Rightarrow> int" where
  "lgAmountOf cs d = (case map_of (map (\<lambda>c. (Denom c, Amount c)) cs) d of Some a \<Rightarrow> a | None \<Rightarrow> 0)"

definition lgValid :: "coins \<Rightarrow> bool" where
  "lgValid cs \<longleftrightarrow> distinct (map Denom cs) \<and> (\<forall>c\<in>set cs. Denom c \<noteq> [] \<and> 0 < Amount c)"

text \<open>\<open>Sub\<close> of the whole amount of a denom, the only form the module uses.\<close>

definition lgSub :: "coins \<Rightarrow> coin \<Rightarrow> coins" where
  "lgSub cs c = filter (\<lambda>c'. Denom c' \<noteq> Denom c) cs"

definition lgCoins :: coins_api where
  "lgCoins = \<lparr>ValidDenom = (\<lambda>d. d \<noteq> []), IsValid = lgValid, AmountOf = lgAmountOf, SubCoin = lgSub,
     IsAllPositive = (\<lambda>cs. cs \<noteq> []), EmptyCoins = (\<lambda>cs. cs = []), NewCoins = (\<lambda>c. [c])\<rparr>"

definition lgPays :: "AccAddress \<Rightarrow> coins \<Rightarrow> ledger \<Rightarrow> bool" where
  "lgPays a cs b \<longleftrightarrow> (\<forall>c\<in>set cs. Amount c \<le> int (lg_bal b a (Denom c)))"

definition lgTake :: "AccAddress \<Rightarrow> coins \<Rightarrow> ledger \<Rightarrow> ledger" where
  "lgTake f cs b = b\<lparr>lg_bal := (\<lambda>a d. lg_bal b a d - (if a = f then nat (lgAmountOf cs d) else 0))\<rparr>"

definition lgGive :: "AccAddress \<Rightarrow> coins \<Rightarrow> ledger \<Rightarrow> ledger" where
  "lgGive t cs b = b\<lparr>lg_bal := (\<lambda>a d. lg_bal b a d + (if a = t then nat (lgAmountOf cs d) else 0))\<rparr>"

definition lgSupply :: "int \<Rightarrow> coins \<Rightarrow> ledger \<Rightarrow> ledger" where
  "lgSupply sg cs b = b\<lparr>lg_sup := (\<lambda>d. lg_sup b d + sg * lgAmountOf cs d)\<rparr>"

definition lgSend :: "AccAddress \<Rightarrow> AccAddress \<Rightarrow> coins \<Rightarrow> (ledger, sdk_error, unit) go" where
  "lgSend f t cs b =
    (if lgPays f cs b then (Ret (), lgGive t cs (lgTake f cs b)) else (Err (ErrInsufficientFunds cs), b))"

definition lgModules :: "string \<Rightarrow> module_account option" where
  "lgModules n =
    (if n = ModuleName then Some \<lparr>ma_Address = [9], ma_Permissions = [''minter'', ''burner'']\<rparr>
     else if n = ''evm'' then Some \<lparr>ma_Address = [7], ma_Permissions = [''minter'', ''burner'']\<rparr>
     else if n = ''fee_collector'' then Some \<lparr>ma_Address = [8], ma_Permissions = []\<rparr>
     else if n = ''erc20'' then Some \<lparr>ma_Address = AddressBytes 7, ma_Permissions = [''minter'', ''burner'']\<rparr>
     else None)"

definition lgAddress :: "string \<Rightarrow> AccAddress" where
  "lgAddress n = (case lgModules n of Some acc \<Rightarrow> ma_Address acc | None \<Rightarrow> [])"

definition lgBank :: "ledger bank_keeper" where
  "lgBank = \<lparr>
     bk_IsSendEnabledCoin = (\<lambda>b c. True),
     bk_GetBalance = (\<lambda>b a d. int (lg_bal b a d)),
     bk_GetSupply = lg_sup,
     bk_SpendableCoin = (\<lambda>b a d. int (lg_bal b a d)),
     bk_BlockedAddr = (\<lambda>a. a = [9]),
     bk_SendCoins = lgSend,
     bk_SendCoinsFromAccountToModule = (\<lambda>f n. lgSend f (lgAddress n)),
     bk_SendCoinsFromModuleToModule = (\<lambda>n n'. lgSend (lgAddress n) (lgAddress n')),
     bk_MintCoins = (\<lambda>n cs b. (Ret (), lgSupply 1 cs (lgGive (lgAddress n) cs b))),
     bk_BurnCoins = (\<lambda>n cs b. if lgPays (lgAddress n) cs b
        then (Ret (), lgSupply (- 1) cs (lgTake (lgAddress n) cs b)) else (Err (ErrInsufficientFunds cs), b))\<rparr>"

text \<open>A codec: every byte is written as two of the letters a to p.\<close>

definition lgLetter :: "nat \<Rightarrow> char" where
  "lgLetter n = char_of (97 + n)"

definition lgString :: "AccAddress \<Rightarrow> string" where
  "lgString a = concat (map (\<lambda>w. [lgLetter (unat w div 16), lgLetter (unat w mod 16)]) a)"

fun lgParse :: "string \<Rightarrow> AccAddress option" where
  "lgParse [] = Some []"
| "lgParse [c] = None"
| "lgParse (c # d # str) =
    (let x = of_char c :: nat; y = of_char d :: nat
     in if 97 \<le> x \<and> x < 113 \<and> 97 \<le> y \<and> y < 113
        then map_option ((#) (of_nat (16 * (x - 97) + (y - 97)))) (lgParse str) else None)"

definition lgBech32 :: bech32 where
  "lgBech32 = \<lparr>AccAddressFromBech32 = (\<lambda>str. if str = [] then None else lgParse str),
     AccAddressString = lgString\<rparr>"

text \<open>A coin with 17 decimals, so the conversion factor is ten.\<close>

definition lgKeeper :: "ledger pb_keeper" where
  "lgKeeper = \<lparr>bk = lgBank,
     ak = \<lparr>ak_GetModuleAddress = lgAddress, ak_GetModuleAccount = lgModules, ak_StringToBytes = AccAddressFromBech32 lgBech32\<rparr>,
     coinsApi = lgCoins,
     coinInfo = \<lparr>eci_Denom = ''utest'', eci_ExtendedDenom = ''atest'', eci_DisplayDenom = ''test'', eci_Decimals = 17\<rparr>\<rparr>"

text \<open>
  Account 1 owns 5 integer coins and 3 fractional units, account 2 owns 9 fractional units, the
  reserve backs these 12 units and the remainder of 8 with 2 integer coins.
\<close>

definition lgState :: "ledger pb_ctx" where
  "lgState = \<lparr>
     bankState = \<lparr>lg_bal = (\<lambda>a d. if d = ''utest'' then (if a = [1] then 5 else if a = [7] then 4 else if a = [9] then 2 else 0) else 0),
                  lg_sup = (\<lambda>d. if d = ''utest'' then 11 else 0), lg_acc = fmempty\<rparr>,
     fracStore = fmupd [1] 3 (fmupd [2] 9 fmempty), remStore = Some 8, pbEvents = []\<rparr>"

text \<open>A genesis state for that store: the two accounts and the remainder.\<close>

definition lgGenesis :: GenesisState where
  "lgGenesis = NewGenesisState [NewFractionalBalance ''ab'' 3, NewFractionalBalance ''ac'' 9] 8"

definition lgFresh :: "ledger pb_ctx" where
  "lgFresh = lgState\<lparr>fracStore := fmempty, remStore := None\<rparr>"

lemma lgKeeper_sel [simp]:
  "bk lgKeeper = lgBank" "coinsApi lgKeeper = lgCoins"
  "ak_GetModuleAddress (ak lgKeeper) = lgAddress" "ak_GetModuleAccount (ak lgKeeper) = lgModules"
  "ak_StringToBytes (ak lgKeeper) = AccAddressFromBech32 lgBech32"
  by (simp_all add: lgKeeper_def)

lemma lgBank_sel [simp]:
  "bk_GetBalance lgBank b a d = int (lg_bal b a d)" "bk_GetSupply lgBank b = lg_sup b"
  "bk_SpendableCoin lgBank b a d = int (lg_bal b a d)" "bk_SendCoins lgBank = lgSend"
  "bk_SendCoinsFromAccountToModule lgBank f n = lgSend f (lgAddress n)"
  "bk_SendCoinsFromModuleToModule lgBank n n' = lgSend (lgAddress n) (lgAddress n')"
  "bk_MintCoins lgBank n cs b = (Ret (), lgSupply 1 cs (lgGive (lgAddress n) cs b))"
  "bk_BurnCoins lgBank n cs b = (if lgPays (lgAddress n) cs b
     then (Ret (), lgSupply (- 1) cs (lgTake (lgAddress n) cs b)) else (Err (ErrInsufficientFunds cs), b))"
  by (simp_all add: lgBank_def)

lemma lgCoins_sel [simp]:
  "ValidDenom lgCoins d \<longleftrightarrow> d \<noteq> []" "IsValid lgCoins = lgValid" "AmountOf lgCoins = lgAmountOf" "SubCoin lgCoins = lgSub"
  "IsAllPositive lgCoins cs \<longleftrightarrow> cs \<noteq> []" "EmptyCoins lgCoins cs \<longleftrightarrow> cs = []" "NewCoins lgCoins c = [c]"
  by (simp_all add: lgCoins_def)

section \<open>The contract holds\<close>

lemma lgAmountOf_mem:
  assumes "lgValid cs" "c \<in> set cs"
  shows "lgAmountOf cs (Denom c) = Amount c"
proof -
  have "map_of (map (\<lambda>c. (Denom c, Amount c)) cs) (Denom c) = Some (Amount c)"
    using assms by (intro map_of_is_SomeI) (auto simp: lgValid_def comp_def)
  then show ?thesis by (simp add: lgAmountOf_def)
qed

lemma lgAmountOf_not_mem: "d \<notin> Denom ` set cs \<Longrightarrow> lgAmountOf cs d = 0"
proof -
  assume "d \<notin> Denom ` set cs"
  then have "map_of (map (\<lambda>c. (Denom c, Amount c)) cs) d = None" by (auto simp: map_of_eq_None_iff)
  then show ?thesis by (simp add: lgAmountOf_def)
qed

lemma lgAmountOf_nonneg: "lgValid cs \<Longrightarrow> 0 \<le> lgAmountOf cs d"
  using lgAmountOf_mem [of cs] lgAmountOf_not_mem [of d cs]
  by (cases "d \<in> Denom ` set cs") (auto simp: lgValid_def intro: less_imp_le)

lemma lgSub_amount:
  assumes "lgValid cs"
  shows "lgValid (lgSub cs c)" "lgAmountOf (lgSub cs c) d = (if d = Denom c then 0 else lgAmountOf cs d)"
proof -
  show v: "lgValid (lgSub cs c)"
    using assms by (auto simp: lgValid_def lgSub_def distinct_map intro: inj_on_subset)
  show "lgAmountOf (lgSub cs c) d = (if d = Denom c then 0 else lgAmountOf cs d)"
  proof (cases "d \<in> Denom ` set (lgSub cs c)")
    case True
    then obtain c' where "c' \<in> set cs" "d = Denom c'" "d \<noteq> Denom c" "c' \<in> set (lgSub cs c)"
      by (auto simp: lgSub_def)
    then show ?thesis using lgAmountOf_mem [OF v] lgAmountOf_mem [OF assms] by simp
  next
    case False
    then have "d = Denom c \<or> d \<notin> Denom ` set cs" by (auto simp: lgSub_def)
    then show ?thesis using lgAmountOf_not_mem [OF False] lgAmountOf_not_mem [of d cs] by auto
  qed
qed

lemma lgCoins_contract: "coins_contract lgCoins"
  unfolding coins_contract_def
  by (auto simp: lgAmountOf_nonneg lgSub_amount lgValid_def [of "[_]"] lgAmountOf_def [of "[]"] lgAmountOf_def [of "[_]"])

lemma lgPays_iff:
  assumes v: "lgValid cs"
  shows "lgPays a cs b \<longleftrightarrow> (\<forall>d. lgAmountOf cs d \<le> int (lg_bal b a d))"
proof
  assume pays: "lgPays a cs b"
  show "\<forall>d. lgAmountOf cs d \<le> int (lg_bal b a d)"
  proof
    show "lgAmountOf cs d \<le> int (lg_bal b a d)" for d
      using pays lgAmountOf_mem [OF v] lgAmountOf_not_mem [of d cs]
      by (cases "d \<in> Denom ` set cs") (auto simp: lgPays_def)
  qed
next
  assume le: "\<forall>d. lgAmountOf cs d \<le> int (lg_bal b a d)"
  show "lgPays a cs b"
    unfolding lgPays_def
  proof
    show "Amount c \<le> int (lg_bal b a (Denom c))" if "c \<in> set cs" for c
      using le [rule_format, of "Denom c"] lgAmountOf_mem [OF v that] by simp
  qed
qed

lemma lgPays_le:
  assumes "lgValid cs" "lgPays f cs b"
  shows "nat (lgAmountOf cs d) \<le> lg_bal b f d"
  using assms(2) [unfolded lgPays_iff [OF assms(1)], rule_format, of d] by (simp add: nat_le_iff)

lemma lg_transfers:
  assumes v: "lgValid cs"
  shows "transfers lgKeeper f t cs (lgSend f t cs)"
  unfolding transfers_def
proof (intro allI, rule if_bool_eq_conj [THEN iffD2], intro conjI impI, goal_cases)
  case (1 b)
  then have pays: "lgPays f cs b" by (simp add: lgPays_iff [OF v])
  then show ?case
    using lgPays_le [OF v pays] lgAmountOf_nonneg [OF v]
    by (intro exI [of _ "lgGive t cs (lgTake f cs b)"])
      (simp add: lgSend_def lgGive_def lgTake_def of_nat_diff)
next
  case (2 b)
  then have "\<not> lgPays f cs b" by (simp add: lgPays_iff [OF v])
  then show ?case by (simp add: lgSend_def)
qed

lemma lg_mints: "lgValid cs \<Longrightarrow> mints lgKeeper (lgAddress n) cs (bk_MintCoins lgBank n cs)"
  using lgAmountOf_nonneg [of cs]
  by (auto simp: mints_def lgGive_def lgSupply_def)

lemma lg_burns:
  assumes v: "lgValid cs"
  shows "burns lgKeeper (lgAddress n) cs (bk_BurnCoins lgBank n cs)"
  unfolding burns_def
proof (intro allI, rule if_bool_eq_conj [THEN iffD2], intro conjI impI, goal_cases)
  case (1 b)
  then have pays: "lgPays (lgAddress n) cs b" by (simp add: lgPays_iff [OF v])
  then show ?case
    using lgPays_le [OF v pays] lgAmountOf_nonneg [OF v]
    by (simp add: lgSupply_def lgTake_def of_nat_diff)
next
  case (2 b)
  then have "\<not> lgPays (lgAddress n) cs b" by (simp add: lgPays_iff [OF v])
  then show ?case by simp
qed

lemma lgAddress_module: "lgModules n = Some acc \<Longrightarrow> lgAddress n = ma_Address acc \<and> ma_Address acc \<noteq> []"
  by (auto simp: lgAddress_def lgModules_def split: if_splits)

lemma lg_denoms [simp]: "IntegerCoinDenom lgKeeper = ''utest''" "ExtendedCoinDenom lgKeeper = ''atest''"
  by (simp_all add: IntegerCoinDenom_def ExtendedCoinDenom_def lgKeeper_def)

lemma ledger_contract: "bank_contract lgKeeper"
  unfolding bank_contract_def
proof (intro conjI allI impI)
  show "mints lgKeeper (ma_Address acc) cs (bk_MintCoins (bk lgKeeper) n cs)"
    if "IsValid (coinsApi lgKeeper) cs" "ak_GetModuleAccount (ak lgKeeper) n = Some acc" for n acc cs
    using lg_mints [of cs n] lgAddress_module [of n acc] that by (simp del: lgBank_sel)
  show "burns lgKeeper (ma_Address acc) cs (bk_BurnCoins (bk lgKeeper) n cs)"
    if "IsValid (coinsApi lgKeeper) cs" "ak_GetModuleAccount (ak lgKeeper) n = Some acc" for n acc cs
    using lg_burns [of cs n] lgAddress_module [of n acc] that by (simp del: lgBank_sel)
qed (use lgAddress_module in \<open>simp_all add: lgCoins_contract lg_transfers\<close>)

lemma ledger_wired: "pb_wired lgKeeper"
  by (auto simp: pb_wired_def lgKeeper_def [THEN arg_cong, of coinInfo] Decimals_Validate_def EighteenDecimals_def HasPermission_def
      lgModules_def isModule_def reserveAddr_def lgAddress_def ModuleName_def split: if_splits)

lemma lg_cf [simp]: "ConversionFactorPB lgKeeper = 10"
  by (simp add: ConversionFactorPB_def coinFactor_def ConversionFactor_def ConversionFactorTable_def lgKeeper_def)

lemma lg_reserve [simp]: "reserveAddr lgKeeper = [9]"
  by (simp add: reserveAddr_def lgKeeper_def lgAddress_def lgModules_def)

lemma ledger_inv: "pb_inv lgKeeper lgState"
  by (auto simp: pb_inv_def lgState_def GetTotalSum_fm GetRemainderAmount_def fm_total_def fm_get0_def)

lemma lgState_bal: "lg_bal (bankState lgState) a d =
    (if d = ''utest'' then (if a = [1] then 5 else if a = [7] then 4 else if a = [9] then 2 else 0) else 0)"
  by (simp add: lgState_def)

lemma ledger_values:
  "extBalance lgKeeper lgState [1] = 53" "extBalance lgKeeper lgState [2] = 9" "extBalance lgKeeper lgState [7] = 40"
  "extSpendable lgKeeper lgState [1] = 53" "extSpendable lgKeeper lgState [7] = 40" "extSupply lgKeeper lgState = 102"
  by (simp_all add: extBalance_eq extSpendable_eq extSupply_def GetSupply_def GetRemainderAmount_def lgState_def fm_get0_def)

lemma ledger_evm_module: "plain_module lgKeeper ''evm'' ''minter''" "plain_module lgKeeper ''evm'' ''burner''"
  "lgAddress ''evm'' = [7]"
  by (simp_all add: plain_module_def lgModules_def ModuleName_def HasPermission_def lgAddress_def)

lemma ledger_denoms_differ: "\<not> IsExtendedDenomSameAsIntegerDenom lgKeeper"
  by (simp add: IsExtendedDenomSameAsIntegerDenom_def)

section \<open>The codec contract holds\<close>

lemma byte_lt: "unat (w :: 8 word) < 256"
proof -
  have "unat w < 2 ^ LENGTH(8)" by (rule unsigned_less)
  then show ?thesis by simp
qed

lemma byte_of_nat: "n < 256 \<Longrightarrow> unat (of_nat n :: 8 word) = n"
  by (simp only: unat_of_nat) simp

lemma lgLetter_code [simp]: "n < 16 \<Longrightarrow> (of_char (lgLetter n) :: nat) = 97 + n"
  by (simp add: lgLetter_def of_char_of)

lemma lgLetter_inv: "97 \<le> (of_char c :: nat) \<Longrightarrow> lgLetter (of_char c - 97) = c"
  by (simp add: lgLetter_def)

lemma lgParse_String: "lgParse (lgString a) = Some a"
proof (induction a)
  case (Cons w a)
  have "unat w < 256" by (rule byte_lt)
  then have "unat w div 16 < 16" by (simp add: div_less_iff_less_mult)
  moreover have "(of_nat (16 * (unat w div 16) + unat w mod 16) :: 8 word) = w"
    by (simp only: mult_div_mod_eq unat_of_nat of_nat_unat ucast_id)
  ultimately show ?case using Cons by (simp add: lgString_def Let_def)
qed (simp add: lgString_def)

lemma lgString_Parse: "lgParse str = Some a \<Longrightarrow> lgString a = str"
proof (induction str arbitrary: a rule: lgParse.induct)
  case (3 c d str)
  define x y where "x = (of_char c :: nat)" and "y = (of_char d :: nat)"
  from 3(2) obtain r where r: "lgParse str = Some r" "a = of_nat (16 * (x - 97) + (y - 97)) # r"
      and xy: "97 \<le> x" "x < 113" "97 \<le> y" "y < 113"
    by (auto simp: x_def y_def Let_def split: if_splits)
  define u v where "u = x - 97" and "v = y - 97"
  have uv: "u < 16" "v < 16" using xy by (auto simp: u_def v_def)
  then have "unat (of_nat (16 * u + v) :: 8 word) = 16 * u + v" by (intro byte_of_nat) simp
  then have "lgString (of_nat (16 * u + v) # r) = lgLetter u # lgLetter v # lgString r"
    using uv by (simp add: lgString_def del: of_nat_add of_nat_mult)
  moreover have "lgString r = str" using 3(1) xy r(1) by (simp add: x_def y_def)
  ultimately show ?case using xy by (simp add: r(2) u_def v_def x_def y_def lgLetter_inv del: of_nat_add of_nat_mult)
qed (simp_all add: lgString_def)

lemma lgString_lower: "ToLower (lgString a) = lgString a"
proof (induction a)
  case (Cons w a)
  have "unat w < 256" by (rule byte_lt)
  then have "unat w div 16 < 16" by (simp add: div_less_iff_less_mult)
  then show ?case using Cons by (simp add: lgString_def ToLower_def Let_def)
qed (simp add: lgString_def ToLower_def)

lemma ledger_bech32: "bech32_contract lgBech32"
  unfolding bech32_contract_def
proof (intro conjI allI impI)
  show "AccAddressFromBech32 lgBech32 (AccAddressString lgBech32 a) = Some a" if "a \<noteq> []" for a
  proof -
    have "lgString a \<noteq> []" using that by (cases a) (simp_all add: lgString_def)
    then show ?thesis by (simp add: lgBech32_def lgParse_String)
  qed
  show "a \<noteq> []" "ToLower str = AccAddressString lgBech32 a" if "AccAddressFromBech32 lgBech32 str = Some a" for str a
  proof -
    have p: "str \<noteq> []" "lgParse str = Some a" using that by (simp_all add: lgBech32_def split: if_splits)
    have str: "lgString a = str" by (rule lgString_Parse [OF p(2)])
    show "a \<noteq> []" using p(1) str by (auto simp: lgString_def)
    show "ToLower str = AccAddressString lgBech32 a" using lgString_lower [of a] str by (simp add: lgBech32_def)
  qed
qed

lemma ledger_fresh: "fracStore lgFresh = fmempty" "remStore lgFresh = None" "bankState lgFresh = bankState lgState"
  by (simp_all add: lgFresh_def)

lemma ledger_genesis:
  "GenesisState_Validate lgKeeper lgBech32 lgGenesis = None"
  "TotalAmountWithRemainder lgGenesis = bal lgKeeper (bankState lgFresh) (reserveAddr lgKeeper) * CF lgKeeper"
  "reserveAddr lgKeeper \<notin> entryAddr lgBech32 ` set (gs_Balances lgGenesis)"
  by (simp_all add: GenesisState_Validate_def FractionalBalances_Validate_def FractionalBalance_Validate_def
      ValidateFractionalAmount_def NewGenesisState_def NewFractionalBalance_def lgBech32_def ToLower_def
      TotalAmountWithRemainder_def SumAmount_def lgState_bal entryAddr_def lgGenesis_def ledger_fresh)

end
