(* ===== verification/PreciseBankProps.thy ===== *)
theory PreciseBankProps
  imports PreciseBankLedger
begin

text \<open>
  The correctness of \<open>x/precisebank\<close>: transfers, mints and burns implement an exact ledger of
  extended balances, keep the reserve backing the fractional balances, change the supply by the
  stated amount, and fail exactly when the payer cannot pay; the genesis state round-trips; every
  state reachable from genesis is backed.
\<close>

section \<open>Reachable states\<close>

text \<open>
  The transactions of the module.  A step is a successful call; a failed transaction is rolled
  back by the SDK and leaves no step.
\<close>

inductive pb_reach :: "'b pb_keeper \<Rightarrow> bech32 \<Rightarrow> 'b pb_ctx \<Rightarrow> bool" for K B where
  genesis: "fracStore s = fmempty \<Longrightarrow> remStore s = None \<Longrightarrow>
    TotalAmountWithRemainder gs = bk_GetBalance (bk K) (bankState s) (reserveAddr K) (IntegerCoinDenom K) * ConversionFactorPB K \<Longrightarrow>
    reserveAddr K \<notin> entryAddr B ` set (gs_Balances gs) \<Longrightarrow>
    InitGenesis K B gs s = (Ret (), s') \<Longrightarrow> pb_reach K B s'"
| send: "pb_reach K B s \<Longrightarrow> from \<noteq> [] \<Longrightarrow> to \<noteq> [] \<Longrightarrow> from \<noteq> reserveAddr K \<Longrightarrow> to \<noteq> reserveAddr K \<Longrightarrow>
    SendCoins K from to amt s = (Ret (), s') \<Longrightarrow> pb_reach K B s'"
| mint: "pb_reach K B s \<Longrightarrow> MintCoins K moduleName amt s = (Ret (), s') \<Longrightarrow> pb_reach K B s'"
| burn: "pb_reach K B s \<Longrightarrow> BurnCoins K moduleName amt s = (Ret (), s') \<Longrightarrow> pb_reach K B s'"

lemma self_send_extended: "from \<noteq> reserveAddr K \<Longrightarrow> sendExtendedCoins K from from amt s = (Ret (), s)"
  by (simp add: sendExtendedCoins_def reserveAddr_def [symmetric])

lemma SendCoins_self_inv:
  assumes bc: "bank_contract K" and inv: "pb_inv K s" and R: "from \<noteq> reserveAddr K"
    and run: "SendCoins K from from amt s = (Ret (), s')"
  shows "pb_inv K s'"
proof -
  have v: "IsValid (coinsApi K) amt" using run by (auto simp: SendCoins_def split: if_splits)
  note pa = passthrough_amounts [OF bc v]
  show ?thesis
  proof (cases "\<forall>d. AmountOf (coinsApi K) (passthrough K amt) d \<le> bk_SpendableCoin (bk K) (bankState s) from d")
    case True
    from passthrough_send(1) [OF bc pa(1) this, of "from"] obtain b1 where
      s1: "go_when (IsAllPositive (coinsApi K) (passthrough K amt))
        (onBank (bk_SendCoins (bk K) from from (passthrough K amt))) s = (Ret (), s\<lparr>bankState := b1\<rparr>)"
      and bal1: "\<forall>a d. bk_GetBalance (bk K) b1 a d = bk_GetBalance (bk K) (bankState s) a d
            - (if a = from then AmountOf (coinsApi K) (passthrough K amt) d else 0)
            + (if a = from then AmountOf (coinsApi K) (passthrough K amt) d else 0)" by blast
    have "s' = s\<lparr>bankState := b1\<rparr>"
      using run s1 self_send_extended [OF R] by (simp add: SendCoins_alt [OF v] go_when_def split: if_splits)
    moreover have "pb_inv K (s\<lparr>bankState := b1\<rparr>)"
      by (rule passthrough_inv [OF inv]) (use bal1 R in auto)
    ultimately show ?thesis by simp
  next
    case False
    from passthrough_send(2) [OF bc pa(1) this, of "from"] obtain cs where
      "go_when (IsAllPositive (coinsApi K) (passthrough K amt))
        (onBank (bk_SendCoins (bk K) from from (passthrough K amt))) s = (Err (ErrInsufficientFunds cs), s)" by blast
    then show ?thesis using run by (simp add: SendCoins_alt [OF v] del: go_when_app)
  qed
qed

lemma SendCoins_Ret_inv:
  assumes bc: "bank_contract K" and wired: "pb_wired K" and inv: "pb_inv K s"
    and denoms: "\<not> IsExtendedDenomSameAsIntegerDenom K"
    and ne: "from \<noteq> []" "to \<noteq> []" "from \<noteq> reserveAddr K" "to \<noteq> reserveAddr K"
    and run: "SendCoins K from to amt s = (Ret (), s')"
  shows "pb_inv K s'"
proof (cases "from = to")
  case True
  then show ?thesis using SendCoins_self_inv [OF bc inv ne(3)] run by simp
next
  case False
  then have pair: "plain_pair K from to" using ne by (simp add: plain_pair_def)
  have v: "IsValid (coinsApi K) amt" using run by (auto simp: SendCoins_def split: if_splits)
  show ?thesis
    using SendCoins_ok [OF bc wired inv pair v denoms] SendCoins_refused [OF bc wired inv pair v denoms] run
    by (cases "payable K from amt s") auto
qed

lemma MintCoins_Ret_inv:
  assumes bc: "bank_contract K" and wired: "pb_wired K" and inv: "pb_inv K s"
    and denoms: "\<not> IsExtendedDenomSameAsIntegerDenom K" and run: "MintCoins K n amt s = (Ret (), s')"
  shows "pb_inv K s'"
proof -
  have "plain_module K n ''minter''" "IsValid (coinsApi K) amt"
    using run by (auto simp: MintCoins_def plain_module_def split: if_splits option.splits)
  from MintCoins_ok [OF bc wired inv this denoms] run show ?thesis by auto
qed

lemma BurnCoins_Ret_inv:
  assumes bc: "bank_contract K" and wired: "pb_wired K" and inv: "pb_inv K s"
    and denoms: "\<not> IsExtendedDenomSameAsIntegerDenom K" and run: "BurnCoins K n amt s = (Ret (), s')"
  shows "pb_inv K s'"
proof -
  have mv: "plain_module K n ''burner''" "IsValid (coinsApi K) amt"
    using run by (auto simp: BurnCoins_def plain_module_def split: if_splits option.splits)
  show ?thesis
    using BurnCoins_ok [OF bc wired inv mv denoms] BurnCoins_refused [OF bc wired inv mv denoms] run
    by (cases "payable K (ak_GetModuleAddress (ak K) n) amt s") auto
qed

section \<open>Properties\<close>

text \<open>
  C1.  A transfer of extended coins between two ordinary accounts succeeds exactly when the
  sender's spendable extended balance covers it.  It then moves exactly the amount in the ledger
  of extended balances, whichever of the four borrow and carry cases applies, and keeps the
  reserve backing and the extended supply.  Otherwise it reports insufficient funds and writes
  neither fractional balances nor the remainder.
\<close>

theorem sendExtendedCoins_correct:
  assumes "bank_contract K" "pb_wired K" "pb_inv K s" "plain_pair K from to" "0 \<le> amt"
  shows "if amt \<le> extSpendable K s from
    then \<exists>s'. sendExtendedCoins K from to amt s = (Ret (), s') \<and> pb_inv K s' \<and>
      extBalance K s' = ledgerTransfer from to amt (extBalance K s) \<and> extSupply K s' = extSupply K s
    else \<exists>cs s'. sendExtendedCoins K from to amt s = (Err (ErrInsufficientFunds cs), s') \<and>
      fracStore s' = fracStore s \<and> remStore s' = remStore s"
proof (cases "amt \<le> extSpendable K s from")
  case True
  then show ?thesis using sendExtended_dichotomy(1) [OF assms True] by auto
next
  case False
  then obtain cs b' where "sendExtendedCoins K from to amt s = (Err (ErrInsufficientFunds cs), s\<lparr>bankState := b'\<rparr>)"
    using sendExtended_dichotomy(2) [OF assms] by blast
  then show ?thesis using False by simp
qed

theorem sendExtendedCoins_correct_witness:
  "\<exists>s'. sendExtendedCoins lgKeeper [1] [2] 14 lgState = (Ret (), s') \<and>
     extBalance lgKeeper s' [1] = 39 \<and> extBalance lgKeeper s' [2] = 23"
  using sendExtendedCoins_correct [OF ledger_contract ledger_wired ledger_inv, of "[1]" "[2]" 14]
  by (auto simp: plain_pair_def ledgerTransfer_def ledger_values)

text \<open>
  C2.  \<open>SendCoins\<close> of any valid coins, possibly both of the integer and of the extended denom,
  from one account to a different one, neither of them the reserve, on a chain whose extended
  denom is not the integer denom, succeeds exactly when every denom can be paid and the total in
  extended units is spendable.  The extended ledger then moves by \<open>SumExtendedCoin\<close>, every other
  denom by its own amount, the extended supply stays, and the invariant holds again; otherwise the
  error is \<open>ErrInsufficientFunds\<close> and the fractional balances stay.  (A transfer of an account to
  itself does not look at its extended balance at all.)
\<close>

theorem SendCoins_correct:
  assumes "bank_contract K" "pb_wired K" "pb_inv K s" "plain_pair K from to" "IsValid (coinsApi K) amt"
    and "\<not> IsExtendedDenomSameAsIntegerDenom K"
  shows "if payable K from amt s
    then \<exists>s'. SendCoins K from to amt s = (Ret (), s') \<and> pb_inv K s' \<and>
      extBalance K s' = ledgerTransfer from to (Amount (SumExtendedCoin K amt)) (extBalance K s) \<and>
      (\<forall>d. d \<notin> {IntegerCoinDenom K, ExtendedCoinDenom K} \<longrightarrow>
        (\<lambda>a. bk_GetBalance (bk K) (bankState s') a d) =
        ledgerTransfer from to (AmountOf (coinsApi K) amt d) (\<lambda>a. bk_GetBalance (bk K) (bankState s) a d)) \<and>
      extSupply K s' = extSupply K s
    else \<exists>cs s'. SendCoins K from to amt s = (Err (ErrInsufficientFunds cs), s') \<and>
      fracStore s' = fracStore s \<and> remStore s' = remStore s"
proof (cases "payable K from amt s")
  case True
  then show ?thesis using SendCoins_ok [OF assms True] by (simp only: if_True)
next
  case False
  then obtain cs b' where "SendCoins K from to amt s = (Err (ErrInsufficientFunds cs), s\<lparr>bankState := b'\<rparr>)"
    using SendCoins_refused [OF assms] by blast
  then show ?thesis using False by simp
qed

theorem SendCoins_correct_witness:
  "\<exists>s'. SendCoins lgKeeper [1] [2] [NewCoin ''atest'' 21, NewCoin ''utest'' 3] lgState = (Ret (), s') \<and>
     extBalance lgKeeper s' [1] = 2 \<and> extBalance lgKeeper s' [2] = 60"
proof -
  let ?amt = "[NewCoin ''atest'' 21, NewCoin ''utest'' 3]"
  have pay: "payable lgKeeper [1] ?amt lgState"
    by (simp add: payable_def lgAmountOf_def ledger_values lgState_bal)
  have pair: "plain_pair lgKeeper [1] [2]" by (simp add: plain_pair_def)
  have valid: "IsValid (coinsApi lgKeeper) ?amt" by (simp add: lgValid_def)
  from SendCoins_correct [OF ledger_contract ledger_wired ledger_inv pair valid ledger_denoms_differ] pay
  obtain s' where "SendCoins lgKeeper [1] [2] ?amt lgState = (Ret (), s')"
    "extBalance lgKeeper s' = ledgerTransfer [1] [2] (Amount (SumExtendedCoin lgKeeper ?amt)) (extBalance lgKeeper lgState)"
    by (simp only: if_True) blast
  then show ?thesis by (intro exI [of _ s']) (simp add: ledgerTransfer_def lgAmountOf_def ledger_values)
qed

text \<open>
  C3.  \<open>MintCoins\<close> to a module account with the minter permission always succeeds, credits the
  module with the total in extended units, raises the extended supply (integer supply times the
  conversion factor, less the remainder) by the same amount and keeps the reserve backing.
\<close>

theorem MintCoins_correct:
  assumes "bank_contract K" "pb_wired K" "pb_inv K s" "plain_module K n ''minter''"
    and "IsValid (coinsApi K) amt" "\<not> IsExtendedDenomSameAsIntegerDenom K"
  shows "\<exists>s'. MintCoins K n amt s = (Ret (), s') \<and> pb_inv K s' \<and>
    extBalance K s' = ledgerAdd (ak_GetModuleAddress (ak K) n) (Amount (SumExtendedCoin K amt)) (extBalance K s) \<and>
    extSupply K s' = extSupply K s + Amount (SumExtendedCoin K amt)"
  using MintCoins_ok [OF assms] .

theorem MintCoins_correct_witness:
  "\<exists>s'. MintCoins lgKeeper ''evm'' [NewCoin ''atest'' 29] lgState = (Ret (), s') \<and>
     extBalance lgKeeper s' [7] = 69 \<and> extSupply lgKeeper s' = 131"
  using MintCoins_correct [OF ledger_contract ledger_wired ledger_inv ledger_evm_module(1), of "[NewCoin ''atest'' 29]"]
  by (auto simp: lgValid_def ledger_evm_module ledger_denoms_differ ledgerAdd_def lgAmountOf_def ledger_values)

text \<open>
  C4.  \<open>BurnCoins\<close> from a module account with the burner permission succeeds exactly when the
  module can pay; it debits the module and lowers the extended supply by exactly the total in
  extended units and keeps the reserve backing.
\<close>

theorem BurnCoins_correct:
  assumes "bank_contract K" "pb_wired K" "pb_inv K s" "plain_module K n ''burner''"
    and "IsValid (coinsApi K) amt" "\<not> IsExtendedDenomSameAsIntegerDenom K"
  shows "if payable K (ak_GetModuleAddress (ak K) n) amt s
    then \<exists>s'. BurnCoins K n amt s = (Ret (), s') \<and> pb_inv K s' \<and>
      extBalance K s' = ledgerAdd (ak_GetModuleAddress (ak K) n) (- Amount (SumExtendedCoin K amt)) (extBalance K s) \<and>
      extSupply K s' = extSupply K s - Amount (SumExtendedCoin K amt)
    else \<exists>cs s'. BurnCoins K n amt s = (Err (ErrInsufficientFunds cs), s') \<and>
      fracStore s' = fracStore s \<and> remStore s' = remStore s"
proof (cases "payable K (ak_GetModuleAddress (ak K) n) amt s")
  case True
  then show ?thesis using BurnCoins_ok [OF assms True] by (simp only: if_True)
next
  case False
  then obtain cs b' where "BurnCoins K n amt s = (Err (ErrInsufficientFunds cs), s\<lparr>bankState := b'\<rparr>)"
    using BurnCoins_refused [OF assms] by blast
  then show ?thesis using False by simp
qed

theorem BurnCoins_correct_witness:
  "\<exists>s'. BurnCoins lgKeeper ''evm'' [NewCoin ''atest'' 15] lgState = (Ret (), s') \<and>
     extBalance lgKeeper s' [7] = 25 \<and> extSupply lgKeeper s' = 87"
proof -
  let ?amt = "[NewCoin ''atest'' 15]"
  have pay: "payable lgKeeper (ak_GetModuleAddress (ak lgKeeper) ''evm'') ?amt lgState"
    by (simp add: payable_def lgAmountOf_def ledger_values lgState_bal ledger_evm_module)
  have valid: "IsValid (coinsApi lgKeeper) ?amt" by (simp add: lgValid_def)
  from BurnCoins_correct [OF ledger_contract ledger_wired ledger_inv ledger_evm_module(2) valid ledger_denoms_differ] pay
  obtain s' where "BurnCoins lgKeeper ''evm'' ?amt lgState = (Ret (), s')"
    "extBalance lgKeeper s' = ledgerAdd (ak_GetModuleAddress (ak lgKeeper) ''evm'')
       (- Amount (SumExtendedCoin lgKeeper ?amt)) (extBalance lgKeeper lgState)"
    "extSupply lgKeeper s' = extSupply lgKeeper lgState - Amount (SumExtendedCoin lgKeeper ?amt)"
    by (simp only: if_True) blast
  then show ?thesis
    by (intro exI [of _ s']) (simp add: ledgerAdd_def lgAmountOf_def ledger_values ledger_evm_module)
qed


text \<open>
  C6.  A valid genesis state whose total matches the reserve balance initialises an empty module
  store to a state that satisfies the invariant, provided it gives the reserve account no
  fractional balance.
\<close>

theorem InitGenesis_establishes_invariant:
  assumes "bech32_contract B" "pb_wired K" "GenesisState_Validate K B gs = None"
    and "fracStore s = fmempty" "remStore s = None"
    and "TotalAmountWithRemainder gs =
      bk_GetBalance (bk K) (bankState s) (reserveAddr K) (IntegerCoinDenom K) * ConversionFactorPB K"
    and "reserveAddr K \<notin> entryAddr B ` set (gs_Balances gs)"
  shows "\<exists>s'. InitGenesis K B gs s = (Ret (), s') \<and> pb_inv K s' \<and> bankState s' = bankState s"
  using InitGenesis_run [OF assms(1-5)] genesis_inv [OF assms(1-3) assms(6,7)] assms(6) by auto

theorem InitGenesis_establishes_invariant_witness:
  "\<exists>s'. InitGenesis lgKeeper lgBech32 lgGenesis lgFresh = (Ret (), s') \<and> pb_inv lgKeeper s'"
  using InitGenesis_establishes_invariant [OF ledger_bech32 ledger_wired ledger_genesis(1) ledger_fresh(1,2)
      ledger_genesis(2,3)] by blast

text \<open>
  C7.  Exporting the state and initialising an empty module store with the export, over the same
  x/bank state, gives the same state back.
\<close>

theorem Export_Init_roundtrip:
  assumes "bech32_contract B" "pb_wired K" "pb_inv K s"
  shows "InitGenesis K B (ExportGenesis B s) (s\<lparr>fracStore := fmempty, remStore := None\<rparr>) = (Ret (), s)"
proof -
  let ?es = "storeEntries (fracStore s)" and ?s0 = "s\<lparr>fracStore := fmempty, remStore := None\<rparr>"
  note C = CF_pos [OF assms(2)]
  have es: "\<forall>(a, v)\<in>set ?es. a \<noteq> [] \<and> 0 < v \<and> v < CF K"
    by (auto simp: storeEntries_props(2) dest: pb_inv_frac [OF assms(3)])
  have sum: "SumAmount (map (exportEntry B) ?es) = fm_total (fracStore s)"
    by (rule exported_sum [OF assms(1)]) (use es in auto)
  note tot = pb_invD(7) [OF assms(3)]
  have valid: "GenesisState_Validate K B (ExportGenesis B s) = None"
    using exported_valid [OF assms(1) storeEntries_props(1) es] pb_invD(5,6) [OF assms(3)] C tot [symmetric]
    by (simp add: GenesisState_Validate_def ExportGenesis_eq NewGenesisState_def sum Let_def)
  have run: "InitGenesis K B (ExportGenesis B s) ?s0 = (Ret (), ?s0\<lparr>fracStore :=
      genesisStore B (map (exportEntry B) ?es) fmempty, remStore := rem_put (GetRemainderAmount s)\<rparr>)"
    using InitGenesis_run [OF assms(1,2) valid, of ?s0] tot sum
    by (simp add: ExportGenesis_eq NewGenesisState_def TotalAmountWithRemainder_def)
  have "genesisStore B (map (exportEntry B) ?es) fmempty = fracStore s"
  proof (rule fmap_ext)
    show "fmlookup (genesisStore B (map (exportEntry B) ?es) fmempty) a = fmlookup (fracStore s) a" for a
      by (subst genesisStore_exported [OF assms(1) storeEntries_props(1)])
        (use es in \<open>auto simp: storeEntries_props(3) split: option.split\<close>)
  qed
  moreover have "rem_put (GetRemainderAmount s) = remStore s"
    using assms(3) by (auto simp: rem_put_def GetRemainderAmount_def pb_inv_def split: option.split)
  ultimately show ?thesis using run by simp
qed

theorem Export_Init_roundtrip_witness:
  "InitGenesis lgKeeper lgBech32 (ExportGenesis lgBech32 lgState)
     (lgState\<lparr>fracStore := fmempty, remStore := None\<rparr>) = (Ret (), lgState)"
  by (rule Export_Init_roundtrip [OF ledger_bech32 ledger_wired ledger_inv])

text \<open>
  C5.  Every state reached from a backed genesis by successful sends between accounts other than
  the reserve, mints and burns satisfies the invariant: fractional balances and remainder stay
  below the conversion factor and the reserve backs them exactly.
\<close>

theorem reachable_backed:
  assumes "bank_contract K" "pb_wired K" "bech32_contract B" "\<not> IsExtendedDenomSameAsIntegerDenom K"
    and "pb_reach K B s"
  shows "pb_inv K s"
  using assms(5)
proof (induction rule: pb_reach.induct)
  case (genesis s gs s')
  have v: "GenesisState_Validate K B gs = None"
    using genesis(5) by (auto simp: InitGenesis_def split: if_splits)
  show ?case
    using InitGenesis_run [OF assms(3,2) v genesis(1,2)] genesis_inv [OF assms(3,2) v genesis(3,4)] genesis(3,5)
    by auto
next
  case (send s "from" to amt s')
  then show ?case using SendCoins_Ret_inv [OF assms(1,2) send.IH assms(4)] by blast
next
  case (mint s moduleName amt s')
  then show ?case using MintCoins_Ret_inv [OF assms(1,2) mint.IH assms(4)] by blast
next
  case (burn s moduleName amt s')
  then show ?case using BurnCoins_Ret_inv [OF assms(1,2) burn.IH assms(4)] by blast
qed

theorem reachable_backed_witness:
  "\<exists>s s'. InitGenesis lgKeeper lgBech32 lgGenesis lgFresh = (Ret (), s) \<and>
     MintCoins lgKeeper ''evm'' [NewCoin ''atest'' 29] s = (Ret (), s') \<and> pb_inv lgKeeper s'"
proof -
  obtain s where s: "InitGenesis lgKeeper lgBech32 lgGenesis lgFresh = (Ret (), s)" "pb_inv lgKeeper s"
    using InitGenesis_run [OF ledger_bech32 ledger_wired ledger_genesis(1) ledger_fresh(1,2)] ledger_genesis(2)
      genesis_inv [OF ledger_bech32 ledger_wired ledger_genesis] by blast
  have "pb_reach lgKeeper lgBech32 s"
    by (rule pb_reach.genesis [OF ledger_fresh(1,2) ledger_genesis(2,3) s(1)])
  moreover obtain s' where s': "MintCoins lgKeeper ''evm'' [NewCoin ''atest'' 29] s = (Ret (), s')"
    using MintCoins_ok [OF ledger_contract ledger_wired s(2) ledger_evm_module(1) _ ledger_denoms_differ,
        of "[NewCoin ''atest'' 29]"]
    by (auto simp: lgValid_def)
  ultimately have "pb_reach lgKeeper lgBech32 s'" by (rule pb_reach.mint)
  then show ?thesis
    using s(1) s' reachable_backed [OF ledger_contract ledger_wired ledger_bech32 ledger_denoms_differ] by blast
qed

text \<open>
  When the integer transfer succeeds and the borrow then fails, the insufficient-funds error
  is computed after the integer coins have left: it reports a spendable balance of 0 for an
  account that owns 50 units.
\<close>

theorem insufficient_funds_understated:
  "extSpendable lgKeeper lgFresh [1] = 50 \<and>
   fst (sendExtendedCoins lgKeeper [1] [2] 51 lgFresh) =
     Err (ErrInsufficientFunds [NewCoin ''atest'' 0, NewCoin ''atest'' 51])"
  by (simp add: extSpendable_eq ledger_fresh lgState_bal sendExtendedCoins_def Let_def lgAddress_def
      lgModules_def GetFractionalBalance_def subFromFractionalBalance_def addToFractionalBalance_def
      onBank_def go_zoom_def go_mapErr_def lgSend_def lgPays_def lgTake_def lgGive_def lgAmountOf_def
      updateInsufficientFundsError_def SpendableCoin_def go_bind_def)

end
