(* ===== verification/SnapshotStore.thy ===== *)
theory SnapshotStore
  imports EvmPrelude
begin

text \<open>
  The snapshot stores under the precompiles: \<open>x/vm/store/snapshotkv/store.go\<close> keeps a stack of
  cache layers over one KV store, \<open>x/vm/store/snapshotmulti/store.go\<close> keeps one such stack per
  store key in lockstep.  The cache layer itself is \<open>cosmossdk.io/store/cachekv\<close> and enters as the
  record \<open>cachekv\<close>: a fresh layer, the content seen through a layer, and the layer obtained by
  writing a child layer into its parent.

  The interface \<open>Snapshotter\<close> of \<open>x/vm/store/types/store.go\<close> is the locale \<open>snapshot_stack\<close>; both
  stores interpret it.
\<close>

section \<open>The Snapshotter interface\<close>

text \<open>
  \<open>layers\<close> abstracts a store to its stack of layers, bottom first, and \<open>fits\<close> is its
  well-formedness.  \<open>change\<close> is any change made through the current (top) layer.
\<close>

datatype 'w snap_op = Write 'w | Snap | Revert int

text \<open>A client of the interface: a sequence of changes, snapshots and reverts.\<close>

fun snap_exec :: "('s \<Rightarrow> (int \<times> 's) option) \<Rightarrow> (int \<Rightarrow> 's \<Rightarrow> 's option) \<Rightarrow> ('w \<Rightarrow> 's \<Rightarrow> 's) \<Rightarrow>
    'w snap_op list \<Rightarrow> 's \<Rightarrow> 's option" where
  "snap_exec snapshot revert change [] s = Some s"
| "snap_exec snapshot revert change (Write w # ops) s = snap_exec snapshot revert change ops (change w s)"
| "snap_exec snapshot revert change (Snap # ops) s =
    (case snapshot s of None \<Rightarrow> None | Some (_, s') \<Rightarrow> snap_exec snapshot revert change ops s')"
| "snap_exec snapshot revert change (Revert i # ops) s =
    (case revert i s of None \<Rightarrow> None | Some s' \<Rightarrow> snap_exec snapshot revert change ops s')"

locale snapshot_stack =
  fixes Snapshot :: "'s \<Rightarrow> (int \<times> 's) option"
    and RevertToSnapshot :: "int \<Rightarrow> 's \<Rightarrow> 's option"
    and change :: "'w \<Rightarrow> 's \<Rightarrow> 's"
    and layers :: "'s \<Rightarrow> 'l list"
    and fits :: "'s \<Rightarrow> bool"
  assumes snapshot_push: "fits s \<Longrightarrow> \<exists>s' l. Snapshot s = Some (int (length (layers s)) - 1, s') \<and>
      fits s' \<and> layers s' = layers s @ [l]"
    and change_below: "fits s \<Longrightarrow> butlast (layers (change w s)) = butlast (layers s)"
    and change_depth: "fits s \<Longrightarrow> length (layers (change w s)) = length (layers s)"
    and change_fits: "fits s \<Longrightarrow> fits (change w s)"
    and revert_ok: "fits s \<Longrightarrow> 0 \<le> i \<Longrightarrow> nat i + 1 < length (layers s) \<Longrightarrow>
      \<exists>s'. RevertToSnapshot i s = Some s' \<and> fits s' \<and> layers s' = take (nat i + 1) (layers s)"
    and revert_panics: "fits s \<Longrightarrow> \<not> (0 \<le> i \<and> nat i + 1 < length (layers s)) \<Longrightarrow> RevertToSnapshot i s = None"
    and layers_inj: "fits s \<Longrightarrow> fits s' \<Longrightarrow> layers s = layers s' \<Longrightarrow> s = s'"
begin

text \<open>
  Operations that never revert to a snapshot as old as the one numbered \<open>i\<close> leave the layers
  below it alone.
\<close>

lemma exec_below:
  assumes "fits s" "0 \<le> i" "nat i + 1 < length (layers s)" "snap_exec Snapshot RevertToSnapshot change ops s = Some s'"
    and "\<forall>j. Revert j \<in> set ops \<longrightarrow> i < j"
  shows "fits s' \<and> nat i + 1 < length (layers s') \<and> take (nat i + 1) (layers s') = take (nat i + 1) (layers s)"
  using assms
proof (induction ops arbitrary: s)
  case Nil
  then show ?case by simp
next
  case (Cons op ops)
  note s = Cons.prems(1-3)
  show ?case
  proof (cases op)
    case (Write w)
    have "take (nat i + 1) (layers (change w s)) = take (nat i + 1) (butlast (layers (change w s)))"
      using s change_depth [OF s(1), of w] by (simp add: take_butlast)
    also have "\<dots> = take (nat i + 1) (layers s)"
      using s change_below [OF s(1), of w] by (simp add: take_butlast)
    finally show ?thesis
      using Cons.IH [OF change_fits [OF s(1), of w] s(2)] Cons.prems Write change_depth [OF s(1), of w] by simp
  next
    case Snap
    obtain n s1 l where s1: "Snapshot s = Some (n, s1)" "fits s1" "layers s1 = layers s @ [l]"
      using snapshot_push [OF s(1)] by blast
    then show ?thesis using Cons.IH [OF s1(2) s(2)] Cons.prems Snap by simp
  next
    case (Revert j)
    then obtain s1 where s1: "RevertToSnapshot j s = Some s1" using Cons.prems(4) by (auto split: option.splits)
    then have j: "0 \<le> j" "nat j + 1 < length (layers s)" using revert_panics [OF s(1), of j] by auto
    have ij: "i < j" using Cons.prems(5) Revert by simp
    from revert_ok [OF s(1) j] s1 have "fits s1" "layers s1 = take (nat j + 1) (layers s)" by auto
    then show ?thesis using Cons.IH [of s1] Cons.prems Revert s1 ij j by (simp add: min_def)
  qed
qed

text \<open>Reverting to a snapshot restores the store as it was when the snapshot was taken.\<close>

lemma revert_restores:
  assumes "fits s" "layers s \<noteq> []" "Snapshot s = Some (i, s1)" "snap_exec Snapshot RevertToSnapshot change ops s1 = Some s2"
    and "\<forall>j. Revert j \<in> set ops \<longrightarrow> i < j"
  shows "RevertToSnapshot i s2 = Some s"
proof -
  obtain l where l: "fits s1" "i = int (length (layers s)) - 1" "layers s1 = layers s @ [l]"
    using snapshot_push [OF assms(1)] assms(3) by auto
  obtain n where n: "length (layers s) = Suc n" using assms(2) by (cases "length (layers s)") auto
  then have i0: "0 \<le> i" "nat i + 1 = length (layers s)" using l(2) by simp_all
  have below: "fits s2" "nat i + 1 < length (layers s2)" "take (nat i + 1) (layers s2) = layers s"
    using exec_below [OF l(1) i0(1) _ assms(4,5)] i0(2) l(3) by auto
  obtain s3 where "RevertToSnapshot i s2 = Some s3" "fits s3" "layers s3 = layers s"
    using revert_ok [OF below(1) i0(1) below(2)] below(3) by auto
  then show ?thesis using layers_inj [OF _ assms(1)] by auto
qed

text \<open>A change is above every snapshot, so a revert does not see it.\<close>

lemma revert_fits:
  assumes "fits s" "RevertToSnapshot i s = Some s'"
  shows "fits s'"
  using assms revert_ok [OF assms(1), of i] revert_panics [OF assms(1), of i] by fastforce

lemma revert_change:
  assumes "fits s"
  shows "RevertToSnapshot i (change w s) = RevertToSnapshot i s"
proof (cases "0 \<le> i \<and> nat i + 1 < length (layers s)")
  case True
  then have i: "0 \<le> i" "nat i + 1 < length (layers s)" "nat i + 1 < length (layers (change w s))"
    using change_depth [OF assms] by simp_all
  have "take (nat i + 1) (layers (change w s)) = take (nat i + 1) (butlast (layers (change w s)))"
    using i(3) by (simp add: take_butlast)
  also have "\<dots> = take (nat i + 1) (layers s)" using i(2) change_below [OF assms, of w] by (simp add: take_butlast)
  finally show ?thesis
    using revert_ok [OF assms i(1,2)] revert_ok [OF change_fits [OF assms, of w] i(1,3)] layers_inj by metis
next
  case False
  then show ?thesis using revert_panics [OF assms] revert_panics [OF change_fits [OF assms]] change_depth [OF assms] by simp
qed

end

section \<open>snapshotkv\<close>

record ('l, 'c) cachekv =
  ck_fresh :: 'l
  ck_through :: "'l \<Rightarrow> 'c \<Rightarrow> 'c"
  ck_merge :: "'l \<Rightarrow> 'l \<Rightarrow> 'l"

text \<open>The documented behaviour of a cache layer.\<close>

definition cachekv_contract :: "('l, 'c) cachekv \<Rightarrow> bool" where
  "cachekv_contract C \<longleftrightarrow>
    (\<forall>c. ck_through C (ck_fresh C) c = c) \<and>
    (\<forall>child parent c. ck_through C (ck_merge C child parent) c = ck_through C child (ck_through C parent c))"

record ('l, 'c) snapshotkv =
  kv_base :: 'c
  kv_initialStore :: 'l
  kv_cacheStores :: "'l list"

definition kv_NewStore :: "'c \<Rightarrow> 'l \<Rightarrow> ('l, 'c) snapshotkv" where
  "kv_NewStore base store = \<lparr>kv_base = base, kv_initialStore = store, kv_cacheStores = []\<rparr>"

definition kv_CurrentStore :: "('l, 'c) snapshotkv \<Rightarrow> 'l" where
  "kv_CurrentStore cs =
    (if length (kv_cacheStores cs) = 0 then kv_initialStore cs
     else kv_cacheStores cs ! (length (kv_cacheStores cs) - 1))"

text \<open>A change made through the store \<open>CurrentStore\<close> returns.\<close>

definition kv_updateCurrent :: "('l \<Rightarrow> 'l) \<Rightarrow> ('l, 'c) snapshotkv \<Rightarrow> ('l, 'c) snapshotkv" where
  "kv_updateCurrent f cs =
    (if length (kv_cacheStores cs) = 0 then cs\<lparr>kv_initialStore := f (kv_initialStore cs)\<rparr>
     else cs\<lparr>kv_cacheStores := (kv_cacheStores cs)[length (kv_cacheStores cs) - 1 := f (kv_CurrentStore cs)]\<rparr>)"

text \<open>\<open>cacheStores[i].Write()\<close> flushes the layer into its parent and empties it.\<close>

definition kv_writeLayer :: "('l, 'c) cachekv \<Rightarrow> nat \<Rightarrow> ('l, 'c) snapshotkv \<Rightarrow> ('l, 'c) snapshotkv" where
  "kv_writeLayer C i cs =
    (let child = kv_cacheStores cs ! i;
         cs' = (if i = 0 then cs\<lparr>kv_initialStore := ck_merge C child (kv_initialStore cs)\<rparr>
                else cs\<lparr>kv_cacheStores := (kv_cacheStores cs)[i - 1 := ck_merge C child (kv_cacheStores cs ! (i - 1))]\<rparr>)
     in cs'\<lparr>kv_cacheStores := (kv_cacheStores cs')[i := ck_fresh C]\<rparr>)"

fun kv_writeDown :: "('l, 'c) cachekv \<Rightarrow> nat \<Rightarrow> ('l, 'c) snapshotkv \<Rightarrow> ('l, 'c) snapshotkv" where
  "kv_writeDown C 0 cs = cs"
| "kv_writeDown C (Suc i) cs = kv_writeDown C i (kv_writeLayer C i cs)"

definition kv_Commit :: "('l, 'c) cachekv \<Rightarrow> ('l, 'c) snapshotkv \<Rightarrow> ('l, 'c) snapshotkv" where
  "kv_Commit C cs =
    (let cs1 = kv_writeDown C (length (kv_cacheStores cs)) cs;
         cs2 = cs1\<lparr>kv_base := ck_through C (kv_initialStore cs1) (kv_base cs1), kv_initialStore := ck_fresh C\<rparr>
     in cs2\<lparr>kv_cacheStores := []\<rparr>)"

definition kv_Snapshot :: "('l, 'c) cachekv \<Rightarrow> ('l, 'c) snapshotkv \<Rightarrow> int \<times> ('l, 'c) snapshotkv" where
  "kv_Snapshot C cs =
    (let cs' = cs\<lparr>kv_cacheStores := kv_cacheStores cs @ [ck_fresh C]\<rparr>
     in (int (length (kv_cacheStores cs')) - 1, cs'))"

definition kv_RevertToSnapshot :: "int \<Rightarrow> ('l, 'c) snapshotkv \<Rightarrow> ('l, 'c) snapshotkv option" where
  "kv_RevertToSnapshot target cs =
    (if target < 0 \<or> target \<ge> int (length (kv_cacheStores cs)) then None
     else Some (cs\<lparr>kv_cacheStores := take (nat target) (kv_cacheStores cs)\<rparr>))"

text \<open>The content a reader of the current store sees.\<close>

definition kv_view :: "('l, 'c) cachekv \<Rightarrow> ('l, 'c) snapshotkv \<Rightarrow> 'c" where
  "kv_view C cs = fold (ck_through C) (kv_cacheStores cs) (ck_through C (kv_initialStore cs) (kv_base cs))"

definition kv_layers :: "('l, 'c) snapshotkv \<Rightarrow> ('c \<times> 'l) list" where
  "kv_layers cs = map (\<lambda>l. (kv_base cs, l)) (kv_initialStore cs # kv_cacheStores cs)"

interpretation kv: snapshot_stack "\<lambda>cs. Some (kv_Snapshot C cs)" kv_RevertToSnapshot kv_updateCurrent kv_layers "\<lambda>_. True"
  for C :: "('l, 'c) cachekv"
proof (unfold_locales, goal_cases)
  case (2 s w)
  then show ?case by (cases "kv_cacheStores s" rule: rev_cases) (simp_all add: kv_layers_def kv_updateCurrent_def)
next
  case (3 s w)
  then show ?case by (simp add: kv_layers_def kv_updateCurrent_def)
next
  case (7 s s')
  then have "kv_base s = kv_base s'" "kv_initialStore s = kv_initialStore s'" by (simp_all add: kv_layers_def)
  moreover have "kv_cacheStores s = kv_cacheStores s'"
    using arg_cong [OF 7(3), of "\<lambda>ls. map snd (tl ls)"] by (simp add: kv_layers_def comp_def)
  ultimately show ?case by simp
qed (auto simp: kv_layers_def kv_Snapshot_def kv_RevertToSnapshot_def Let_def take_map)

text \<open>Committing writes every layer down: the base then holds what was seen through the top.\<close>

lemma kv_writeLayer_view:
  assumes cc: "cachekv_contract C" and i: "i < length (kv_cacheStores cs)"
  shows "kv_view C (kv_writeLayer C i cs) = kv_view C cs"
proof (cases i)
  case 0
  then obtain c ys where "kv_cacheStores cs = c # ys" using i by (cases "kv_cacheStores cs") auto
  then show ?thesis using cc 0 by (simp add: kv_writeLayer_def Let_def kv_view_def cachekv_contract_def)
next
  case (Suc j)
  define xs ys where "xs = take j (kv_cacheStores cs)" and "ys = drop (Suc (Suc j)) (kv_cacheStores cs)"
  have "kv_cacheStores cs = xs @ kv_cacheStores cs ! j # kv_cacheStores cs ! Suc j # ys"
    using i Suc id_take_nth_drop [of j "kv_cacheStores cs"] Cons_nth_drop_Suc [of "Suc j" "kv_cacheStores cs"]
    by (simp add: xs_def ys_def)
  moreover have "length xs = j" using i Suc by (simp add: xs_def)
  ultimately obtain p c where split: "kv_cacheStores cs = xs @ p # c # ys" "length xs = j" by blast
  then show ?thesis using cc Suc
    by (simp add: kv_writeLayer_def Let_def kv_view_def cachekv_contract_def nth_append list_update_append)
qed

lemma kv_writeLayer_fresh:
  "length (kv_cacheStores (kv_writeLayer C i cs)) = length (kv_cacheStores cs)"
  "kv_base (kv_writeLayer C i cs) = kv_base cs"
  "i \<le> j \<Longrightarrow> j < length (kv_cacheStores cs) \<Longrightarrow>
     kv_cacheStores (kv_writeLayer C i cs) ! j = (if j = i then ck_fresh C else kv_cacheStores cs ! j)"
  by (auto simp: kv_writeLayer_def Let_def nth_list_update)

lemma kv_writeDown_effect:
  assumes "cachekv_contract C" "i \<le> length (kv_cacheStores cs)"
    and "\<forall>j. i \<le> j \<and> j < length (kv_cacheStores cs) \<longrightarrow> kv_cacheStores cs ! j = ck_fresh C"
  shows "kv_view C (kv_writeDown C i cs) = kv_view C cs \<and> kv_base (kv_writeDown C i cs) = kv_base cs \<and>
    (\<forall>l\<in>set (kv_cacheStores (kv_writeDown C i cs)). l = ck_fresh C)"
  using assms
proof (induction C i cs rule: kv_writeDown.induct)
  case (1 C cs)
  then show ?case by (auto simp: in_set_conv_nth)
next
  case (2 C i cs)
  let ?cs' = "kv_writeLayer C i cs"
  have i: "i < length (kv_cacheStores cs)" using 2(3) by simp
  have "kv_cacheStores ?cs' ! j = ck_fresh C" if "i \<le> j" "j < length (kv_cacheStores ?cs')" for j
    using that 2(4) by (cases "j = i") (simp_all add: kv_writeLayer_fresh)
  then have "kv_view C (kv_writeDown C i ?cs') = kv_view C ?cs' \<and> kv_base (kv_writeDown C i ?cs') = kv_base ?cs' \<and>
      (\<forall>l\<in>set (kv_cacheStores (kv_writeDown C i ?cs')). l = ck_fresh C)"
    using 2(1) [OF 2(2)] i by (simp add: kv_writeLayer_fresh(1))
  then show ?case by (simp add: kv_writeLayer_view [OF 2(2) i] kv_writeLayer_fresh(2))
qed

lemma fold_fresh:
  "cachekv_contract C \<Longrightarrow> \<forall>l\<in>set ls. l = ck_fresh C \<Longrightarrow> fold (ck_through C) ls c = c"
  by (induction ls arbitrary: c) (auto simp: cachekv_contract_def)

lemma kv_Commit_effect:
  assumes cc: "cachekv_contract C"
  shows "kv_base (kv_Commit C cs) = kv_view C cs" "kv_view C (kv_Commit C cs) = kv_view C cs"
    "kv_cacheStores (kv_Commit C cs) = []"
proof -
  define cs1 where "cs1 = kv_writeDown C (length (kv_cacheStores cs)) cs"
  have e: "kv_view C cs1 = kv_view C cs" "\<forall>l\<in>set (kv_cacheStores cs1). l = ck_fresh C"
    using kv_writeDown_effect [OF cc order_refl, of cs] unfolding cs1_def by (meson leD)+
  then have "ck_through C (kv_initialStore cs1) (kv_base cs1) = kv_view C cs"
    using fold_fresh [OF cc e(2)] by (simp add: kv_view_def)
  then show "kv_base (kv_Commit C cs) = kv_view C cs" "kv_view C (kv_Commit C cs) = kv_view C cs"
    "kv_cacheStores (kv_Commit C cs) = []"
    using cc by (simp_all add: kv_Commit_def Let_def cs1_def [symmetric]) (simp add: kv_view_def cachekv_contract_def)
qed

section \<open>snapshotmulti\<close>

record ('k, 'l, 'c) snapshotmulti =
  sm_stores :: "('k, ('l, 'c) snapshotkv) fmap"
  sm_storeKeys :: "'k list"
  sm_head :: int

definition InitialHead :: int where
  "InitialHead = 0"

text \<open>\<open>GetKVStore\<close> of the wrapped multi store gives the base content and the initial layer.\<close>

definition SortedKVStoreKeys :: "('k :: linorder) fset \<Rightarrow> 'k list" where
  "SortedKVStoreKeys keys = sorted_list_of_fset keys"

definition sm_NewStore :: "('k \<Rightarrow> 'c \<times> 'l) \<Rightarrow> ('k :: linorder) fset \<Rightarrow> ('k, 'l, 'c) snapshotmulti" where
  "sm_NewStore GetKVStore keys =
    (let storeKeys = SortedKVStoreKeys keys
     in \<lparr>sm_stores = fold (\<lambda>key m. fmupd key (case GetKVStore key of (b, l) \<Rightarrow> kv_NewStore b l) m) storeKeys fmempty,
         sm_storeKeys = storeKeys, sm_head = InitialHead\<rparr>)"

definition sm_NewStoreWithKVStores :: "('k :: linorder, 'c \<times> 'l) fmap \<Rightarrow> ('k, 'l, 'c) snapshotmulti" where
  "sm_NewStoreWithKVStores stores =
    \<lparr>sm_stores = fmmap (\<lambda>(b, l). kv_NewStore b l) stores,
     sm_storeKeys = sort (sorted_list_of_fset (fmdom stores)), sm_head = InitialHead\<rparr>"

text \<open>\<open>for _, key := range s.storeKeys\<close>; the constructors register a store for every key.\<close>

fun sm_each :: "(('l, 'c) snapshotkv \<Rightarrow> ('l, 'c) snapshotkv option) \<Rightarrow> 'k list \<Rightarrow>
    ('k, ('l, 'c) snapshotkv) fmap \<Rightarrow> ('k, ('l, 'c) snapshotkv) fmap option" where
  "sm_each f [] m = Some m"
| "sm_each f (key # keys) m =
    (case fmlookup m key of
       None \<Rightarrow> None
     | Some store \<Rightarrow> (case f store of None \<Rightarrow> None | Some store' \<Rightarrow> sm_each f keys (fmupd key store' m)))"

definition sm_Snapshot :: "('l, 'c) cachekv \<Rightarrow> ('k, 'l, 'c) snapshotmulti \<Rightarrow> (int \<times> ('k, 'l, 'c) snapshotmulti) option" where
  "sm_Snapshot C s =
    (case sm_each (\<lambda>st. Some (snd (kv_Snapshot C st))) (sm_storeKeys s) (sm_stores s) of
       None \<Rightarrow> None
     | Some stores' \<Rightarrow>
         let s' = s\<lparr>sm_stores := stores', sm_head := sm_head s + 1\<rparr>
         in Some (sm_head s' - 1, s'))"

definition sm_RevertToSnapshot :: "int \<Rightarrow> ('k, 'l, 'c) snapshotmulti \<Rightarrow> ('k, 'l, 'c) snapshotmulti option" where
  "sm_RevertToSnapshot target s =
    (case sm_each (kv_RevertToSnapshot target) (sm_storeKeys s) (sm_stores s) of
       None \<Rightarrow> None
     | Some stores' \<Rightarrow> Some (s\<lparr>sm_stores := stores', sm_head := target\<rparr>))"

definition sm_Write :: "('l, 'c) cachekv \<Rightarrow> ('k, 'l, 'c) snapshotmulti \<Rightarrow> ('k, 'l, 'c) snapshotmulti option" where
  "sm_Write C s =
    (case sm_each (\<lambda>st. Some (kv_Commit C st)) (sm_storeKeys s) (sm_stores s) of
       None \<Rightarrow> None
     | Some stores' \<Rightarrow> Some (s\<lparr>sm_stores := stores', sm_head := InitialHead\<rparr>))"

definition sm_GetKVStore :: "'k \<Rightarrow> ('k, 'l, 'c) snapshotmulti \<Rightarrow> 'l option" where
  "sm_GetKVStore key s = map_option kv_CurrentStore (fmlookup (sm_stores s) key)"

definition sm_LatestVersion :: "('k, 'l, 'c) snapshotmulti \<Rightarrow> int" where
  "sm_LatestVersion s = sm_head s"

definition sm_CacheMultiStore :: "('l, 'c) cachekv \<Rightarrow> ('k, 'l, 'c) snapshotmulti \<Rightarrow> ('k, 'l, 'c) snapshotmulti option" where
  "sm_CacheMultiStore C s = map_option snd (sm_Snapshot C s)"

text \<open>All stacks have the height of \<open>head\<close>.\<close>

definition sm_fits :: "('k, 'l, 'c) snapshotmulti \<Rightarrow> bool" where
  "sm_fits s \<longleftrightarrow> distinct (sm_storeKeys s) \<and> sm_storeKeys s \<noteq> [] \<and>
     set (sm_storeKeys s) = fset (fmdom (sm_stores s)) \<and> 0 \<le> sm_head s \<and>
     (\<forall>k st. fmlookup (sm_stores s) k = Some st \<longrightarrow> length (kv_cacheStores st) = nat (sm_head s))"

definition sm_layer :: "('k, 'l, 'c) snapshotmulti \<Rightarrow> nat \<Rightarrow> 'k list \<times> ('k \<Rightarrow> ('c \<times> 'l) option)" where
  "sm_layer s i = (sm_storeKeys s, \<lambda>k. map_option (\<lambda>st. kv_layers st ! i) (fmlookup (sm_stores s) k))"

definition sm_layers :: "('k, 'l, 'c) snapshotmulti \<Rightarrow> ('k list \<times> ('k \<Rightarrow> ('c \<times> 'l) option)) list" where
  "sm_layers s = map (sm_layer s) [0..<nat (sm_head s) + 1]"

text \<open>A change of the current store of one key.\<close>

definition sm_updateCurrent :: "'k \<times> ('l \<Rightarrow> 'l) \<Rightarrow> ('k, 'l, 'c) snapshotmulti \<Rightarrow> ('k, 'l, 'c) snapshotmulti" where
  "sm_updateCurrent w s =
    (case fmlookup (sm_stores s) (fst w) of
       None \<Rightarrow> s
     | Some st \<Rightarrow> s\<lparr>sm_stores := fmupd (fst w) (kv_updateCurrent (snd w) st) (sm_stores s)\<rparr>)"

lemma sm_each_total:
  assumes "distinct keys" "\<forall>k\<in>set keys. \<exists>st st'. fmlookup m k = Some st \<and> f st = Some st'"
  shows "\<exists>m'. sm_each f keys m = Some m' \<and>
    (\<forall>k. fmlookup m' k = (if k \<in> set keys then f (the (fmlookup m k)) else fmlookup m k))"
  using assms
proof (induction keys arbitrary: m)
  case Nil
  then show ?case by simp
next
  case (Cons key keys)
  then obtain st st' where st: "fmlookup m key = Some st" "f st = Some st'" by auto
  have "\<forall>k\<in>set keys. \<exists>s s'. fmlookup (fmupd key st' m) k = Some s \<and> f s = Some s'"
    using Cons.prems by auto
  from Cons.IH [OF _ this] Cons.prems(1) obtain m' where m': "sm_each f keys (fmupd key st' m) = Some m'"
    "\<forall>k. fmlookup m' k = (if k \<in> set keys then f (the (fmlookup (fmupd key st' m) k)) else fmlookup (fmupd key st' m) k)"
    by auto
  have "fmlookup m' k = (if k \<in> set (key # keys) then f (the (fmlookup m k)) else fmlookup m k)" for k
    using m'(2) st Cons.prems(1) by auto
  then show ?case using m'(1) st by auto
qed

lemma sm_each_panics:
  assumes "keys \<noteq> []" "\<forall>k\<in>set keys. \<exists>st. fmlookup m k = Some st \<and> f st = None"
  shows "sm_each f keys m = None"
  using assms by (cases keys) auto

lemma sm_fits_dom:
  assumes "sm_fits s"
  shows "k \<in> set (sm_storeKeys s) \<longleftrightarrow> (\<exists>st. fmlookup (sm_stores s) k = Some st)"
  using assms by (auto simp: sm_fits_def fmlookup_dom_iff)

text \<open>A step that transforms every stack of a well-formed store.\<close>

lemma sm_each_fits:
  assumes fits: "sm_fits s" and f: "\<And>st. length (kv_cacheStores st) = nat (sm_head s) \<Longrightarrow> \<exists>st'. f st = Some st'"
  obtains m' where "sm_each f (sm_storeKeys s) (sm_stores s) = Some m'"
    "\<And>k. fmlookup m' k = Option.bind (fmlookup (sm_stores s) k) f"
proof -
  have "\<forall>k\<in>set (sm_storeKeys s). \<exists>st st'. fmlookup (sm_stores s) k = Some st \<and> f st = Some st'"
    using f fits sm_fits_dom [OF fits] unfolding sm_fits_def by metis
  then obtain m' where m': "sm_each f (sm_storeKeys s) (sm_stores s) = Some m'"
      "\<forall>k. fmlookup m' k = (if k \<in> set (sm_storeKeys s) then f (the (fmlookup (sm_stores s) k)) else fmlookup (sm_stores s) k)"
    using sm_each_total [of "sm_storeKeys s" "sm_stores s" f] fits unfolding sm_fits_def by blast
  have "fmlookup m' k = Option.bind (fmlookup (sm_stores s) k) f" for k
    using m'(2) sm_fits_dom [OF fits, of k] by (cases "fmlookup (sm_stores s) k") auto
  then show thesis using m'(1) that by blast
qed

lemma length_kv_layers [simp]: "length (kv_layers st) = Suc (length (kv_cacheStores st))"
  by (simp add: kv_layers_def)

lemma sm_Snapshot_push:
  assumes fits: "sm_fits s"
  shows "\<exists>s' l. sm_Snapshot C s = Some (int (length (sm_layers s)) - 1, s') \<and> sm_fits s' \<and> sm_layers s' = sm_layers s @ [l]"
proof -
  obtain m' where m': "sm_each (\<lambda>st. Some (snd (kv_Snapshot C st))) (sm_storeKeys s) (sm_stores s) = Some m'"
      "\<And>k. fmlookup m' k = Option.bind (fmlookup (sm_stores s) k) (\<lambda>st. Some (snd (kv_Snapshot C st)))"
    using sm_each_fits [OF fits, of "\<lambda>st. Some (snd (kv_Snapshot C st))"] by blast
  define s' where "s' = s\<lparr>sm_stores := m', sm_head := sm_head s + 1\<rparr>"
  have head: "0 \<le> sm_head s" "nat (sm_head s + 1) = Suc (nat (sm_head s))"
    using fits by (auto simp: sm_fits_def Suc_nat_eq_nat_zadd1 add.commute)
  have dom: "fset (fmdom m') = fset (fmdom (sm_stores s))"
    using m'(2) by (auto simp: fmlookup_dom_iff split: bind_splits)
  have fits': "sm_fits s'"
    using fits m'(2) dom head unfolding sm_fits_def s'_def
    by (auto simp: kv_Snapshot_def Let_def split: bind_splits)
  have low: "sm_layer s' i = sm_layer s i" if "i < Suc (nat (sm_head s))" for i
  proof -
    have "map_option (\<lambda>st. kv_layers st ! i) (fmlookup m' k) = map_option (\<lambda>st. kv_layers st ! i) (fmlookup (sm_stores s) k)" for k
    proof (cases "fmlookup (sm_stores s) k")
      case (Some st)
      then have "length (kv_cacheStores st) = nat (sm_head s)" using fits by (simp add: sm_fits_def)
      then show ?thesis using Some m'(2) [of k] that
        by (auto simp: kv_layers_def kv_Snapshot_def Let_def nth_append nth_Cons' less_Suc_eq_0_disj)
    qed (simp add: m'(2))
    then show ?thesis by (simp add: sm_layer_def s'_def)
  qed
  have "sm_layers s' = map (sm_layer s') [0..<Suc (nat (sm_head s))] @ [sm_layer s' (Suc (nat (sm_head s)))]"
    using head by (simp add: sm_layers_def s'_def)
  also have "map (sm_layer s') [0..<Suc (nat (sm_head s))] = sm_layers s"
    unfolding sm_layers_def using low by (auto simp del: upt_Suc)
  finally have "sm_layers s' = sm_layers s @ [sm_layer s' (Suc (nat (sm_head s)))]" .
  moreover have "sm_Snapshot C s = Some (int (length (sm_layers s)) - 1, s')"
    using m'(1) head by (simp add: sm_Snapshot_def Let_def s'_def sm_layers_def)
  ultimately show ?thesis using fits' by blast
qed

lemma sm_Revert_ok:
  assumes fits: "sm_fits s" and i: "0 \<le> i" "i < sm_head s"
  shows "\<exists>s'. sm_RevertToSnapshot i s = Some s' \<and> sm_fits s' \<and> sm_layers s' = take (nat i + 1) (sm_layers s)"
proof -
  have f: "\<exists>st'. kv_RevertToSnapshot i st = Some st'" if "length (kv_cacheStores st) = nat (sm_head s)"
    for st :: "('b, 'c) snapshotkv" using that i by (simp add: kv_RevertToSnapshot_def)
  obtain m' where m': "sm_each (kv_RevertToSnapshot i) (sm_storeKeys s) (sm_stores s) = Some m'"
      "\<And>k. fmlookup m' k = Option.bind (fmlookup (sm_stores s) k) (kv_RevertToSnapshot i)"
    using sm_each_fits [OF fits, of "kv_RevertToSnapshot i"] f by blast
  define s' where "s' = s\<lparr>sm_stores := m', sm_head := i\<rparr>"
  have look: "fmlookup m' k = map_option (\<lambda>st. st\<lparr>kv_cacheStores := take (nat i) (kv_cacheStores st)\<rparr>) (fmlookup (sm_stores s) k)" for k
    using m'(2) [of k] fits i
    by (cases "fmlookup (sm_stores s) k") (auto simp: kv_RevertToSnapshot_def sm_fits_def)
  have dom: "fset (fmdom m') = fset (fmdom (sm_stores s))" using look by (auto simp: fmlookup_dom_iff)
  have fits': "sm_fits s'"
    using fits look dom i unfolding sm_fits_def s'_def by (auto simp: min_def)
  have "sm_layer s' j = sm_layer s j" if "j \<le> nat i" for j
    using that fits i by (auto simp: sm_layer_def s'_def look kv_layers_def nth_Cons' option.map_comp sm_fits_def
        intro!: ext option.map_cong)
  then have "sm_layers s' = map (sm_layer s) [0..<nat i + 1]"
    unfolding sm_layers_def s'_def by auto
  also have "\<dots> = take (nat i + 1) (sm_layers s)"
    using i by (simp add: sm_layers_def take_map)
  finally show ?thesis using fits' m'(1) by (simp add: sm_RevertToSnapshot_def s'_def)
qed

lemma sm_Revert_panics:
  assumes fits: "sm_fits s" and i: "\<not> (0 \<le> i \<and> i < sm_head s)"
  shows "sm_RevertToSnapshot i s = None"
proof -
  have "\<forall>k\<in>set (sm_storeKeys s). \<exists>st. fmlookup (sm_stores s) k = Some st \<and> kv_RevertToSnapshot i st = None"
  proof
    fix k assume "k \<in> set (sm_storeKeys s)"
    then obtain st where st: "fmlookup (sm_stores s) k = Some st" using sm_fits_dom [OF fits] by blast
    then have "length (kv_cacheStores st) = nat (sm_head s)" using fits by (simp add: sm_fits_def)
    then show "\<exists>st. fmlookup (sm_stores s) k = Some st \<and> kv_RevertToSnapshot i st = None"
      using st i fits by (auto simp: kv_RevertToSnapshot_def sm_fits_def)
  qed
  then have "sm_each (kv_RevertToSnapshot i) (sm_storeKeys s) (sm_stores s) = None"
    using fits by (intro sm_each_panics) (auto simp: sm_fits_def)
  then show ?thesis by (simp add: sm_RevertToSnapshot_def)
qed

lemma sm_updateCurrent_layer:
  assumes fits: "sm_fits s"
  shows "sm_fits (sm_updateCurrent w s)" "sm_head (sm_updateCurrent w s) = sm_head s"
    "i < nat (sm_head s) \<Longrightarrow> sm_layer (sm_updateCurrent w s) i = sm_layer s i"
proof -
  have len: "length (kv_cacheStores (kv_updateCurrent f st)) = length (kv_cacheStores st)"
    for f and st :: "('b, 'c) snapshotkv" by (simp add: kv_updateCurrent_def)
  have low: "kv_layers (kv_updateCurrent f st) ! i = kv_layers st ! i" if "i < length (kv_cacheStores st)"
    for f i and st :: "('b, 'c) snapshotkv"
    using that by (auto simp: kv_updateCurrent_def kv_layers_def nth_Cons' nth_list_update)
  show "sm_fits (sm_updateCurrent w s)"
    using fits by (auto simp: sm_updateCurrent_def sm_fits_def len fmlookup_dom_iff split: option.split)
  show "sm_head (sm_updateCurrent w s) = sm_head s" by (simp add: sm_updateCurrent_def split: option.split)
  show "sm_layer (sm_updateCurrent w s) i = sm_layer s i" if "i < nat (sm_head s)"
    using fits that low by (auto simp: sm_updateCurrent_def sm_layer_def sm_fits_def fun_eq_iff split: option.split)
qed

lemma sm_layers_determine:
  assumes fits: "sm_fits s" "sm_fits s'" and eq: "sm_layers s = sm_layers s'"
  shows "s = s'"
proof -
  have "length (sm_layers s) = length (sm_layers s')" using eq by simp
  then have "nat (sm_head s) = nat (sm_head s')" by (simp add: sm_layers_def)
  moreover have "0 \<le> sm_head s" "0 \<le> sm_head s'" using fits by (simp_all add: sm_fits_def)
  ultimately have head: "sm_head s = sm_head s'" by linarith
  have layer: "sm_layer s i = sm_layer s' i" if "i \<le> nat (sm_head s)" for i
  proof -
    have "sm_layers s ! i = sm_layers s' ! i" using eq by simp
    then show ?thesis using that head by (simp add: sm_layers_def nth_append split: if_splits)
  qed
  have keys: "sm_storeKeys s = sm_storeKeys s'" using layer [of 0] by (simp add: sm_layer_def)
  have "sm_stores s = sm_stores s'"
  proof (rule fmap_ext)
    fix k
    have at: "map_option (\<lambda>st. kv_layers st ! i) (fmlookup (sm_stores s) k) = map_option (\<lambda>st. kv_layers st ! i) (fmlookup (sm_stores s') k)"
      if "i \<le> nat (sm_head s)" for i
      using layer [OF that] by (simp add: sm_layer_def fun_eq_iff)
    show "fmlookup (sm_stores s) k = fmlookup (sm_stores s') k"
    proof (cases "fmlookup (sm_stores s) k")
      case None
      then show ?thesis using at [of 0] by simp
    next
      case (Some st)
      then obtain st' where st': "fmlookup (sm_stores s') k = Some st'"
        using at [of 0] by (cases "fmlookup (sm_stores s') k") auto
      have len: "length (kv_cacheStores st) = nat (sm_head s)" "length (kv_cacheStores st') = nat (sm_head s)"
        using fits head Some st' by (auto simp: sm_fits_def)
      have "kv_layers st = kv_layers st'"
        by (rule nth_equalityI) (use len at Some st' in \<open>auto simp: less_Suc_eq_le\<close>)
      then have "st = st'" by (rule kv.layers_inj [OF TrueI TrueI])
      then show ?thesis using Some st' by simp
    qed
  qed
  then show ?thesis using head keys by simp
qed

interpretation sm: snapshot_stack "sm_Snapshot C" sm_RevertToSnapshot sm_updateCurrent sm_layers sm_fits
  for C :: "('l, 'c) cachekv"
proof (unfold_locales, goal_cases)
  case (1 s)
  then show ?case by (rule sm_Snapshot_push)
next
  case (2 s w)
  then show ?case using sm_updateCurrent_layer [OF 2] by (simp add: sm_layers_def)
next
  case (3 s w)
  then show ?case by (simp add: sm_layers_def sm_updateCurrent_layer)
next
  case (4 s w)
  then show ?case by (rule sm_updateCurrent_layer)
next
  case (5 s i)
  then show ?case by (intro sm_Revert_ok) (auto simp: sm_layers_def)
next
  case (6 s i)
  then show ?case by (intro sm_Revert_panics) (auto simp: sm_layers_def)
next
  case (7 s s')
  then show ?case by (rule sm_layers_determine)
qed

lemma sm_NewStore_lookup:
  "fmlookup (fold (\<lambda>key m. fmupd key (f key) m) keys m0) k = (if k \<in> set keys then Some (f k) else fmlookup m0 k)"
  by (induction keys arbitrary: m0) auto

lemma sm_NewStore_fits:
  assumes "keys \<noteq> {||}"
  shows "sm_fits (sm_NewStore GetKVStore keys)"
proof -
  have set: "set (sorted_list_of_fset keys) = fset keys" by (simp add: sorted_list_of_fset.rep_eq)
  then have "sorted_list_of_fset keys \<noteq> []" using assms by (metis bot_fset.rep_eq fset_inject set_empty)
  then show ?thesis
    using set
    by (auto simp: sm_fits_def sm_NewStore_def SortedKVStoreKeys_def Let_def InitialHead_def sm_NewStore_lookup
        fmlookup_dom_iff kv_NewStore_def sorted_list_of_fset.rep_eq split: prod.splits if_splits)
qed

text \<open>A cache layer as a partial map of the written keys.\<close>

definition mapCache :: "(nat \<rightharpoonup> nat, nat \<rightharpoonup> nat) cachekv" where
  "mapCache = \<lparr>ck_fresh = Map.empty, ck_through = (\<lambda>l c. c ++ l), ck_merge = (\<lambda>child parent. parent ++ child)\<rparr>"

definition mapStore :: "(nat, nat \<rightharpoonup> nat, nat \<rightharpoonup> nat) snapshotmulti" where
  "mapStore = sm_NewStore (\<lambda>_. (Map.empty, Map.empty)) {|1, 2|}"

lemma mapStore_eq:
  "mapStore = \<lparr>sm_stores = fmupd 2 (kv_NewStore Map.empty Map.empty) (fmupd 1 (kv_NewStore Map.empty Map.empty) fmempty),
     sm_storeKeys = [1, 2], sm_head = 0\<rparr>"
proof -
  have "sorted_list_of_fset {|1, 2 :: nat|} = [1, 2]" by code_simp
  then show ?thesis by (simp add: mapStore_def sm_NewStore_def SortedKVStoreKeys_def InitialHead_def)
qed

lemma mapCache_contract: "cachekv_contract mapCache"
  by (simp add: cachekv_contract_def mapCache_def)

section \<open>Properties\<close>

text \<open>
  C8.  A snapshot of the multi store, followed by any sequence of writes, snapshots and reverts to
  younger snapshots, is undone exactly by reverting to it.
\<close>

theorem snapshotmulti_revert_restores:
  assumes "sm_fits s" "sm_Snapshot C s = Some (i, s1)"
    and "snap_exec (sm_Snapshot C) sm_RevertToSnapshot sm_updateCurrent ops s1 = Some s2"
    and "\<forall>j. Revert j \<in> set ops \<longrightarrow> i < j"
  shows "sm_RevertToSnapshot i s2 = Some s"
  by (rule sm.revert_restores [OF assms(1) _ assms(2-4)]) (simp add: sm_layers_def)

theorem snapshotmulti_revert_restores_witness:
  "\<exists>s1 s2. sm_Snapshot mapCache mapStore = Some (0, s1) \<and>
     snap_exec (sm_Snapshot mapCache) sm_RevertToSnapshot sm_updateCurrent
       [Write (1, \<lambda>m. m(5 \<mapsto> 7)), Snap, Write (2, \<lambda>_. Map.empty), Revert 1, Write (2, \<lambda>m. m(6 \<mapsto> 8))] s1 = Some s2 \<and>
     sm_RevertToSnapshot 0 s2 = Some mapStore"
proof -
  have fits: "sm_fits mapStore" unfolding mapStore_def by (rule sm_NewStore_fits) simp
  obtain s1 where s1: "sm_Snapshot mapCache mapStore = Some (0, s1)"
    by (simp add: sm_Snapshot_def mapStore_eq)
  obtain s2 where s2: "snap_exec (sm_Snapshot mapCache) sm_RevertToSnapshot sm_updateCurrent
       [Write (1, \<lambda>m. m(5 \<mapsto> 7)), Snap, Write (2, \<lambda>_. Map.empty), Revert 1, Write (2, \<lambda>m. m(6 \<mapsto> 8))] s1 = Some s2"
    using s1
    by (auto simp: sm_Snapshot_def mapStore_eq sm_updateCurrent_def sm_RevertToSnapshot_def kv_RevertToSnapshot_def
        kv_Snapshot_def kv_updateCurrent_def kv_NewStore_def)
  show ?thesis using s1 s2 snapshotmulti_revert_restores [OF fits s1 s2] by auto
qed

text \<open>
  C9.  \<open>Write\<close> of the multi store commits every stack from the top down: afterwards each base
  store holds exactly the content that was visible through its top layer, readers see the same
  content, and the stacks are empty again.
\<close>

theorem snapshotmulti_write:
  assumes "cachekv_contract C" "sm_fits s"
  shows "\<exists>s'. sm_Write C s = Some s' \<and> sm_fits s' \<and> sm_head s' = 0 \<and>
    (\<forall>k st. fmlookup (sm_stores s) k = Some st \<longrightarrow>
       (\<exists>st'. fmlookup (sm_stores s') k = Some st' \<and> kv_base st' = kv_view C st \<and> kv_view C st' = kv_view C st))"
proof -
  obtain m' where m': "sm_each (\<lambda>st. Some (kv_Commit C st)) (sm_storeKeys s) (sm_stores s) = Some m'"
      "\<And>k. fmlookup m' k = Option.bind (fmlookup (sm_stores s) k) (\<lambda>st. Some (kv_Commit C st))"
    using sm_each_fits [OF assms(2), of "\<lambda>st. Some (kv_Commit C st)"] by blast
  have dom: "fset (fmdom m') = fset (fmdom (sm_stores s))"
    using m'(2) by (auto simp: fmlookup_dom_iff split: bind_splits)
  have "sm_fits (s\<lparr>sm_stores := m', sm_head := InitialHead\<rparr>)"
    using assms(2) m'(2) dom kv_Commit_effect(3) [OF assms(1)]
    by (auto simp: sm_fits_def InitialHead_def split: bind_splits)
  then show ?thesis
    using m' kv_Commit_effect [OF assms(1)]
    by (intro exI [of _ "s\<lparr>sm_stores := m', sm_head := InitialHead\<rparr>"]) (simp add: sm_Write_def InitialHead_def)
qed

theorem snapshotmulti_write_witness:
  "\<exists>s'. sm_Write mapCache (sm_updateCurrent (1, \<lambda>m. m(5 \<mapsto> 7)) mapStore) = Some s' \<and>
     (\<exists>st'. fmlookup (sm_stores s') 1 = Some st' \<and> kv_base st' 5 = Some 7)"
proof -
  have fits: "sm_fits mapStore" unfolding mapStore_def by (rule sm_NewStore_fits) simp
  have st: "fmlookup (sm_stores (sm_updateCurrent (1, \<lambda>m. m(5 \<mapsto> 7)) mapStore)) 1
      = Some (kv_NewStore Map.empty [5 \<mapsto> 7])"
    by (simp add: sm_updateCurrent_def mapStore_eq kv_updateCurrent_def kv_NewStore_def)
  show ?thesis
    using snapshotmulti_write [OF mapCache_contract sm_updateCurrent_layer(1) [OF fits], of "(1, \<lambda>m. m(5 \<mapsto> 7))"] st
    by (fastforce simp: kv_view_def kv_NewStore_def mapCache_def)
qed

end
