(* ===== verification/VmBank.thy ===== *)
theory VmBank
  imports PreciseBankLedger
begin

text \<open>
  The bank wrapper of the EVM module, \<open>x/vm/wrappers/bank.go\<close>, and \<open>SetBalance\<close> of
  \<open>x/vm/keeper/statedb.go\<close>, which sets an EVM balance by minting or burning the difference.

  The wrapper calls a \<open>BankKeeper\<close>; its methods are the record \<open>evm_bank\<close>.  What the wrapper relies
  on is the locale \<open>extended_bank\<close>: an exact ledger of extended balances.  \<open>x/precisebank\<close> provides
  it (interpretation \<open>pb\<close>) whenever its own contract with x/bank holds.
\<close>

section \<open>The wrapper\<close>

definition EvmModuleName :: string where
  "EvmModuleName = ''evm''"

record 'p evm_bank =
  eb_GetBalance :: "AccAddress \<Rightarrow> denom \<Rightarrow> 'p \<Rightarrow> coin"
  eb_SpendableCoin :: "AccAddress \<Rightarrow> denom \<Rightarrow> 'p \<Rightarrow> coin"
  eb_MintCoins :: "string \<Rightarrow> coins \<Rightarrow> ('p, sdk_error, unit) go"
  eb_BurnCoins :: "string \<Rightarrow> coins \<Rightarrow> ('p, sdk_error, unit) go"
  eb_SendCoinsFromModuleToAccount :: "string \<Rightarrow> AccAddress \<Rightarrow> coins \<Rightarrow> ('p, sdk_error, unit) go"
  eb_SendCoinsFromAccountToModule :: "AccAddress \<Rightarrow> string \<Rightarrow> coins \<Rightarrow> ('p, sdk_error, unit) go"

text \<open>\<open>Coins.Sort\<close> and \<open>Coins.IsZero\<close> are Cosmos SDK code.\<close>

record 'p BankWrapper =
  bw_bank :: "'p evm_bank"
  bw_info :: EvmCoinInfo
  bw_Sort :: "coins \<Rightarrow> coins"
  bw_IsZero :: "coins \<Rightarrow> bool"

definition MintAmountToAccount :: "'p BankWrapper \<Rightarrow> AccAddress \<Rightarrow> int \<Rightarrow> ('p, sdk_error, unit) go" where
  "MintAmountToAccount w recipientAddr amt =
    (case ConvertEvmCoinDenomToExtendedDenom (bw_info w) (NewCoin (eci_Denom (bw_info w)) amt) of
       Inl e \<Rightarrow> go_err (ErrOther ''failed to mint coin to account in bank wrapper'')
     | Inr convertedCoin \<Rightarrow>
        let coinsToMint = [convertedCoin]
        in go_seq (eb_MintCoins (bw_bank w) EvmModuleName coinsToMint)
             (eb_SendCoinsFromModuleToAccount (bw_bank w) EvmModuleName recipientAddr coinsToMint))"

definition BurnAmountFromAccount :: "'p BankWrapper \<Rightarrow> AccAddress \<Rightarrow> int \<Rightarrow> ('p, sdk_error, unit) go" where
  "BurnAmountFromAccount w acct amt =
    (case ConvertEvmCoinDenomToExtendedDenom (bw_info w) (NewCoin (eci_Denom (bw_info w)) amt) of
       Inl e \<Rightarrow> go_err (ErrOther ''failed to burn coins from account in bank wrapper'')
     | Inr convertedCoin \<Rightarrow>
        let coinsToBurn = [convertedCoin]
        in go_seq (eb_SendCoinsFromAccountToModule (bw_bank w) acct EvmModuleName coinsToBurn)
             (eb_BurnCoins (bw_bank w) EvmModuleName coinsToBurn))"

definition bw_GetBalance :: "'p BankWrapper \<Rightarrow> AccAddress \<Rightarrow> denom \<Rightarrow> ('p, sdk_error, coin) go" where
  "bw_GetBalance w addr denom =
    (if denom \<noteq> eci_Denom (bw_info w) then go_panic ''expected evm denom''
     else go_gets (eb_GetBalance (bw_bank w) addr (eci_ExtendedDenom (bw_info w))))"

definition bw_SpendableCoin :: "'p BankWrapper \<Rightarrow> AccAddress \<Rightarrow> denom \<Rightarrow> ('p, sdk_error, coin) go" where
  "bw_SpendableCoin w addr denom =
    (if denom \<noteq> eci_Denom (bw_info w) then go_panic ''expected evm denom''
     else go_gets (eb_SpendableCoin (bw_bank w) addr (eci_ExtendedDenom (bw_info w))))"

definition bw_SendCoinsFromAccountToModule ::
    "'p BankWrapper \<Rightarrow> AccAddress \<Rightarrow> string \<Rightarrow> coins \<Rightarrow> ('p, sdk_error, unit) go" where
  "bw_SendCoinsFromAccountToModule w senderAddr recipientModule cs =
    (let convertedCoins = ConvertCoinsDenomToExtendedDenom (bw_Sort w) (bw_info w) cs
     in if bw_IsZero w convertedCoins then go_return ()
        else eb_SendCoinsFromAccountToModule (bw_bank w) senderAddr recipientModule convertedCoins)"

definition bw_SendCoinsFromModuleToAccount ::
    "'p BankWrapper \<Rightarrow> string \<Rightarrow> AccAddress \<Rightarrow> coins \<Rightarrow> ('p, sdk_error, unit) go" where
  "bw_SendCoinsFromModuleToAccount w senderModule recipientAddr cs =
    (let convertedCoins = ConvertCoinsDenomToExtendedDenom (bw_Sort w) (bw_info w) cs
     in if bw_IsZero w convertedCoins then go_return ()
        else eb_SendCoinsFromModuleToAccount (bw_bank w) senderModule recipientAddr convertedCoins)"

text \<open>\<open>SetBalance\<close>: a nil amount is a no-op; the sign of the difference decides.\<close>

definition SetBalance :: "'p BankWrapper \<Rightarrow> AccAddress \<Rightarrow> u256 option \<Rightarrow> ('p, sdk_error, unit) go" where
  "SetBalance w cosmosAddr amount =
    (case amount of
       None \<Rightarrow> go_return ()
     | Some amt \<Rightarrow>
        go_bind (bw_SpendableCoin w cosmosAddr (eci_Denom (bw_info w))) (\<lambda>coin.
          let delta = uint amt - Amount coin
          in if 0 < delta then MintAmountToAccount w cosmosAddr delta
             else if delta < 0 then BurnAmountFromAccount w cosmosAddr (- delta)
             else go_return ()))"

section \<open>\<open>x/precisebank\<close> as the bank of the EVM\<close>

definition pbBank :: "'b pb_keeper \<Rightarrow> 'b pb_ctx evm_bank" where
  "pbBank K = \<lparr>eb_GetBalance = GetBalance K, eb_SpendableCoin = SpendableCoin K,
     eb_MintCoins = MintCoins K, eb_BurnCoins = BurnCoins K,
     eb_SendCoinsFromModuleToAccount = SendCoinsFromModuleToAccount K,
     eb_SendCoinsFromAccountToModule = SendCoinsFromAccountToModule K\<rparr>"

definition evmModuleAddr :: "'b pb_keeper \<Rightarrow> AccAddress" where
  "evmModuleAddr K = ak_GetModuleAddress (ak K) EvmModuleName"

text \<open>The wiring of the application: x/bank behaves, and the EVM module account may mint and burn.\<close>

definition pb_good :: "'b pb_keeper \<Rightarrow> bool" where
  "pb_good K \<longleftrightarrow> bank_contract K \<and> pb_wired K \<and> \<not> IsExtendedDenomSameAsIntegerDenom K \<and>
     plain_module K EvmModuleName ''minter'' \<and> plain_module K EvmModuleName ''burner''"

text \<open>An account that may receive coins and has nothing locked.\<close>

definition pb_holder :: "'b pb_keeper \<Rightarrow> AccAddress \<Rightarrow> bool" where
  "pb_holder K a \<longleftrightarrow> a \<noteq> [] \<and> a \<noteq> reserveAddr K \<and> a \<noteq> evmModuleAddr K \<and> \<not> bk_BlockedAddr (bk K) a \<and>
     (\<forall>b d. bk_SpendableCoin (bk K) b a d = bk_GetBalance (bk K) b a d)"

definition pbWrapper :: "'b pb_keeper \<Rightarrow> (coins \<Rightarrow> coins) \<Rightarrow> (coins \<Rightarrow> bool) \<Rightarrow> 'b pb_ctx BankWrapper" where
  "pbWrapper K srt isZero = \<lparr>bw_bank = pbBank K, bw_info = coinInfo K, bw_Sort = srt, bw_IsZero = isZero\<rparr>"

section \<open>What the wrapper relies on\<close>

text \<open>
  A family of banks, indexed by their configuration \<open>K\<close>: on a state that satisfies the invariant,
  one positive amount of the extended denom is minted to and burned from the EVM module account
  and moved between it and a holder, in an exact ledger.
\<close>

locale extended_bank =
  fixes good :: "'k \<Rightarrow> bool"
    and inv :: "'k \<Rightarrow> 'p \<Rightarrow> bool"
    and ledger :: "'k \<Rightarrow> 'p \<Rightarrow> AccAddress \<Rightarrow> int"
    and total :: "'k \<Rightarrow> 'p \<Rightarrow> int"
    and bank :: "'k \<Rightarrow> 'p evm_bank"
    and info :: "'k \<Rightarrow> EvmCoinInfo"
    and moduleAddr :: "'k \<Rightarrow> AccAddress"
    and holder :: "'k \<Rightarrow> AccAddress \<Rightarrow> bool"
  assumes holder_module: "holder K a \<Longrightarrow> a \<noteq> moduleAddr K"
    and ledger_nonneg: "good K \<Longrightarrow> inv K s \<Longrightarrow> 0 \<le> ledger K s a"
    and spendable: "good K \<Longrightarrow> inv K s \<Longrightarrow> holder K a \<Longrightarrow>
      Amount (eb_SpendableCoin (bank K) a (eci_ExtendedDenom (info K)) s) = ledger K s a"
    and mint: "good K \<Longrightarrow> inv K s \<Longrightarrow> 0 < n \<Longrightarrow>
      \<exists>s'. eb_MintCoins (bank K) EvmModuleName [NewCoin (eci_ExtendedDenom (info K)) n] s = (Ret (), s') \<and>
        inv K s' \<and> ledger K s' = ledgerAdd (moduleAddr K) n (ledger K s) \<and> total K s' = total K s + n"
    and burn: "good K \<Longrightarrow> inv K s \<Longrightarrow> 0 < n \<Longrightarrow> n \<le> ledger K s (moduleAddr K) \<Longrightarrow>
      \<exists>s'. eb_BurnCoins (bank K) EvmModuleName [NewCoin (eci_ExtendedDenom (info K)) n] s = (Ret (), s') \<and>
        inv K s' \<and> ledger K s' = ledgerAdd (moduleAddr K) (- n) (ledger K s) \<and> total K s' = total K s - n"
    and to_account: "good K \<Longrightarrow> inv K s \<Longrightarrow> holder K a \<Longrightarrow> 0 < n \<Longrightarrow> n \<le> ledger K s (moduleAddr K) \<Longrightarrow>
      \<exists>s'. eb_SendCoinsFromModuleToAccount (bank K) EvmModuleName a [NewCoin (eci_ExtendedDenom (info K)) n] s = (Ret (), s') \<and>
        inv K s' \<and> ledger K s' = ledgerTransfer (moduleAddr K) a n (ledger K s) \<and> total K s' = total K s"
    and to_module: "good K \<Longrightarrow> inv K s \<Longrightarrow> holder K a \<Longrightarrow> 0 < n \<Longrightarrow> n \<le> ledger K s a \<Longrightarrow>
      \<exists>s'. eb_SendCoinsFromAccountToModule (bank K) a EvmModuleName [NewCoin (eci_ExtendedDenom (info K)) n] s = (Ret (), s') \<and>
        inv K s' \<and> ledger K s' = ledgerTransfer a (moduleAddr K) n (ledger K s) \<and> total K s' = total K s"
begin

lemma MintAmount:
  assumes "good K" "inv K s" "holder K a" "0 < n" and w: "bw_bank w = bank K" "bw_info w = info K"
  shows "\<exists>s'. MintAmountToAccount w a n s = (Ret (), s') \<and> inv K s' \<and> ledger K s' = ledgerAdd a n (ledger K s) \<and>
    total K s' = total K s + n"
proof -
  obtain s1 where s1: "eb_MintCoins (bank K) EvmModuleName [NewCoin (eci_ExtendedDenom (info K)) n] s = (Ret (), s1)"
      "inv K s1" "ledger K s1 = ledgerAdd (moduleAddr K) n (ledger K s)" "total K s1 = total K s + n"
    using mint [OF assms(1,2,4)] by blast
  have "n \<le> ledger K s1 (moduleAddr K)"
    using ledger_nonneg [OF assms(1,2)] by (simp add: s1(3) ledgerAdd_def)
  from to_account [OF assms(1) s1(2) assms(3,4) this] obtain s2 where
    s2: "eb_SendCoinsFromModuleToAccount (bank K) EvmModuleName a [NewCoin (eci_ExtendedDenom (info K)) n] s1 = (Ret (), s2)"
      "inv K s2" "ledger K s2 = ledgerTransfer (moduleAddr K) a n (ledger K s1)" "total K s2 = total K s1" by blast
  have "ledger K s2 = ledgerAdd a n (ledger K s)"
    using holder_module [OF assms(3)] by (auto simp: s2(3) s1(3) ledgerAdd_def ledgerTransfer_def)
  then show ?thesis
    using s1(1,4) s2(1,2,4) by (simp add: MintAmountToAccount_def ConvertEvmCoinDenomToExtendedDenom_def w Let_def)
qed

lemma BurnAmount:
  assumes "good K" "inv K s" "holder K a" "0 < n" "n \<le> ledger K s a" and w: "bw_bank w = bank K" "bw_info w = info K"
  shows "\<exists>s'. BurnAmountFromAccount w a n s = (Ret (), s') \<and> inv K s' \<and> ledger K s' = ledgerAdd a (- n) (ledger K s) \<and>
    total K s' = total K s - n"
proof -
  from to_module [OF assms(1-5)] obtain s1 where
    s1: "eb_SendCoinsFromAccountToModule (bank K) a EvmModuleName [NewCoin (eci_ExtendedDenom (info K)) n] s = (Ret (), s1)"
      "inv K s1" "ledger K s1 = ledgerTransfer a (moduleAddr K) n (ledger K s)" "total K s1 = total K s" by blast
  have m: "a \<noteq> moduleAddr K" by (rule holder_module [OF assms(3)])
  have "n \<le> ledger K s1 (moduleAddr K)"
    using ledger_nonneg [OF assms(1,2), of "moduleAddr K"] m by (simp add: s1(3) ledgerTransfer_def)
  from burn [OF assms(1) s1(2) assms(4) this] obtain s2 where
    s2: "eb_BurnCoins (bank K) EvmModuleName [NewCoin (eci_ExtendedDenom (info K)) n] s1 = (Ret (), s2)"
      "inv K s2" "ledger K s2 = ledgerAdd (moduleAddr K) (- n) (ledger K s1)" "total K s2 = total K s1 - n" by blast
  have "ledger K s2 = ledgerAdd a (- n) (ledger K s)"
    using m by (auto simp: s2(3) s1(3) ledgerAdd_def ledgerTransfer_def)
  then show ?thesis
    using s1(1,4) s2(1,2,4) by (simp add: BurnAmountFromAccount_def ConvertEvmCoinDenomToExtendedDenom_def w Let_def)
qed

text \<open>\<open>SetBalance\<close> on a holder always succeeds and assigns exactly the amount.\<close>

lemma SetBalance_sets:
  assumes g: "good K" "inv K s" "holder K a" and w: "bw_bank w = bank K" "bw_info w = info K"
  shows "\<exists>s'. SetBalance w a (Some v) s = (Ret (), s') \<and> inv K s' \<and> ledger K s' = (ledger K s)(a := uint v) \<and>
    total K s' = total K s + (uint v - ledger K s a)"
proof -
  let ?b = "ledger K s a"
  have b: "bw_SpendableCoin w a (eci_Denom (info K)) s =
      (Ret (eb_SpendableCoin (bank K) a (eci_ExtendedDenom (info K)) s), s)"
    by (simp add: bw_SpendableCoin_def w)
  have upd: "ledgerAdd a (uint v - ?b) (ledger K s) = (ledger K s)(a := uint v)"
    by (auto simp: ledgerAdd_def)
  have eq: "SetBalance w a (Some v) s = (if ?b < uint v then MintAmountToAccount w a (uint v - ?b) s
      else if uint v < ?b then BurnAmountFromAccount w a (?b - uint v) s else (Ret (), s))"
    using b spendable [OF g] by (simp add: SetBalance_def w Let_def)
  consider "?b < uint v" | "uint v < ?b" | "?b = uint v" by linarith
  then show ?thesis
  proof cases
    case 1
    then show ?thesis using MintAmount [OF g _ w, of "uint v - ?b"] by (simp add: eq upd)
  next
    case 2
    have m: "- (?b - uint v) = uint v - ?b" by simp
    obtain s' where "BurnAmountFromAccount w a (?b - uint v) s = (Ret (), s')" "inv K s'"
        "ledger K s' = (ledger K s)(a := uint v)" "total K s' = total K s - (?b - uint v)"
      using 2 BurnAmount [OF g _ _ w, of "?b - uint v", unfolded m upd] by auto
    then show ?thesis using 2 by (intro exI [of _ s']) (simp add: eq)
  next
    case 3
    then show ?thesis using g(2) by (auto simp: eq)
  qed
qed

end


section \<open>\<open>x/precisebank\<close> provides it\<close>

lemma extended_coin_amounts:
  assumes bc: "bank_contract K" and n: "0 < n" and ne: "\<not> IsExtendedDenomSameAsIntegerDenom K"
  defines "cs \<equiv> [NewCoin (ExtendedCoinDenom K) n]"
  shows "IsValid (coinsApi K) cs" "Amount (SumExtendedCoin K cs) = n"
    "AmountOf (coinsApi K) cs d = (if d = ExtendedCoinDenom K then n else 0)"
proof -
  show v: "IsValid (coinsApi K) cs" and a: "AmountOf (coinsApi K) cs d = (if d = ExtendedCoinDenom K then n else 0)" for d
    using bc n by (simp_all add: cs_def bank_contract_def coins_contract_def)
  show "Amount (SumExtendedCoin K cs) = n"
    using ne by (simp add: a IsExtendedDenomSameAsIntegerDenom_def)
qed

lemma pb_good_module:
  assumes "pb_good K"
  shows "evmModuleAddr K \<noteq> reserveAddr K" "evmModuleAddr K \<noteq> []"
    "\<exists>acc. ak_GetModuleAccount (ak K) EvmModuleName = Some acc \<and> ma_Address acc = evmModuleAddr K"
    "extSpendable K s (evmModuleAddr K) = extBalance K s (evmModuleAddr K)"
    "EvmModuleName \<noteq> ModuleName"
proof -
  have pm: "bank_contract K" "pb_wired K" "plain_module K EvmModuleName ''minter''"
    using assms by (simp_all add: pb_good_def)
  note m = plain_moduleD [OF pm]
  show "evmModuleAddr K \<noteq> reserveAddr K" "evmModuleAddr K \<noteq> []" "EvmModuleName \<noteq> ModuleName"
    using m(1-3) by (simp_all add: evmModuleAddr_def)
  obtain acc where acc: "ak_GetModuleAccount (ak K) EvmModuleName = Some acc" using m(5) by blast
  then have *: "ma_Address acc = evmModuleAddr K"
      "bk_SpendableCoin (bk K) b (evmModuleAddr K) d = bk_GetBalance (bk K) b (evmModuleAddr K) d" for b d
    using pm(1) by (auto simp: bank_contract_def evmModuleAddr_def)
  then show "\<exists>acc. ak_GetModuleAccount (ak K) EvmModuleName = Some acc \<and> ma_Address acc = evmModuleAddr K"
    using acc by blast
  show "extSpendable K s (evmModuleAddr K) = extBalance K s (evmModuleAddr K)"
    by (simp add: extSpendable_def extBalance_def SpendableCoin_def GetBalance_def * Let_def)
qed

lemma pb_holder_spendable: "pb_holder K a \<Longrightarrow> extSpendable K s a = extBalance K s a"
  by (simp add: pb_holder_def extSpendable_def extBalance_def SpendableCoin_def GetBalance_def Let_def)

lemma extBalance_nonneg:
  assumes "bank_contract K" "pb_wired K" "pb_inv K s"
  shows "0 \<le> extBalance K s a"
proof -
  have "0 \<le> bal K (bankState s) a" using spd_bounds [OF assms(1)] by (metis order_trans)
  moreover have "0 \<le> GetFractionalBalance a s"
    using assms(3) by (auto simp: pb_inv_def GetFractionalBalance_def less_imp_le split: option.split)
  moreover have "0 < CF K" using assms(2) by (simp add: pb_wired_def ConversionFactorPB_def coinFactor_pos)
  ultimately show ?thesis by (simp add: extBalance_def GetBalance_def Let_def)
qed

lemma pb_payable:
  assumes g: "pb_good K" and n: "0 < n" "n \<le> extSpendable K s a"
  shows "payable K a [NewCoin (ExtendedCoinDenom K) n] s"
proof -
  have bc: "bank_contract K" and ne: "\<not> IsExtendedDenomSameAsIntegerDenom K" using g by (simp_all add: pb_good_def)
  note c = extended_coin_amounts [OF bc n(1) ne]
  show ?thesis using n(2) spd_bounds(1) [OF bc] by (simp add: payable_def c del: SumExtendedCoin_amount)
qed

interpretation pb: extended_bank pb_good pb_inv extBalance extSupply pbBank coinInfo evmModuleAddr pb_holder
proof (unfold_locales, goal_cases)
  case (1 K a)
  then show ?case by (simp add: pb_holder_def)
next
  case (2 K s a)
  then show ?case by (simp add: pb_good_def extBalance_nonneg)
next
  case (3 K s a)
  then show ?case using pb_holder_spendable [of K a s]
    by (simp add: pbBank_def extSpendable_def ExtendedCoinDenom_def)
next
  case (4 K s n)
  then have g: "bank_contract K" "pb_wired K" "plain_module K EvmModuleName ''minter''" "\<not> IsExtendedDenomSameAsIntegerDenom K"
    by (simp_all add: pb_good_def)
  note c = extended_coin_amounts [OF g(1) 4(3) g(4)]
  show ?case using MintCoins_ok [OF g(1,2) 4(2) g(3) c(1) g(4)]
    by (auto simp: pbBank_def evmModuleAddr_def ExtendedCoinDenom_def [symmetric] c(2) simp del: SumExtendedCoin_amount)
next
  case (5 K s n)
  then have g: "bank_contract K" "pb_wired K" "plain_module K EvmModuleName ''burner''" "\<not> IsExtendedDenomSameAsIntegerDenom K"
    by (simp_all add: pb_good_def)
  note c = extended_coin_amounts [OF g(1) 5(3) g(4)]
  have "payable K (ak_GetModuleAddress (ak K) EvmModuleName) [NewCoin (ExtendedCoinDenom K) n] s"
    using pb_payable [OF 5(1,3), of s "evmModuleAddr K"] 5(4) pb_good_module(4) [OF 5(1), of s] by (simp add: evmModuleAddr_def)
  from BurnCoins_ok [OF g(1,2) 5(2) g(3) c(1) g(4) this] show ?case
    by (auto simp: pbBank_def evmModuleAddr_def ExtendedCoinDenom_def [symmetric] c(2) simp del: SumExtendedCoin_amount)
next
  case (6 K s a n)
  then have g: "bank_contract K" "pb_wired K" "\<not> IsExtendedDenomSameAsIntegerDenom K" by (simp_all add: pb_good_def)
  note c = extended_coin_amounts [OF g(1) 6(4) g(3)] and m = pb_good_module [OF 6(1)]
  have pair: "plain_pair K (evmModuleAddr K) a" using 6(3) m(1,2) by (auto simp: plain_pair_def pb_holder_def)
  have pay: "payable K (evmModuleAddr K) [NewCoin (ExtendedCoinDenom K) n] s"
    by (rule pb_payable [OF 6(1,4)]) (use 6(5) m(4) in simp)
  show ?case using SendCoins_ok [OF g(1,2) 6(2) pair c(1) g(3) pay] m(2,5) 6(3)
    by (auto simp: pbBank_def SendCoinsFromModuleToAccount_def Let_def evmModuleAddr_def pb_holder_def
        ExtendedCoinDenom_def [symmetric] c(2) simp del: SumExtendedCoin_amount)
next
  case (7 K s a n)
  then have g: "bank_contract K" "pb_wired K" "\<not> IsExtendedDenomSameAsIntegerDenom K" by (simp_all add: pb_good_def)
  note c = extended_coin_amounts [OF g(1) 7(4) g(3)] and m = pb_good_module [OF 7(1)]
  have pair: "plain_pair K a (evmModuleAddr K)" using 7(3) m(1,2) by (simp add: plain_pair_def pb_holder_def)
  have pay: "payable K a [NewCoin (ExtendedCoinDenom K) n] s"
    by (rule pb_payable [OF 7(1,4)]) (use 7(5) pb_holder_spendable [OF 7(3)] in simp)
  show ?case using SendCoins_ok [OF g(1,2) 7(2) pair c(1) g(3) pay] m(3,5)
    by (auto simp: pbBank_def SendCoinsFromAccountToModule_def
        ExtendedCoinDenom_def [symmetric] c(2) simp del: SumExtendedCoin_amount)
qed

section \<open>Properties\<close>

text \<open>
  C10.  On \<open>x/precisebank\<close>, \<open>SetBalance\<close> of an ordinary account always succeeds: minting or burning
  the difference through the EVM module account leaves the account with exactly the new amount and
  every other extended balance unchanged, moves the extended supply by the difference, and keeps
  the reserve backing.
\<close>

theorem SetBalance_exact:
  assumes "pb_good K" "pb_inv K s" "pb_holder K a"
  shows "\<exists>s'. SetBalance (pbWrapper K srt isZero) a (Some v) s = (Ret (), s') \<and> pb_inv K s' \<and>
    extBalance K s' = (extBalance K s)(a := uint v) \<and> extSupply K s' = extSupply K s + (uint v - extBalance K s a)"
  by (rule pb.SetBalance_sets [OF assms]) (simp_all add: pbWrapper_def)

theorem SetBalance_exact_witness:
  "\<exists>s'. SetBalance (pbWrapper lgKeeper (\<lambda>cs. cs) (\<lambda>cs. cs = [])) [1] (Some 17) lgState = (Ret (), s') \<and>
     pb_inv lgKeeper s' \<and> extBalance lgKeeper s' [1] = 17 \<and> extBalance lgKeeper s' [2] = 9 \<and>
     extSupply lgKeeper s' = extSupply lgKeeper lgState + (17 - extBalance lgKeeper lgState [1])"
proof -
  have g: "pb_good lgKeeper"
    by (simp add: pb_good_def ledger_contract ledger_wired ledger_denoms_differ EvmModuleName_def ledger_evm_module)
  have h: "pb_holder lgKeeper [1]"
    by (simp add: pb_holder_def evmModuleAddr_def EvmModuleName_def ledger_evm_module lgBank_def)
  from SetBalance_exact [OF g ledger_inv h, of "\<lambda>cs. cs" "\<lambda>cs. cs = []" 17] obtain s' where
    "SetBalance (pbWrapper lgKeeper (\<lambda>cs. cs) (\<lambda>cs. cs = [])) [1] (Some 17) lgState = (Ret (), s')"
    "pb_inv lgKeeper s'" "extBalance lgKeeper s' = (extBalance lgKeeper lgState)([1] := 17)"
    "extSupply lgKeeper s' = extSupply lgKeeper lgState + (17 - extBalance lgKeeper lgState [1])" by auto
  then show ?thesis by (intro exI [of _ s']) (simp add: ledger_values)
qed

end
