(* ===== verification/GasMeter.thy ===== *)
theory GasMeter
  imports EvmPrelude
begin

text \<open>
  The gas meter of EVM transactions, \<open>types/gasmeter.go\<close>, the block gas limit, \<open>types/block.go\<close>,
  the checked integer conversions, \<open>types/int.go\<close>, and the reset of the meter to the gas the EVM
  used, \<open>ResetGasMeterAndConsumeGas\<close> of \<open>x/vm/keeper/gas.go\<close>.

  The meter is a pointer in Go; its methods return the updated meter here.  The keeper calls it
  through the interface \<open>storetypes.GasMeter\<close>, the locale \<open>gas_meter\<close>.
\<close>

section \<open>The infinite gas meter\<close>

datatype gas_error = ErrorNegativeGasConsumed string | ErrorGasOverflow string

record infiniteGasMeterWithLimit =
  consumed :: u64
  limit :: u64

type_synonym 'a gm_go = "(infiniteGasMeterWithLimit, gas_error, 'a) go"

definition NewInfiniteGasMeterWithLimit :: "u64 \<Rightarrow> infiniteGasMeterWithLimit" where
  "NewInfiniteGasMeterWithLimit l = \<lparr>consumed = 0, limit = l\<rparr>"

definition GasConsumed :: "infiniteGasMeterWithLimit \<Rightarrow> u64" where
  "GasConsumed g = consumed g"

definition GasConsumedToLimit :: "infiniteGasMeterWithLimit \<Rightarrow> u64" where
  "GasConsumedToLimit g = consumed g"

definition Limit :: "infiniteGasMeterWithLimit \<Rightarrow> u64" where
  "Limit g = limit g"

definition addUint64Overflow :: "u64 \<Rightarrow> u64 \<Rightarrow> u64 \<times> bool" where
  "addUint64Overflow a b = (if (- 1) - a < b then (0, True) else (a + b, False))"

text \<open>A panic carries a typed error, so it is an \<open>Err\<close> of the computation here.\<close>

definition ConsumeGas :: "u64 \<Rightarrow> string \<Rightarrow> unit gm_go" where
  "ConsumeGas amount descriptor = (\<lambda>g.
    case addUint64Overflow (consumed g) amount of (c, overflow) \<Rightarrow>
      let g' = g\<lparr>consumed := c\<rparr>
      in if overflow then (Err (ErrorGasOverflow descriptor), g') else (Ret (), g'))"

definition RefundGas :: "u64 \<Rightarrow> string \<Rightarrow> unit gm_go" where
  "RefundGas amount descriptor = (\<lambda>g.
    if consumed g < amount then (Err (ErrorNegativeGasConsumed descriptor), g)
    else (Ret (), g\<lparr>consumed := consumed g - amount\<rparr>))"

definition IsPastLimit :: "infiniteGasMeterWithLimit \<Rightarrow> bool" where
  "IsPastLimit g \<longleftrightarrow> False"

definition IsOutOfGas :: "infiniteGasMeterWithLimit \<Rightarrow> bool" where
  "IsOutOfGas g \<longleftrightarrow> False"

definition GasRemaining :: "infiniteGasMeterWithLimit \<Rightarrow> u64" where
  "GasRemaining g = (if consumed g > limit g then 0 else limit g - consumed g)"

section \<open>Block gas limit and integer conversions\<close>

text \<open>
  The context: the limit of the block gas meter if one is set, and \<open>MaxGas\<close> of the block
  consensus parameters if they are set.
\<close>

definition BlockGasLimit :: "u64 option \<Rightarrow> int option \<Rightarrow> u64" where
  "BlockGasLimit blockGasMeter consBlockMaxGas =
    (case blockGasMeter of
       Some l \<Rightarrow> if l \<noteq> 0 then l else
         (case consBlockMaxGas of
            None \<Rightarrow> 0
          | Some maxGas \<Rightarrow> if maxGas = -1 then - 1 else if maxGas > 0 then word_of_int maxGas else 0)
     | None \<Rightarrow>
         (case consBlockMaxGas of
            None \<Rightarrow> 0
          | Some maxGas \<Rightarrow> if maxGas = -1 then - 1 else if maxGas > 0 then word_of_int maxGas else 0))"

definition SafeInt64 :: "u64 \<Rightarrow> int option" where
  "SafeInt64 v = (if v > 0x7FFFFFFFFFFFFFFF then None else Some (uint v))"

definition SafeUint64 :: "int \<Rightarrow> u64 option" where
  "SafeUint64 v = (if v < 0 then None else Some (word_of_int v))"

text \<open>A bit length of at most 256 is an absolute value below \<open>2 ^ 256\<close>.\<close>

definition IsValidInt256 :: "int option \<Rightarrow> bool" where
  "IsValidInt256 i = (case i of None \<Rightarrow> True | Some n \<Rightarrow> \<bar>n\<bar> < 2 ^ 256)"

definition SafeNewIntFromBigInt :: "int option \<Rightarrow> string + int option" where
  "SafeNewIntFromBigInt i = (if \<not> IsValidInt256 i then Inl ''big int out of bound'' else Inr i)"

section \<open>The interface\<close>

text \<open>
  The contract of \<open>storetypes.GasMeter\<close> as the keeper uses it: a refund of the whole consumed
  amount succeeds and empties the meter, and an empty meter accepts an amount it admits.
\<close>

locale gas_meter =
  fixes used :: "'g \<Rightarrow> u64"
    and refundGas :: "u64 \<Rightarrow> string \<Rightarrow> ('g, 'e, unit) go"
    and consumeGas :: "u64 \<Rightarrow> string \<Rightarrow> ('g, 'e, unit) go"
    and admits :: "'g \<Rightarrow> u64 \<Rightarrow> bool"
  assumes refund_all: "\<exists>g'. refundGas (used g) d g = (Ret (), g') \<and> used g' = 0 \<and> admits g' = admits g"
    and consume: "used g = 0 \<Longrightarrow> admits g n \<Longrightarrow> \<exists>g'. consumeGas n d g = (Ret (), g') \<and> used g' = n \<and> admits g' = admits g"

definition ResetGasMeterAndConsumeGas ::
    "('g \<Rightarrow> u64) \<Rightarrow> (u64 \<Rightarrow> string \<Rightarrow> ('g, 'e, unit) go) \<Rightarrow> (u64 \<Rightarrow> string \<Rightarrow> ('g, 'e, unit) go) \<Rightarrow> u64 \<Rightarrow> ('g, 'e, unit) go" where
  "ResetGasMeterAndConsumeGas gasConsumed refundGas consumeGas gasUsed =
    go_bind (go_gets gasConsumed) (\<lambda>c.
      go_seq (refundGas c ''reset the gas count'') (consumeGas gasUsed ''apply evm transaction''))"

context gas_meter
begin

lemma reset_sets:
  assumes "admits g n"
  shows "\<exists>g'. ResetGasMeterAndConsumeGas used refundGas consumeGas n g = (Ret (), g') \<and> used g' = n"
proof -
  obtain g1 where "refundGas (used g) ''reset the gas count'' g = (Ret (), g1)" "used g1 = 0" "admits g1 = admits g"
    using refund_all by blast
  moreover obtain g2 where "consumeGas n ''apply evm transaction'' g1 = (Ret (), g2)" "used g2 = n"
    using consume [OF calculation(2)] assms calculation(3) by metis
  ultimately show ?thesis by (simp add: ResetGasMeterAndConsumeGas_def)
qed

end

lemma no_overflow_iff: "\<not> ((- 1 :: u64) - a < b) \<longleftrightarrow> unat a + unat b < 2 ^ 64"
proof -
  have "a \<le> (- 1 :: u64)" by (rule word_order.extremum)
  then have "unat ((- 1 :: u64) - a) = 2 ^ 64 - 1 - unat a"
    by (simp add: unat_sub unsigned_minus_1_eq_mask mask_eq_exp_minus_1)
  moreover have "unat a < 2 ^ LENGTH(64)" by (rule unsigned_less)
  ultimately show ?thesis by (simp add: word_less_nat_alt) linarith
qed

lemma addUint64Overflow_iff:
  "addUint64Overflow a b = (if unat a + unat b < 2 ^ 64 then (a + b, False) else (0, True))"
  using no_overflow_iff [of a b] by (auto simp: addUint64Overflow_def)

interpretation igm: gas_meter GasConsumed RefundGas ConsumeGas "\<lambda>_ _. True"
proof (unfold_locales, goal_cases)
  case (1 d g)
  then show ?case by (simp add: RefundGas_def GasConsumed_def)
next
  case (2 g n d)
  have "unat n < 2 ^ LENGTH(64)" by (rule unsigned_less)
  then show ?case using 2 by (simp add: ConsumeGas_def GasConsumed_def addUint64Overflow_iff)
qed

section \<open>Properties\<close>

text \<open>
  Whatever the meter has consumed before, \<open>ResetGasMeterAndConsumeGas\<close> never panics on the
  meter of EVM transactions and leaves it at exactly the gas used.
\<close>

theorem reset_gas_exact:
  "\<exists>g'. ResetGasMeterAndConsumeGas GasConsumed RefundGas ConsumeGas n g = (Ret (), g') \<and> GasConsumed g' = n"
  by (rule igm.reset_sets) simp

text \<open>
  \<open>ConsumeGas\<close> adds exactly unless the sum leaves the range of a \<open>uint64\<close>; on overflow it
  raises \<open>ErrorGasOverflow\<close> with the counter already overwritten by zero.
\<close>

theorem ConsumeGas_bounds:
  "ConsumeGas n d g =
    (if unat (consumed g) + unat n < 2 ^ 64 then (Ret (), g\<lparr>consumed := consumed g + n\<rparr>)
     else (Err (ErrorGasOverflow d), g\<lparr>consumed := 0\<rparr>))"
  by (simp add: ConsumeGas_def addUint64Overflow_iff Let_def)

end
