(* ===== verification/FeeMarket.thy ===== *)
theory FeeMarket
  imports EvmDenom GasMeter
begin

text \<open>
  The fee market: \<open>x/feemarket/keeper\<close> (\<open>abci.go\<close>, \<open>eip1559.go\<close>, \<open>keeper.go\<close>, \<open>params.go\<close>,
  \<open>msg_server.go\<close>, \<open>grpc_query.go\<close>), \<open>x/feemarket/types/params.go\<close> and \<open>genesis.go\<close>,
  \<open>x/feemarket/genesis.go\<close>, \<open>CalcGasBaseFee\<close> and \<open>CalcBaseFee\<close> of \<open>utils/utils.go\<close>, and the wrapper
  \<open>x/vm/wrappers/feemarket.go\<close>.

  A \<open>LegacyDec\<close> is a fixed-point number with 18 decimals.  It is represented by the integer of its
  smallest units, nil by \<open>None\<close>; sums, differences and comparisons are those of the integers.  The
  conversions, products and quotients of the SDK are the fields of \<open>dec_api\<close>, with their
  documented rounding as \<open>dec_contract\<close>.  Events, logging and telemetry are left out.
\<close>

section \<open>Decimals\<close>

type_synonym LegacyDec = int

definition decOne :: LegacyDec where
  "decOne = 1000000000000000000"

record dec_api =
  Dec_FromInt :: "int \<Rightarrow> LegacyDec"
  Dec_TruncateInt :: "LegacyDec \<Rightarrow> int"
  Dec_Mul :: "LegacyDec \<Rightarrow> LegacyDec \<Rightarrow> LegacyDec"
  Dec_MulInt :: "LegacyDec \<Rightarrow> int \<Rightarrow> LegacyDec"
  Dec_QuoInt :: "LegacyDec \<Rightarrow> int \<Rightarrow> LegacyDec"

text \<open>\<open>Mul\<close> rounds to the nearest unit, \<open>QuoInt\<close> and \<open>TruncateInt\<close> truncate towards zero.\<close>

definition dec_contract :: "dec_api \<Rightarrow> bool" where
  "dec_contract D \<longleftrightarrow>
    (\<forall>n. Dec_FromInt D n = n * decOne) \<and>
    (\<forall>d. Dec_TruncateInt D d = Quo d decOne) \<and>
    (\<forall>d e. \<bar>2 * (Dec_Mul D d e * decOne - d * e)\<bar> \<le> decOne) \<and>
    (\<forall>d n. Dec_MulInt D d n = d * n) \<and>
    (\<forall>d n. n \<noteq> 0 \<longrightarrow> Dec_QuoInt D d n = Quo d n)"

section \<open>Parameters\<close>

record fm_Params =
  NoBaseFee :: bool
  BaseFeeChangeDenominator :: u32
  ElasticityMultiplier :: u32
  fm_BaseFee :: "LegacyDec option"
  EnableHeight :: int
  MinGasPrice :: "LegacyDec option"
  MinGasMultiplier :: "LegacyDec option"

text \<open>The change denominator 8 and the elasticity 2 are the EIP-1559 constants of go-ethereum.\<close>

definition fm_DefaultParams :: fm_Params where
  "fm_DefaultParams = \<lparr>NoBaseFee = False, BaseFeeChangeDenominator = 8, ElasticityMultiplier = 2,
     fm_BaseFee = Some (1000000000 * decOne), EnableHeight = 0, MinGasPrice = Some 0,
     MinGasMultiplier = Some (decOne div 2)\<rparr>"

definition validateMinGasPrice :: "LegacyDec option \<Rightarrow> bool" where
  "validateMinGasPrice gasPrice = (case gasPrice of None \<Rightarrow> False | Some p \<Rightarrow> \<not> p < 0)"

definition validateMinGasMultiplier :: "LegacyDec option \<Rightarrow> bool" where
  "validateMinGasMultiplier multiplier =
    (case multiplier of None \<Rightarrow> False | Some m \<Rightarrow> \<not> m < 0 \<and> \<not> m > decOne)"

text \<open>\<open>IsNegative\<close> of a nil base fee is a nil dereference.\<close>

definition fm_Params_Validate :: "fm_Params \<Rightarrow> (string, unit) outcome" where
  "fm_Params_Validate p =
    (if BaseFeeChangeDenominator p = 0 then Err ''base fee change denominator cannot be 0''
     else case fm_BaseFee p of
       None \<Rightarrow> Panic ''nil pointer dereference''
     | Some baseFee \<Rightarrow>
        if baseFee < 0 then Err ''initial base fee cannot be negative''
        else if EnableHeight p < 0 then Err ''enable height cannot be negative''
        else if ElasticityMultiplier p = 0 then Err ''elasticity multiplier cannot be zero''
        else if \<not> validateMinGasMultiplier (MinGasMultiplier p) then Err ''min gas multiplier''
        else if \<not> validateMinGasPrice (MinGasPrice p) then Err ''min gas price''
        else Ret ())"

definition IsBaseFeeEnabled :: "fm_Params \<Rightarrow> int \<Rightarrow> bool" where
  "IsBaseFeeEnabled p height \<longleftrightarrow> \<not> NoBaseFee p \<and> height \<ge> EnableHeight p"

section \<open>The keeper\<close>

text \<open>
  The persistent store holds the parameters and the gas wanted of the last block, the transient
  store the gas wanted so far, an absent value reading as zero.  The block context is the height,
  \<open>MaxGas\<close> of the consensus parameters if they are set, and the consumption of the block gas meter
  if there is one.
\<close>

record fm_ctx =
  fmParams :: "fm_Params option"
  fmBlockGasWanted :: "u64 option"
  fmTransientGasWanted :: "u64 option"

record fm_block =
  BlockHeight :: int
  consMaxGas :: "int option"
  blockGasConsumedToLimit :: "u64 option"

record fm_keeper =
  fmDec :: dec_api
  fmFactor :: int
  fmAuthority :: string

type_synonym 'a fm_go = "(fm_ctx, string, 'a) go"

definition SetBlockGasWanted :: "u64 \<Rightarrow> fm_ctx \<Rightarrow> fm_ctx" where
  "SetBlockGasWanted gas s = s\<lparr>fmBlockGasWanted := Some gas\<rparr>"

definition GetBlockGasWanted :: "fm_ctx \<Rightarrow> u64" where
  "GetBlockGasWanted s = (case fmBlockGasWanted s of None \<Rightarrow> 0 | Some g \<Rightarrow> g)"

definition GetTransientGasWanted :: "fm_ctx \<Rightarrow> u64" where
  "GetTransientGasWanted s = (case fmTransientGasWanted s of None \<Rightarrow> 0 | Some g \<Rightarrow> g)"

definition SetTransientBlockGasWanted :: "u64 \<Rightarrow> fm_ctx \<Rightarrow> fm_ctx" where
  "SetTransientBlockGasWanted gasWanted s = s\<lparr>fmTransientGasWanted := Some gasWanted\<rparr>"

definition AddTransientGasWanted :: "u64 \<Rightarrow> u64 fm_go" where
  "AddTransientGasWanted gasWanted = (\<lambda>s.
    let result = GetTransientGasWanted s + gasWanted
    in (Ret result, SetTransientBlockGasWanted result s))"

definition fm_GetParams :: "fm_ctx \<Rightarrow> fm_Params" where
  "fm_GetParams s = (case fmParams s of None \<Rightarrow> fm_DefaultParams | Some p \<Rightarrow> p)"

definition fm_SetParams :: "fm_Params \<Rightarrow> fm_ctx \<Rightarrow> fm_ctx" where
  "fm_SetParams p s = s\<lparr>fmParams := Some p\<rparr>"

definition GetBaseFeeEnabled :: "fm_block \<Rightarrow> fm_ctx \<Rightarrow> bool" where
  "GetBaseFeeEnabled b s \<longleftrightarrow>
    \<not> NoBaseFee (fm_GetParams s) \<and> BlockHeight b \<ge> EnableHeight (fm_GetParams s)"

definition fm_GetBaseFee :: "fm_ctx \<Rightarrow> LegacyDec option" where
  "fm_GetBaseFee s = (if NoBaseFee (fm_GetParams s) then None else fm_BaseFee (fm_GetParams s))"

definition SetBaseFee :: "LegacyDec option \<Rightarrow> fm_ctx \<Rightarrow> fm_ctx" where
  "SetBaseFee baseFee s = fm_SetParams ((fm_GetParams s)\<lparr>fm_BaseFee := baseFee\<rparr>) s"

text \<open>\<open>UpdateParams\<close> of the message server; \<open>ValidateBasic\<close> has validated the parameters before.\<close>

definition fm_UpdateParams :: "fm_keeper \<Rightarrow> string \<Rightarrow> fm_Params \<Rightarrow> unit fm_go" where
  "fm_UpdateParams K authority p =
    (if fmAuthority K \<noteq> authority then go_err ''invalid authority'' else go_modify (fm_SetParams p))"

section \<open>The base fee\<close>

definition CalcGasBaseFee :: "dec_api \<Rightarrow> u64 \<Rightarrow> u64 \<Rightarrow> u64 \<Rightarrow> LegacyDec \<Rightarrow> LegacyDec \<Rightarrow> LegacyDec \<Rightarrow> LegacyDec" where
  "CalcGasBaseFee D gasUsed gasTarget baseFeeChangeDenom baseFee minUnitGas minGasPrice =
    (if gasUsed = gasTarget then baseFee
     else if gasTarget = 0 then 0
     else
       let num0 = Dec_FromInt D \<bar>uint gasUsed - uint gasTarget\<bar>;
           num1 = Dec_Mul D num0 baseFee;
           num2 = Dec_QuoInt D num1 (uint gasTarget);
           num = Dec_QuoInt D num2 (uint baseFeeChangeDenom)
       in if gasUsed > gasTarget then baseFee + max num minUnitGas
          else max (baseFee - num) minGasPrice)"

text \<open>
  \<open>CalculateBaseFee\<close>.  Division by a zero elasticity multiplier, a zero change denominator and the
  use of a nil minimum price panic; the parameters are validated not to have them.  \<open>None\<close> as the
  returned value is the nil decimal.
\<close>

definition CalculateBaseFee :: "fm_keeper \<Rightarrow> fm_block \<Rightarrow> fm_ctx \<Rightarrow> (string, LegacyDec option) outcome" where
  "CalculateBaseFee K b s =
    (let params = fm_GetParams s
     in if \<not> IsBaseFeeEnabled params (BlockHeight b) then Ret None
        else if BlockHeight b = EnableHeight params then Ret (fm_BaseFee params)
        else case fm_BaseFee params of
          None \<Rightarrow> Ret None
        | Some parentBaseFee \<Rightarrow>
           let parentGasUsed = GetBlockGasWanted s;
               gasLimit = (case consMaxGas b of
                   Some g \<Rightarrow> if g > -1 then g else uint (- 1 :: u64)
                 | None \<Rightarrow> uint (- 1 :: u64))
           in if ElasticityMultiplier params = 0 then Panic ''division by zero''
              else
                let parentGasTarget = Quo gasLimit (uint (ElasticityMultiplier params))
                in if \<not> (0 \<le> parentGasTarget \<and> parentGasTarget < 2 ^ 64) then Ret None
                   else if BaseFeeChangeDenominator params = 0 \<or> MinGasPrice params = None
                   then Panic ''division by zero or nil pointer dereference''
                   else Ret (Some (CalcGasBaseFee (fmDec K) parentGasUsed (word_of_int parentGasTarget)
                          (ucast (BaseFeeChangeDenominator params)) parentBaseFee
                          (Dec_QuoInt (fmDec K) decOne (fmFactor K)) (the (MinGasPrice params)))))"

definition fm_BeginBlock :: "fm_keeper \<Rightarrow> fm_block \<Rightarrow> unit fm_go" where
  "fm_BeginBlock K b = (\<lambda>s.
    case CalculateBaseFee K b s of
      Ret None \<Rightarrow> (Ret (), s)
    | Ret (Some baseFee) \<Rightarrow> (Ret (), SetBaseFee (Some baseFee) s)
    | Err e \<Rightarrow> (Err e, s)
    | Panic p \<Rightarrow> (Panic p, s))"

definition fm_EndBlock :: "fm_keeper \<Rightarrow> fm_block \<Rightarrow> unit fm_go" where
  "fm_EndBlock K b = (\<lambda>s.
    case blockGasConsumedToLimit b of
      None \<Rightarrow> (Err ''block gas meter is nil when setting block gas wanted'', s)
    | Some used \<Rightarrow>
       let gasWanted = uint (GetTransientGasWanted s); gasUsed = uint used
       in if \<not> gasWanted < 2 ^ 63 then (Err ''integer overflow by integer type conversion. Gas wanted > MaxInt64'', s)
          else if \<not> gasUsed < 2 ^ 63 then (Err ''integer overflow by integer type conversion. Gas used > MaxInt64'', s)
          else case MinGasMultiplier (fm_GetParams s) of
            None \<Rightarrow> (Panic ''nil pointer dereference'', s)
          | Some minGasMultiplier \<Rightarrow>
             let limitedGasWanted = Dec_Mul (fmDec K) (Dec_FromInt (fmDec K) gasWanted) minGasMultiplier;
                 updatedGasWanted = Dec_TruncateInt (fmDec K) (max limitedGasWanted (Dec_FromInt (fmDec K) gasUsed))
             in if \<not> (0 \<le> updatedGasWanted \<and> updatedGasWanted < 2 ^ 64) then (Panic ''Uint64() out of bounds'', s)
                else (Ret (), SetBlockGasWanted (word_of_int updatedGasWanted) s))"

text \<open>\<open>CalcBaseFee\<close> of \<open>utils.go\<close>, for a header; \<open>parentLondon\<close> is whether the parent block is a London block.\<close>

definition CalcBaseFee :: "dec_api \<Rightarrow> int \<Rightarrow> bool \<Rightarrow> u64 \<Rightarrow> u64 \<Rightarrow> int \<Rightarrow> fm_Params \<Rightarrow> (string, int) outcome" where
  "CalcBaseFee D factor parentLondon parentGasLimit parentGasUsed parentBaseFee p =
    (if \<not> parentLondon then Ret 1000000000
     else if ElasticityMultiplier p = 0 then Err ''ElasticityMultiplier cannot be 0''
     else case MinGasPrice p of
       None \<Rightarrow> Panic ''nil pointer dereference''
     | Some mgp \<Rightarrow>
        if BaseFeeChangeDenominator p = 0 then Panic ''division by zero''
        else
          let parentGasTarget = parentGasLimit div ucast (ElasticityMultiplier p);
              minGasPrice = Dec_Mul D mgp (Dec_FromInt D factor)
          in Ret (Dec_TruncateInt D (CalcGasBaseFee D parentGasUsed parentGasTarget
                (ucast (BaseFeeChangeDenominator p)) (Dec_FromInt D parentBaseFee) decOne minGasPrice)))"

section \<open>Genesis, queries and the wrapper\<close>

record fm_GenesisState =
  gs_Params :: fm_Params
  gs_BlockGas :: u64

definition fm_InitGenesis :: "fm_GenesisState \<Rightarrow> fm_ctx \<Rightarrow> fm_ctx" where
  "fm_InitGenesis data s = SetBlockGasWanted (gs_BlockGas data) (fm_SetParams (gs_Params data) s)"

definition fm_ExportGenesis :: "fm_ctx \<Rightarrow> fm_GenesisState" where
  "fm_ExportGenesis s = \<lparr>gs_Params = fm_GetParams s, gs_BlockGas = GetBlockGasWanted s\<rparr>"

definition BlockGas :: "fm_ctx \<Rightarrow> (string, int) outcome" where
  "BlockGas s =
    (let gas = uint (GetBlockGasWanted s)
     in if \<not> gas < 2 ^ 63 then Err ''block gas is higher than MaxInt64'' else Ret gas)"

definition ConvertAmountTo18DecimalsLegacy :: "fm_keeper \<Rightarrow> LegacyDec \<Rightarrow> LegacyDec" where
  "ConvertAmountTo18DecimalsLegacy K amt = Dec_MulInt (fmDec K) amt (fmFactor K)"

definition fw_GetBaseFee :: "fm_keeper \<Rightarrow> fm_ctx \<Rightarrow> int option" where
  "fw_GetBaseFee K s =
    (case fm_GetBaseFee s of
       None \<Rightarrow> None
     | Some baseFee \<Rightarrow> Some (Dec_TruncateInt (fmDec K) (ConvertAmountTo18DecimalsLegacy K baseFee)))"

definition fw_CalculateBaseFee :: "fm_keeper \<Rightarrow> fm_block \<Rightarrow> fm_ctx \<Rightarrow> (string, int option) outcome" where
  "fw_CalculateBaseFee K b s =
    (case CalculateBaseFee K b s of
       Ret None \<Rightarrow> Ret None
     | Ret (Some baseFee) \<Rightarrow> Ret (Some (Dec_TruncateInt (fmDec K) (ConvertAmountTo18DecimalsLegacy K baseFee)))
     | Err e \<Rightarrow> Err e
     | Panic p \<Rightarrow> Panic p)"

definition fw_GetParams :: "fm_keeper \<Rightarrow> fm_ctx \<Rightarrow> fm_Params" where
  "fw_GetParams K s =
    (let params = fm_GetParams s;
         params1 = (case fm_BaseFee params of
             None \<Rightarrow> params
           | Some f \<Rightarrow> params\<lparr>fm_BaseFee := Some (ConvertAmountTo18DecimalsLegacy K f)\<rparr>)
     in params1\<lparr>MinGasPrice := map_option (ConvertAmountTo18DecimalsLegacy K) (MinGasPrice params1)\<rparr>)"

end
