(* ===== verification/VmParams.thy ===== *)
theory VmParams
  imports EvmPrelude "HOL-Library.Char_ord"
begin

text \<open>
  The parameters of the EVM module and what they control: \<open>x/vm/types/params.go\<close>,
  \<open>x/vm/keeper/params.go\<close>, the access control of \<open>x/vm/types/permissions.go\<close>, the opcode hooks of
  \<open>x/vm/types/opcodes_hooks.go\<close>, the static precompiles of \<open>x/vm/keeper/static_precompiles.go\<close> and
  \<open>precompiles.go\<close>, and \<open>UpdateParams\<close> of \<open>x/vm/keeper/msg_server.go\<close>.

  The store of the parameters is a \<open>vm_Params option\<close>.  What go-ethereum and ibc-go provide is the
  record \<open>vm_api\<close>: the printed form of an address, the test and the parser for hex addresses, the
  activateable EIPs, the channel identifier test and the precompiles of the Prague fork.
\<close>

section \<open>Parameters\<close>

record vm_api =
  AddressString :: "Address \<Rightarrow> string"
  IsHexAddress :: "string \<Rightarrow> bool"
  HexToAddress :: "string \<Rightarrow> Address"
  ValidEip :: "int \<Rightarrow> bool"
  ChannelIdentifierOk :: "string \<Rightarrow> bool"
  PrecompiledAddressesPrague :: "Address list"

text \<open>The printed form of an address is a hex address that parses to the address.\<close>

definition address_contract :: "vm_api \<Rightarrow> bool" where
  "address_contract A \<longleftrightarrow> (\<forall>a. IsHexAddress A (AddressString A a) \<and> HexToAddress A (AddressString A a) = a)"

datatype AccessType = AccessTypePermissionless | AccessTypeRestricted | AccessTypePermissioned | AccessTypeOther int

record AccessControlType =
  act_AccessType :: AccessType
  act_AccessControlList :: "string list"

record AccessControl =
  ac_Create :: AccessControlType
  ac_Call :: AccessControlType

record vm_Params =
  vp_EvmDenom :: denom
  vp_ExtraEIPs :: "int list"
  vp_EVMChannels :: "string list"
  vp_AccessControl :: AccessControl
  vp_ActiveStaticPrecompiles :: "string list"
  vp_HistoryServeWindow :: u64

definition DefaultHistoryServeWindow :: u64 where
  "DefaultHistoryServeWindow = 8192"

definition vm_DefaultParams :: vm_Params where
  "vm_DefaultParams =
    \<lparr>vp_EvmDenom = ''atest'', vp_ExtraEIPs = [], vp_EVMChannels = [],
     vp_AccessControl = \<lparr>ac_Create = \<lparr>act_AccessType = AccessTypePermissionless, act_AccessControlList = []\<rparr>,
       ac_Call = \<lparr>act_AccessType = AccessTypePermissionless, act_AccessControlList = []\<rparr>\<rparr>,
     vp_ActiveStaticPrecompiles = [], vp_HistoryServeWindow = DefaultHistoryServeWindow\<rparr>"

text \<open>The zero value of the Go struct, which \<open>GetParams\<close> returns when nothing is stored.\<close>

definition vm_ZeroParams :: vm_Params where
  "vm_ZeroParams = vm_DefaultParams\<lparr>vp_EvmDenom := [], vp_HistoryServeWindow := 0\<rparr>"

subsection \<open>Validation\<close>

fun validateEIPs :: "vm_api \<Rightarrow> int set \<Rightarrow> int list \<Rightarrow> string option" where
  "validateEIPs A uniqueEIPs [] = None"
| "validateEIPs A uniqueEIPs (eip # eips) =
    (if \<not> ValidEip A eip then Some ''EIP is not activateable''
     else if eip \<in> uniqueEIPs then Some ''found duplicate EIP''
     else validateEIPs A (insert eip uniqueEIPs) eips)"

fun validatePrecompileEntries :: "vm_api \<Rightarrow> string set \<Rightarrow> string list \<Rightarrow> string option" where
  "validatePrecompileEntries A seenPrecompiles [] = None"
| "validatePrecompileEntries A seenPrecompiles (precompile # precompiles) =
    (if precompile \<in> seenPrecompiles then Some ''duplicate precompile''
     else if \<not> IsHexAddress A precompile then Some ''invalid precompile''
     else validatePrecompileEntries A (insert precompile seenPrecompiles) precompiles)"

definition ValidatePrecompiles :: "vm_api \<Rightarrow> string list \<Rightarrow> string option" where
  "ValidatePrecompiles A precompiles =
    (case validatePrecompileEntries A {} precompiles of
       Some e \<Rightarrow> Some e
     | None \<Rightarrow> if \<not> sorted precompiles then Some ''precompiles need to be sorted'' else None)"

definition validateAccessType :: "AccessType \<Rightarrow> string option" where
  "validateAccessType accessType =
    (case accessType of
       AccessTypePermissionless \<Rightarrow> None
     | AccessTypeRestricted \<Rightarrow> None
     | AccessTypePermissioned \<Rightarrow> None
     | AccessTypeOther _ \<Rightarrow> Some ''invalid access type'')"

fun validateAllowlistAddresses :: "vm_api \<Rightarrow> string list \<Rightarrow> string option" where
  "validateAllowlistAddresses A [] = None"
| "validateAllowlistAddresses A (address # addresses) =
    (if \<not> IsHexAddress A address then Some ''invalid whitelist address'' else validateAllowlistAddresses A addresses)"

definition AccessControlType_Validate :: "vm_api \<Rightarrow> AccessControlType \<Rightarrow> string option" where
  "AccessControlType_Validate A act =
    (case validateAccessType (act_AccessType act) of
       Some e \<Rightarrow> Some e
     | None \<Rightarrow> validateAllowlistAddresses A (act_AccessControlList act))"

definition AccessControl_Validate :: "vm_api \<Rightarrow> AccessControl \<Rightarrow> string option" where
  "AccessControl_Validate A ac =
    (case AccessControlType_Validate A (ac_Create ac) of
       Some e \<Rightarrow> Some e
     | None \<Rightarrow> AccessControlType_Validate A (ac_Call ac))"

fun validateChannels :: "vm_api \<Rightarrow> string list \<Rightarrow> string option" where
  "validateChannels A [] = None"
| "validateChannels A (channel # channels) =
    (if \<not> ChannelIdentifierOk A channel then Some ''invalid channel identifier'' else validateChannels A channels)"

definition vm_Params_Validate :: "vm_api \<Rightarrow> vm_Params \<Rightarrow> string option" where
  "vm_Params_Validate A p =
    (case validateEIPs A {} (vp_ExtraEIPs p) of
       Some e \<Rightarrow> Some e
     | None \<Rightarrow> (case ValidatePrecompiles A (vp_ActiveStaticPrecompiles p) of
         Some e \<Rightarrow> Some e
       | None \<Rightarrow> (case AccessControl_Validate A (vp_AccessControl p) of
           Some e \<Rightarrow> Some e
         | None \<Rightarrow> validateChannels A (vp_EVMChannels p))))"

definition GetActiveStaticPrecompilesAddrs :: "vm_api \<Rightarrow> vm_Params \<Rightarrow> Address list" where
  "GetActiveStaticPrecompilesAddrs A p = map (HexToAddress A) (vp_ActiveStaticPrecompiles p)"

definition IsEVMChannel :: "vm_Params \<Rightarrow> string \<Rightarrow> bool" where
  "IsEVMChannel p channel \<longleftrightarrow> channel \<in> set (vp_EVMChannels p)"

subsection \<open>The keeper\<close>

type_synonym 'a vp_go = "(vm_Params option, string, 'a) go"

definition vm_GetParams :: "vm_Params option \<Rightarrow> vm_Params" where
  "vm_GetParams st = (case st of None \<Rightarrow> vm_ZeroParams | Some p \<Rightarrow> p)"

definition vm_SetParams :: "vm_api \<Rightarrow> vm_Params \<Rightarrow> unit vp_go" where
  "vm_SetParams A params =
    (let params = params\<lparr>vp_ActiveStaticPrecompiles := sort (vp_ActiveStaticPrecompiles params)\<rparr>
     in case vm_Params_Validate A params of
          Some e \<Rightarrow> go_err e
        | None \<Rightarrow> go_modify (\<lambda>_. Some params))"

fun hexAddresses :: "vm_api \<Rightarrow> string list \<Rightarrow> Address list \<Rightarrow> string + string list" where
  "hexAddresses A existingPrecompiles [] = Inr []"
| "hexAddresses A existingPrecompiles (address # addresses) =
    (let addrHex = AddressString A address
     in if addrHex \<in> set existingPrecompiles then Inl ''precompile already registered''
        else case hexAddresses A existingPrecompiles addresses of
          Inl e \<Rightarrow> Inl e
        | Inr hs \<Rightarrow> Inr (addrHex # hs))"

definition appendPrecompiles :: "vm_api \<Rightarrow> string list \<Rightarrow> Address list \<Rightarrow> string + string list" where
  "appendPrecompiles A existingPrecompiles addresses =
    (case hexAddresses A existingPrecompiles addresses of
       Inl e \<Rightarrow> Inl e
     | Inr hs \<Rightarrow> Inr (sort (existingPrecompiles @ hs)))"

definition EnableStaticPrecompiles :: "vm_api \<Rightarrow> Address list \<Rightarrow> unit vp_go" where
  "EnableStaticPrecompiles A addresses =
    go_bind (go_gets vm_GetParams) (\<lambda>params.
      case appendPrecompiles A (vp_ActiveStaticPrecompiles params) addresses of
        Inl e \<Rightarrow> go_err e
      | Inr updatedPrecompiles \<Rightarrow> vm_SetParams A (params\<lparr>vp_ActiveStaticPrecompiles := updatedPrecompiles\<rparr>))"

definition EnableEIPs :: "vm_api \<Rightarrow> int list \<Rightarrow> unit vp_go" where
  "EnableEIPs A eips =
    go_bind (go_gets vm_GetParams) (\<lambda>evmParams.
      vm_SetParams A (evmParams\<lparr>vp_ExtraEIPs := sort (vp_ExtraEIPs evmParams @ eips)\<rparr>))"

definition vm_UpdateParams :: "vm_api \<Rightarrow> string \<Rightarrow> string \<Rightarrow> vm_Params \<Rightarrow> unit vp_go" where
  "vm_UpdateParams A keeperAuthority authority params =
    (if keeperAuthority \<noteq> authority then go_err ''invalid authority'' else vm_SetParams A params)"

section \<open>Static precompiles\<close>

definition WithStaticPrecompiles :: "(Address, 'pc) fmap \<Rightarrow> (Address, 'pc) fmap option \<Rightarrow> (string, (Address, 'pc) fmap) outcome" where
  "WithStaticPrecompiles precompiles current =
    (if current \<noteq> None then Panic ''available precompiles map already set''
     else if fmdom precompiles = {||} then Panic ''empty precompiled contract map''
     else Ret precompiles)"

definition IsAvailableStaticPrecompile :: "vm_api \<Rightarrow> vm_Params \<Rightarrow> Address \<Rightarrow> bool" where
  "IsAvailableStaticPrecompile A params address \<longleftrightarrow>
    AddressString A address \<in> set (vp_ActiveStaticPrecompiles params) \<or> address \<in> set (PrecompiledAddressesPrague A)"

definition GetStaticPrecompileInstance ::
    "vm_api \<Rightarrow> (Address, 'pc) fmap \<Rightarrow> vm_Params \<Rightarrow> Address \<Rightarrow> (string, 'pc option) outcome" where
  "GetStaticPrecompileInstance A precompiles params address =
    (if IsAvailableStaticPrecompile A params address
     then (case fmlookup precompiles address of
             None \<Rightarrow> Panic ''precompiled contract not stored in memory''
           | Some pc \<Rightarrow> Ret (Some pc))
     else Ret None)"

text \<open>
  \<open>GetPrecompileInstance\<close>; the dynamic precompiles of the ERC-20 module are the parameter \<open>erc20\<close>,
  and \<open>pcAddress\<close> is the \<open>Address\<close> method of a precompile.
\<close>

record 'pc Precompiles =
  pcs_Map :: "(Address, 'pc) fmap"
  pcs_Addresses :: "Address list"

definition GetPrecompileInstance ::
    "vm_api \<Rightarrow> (Address, 'pc) fmap \<Rightarrow> (Address \<Rightarrow> (string, 'pc option) outcome) \<Rightarrow> ('pc \<Rightarrow> Address) \<Rightarrow>
     vm_Params option \<Rightarrow> Address \<Rightarrow> (string, 'pc Precompiles option) outcome" where
  "GetPrecompileInstance A precompiles erc20 pcAddress st address =
    (let wrap = (\<lambda>pc. \<lparr>pcs_Map = fmupd address pc fmempty, pcs_Addresses = [pcAddress pc]\<rparr>)
     in case GetStaticPrecompileInstance A precompiles (vm_GetParams st) address of
          Panic p \<Rightarrow> Panic p
        | Err e \<Rightarrow> Err e
        | Ret (Some pc) \<Rightarrow> Ret (Some (wrap pc))
        | Ret None \<Rightarrow> (case erc20 address of
            Panic p \<Rightarrow> Panic p
          | Err e \<Rightarrow> Err e
          | Ret None \<Rightarrow> Ret None
          | Ret (Some pc) \<Rightarrow> Ret (Some (wrap pc))))"

section \<open>Access control\<close>

definition permissionlessCheckFn :: "vm_api \<Rightarrow> string list \<Rightarrow> Address \<Rightarrow> Address \<Rightarrow> bool" where
  "permissionlessCheckFn A addresses signer caller =
    (let isSignerBlocked = (AddressString A signer \<notin> set addresses)
     in isSignerBlocked \<and> AddressString A caller \<notin> set addresses)"

definition permissionedCheckFn :: "vm_api \<Rightarrow> string list \<Rightarrow> Address \<Rightarrow> Address \<Rightarrow> bool" where
  "permissionedCheckFn A addresses signer caller =
    (let isSignerAllowed = (AddressString A signer \<in> set addresses)
     in isSignerAllowed \<or> AddressString A caller \<in> set addresses)"

definition getCanCreateFn :: "vm_api \<Rightarrow> AccessControl \<Rightarrow> Address \<Rightarrow> Address \<Rightarrow> bool" where
  "getCanCreateFn A accessControl signer =
    (let addresses = act_AccessControlList (ac_Create accessControl)
     in case act_AccessType (ac_Create accessControl) of
          AccessTypePermissionless \<Rightarrow> permissionlessCheckFn A addresses signer
        | AccessTypeRestricted \<Rightarrow> (\<lambda>_. False)
        | AccessTypePermissioned \<Rightarrow> permissionedCheckFn A addresses signer
        | AccessTypeOther _ \<Rightarrow> (\<lambda>_. False))"

definition getCanCallFn :: "vm_api \<Rightarrow> AccessControl \<Rightarrow> Address \<Rightarrow> Address \<Rightarrow> bool" where
  "getCanCallFn A accessControl signer =
    (let addresses = act_AccessControlList (ac_Call accessControl)
     in case act_AccessType (ac_Call accessControl) of
          AccessTypePermissionless \<Rightarrow> permissionlessCheckFn A addresses signer
        | AccessTypeRestricted \<Rightarrow> (\<lambda>_. False)
        | AccessTypePermissioned \<Rightarrow> permissionedCheckFn A addresses signer
        | AccessTypeOther _ \<Rightarrow> (\<lambda>_. False))"

record RestrictedPermissionPolicy =
  canCreate :: "Address \<Rightarrow> bool"
  canCall :: "Address \<Rightarrow> bool"

definition NewRestrictedPermissionPolicy :: "vm_api \<Rightarrow> AccessControl \<Rightarrow> Address \<Rightarrow> RestrictedPermissionPolicy" where
  "NewRestrictedPermissionPolicy A accessControl signer =
    \<lparr>canCreate = getCanCreateFn A accessControl signer, canCall = getCanCallFn A accessControl signer\<rparr>"

definition CanCreate :: "RestrictedPermissionPolicy \<Rightarrow> Address \<Rightarrow> bool" where
  "CanCreate p caller = canCreate p caller"

definition CanCall :: "RestrictedPermissionPolicy \<Rightarrow> Address \<Rightarrow> Address \<Rightarrow> bool" where
  "CanCall p caller recipient = canCall p caller"

text \<open>The opcode hooks run in order on the EVM; the first error stops them.\<close>

type_synonym 'evm CreateHook = "Address \<Rightarrow> ('evm, string, unit) go"
type_synonym 'evm CallHook = "Address \<Rightarrow> Address \<Rightarrow> ('evm, string, unit) go"

record 'evm DefaultOpCodesHooks =
  callHooks :: "'evm CallHook list"
  createHooks :: "'evm CreateHook list"

definition NewDefaultOpCodesHooks :: "'evm DefaultOpCodesHooks" where
  "NewDefaultOpCodesHooks = \<lparr>callHooks = [], createHooks = []\<rparr>"

definition AddCallHooks :: "'evm CallHook list \<Rightarrow> 'evm DefaultOpCodesHooks \<Rightarrow> 'evm DefaultOpCodesHooks" where
  "AddCallHooks hooks h = h\<lparr>callHooks := callHooks h @ hooks\<rparr>"

definition AddCreateHooks :: "'evm CreateHook list \<Rightarrow> 'evm DefaultOpCodesHooks \<Rightarrow> 'evm DefaultOpCodesHooks" where
  "AddCreateHooks hooks h = h\<lparr>createHooks := createHooks h @ hooks\<rparr>"

definition runCreateHook :: "'evm DefaultOpCodesHooks \<Rightarrow> Address \<Rightarrow> ('evm, string, unit) go" where
  "runCreateHook h caller = go_for (createHooks h) (\<lambda>hook. hook caller)"

definition runCallHook :: "'evm DefaultOpCodesHooks \<Rightarrow> Address \<Rightarrow> Address \<Rightarrow> ('evm, string, unit) go" where
  "runCallHook h caller recipient = go_for (callHooks h) (\<lambda>hook. hook caller recipient)"

definition GetCallHook :: "RestrictedPermissionPolicy \<Rightarrow> 'evm CallHook" where
  "GetCallHook p caller recipient =
    (if CanCall p caller recipient then go_return ()
     else go_err ''caller address does not have permission to perform a call'')"

definition GetCreateHook :: "RestrictedPermissionPolicy \<Rightarrow> 'evm CreateHook" where
  "GetCreateHook p caller =
    (if CanCreate p caller then go_return ()
     else go_err ''caller address does not have permission to deploy contracts'')"

text \<open>
  \<open>GetPrecompilesCallHook\<close>: the EVM gets the precompile of the recipient and the recipient becomes
  warm.  \<open>withPrecompiles\<close> and \<open>warm\<close> are the operations of the EVM object.
\<close>

definition GetPrecompilesCallHook ::
    "vm_api \<Rightarrow> (Address, 'pc) fmap \<Rightarrow> (Address \<Rightarrow> (string, 'pc option) outcome) \<Rightarrow> ('pc \<Rightarrow> Address) \<Rightarrow> vm_Params option \<Rightarrow>
     ((Address, 'pc) fmap \<Rightarrow> 'evm \<Rightarrow> 'evm) \<Rightarrow> (Address \<Rightarrow> 'evm \<Rightarrow> 'evm) \<Rightarrow> 'evm CallHook" where
  "GetPrecompilesCallHook A precompiles erc20 pcAddress st withPrecompiles warm caller recipient =
    (case GetPrecompileInstance A precompiles erc20 pcAddress st recipient of
       Panic p \<Rightarrow> go_panic p
     | Err e \<Rightarrow> go_err e
     | Ret None \<Rightarrow> go_return ()
     | Ret (Some pcs) \<Rightarrow> go_modify (\<lambda>evm. warm recipient (withPrecompiles (pcs_Map pcs) evm)))"

text \<open>The hooks \<open>NewEVM\<close> installs for a message.\<close>

definition evmHooks ::
    "vm_api \<Rightarrow> AccessControl \<Rightarrow> Address \<Rightarrow> 'evm CallHook \<Rightarrow> 'evm DefaultOpCodesHooks" where
  "evmHooks A accessControl signer precompilesHook =
    (let policy = NewRestrictedPermissionPolicy A accessControl signer
     in AddCallHooks [GetCallHook policy, precompilesHook]
          (AddCreateHooks [GetCreateHook policy] NewDefaultOpCodesHooks))"

section \<open>Validation, as conditions\<close>

lemma validateEIPs_iff:
  "validateEIPs A S eips = None \<longleftrightarrow> (\<forall>e\<in>set eips. ValidEip A e) \<and> distinct eips \<and> set eips \<inter> S = {}"
  by (induction A S eips rule: validateEIPs.induct) auto

lemma validatePrecompileEntries_iff:
  "validatePrecompileEntries A S ps = None \<longleftrightarrow> (\<forall>p\<in>set ps. IsHexAddress A p) \<and> distinct ps \<and> set ps \<inter> S = {}"
  by (induction A S ps rule: validatePrecompileEntries.induct) auto

lemma ValidatePrecompiles_iff:
  "ValidatePrecompiles A ps = None \<longleftrightarrow> (\<forall>p\<in>set ps. IsHexAddress A p) \<and> distinct ps \<and> sorted ps"
  by (simp add: ValidatePrecompiles_def validatePrecompileEntries_iff split: option.split)
     (metis inf_bot_right validatePrecompileEntries_iff option.distinct(1))

lemma validateAllowlistAddresses_iff: "validateAllowlistAddresses A as = None \<longleftrightarrow> (\<forall>a\<in>set as. IsHexAddress A a)"
  by (induction "as") auto

lemma vm_Params_Validate_iff:
  "vm_Params_Validate A p = None \<longleftrightarrow> validateEIPs A {} (vp_ExtraEIPs p) = None \<and>
     ValidatePrecompiles A (vp_ActiveStaticPrecompiles p) = None \<and>
     AccessControl_Validate A (vp_AccessControl p) = None \<and> validateChannels A (vp_EVMChannels p) = None"
  by (simp add: vm_Params_Validate_def split: option.split)

lemma ZeroParams_valid: "vm_Params_Validate A vm_ZeroParams = None"
  by (simp add: vm_Params_Validate_iff ValidatePrecompiles_iff vm_ZeroParams_def vm_DefaultParams_def
      AccessControl_Validate_def AccessControlType_Validate_def validateAccessType_def)

lemma vm_SetParams_cases:
  obtains e where "vm_SetParams A p st = (Err e, st)"
    "vm_Params_Validate A (p\<lparr>vp_ActiveStaticPrecompiles := sort (vp_ActiveStaticPrecompiles p)\<rparr>) \<noteq> None"
  | "vm_SetParams A p st = (Ret (), Some (p\<lparr>vp_ActiveStaticPrecompiles := sort (vp_ActiveStaticPrecompiles p)\<rparr>))"
    "vm_Params_Validate A (p\<lparr>vp_ActiveStaticPrecompiles := sort (vp_ActiveStaticPrecompiles p)\<rparr>) = None"
  by (cases "vm_Params_Validate A (p\<lparr>vp_ActiveStaticPrecompiles := sort (vp_ActiveStaticPrecompiles p)\<rparr>)")
     (simp_all add: vm_SetParams_def Let_def)

lemma vm_SetParams_valid:
  "vm_Params_Validate A (vm_GetParams st) = None \<Longrightarrow> vm_Params_Validate A (vm_GetParams (snd (vm_SetParams A p st))) = None"
  by (rule vm_SetParams_cases [of A p st]) (simp_all add: vm_GetParams_def)

lemma hexAddresses_eq:
  "hexAddresses A ps as =
    (if \<exists>a\<in>set as. AddressString A a \<in> set ps then Inl ''precompile already registered'' else Inr (map (AddressString A) as))"
  by (induction "as") (simp_all add: Let_def)

lemma AddressString_inj: "address_contract A \<Longrightarrow> AddressString A a = AddressString A b \<longleftrightarrow> a = b"
  by (metis address_contract_def)

section \<open>The parameters over time\<close>

text \<open>Governance updates and the two setters of upgrade handlers, failing or not.\<close>

inductive vp_reach :: "vm_api \<Rightarrow> string \<Rightarrow> vm_Params option \<Rightarrow> bool" for A authority where
  vp_start: "vp_reach A authority None"
| vp_update: "vp_reach A authority st \<Longrightarrow> vp_reach A authority (snd (vm_UpdateParams A authority sender p st))"
| vp_precompiles: "vp_reach A authority st \<Longrightarrow> vp_reach A authority (snd (EnableStaticPrecompiles A addresses st))"
| vp_eips: "vp_reach A authority st \<Longrightarrow> vp_reach A authority (snd (EnableEIPs A eips st))"

lemma vp_reach_valid: "vp_reach A authority st \<Longrightarrow> vm_Params_Validate A (vm_GetParams st) = None"
proof (induction rule: vp_reach.induct)
  case vp_start
  then show ?case by (simp add: vm_GetParams_def ZeroParams_valid)
next
  case (vp_update st sender p)
  then show ?case by (simp add: vm_UpdateParams_def vm_SetParams_valid)
next
  case (vp_precompiles st addresses)
  then show ?case
    by (simp add: EnableStaticPrecompiles_def go_defs vm_SetParams_valid split: sum.split)
next
  case (vp_eips st eips)
  then show ?case by (simp add: EnableEIPs_def go_defs vm_SetParams_valid)
qed

section \<open>The access control policy\<close>

text \<open>What a policy promises, on the addresses its list names.\<close>

definition permitted :: "vm_api \<Rightarrow> AccessControlType \<Rightarrow> Address \<Rightarrow> Address \<Rightarrow> bool" where
  "permitted A act signer caller =
    (let listed = HexToAddress A ` set (act_AccessControlList act)
     in case act_AccessType act of
          AccessTypePermissionless \<Rightarrow> signer \<notin> listed \<and> caller \<notin> listed
        | AccessTypeRestricted \<Rightarrow> False
        | AccessTypePermissioned \<Rightarrow> signer \<in> listed \<or> caller \<in> listed
        | AccessTypeOther _ \<Rightarrow> False)"

text \<open>Every entry of the list is the printed form of its address.\<close>

definition canonicalList :: "vm_api \<Rightarrow> AccessControlType \<Rightarrow> bool" where
  "canonicalList A act \<longleftrightarrow> (\<forall>e\<in>set (act_AccessControlList act). AddressString A (HexToAddress A e) = e)"

lemma canonical_member:
  assumes "address_contract A" "canonicalList A act"
  shows "AddressString A a \<in> set (act_AccessControlList act) \<longleftrightarrow> a \<in> HexToAddress A ` set (act_AccessControlList act)"
  using assms by (auto simp: canonicalList_def address_contract_def intro!: rev_image_eqI)

lemma getCanFn_permitted:
  assumes "address_contract A"
  shows "canonicalList A (ac_Call ac) \<Longrightarrow> getCanCallFn A ac signer caller = permitted A (ac_Call ac) signer caller"
    "canonicalList A (ac_Create ac) \<Longrightarrow> getCanCreateFn A ac signer caller = permitted A (ac_Create ac) signer caller"
  using canonical_member [OF assms]
  by (simp_all add: getCanCallFn_def getCanCreateFn_def permitted_def permissionlessCheckFn_def permissionedCheckFn_def Let_def
      split: AccessType.split)

lemma evmHooks_run:
  "runCallHook (evmHooks A ac signer pre) caller recipient evm =
    (if getCanCallFn A ac signer caller then pre caller recipient evm
     else (Err ''caller address does not have permission to perform a call'', evm))"
  "runCreateHook (evmHooks A ac signer pre) caller evm =
    (if getCanCreateFn A ac signer caller then (Ret (), evm)
     else (Err ''caller address does not have permission to deploy contracts'', evm))"
  by (simp_all add: evmHooks_def runCallHook_def runCreateHook_def AddCallHooks_def AddCreateHooks_def GetCallHook_def
      GetCreateHook_def NewDefaultOpCodesHooks_def NewRestrictedPermissionPolicy_def CanCall_def CanCreate_def Let_def)
     (simp add: go_defs split: prod.split outcome.split)

section \<open>Hex addresses, an instance of the interface\<close>

definition hexDigits :: string where
  "hexDigits = ''0123456789abcdef''"

definition hexValue :: "char \<Rightarrow> nat" where
  "hexValue c = (let n = of_char c :: nat in if n \<ge> 97 then n - 87 else if n \<ge> 65 then n - 55 else n - 48)"

fun hexPrint :: "nat \<Rightarrow> nat \<Rightarrow> string" where
  "hexPrint 0 m = []"
| "hexPrint (Suc n) m = hexPrint n (m div 16) @ [hexDigits ! (m mod 16)]"

definition hexParse :: "string \<Rightarrow> nat" where
  "hexParse cs = foldl (\<lambda>acc c. acc * 16 + hexValue c) 0 cs"

definition hexApi :: vm_api where
  "hexApi = \<lparr>AddressString = (\<lambda>a. ''0x'' @ hexPrint 40 (unat a)),
     IsHexAddress = (\<lambda>s. length s = 42 \<and> take 2 s = ''0x'' \<and>
       list_all (\<lambda>c. c \<in> set hexDigits \<union> set ''ABCDEF'') (drop 2 s)),
     HexToAddress = (\<lambda>s. of_nat (hexParse (drop 2 s))),
     ValidEip = (\<lambda>e. e \<in> {1153, 1344, 1884, 2200, 2929, 3198, 3529, 3855, 3860, 4762, 5656, 6780, 7702}),
     ChannelIdentifierOk = (\<lambda>c. take 8 c = ''channel-''), PrecompiledAddressesPrague = [1, 2, 3, 4, 5, 6, 7, 8, 9, 10, 11, 12, 13, 14, 15, 16, 17]\<rparr>"

lemma hexDigits_value: "n < 16 \<Longrightarrow> hexValue (hexDigits ! n) = n" "n < 16 \<Longrightarrow> hexDigits ! n \<in> set hexDigits"
proof -
  have "\<forall>n\<in>set [0..<16]. hexValue (hexDigits ! n) = n" by code_simp
  then show "n < 16 \<Longrightarrow> hexValue (hexDigits ! n) = n" by simp
  show "n < 16 \<Longrightarrow> hexDigits ! n \<in> set hexDigits" by (rule nth_mem) (simp add: hexDigits_def)
qed

lemma hexPrint_props: "length (hexPrint n m) = n" "set (hexPrint n m) \<subseteq> set hexDigits"
  by (induction n arbitrary: m) (auto simp: hexDigits_value(2))

lemma hexParse_hexPrint: "hexParse (hexPrint n m) = m mod 16 ^ n"
proof (induction n arbitrary: m)
  case (Suc n)
  have "hexParse (hexPrint (Suc n) m) = (m div 16) mod 16 ^ n * 16 + m mod 16"
    using Suc.IH [of "m div 16"] by (simp add: hexParse_def hexDigits_value(1))
  also have "\<dots> = m mod 16 ^ Suc n" by (simp add: mod_mult2_eq mult.commute)
  finally show ?case .
qed (simp add: hexParse_def)

lemma hexApi_contract: "address_contract hexApi"
proof -
  have "unat a mod 16 ^ 40 = unat a" for a :: Address
    using unsigned_less [of a, where 'a = nat] by simp
  then show ?thesis
    using hexPrint_props(2) [of 40] by (auto simp: address_contract_def hexApi_def hexPrint_props(1) hexParse_hexPrint list_all_iff)
qed

lemma upper_not_printed: "CHR ''A'' \<in> set e \<Longrightarrow> AddressString hexApi a \<noteq> e"
proof -
  have "AddressString hexApi a = CHR ''0'' # CHR ''x'' # hexPrint 40 (unat a)" by (simp add: hexApi_def del: hexPrint.simps)
  moreover have "CHR ''A'' \<notin> set hexDigits" by (simp add: hexDigits_def)
  moreover have "CHR ''A'' \<noteq> CHR ''0''" "CHR ''A'' \<noteq> CHR ''x''" by simp_all
  ultimately show "CHR ''A'' \<in> set e \<Longrightarrow> AddressString hexApi a \<noteq> e"
    using hexPrint_props(2) [of 40 "unat a"] by (metis in_mono set_ConsD)
qed

section \<open>Properties\<close>

text \<open>
  C18.  Whatever updates and upgrades happen and whether they succeed or not, the stored
  parameters pass validation: the active precompiles are valid, sorted and free of duplicates,
  and the extra EIPs are activateable and free of duplicates.
\<close>

theorem params_always_valid:
  assumes "vp_reach A authority st"
  shows "vm_Params_Validate A (vm_GetParams st) = None \<and>
    sorted (vp_ActiveStaticPrecompiles (vm_GetParams st)) \<and> distinct (vp_ActiveStaticPrecompiles (vm_GetParams st)) \<and>
    (\<forall>p\<in>set (vp_ActiveStaticPrecompiles (vm_GetParams st)). IsHexAddress A p) \<and>
    (\<forall>e\<in>set (vp_ExtraEIPs (vm_GetParams st)). ValidEip A e) \<and> distinct (vp_ExtraEIPs (vm_GetParams st))"
  using vp_reach_valid [OF assms] by (simp add: vm_Params_Validate_iff ValidatePrecompiles_iff validateEIPs_iff)

theorem params_always_valid_witness:
  "let st = snd (EnableEIPs hexApi [3855] (snd (EnableStaticPrecompiles hexApi [2049, 2048] None)))
   in sorted (vp_ActiveStaticPrecompiles (vm_GetParams st)) \<and> distinct (vp_ExtraEIPs (vm_GetParams st))"
proof -
  have "vp_reach hexApi ''gov'' (snd (EnableEIPs hexApi [3855] (snd (EnableStaticPrecompiles hexApi [2049, 2048] None))))"
    by (intro vp_reach.intros)
  from params_always_valid [OF this] show ?thesis by simp
qed

text \<open>
  C19.  \<open>EnableStaticPrecompiles\<close> on valid parameters succeeds exactly when the given addresses are
  distinct and none is registered; then exactly they become available in addition and no other
  parameter changes.  Otherwise the store is left alone.
\<close>

theorem EnableStaticPrecompiles_correct:
  assumes "address_contract A" "vm_Params_Validate A (vm_GetParams st) = None"
  shows "if distinct as \<and> (\<forall>a\<in>set as. AddressString A a \<notin> set (vp_ActiveStaticPrecompiles (vm_GetParams st)))
    then \<exists>p. EnableStaticPrecompiles A as st = (Ret (), Some p) \<and>
      (\<forall>a. IsAvailableStaticPrecompile A p a \<longleftrightarrow> IsAvailableStaticPrecompile A (vm_GetParams st) a \<or> a \<in> set as) \<and>
      p = (vm_GetParams st)\<lparr>vp_ActiveStaticPrecompiles := vp_ActiveStaticPrecompiles p\<rparr>
    else \<exists>e. EnableStaticPrecompiles A as st = (Err e, st)"
proof -
  let ?p = "vm_GetParams st" and ?fresh = "\<forall>a\<in>set as. AddressString A a \<notin> set (vp_ActiveStaticPrecompiles (vm_GetParams st))"
  let ?ps = "sort (vp_ActiveStaticPrecompiles ?p @ map (AddressString A) as)"
  have inj: "inj_on (AddressString A) X" for X using AddressString_inj [OF assms(1)] by (auto intro: inj_onI)
  have v: "(\<forall>q\<in>set ?ps. IsHexAddress A q) \<and> sorted ?ps"
    "distinct ?ps \<longleftrightarrow> distinct as \<and> (?fresh)"
    using assms by (auto simp: vm_Params_Validate_iff ValidatePrecompiles_iff address_contract_def distinct_map inj)
  have run: "EnableStaticPrecompiles A as st =
      (if ?fresh then vm_SetParams A (?p\<lparr>vp_ActiveStaticPrecompiles := ?ps\<rparr>) st
       else (Err ''precompile already registered'', st))"
    by (simp add: EnableStaticPrecompiles_def appendPrecompiles_def hexAddresses_eq)
  have val: "vm_Params_Validate A (?p\<lparr>vp_ActiveStaticPrecompiles := sort ?ps\<rparr>) = None \<longleftrightarrow> distinct ?ps"
    using assms(2) v(1) by (simp add: vm_Params_Validate_iff ValidatePrecompiles_iff sort_key_id_if_sorted)
  have "IsAvailableStaticPrecompile A (?p\<lparr>vp_ActiveStaticPrecompiles := sort ?ps\<rparr>) a \<longleftrightarrow>
      IsAvailableStaticPrecompile A ?p a \<or> a \<in> set as" for a
    using AddressString_inj [OF assms(1)] by (auto simp: IsAvailableStaticPrecompile_def)
  then show ?thesis
    using run val v(2)
    by (rule_tac vm_SetParams_cases [of A "?p\<lparr>vp_ActiveStaticPrecompiles := ?ps\<rparr>" st]) auto
qed

theorem EnableStaticPrecompiles_correct_witness:
  "\<exists>p. EnableStaticPrecompiles hexApi [2049, 2048] None = (Ret (), Some p) \<and>
     IsAvailableStaticPrecompile hexApi p 2048 \<and> \<not> IsAvailableStaticPrecompile hexApi p 2050"
proof -
  have z: "vm_Params_Validate hexApi (vm_GetParams None) = None" by (simp add: vm_GetParams_def ZeroParams_valid)
  have "vp_ActiveStaticPrecompiles (vm_GetParams None) = []"
    by (simp add: vm_GetParams_def vm_ZeroParams_def vm_DefaultParams_def)
  moreover have "\<not> IsAvailableStaticPrecompile hexApi (vm_GetParams None) 2050"
    by (simp add: IsAvailableStaticPrecompile_def vm_GetParams_def vm_ZeroParams_def vm_DefaultParams_def hexApi_def)
  ultimately show ?thesis
    using EnableStaticPrecompiles_correct [OF hexApi_contract z, of "[2049, 2048]"] by auto
qed

text \<open>
  C20.  The hooks of the EVM enforce the access control for a list in printed form: a call and a
  contract creation go ahead exactly when the policy permits them for the signer and the caller,
  and a refused call never reaches the precompiles.
\<close>

theorem access_control_enforced:
  assumes "address_contract A" "canonicalList A (ac_Call ac)" "canonicalList A (ac_Create ac)"
  shows "runCallHook (evmHooks A ac signer pre) caller recipient evm =
      (if permitted A (ac_Call ac) signer caller then pre caller recipient evm
       else (Err ''caller address does not have permission to perform a call'', evm)) \<and>
    runCreateHook (evmHooks A ac signer pre) caller evm =
      (if permitted A (ac_Create ac) signer caller then (Ret (), evm)
       else (Err ''caller address does not have permission to deploy contracts'', evm))"
  by (simp add: evmHooks_run getCanFn_permitted [OF assms(1)] assms(2,3))

theorem access_control_enforced_witness:
  "let act = \<lparr>act_AccessType = AccessTypePermissioned, act_AccessControlList = [AddressString hexApi 5]\<rparr>;
       ac = \<lparr>ac_Create = act, ac_Call = act\<rparr>; pre = (\<lambda>_ _. go_return ())
   in runCreateHook (evmHooks hexApi ac 7 pre) 5 () = (Ret (), ()) \<and>
      runCallHook (evmHooks hexApi ac 7 pre) 6 9 () = (Err ''caller address does not have permission to perform a call'', ())"
proof -
  let ?act = "\<lparr>act_AccessType = AccessTypePermissioned, act_AccessControlList = [AddressString hexApi 5]\<rparr>"
  let ?ac = "\<lparr>ac_Create = ?act, ac_Call = ?act\<rparr>"
  have h: "HexToAddress hexApi (AddressString hexApi 5) = 5" using hexApi_contract by (simp add: address_contract_def)
  then have c: "canonicalList hexApi (ac_Call ?ac)" "canonicalList hexApi (ac_Create ?ac)"
    by (simp_all add: canonicalList_def)
  have "permitted hexApi ?act 7 5" "\<not> permitted hexApi ?act 7 6" by (simp_all add: permitted_def h)
  then show ?thesis
    using access_control_enforced [OF hexApi_contract c, of 7 "\<lambda>_ _. go_return ()" 5 9 "()"]
      access_control_enforced [OF hexApi_contract c, of 7 "\<lambda>_ _. go_return ()" 6 9 "()"]
    by simp
qed

text \<open>
  C21.  Validation accepts list entries that are not in printed form, and they have no effect: an
  account blocked by such an entry may still call and create, for itself and for every contract.
\<close>

theorem access_control_noncanonical:
  assumes "IsHexAddress A e" "AddressString A (HexToAddress A e) \<noteq> e"
  shows "let act = \<lparr>act_AccessType = AccessTypePermissionless, act_AccessControlList = [e]\<rparr>;
      ac = \<lparr>ac_Create = act, ac_Call = act\<rparr>; blocked = HexToAddress A e
    in AccessControl_Validate A ac = None \<and> \<not> permitted A act blocked blocked \<and>
      getCanCallFn A ac blocked blocked \<and> getCanCreateFn A ac blocked blocked"
  using assms
  by (simp add: AccessControl_Validate_def AccessControlType_Validate_def validateAccessType_def permitted_def getCanCallFn_def
      getCanCreateFn_def permissionlessCheckFn_def)

theorem access_control_noncanonical_witness:
  "let e = ''0x000000000000000000000000000000000000000A'';
       act = \<lparr>act_AccessType = AccessTypePermissionless, act_AccessControlList = [e]\<rparr>;
       ac = \<lparr>ac_Create = act, ac_Call = act\<rparr>
   in AccessControl_Validate hexApi ac = None \<and> getCanCallFn hexApi ac (HexToAddress hexApi e) (HexToAddress hexApi e)"
proof -
  define e where "e = ''0x000000000000000000000000000000000000000A''"
  have h: "IsHexAddress hexApi e" by (simp add: e_def hexApi_def hexDigits_def)
  have "CHR ''A'' \<in> set e" by (simp add: e_def)
  then have "AddressString hexApi (HexToAddress hexApi e) \<noteq> e" by (rule upper_not_printed)
  from access_control_noncanonical [OF h this] show ?thesis unfolding Let_def e_def [symmetric] by blast
qed

end
