(* ===== verification/AccessList.thy ===== *)
theory AccessList
  imports EvmPrelude
begin

text \<open>
  The EIP-2929 access list and the EIP-1153 transient storage of the state database:
  \<open>x/vm/statedb/access_list.go\<close> and \<open>transient_storage.go\<close>.  Every change is undone exactly by the
  deletion the journal runs for it.
\<close>

section \<open>Access list\<close>

record accessList =
  al_addresses :: "(Address, int) fmap"
  al_slots :: "Hash fset list"

text \<open>Indexing a slice out of range panics, here \<open>None\<close>.\<close>

definition slotmapAt :: "accessList \<Rightarrow> int \<Rightarrow> Hash fset option" where
  "slotmapAt al idx =
    (if 0 \<le> idx \<and> nat idx < length (al_slots al) then Some (al_slots al ! nat idx) else None)"

definition ContainsAddress :: "accessList \<Rightarrow> Address \<Rightarrow> bool" where
  "ContainsAddress al address \<longleftrightarrow> address |\<in>| fmdom (al_addresses al)"

definition Contains :: "accessList \<Rightarrow> Address \<Rightarrow> Hash \<Rightarrow> (bool \<times> bool) option" where
  "Contains al address slot =
    (case fmlookup (al_addresses al) address of
       None \<Rightarrow> Some (False, False)
     | Some idx \<Rightarrow>
        if idx = -1 then Some (True, False)
        else map_option (\<lambda>slotmap. (True, slot |\<in>| slotmap)) (slotmapAt al idx))"

definition newAccessList :: accessList where
  "newAccessList = \<lparr>al_addresses = fmempty, al_slots = []\<rparr>"

definition AddAddress :: "Address \<Rightarrow> accessList \<Rightarrow> bool \<times> accessList" where
  "AddAddress address al =
    (if address |\<in>| fmdom (al_addresses al) then (False, al)
     else (True, al\<lparr>al_addresses := fmupd address (-1) (al_addresses al)\<rparr>))"

definition AddSlot :: "Address \<Rightarrow> Hash \<Rightarrow> accessList \<Rightarrow> ((bool \<times> bool) \<times> accessList) option" where
  "AddSlot address slot al =
    (case fmlookup (al_addresses al) address of
       None \<Rightarrow>
         Some ((True, True), al\<lparr>al_addresses := fmupd address (int (length (al_slots al))) (al_addresses al),
                              al_slots := al_slots al @ [{|slot|}]\<rparr>)
     | Some idx \<Rightarrow>
         if idx = -1
         then Some ((False, True), al\<lparr>al_addresses := fmupd address (int (length (al_slots al))) (al_addresses al),
                                    al_slots := al_slots al @ [{|slot|}]\<rparr>)
         else (case slotmapAt al idx of
            None \<Rightarrow> None
          | Some slotmap \<Rightarrow>
              if slot |\<notin>| slotmap
              then Some ((False, True), al\<lparr>al_slots := (al_slots al)[nat idx := finsert slot slotmap]\<rparr>)
              else Some ((False, False), al)))"

definition DeleteSlot :: "Address \<Rightarrow> Hash \<Rightarrow> accessList \<Rightarrow> accessList option" where
  "DeleteSlot address slot al =
    (case fmlookup (al_addresses al) address of
       None \<Rightarrow> None
     | Some idx \<Rightarrow>
        (case slotmapAt al idx of
           None \<Rightarrow> None
         | Some slotmap \<Rightarrow>
             let slotmap' = slotmap |-| {|slot|};
                 slots' = (al_slots al)[nat idx := slotmap']
             in if slotmap' = {||}
                then Some (al\<lparr>al_slots := take (nat idx) slots', al_addresses := fmupd address (-1) (al_addresses al)\<rparr>)
                else Some (al\<lparr>al_slots := slots'\<rparr>)))"

definition DeleteAddress :: "Address \<Rightarrow> accessList \<Rightarrow> accessList" where
  "DeleteAddress address al = al\<lparr>al_addresses := fmdrop address (al_addresses al)\<rparr>"

text \<open>
  Well-formed lists: an index is -1 or points to a slot set, slot sets are not empty, and no two
  addresses share one.
\<close>

definition al_wf :: "accessList \<Rightarrow> bool" where
  "al_wf al \<longleftrightarrow>
    (\<forall>a i. fmlookup (al_addresses al) a = Some i \<longrightarrow> i = -1 \<or> (0 \<le> i \<and> nat i < length (al_slots al))) \<and>
    (\<forall>m\<in>set (al_slots al). m \<noteq> {||}) \<and>
    (\<forall>a a' i. fmlookup (al_addresses al) a = Some i \<longrightarrow> fmlookup (al_addresses al) a' = Some i \<longrightarrow>
       i \<noteq> -1 \<longrightarrow> a = a')"

section \<open>Transient storage\<close>

type_synonym Storage = "(Hash, Hash) fmap"
type_synonym transientStorage = "(Address, Storage) fmap"

definition newTransientStorage :: transientStorage where
  "newTransientStorage = fmempty"

definition TransientSet :: "Address \<Rightarrow> Hash \<Rightarrow> Hash \<Rightarrow> transientStorage \<Rightarrow> transientStorage" where
  "TransientSet addr key value t =
    (if value = 0 then
       (case fmlookup t addr of
          None \<Rightarrow> t
        | Some storage \<Rightarrow>
            let storage' = fmdrop key storage
            in if storage' = fmempty then fmdrop addr t else fmupd addr storage' t)
     else
       (let storage = (case fmlookup t addr of None \<Rightarrow> fmempty | Some st \<Rightarrow> st)
        in fmupd addr (fmupd key value storage) t))"

definition TransientGet :: "transientStorage \<Rightarrow> Address \<Rightarrow> Hash \<Rightarrow> Hash" where
  "TransientGet t addr key =
    (case fmlookup t addr of
       None \<Rightarrow> 0
     | Some val \<Rightarrow> (case fmlookup val key of None \<Rightarrow> 0 | Some v \<Rightarrow> v))"

text \<open>No address maps to an empty storage and no key to the zero value.\<close>

definition ts_wf :: "transientStorage \<Rightarrow> bool" where
  "ts_wf t \<longleftrightarrow> (\<forall>a st. fmlookup t a = Some st \<longrightarrow> st \<noteq> fmempty \<and> (\<forall>k. fmlookup st k \<noteq> Some 0))"

section \<open>Properties of the access list\<close>

lemma fmupd_same [simp]: "fmlookup m k = Some v \<Longrightarrow> fmupd k v m = m"
  by (rule fmap_ext) auto

lemma fmdrop_upd_fresh: "fmlookup m k = None \<Longrightarrow> fmdrop k (fmupd k v m) = m"
  by (rule fmap_ext) simp

lemma fmupd_fmupd [simp]: "fmupd k v (fmupd k w m) = fmupd k v m"
  by (rule fmap_ext) simp

lemma newAccessList_wf [simp]: "al_wf newAccessList"
  by (simp add: al_wf_def newAccessList_def)

lemma AddAddress_wf: "al_wf al \<Longrightarrow> al_wf (snd (AddAddress a al))"
  by (auto simp: al_wf_def AddAddress_def)

lemma al_wf_push:
  assumes wf: "al_wf al" and fresh: "fmlookup (al_addresses al) a \<in> {None, Some (-1)}"
  shows "al_wf (al\<lparr>al_addresses := fmupd a (int (length (al_slots al))) (al_addresses al),
     al_slots := al_slots al @ [{|slot|}]\<rparr>)"
  using assms unfolding al_wf_def by (auto 0 4 split: if_splits)

lemma al_wf_insert:
  assumes wf: "al_wf al" and "nat i < length (al_slots al)"
  shows "al_wf (al\<lparr>al_slots := (al_slots al)[nat i := finsert slot m]\<rparr>)"
  using assms set_update_subset_insert [of "al_slots al" "nat i" "finsert slot m"]
  unfolding al_wf_def by auto

lemma AddSlot_wf:
  assumes "al_wf al"
  shows "\<exists>r al'. AddSlot a slot al = Some (r, al') \<and> al_wf al'"
proof (cases "fmlookup (al_addresses al) a")
  case None
  then show ?thesis using al_wf_push [OF assms, of a slot] by (auto simp: AddSlot_def)
next
  case (Some i)
  then show ?thesis
    using assms al_wf_push [OF assms, of a slot] al_wf_insert [OF assms, of i slot]
    by (auto simp: AddSlot_def slotmapAt_def al_wf_def [of al])
qed

lemma AddAddress_undo: "AddAddress a al = (True, al') \<Longrightarrow> DeleteAddress a al' = al"
  by (auto simp: AddAddress_def DeleteAddress_def fmdrop_upd_fresh fmdom_notI fmlookup_dom_iff split: if_splits
      intro!: accessList.equality fmdrop_upd_fresh)

lemma AddAddress_no_change: "AddAddress a al = (False, al') \<Longrightarrow> al' = al"
  by (simp add: AddAddress_def split: if_splits)

text \<open>\<open>DeleteSlot\<close>, followed by \<open>DeleteAddress\<close> when the address was new, undoes \<open>AddSlot\<close> exactly.\<close>

lemma AddSlot_undo:
  assumes wf: "al_wf al" and add: "AddSlot a slot al = Some ((addrMod, True), al')"
  shows "\<exists>al''. DeleteSlot a slot al' = Some al'' \<and> (if addrMod then DeleteAddress a al'' else al'') = al"
proof (cases "fmlookup (al_addresses al) a")
  case None
  then have al': "addrMod" "al' = al\<lparr>al_addresses := fmupd a (int (length (al_slots al))) (al_addresses al),
      al_slots := al_slots al @ [{|slot|}]\<rparr>"
    using add by (auto simp: AddSlot_def)
  then show ?thesis using None
    by (auto simp: DeleteSlot_def slotmapAt_def DeleteAddress_def Let_def fmdrop_upd_fresh)
next
  case (Some i)
  show ?thesis
  proof (cases "i = -1")
    case True
    then have al': "\<not> addrMod" "al' = al\<lparr>al_addresses := fmupd a (int (length (al_slots al))) (al_addresses al),
        al_slots := al_slots al @ [{|slot|}]\<rparr>"
      using add Some by (auto simp: AddSlot_def)
    then show ?thesis using Some True by (auto simp: DeleteSlot_def slotmapAt_def Let_def)
  next
    case False
    then have i: "0 \<le> i" "nat i < length (al_slots al)" using wf Some by (auto simp: al_wf_def)
    define m where "m = al_slots al ! nat i"
    have al': "\<not> addrMod" "slot |\<notin>| m" "al' = al\<lparr>al_slots := (al_slots al)[nat i := finsert slot m]\<rparr>"
      using add Some False i by (auto simp: AddSlot_def slotmapAt_def m_def split: if_splits)
    have m: "m \<noteq> {||}" "finsert slot m |-| {|slot|} = m"
      using wf i al'(2) by (auto simp: al_wf_def m_def)
    show ?thesis
      using Some i al' m
      by (auto simp: DeleteSlot_def slotmapAt_def Let_def m_def [symmetric] intro!: accessList.equality)
        (simp add: m_def)
  qed
qed

lemma AddSlot_no_change: "AddSlot a slot al = Some ((addrMod, False), al') \<Longrightarrow> \<not> addrMod \<and> al' = al"
  by (auto simp: AddSlot_def split: option.splits if_splits)

section \<open>Properties of the transient storage\<close>

lemma fmap_eq_iff: "m = n \<longleftrightarrow> (\<forall>k. fmlookup m k = fmlookup n k)"
  by (metis fmap_ext)

text \<open>The storage of one address, empty when the address is absent.\<close>

lemma TransientSet_lookup:
  assumes "ts_wf t"
  shows "fmlookup (TransientSet a k v t) a' =
    (if a' \<noteq> a then fmlookup t a'
     else let st = (case fmlookup t a of None \<Rightarrow> fmempty | Some st \<Rightarrow> st);
              st' = (if v = 0 then fmdrop k st else fmupd k v st)
          in if st' = fmempty then None else Some st')"
  using assms
  by (cases "fmlookup t a") (auto simp: TransientSet_def Let_def ts_wf_def fmap_eq_iff)

lemma TransientGet_alt:
  "TransientGet t a k = (case fmlookup (case fmlookup t a of None \<Rightarrow> fmempty | Some st \<Rightarrow> st) k of None \<Rightarrow> 0 | Some v \<Rightarrow> v)"
  by (simp add: TransientGet_def split: option.split)

lemma TransientGet_Set:
  assumes "ts_wf t"
  shows "TransientGet (TransientSet a k v t) a' k' = (if a' = a \<and> k' = k then v else TransientGet t a' k')"
proof (cases "a' = a")
  case True
  define st where "st = (case fmlookup t a of None \<Rightarrow> fmempty | Some st \<Rightarrow> st)"
  have "(case fmlookup (TransientSet a k v t) a of None \<Rightarrow> fmempty | Some st \<Rightarrow> st) = (if v = 0 then fmdrop k st else fmupd k v st)"
    by (simp add: TransientSet_lookup [OF assms] Let_def st_def [symmetric])
  then show ?thesis using True by (simp add: TransientGet_alt st_def [symmetric])
next
  case False
  then show ?thesis by (simp add: TransientGet_def TransientSet_lookup [OF assms])
qed

lemma newTransientStorage_wf [simp]: "ts_wf newTransientStorage"
  by (simp add: ts_wf_def newTransientStorage_def)

lemma TransientSet_wf:
  assumes "ts_wf t"
  shows "ts_wf (TransientSet a k v t)"
  unfolding ts_wf_def
proof (intro allI impI)
  fix a' st
  define st0 where "st0 = (case fmlookup t a of None \<Rightarrow> fmempty | Some st \<Rightarrow> st)"
  have st0: "fmlookup st0 j \<noteq> Some 0" for j
    using assms by (auto simp: st0_def ts_wf_def split: option.split)
  assume "fmlookup (TransientSet a k v t) a' = Some st"
  then show "st \<noteq> fmempty \<and> (\<forall>j. fmlookup st j \<noteq> Some 0)"
    using assms st0
    by (auto simp: TransientSet_lookup [OF assms] Let_def st0_def [symmetric] ts_wf_def split: if_splits)
qed

text \<open>Writing the previous value back restores the storage exactly.\<close>

lemma TransientSet_undo:
  assumes wf: "ts_wf t" and prev: "prev = TransientGet t a k"
  shows "TransientSet a k prev (TransientSet a k v t) = t"
proof (rule fmap_ext)
  fix a'
  note wf' = TransientSet_wf [OF wf, of a k v]
  define st0 where "st0 = (case fmlookup t a of None \<Rightarrow> fmempty | Some st \<Rightarrow> st)"
  have t_a: "fmlookup t a = (if st0 = fmempty then None else Some st0)"
    using wf by (auto simp: st0_def ts_wf_def split: option.split)
  have prev': "fmlookup st0 k = (if prev = 0 then None else Some prev)"
    using wf prev by (auto simp: st0_def TransientGet_def ts_wf_def split: option.splits)
  define st1 where "st1 = (if v = 0 then fmdrop k st0 else fmupd k v st0)"
  have t1: "(case fmlookup (TransientSet a k v t) a of None \<Rightarrow> fmempty | Some st \<Rightarrow> st) = st1"
    by (simp add: TransientSet_lookup [OF wf] Let_def st0_def [symmetric] st1_def [symmetric])
  have undo: "(if prev = 0 then fmdrop k st1 else fmupd k prev st1) = st0"
    by (rule fmap_ext) (auto simp: st1_def prev')
  show "fmlookup (TransientSet a k prev (TransientSet a k v t)) a' = fmlookup t a'"
    using t_a by (simp add: TransientSet_lookup [OF wf'] TransientSet_lookup [OF wf, of a k v a'] t1 undo)
qed

end
