(* ===== verification/StateDBModel.thy ===== *)
theory StateDBModel
  imports AccessList
begin

text \<open>
  The state database of the EVM: \<open>x/vm/statedb/statedb.go\<close>, \<open>journal.go\<close>, \<open>state_object.go\<close> and
  \<open>config.go\<close>.  A \<open>StateDB\<close> caches accounts as state objects over a keeper, records every change in
  a journal and undoes the journal on \<open>RevertToSnapshot\<close>.

  The \<open>Keeper\<close> interface is the record \<open>sdb_keeper\<close> over an abstract store \<open>'c\<close> (the SDK context);
  \<open>Keccak256Hash\<close> of go-ethereum is a field of it.  The cache context that precompiles write to is a
  multi store \<open>'m\<close> with the operations of \<open>cache_api\<close>, \<open>'v\<close> is the type of the SDK events emitted on
  it; \<open>StateDBCache\<close> gives these operations for the snapshot multi store.  A state object is
  a pointer in Go; it is only reached through \<open>stateObjects\<close>, so the model stores it by value and
  writes it back after every mutation.  \<open>None\<close> is a nil slice for code.
\<close>

section \<open>Accounts and state objects\<close>

record Account =
  Nonce :: u64
  Balance :: u256
  CodeHash :: Hash

record 'c sdb_keeper =
  k_GetAccount :: "'c \<Rightarrow> Address \<Rightarrow> Account option"
  k_GetState :: "'c \<Rightarrow> Address \<Rightarrow> Hash \<Rightarrow> Hash"
  k_GetCode :: "'c \<Rightarrow> Hash \<Rightarrow> bytes option"
  k_ForEachStorage :: "'c \<Rightarrow> Address \<Rightarrow> (Hash \<times> Hash) list"
  k_SetAccount :: "Address \<Rightarrow> Account \<Rightarrow> ('c, string, unit) go"
  k_DeleteState :: "Address \<Rightarrow> Hash \<Rightarrow> 'c \<Rightarrow> 'c"
  k_SetState :: "Address \<Rightarrow> Hash \<Rightarrow> bytes \<Rightarrow> 'c \<Rightarrow> 'c"
  k_DeleteCode :: "Hash \<Rightarrow> 'c \<Rightarrow> 'c"
  k_SetCode :: "Hash \<Rightarrow> bytes \<Rightarrow> 'c \<Rightarrow> 'c"
  k_DeleteAccount :: "Address \<Rightarrow> ('c, string, unit) go"
  k_Keccak256Hash :: "bytes \<Rightarrow> Hash"

text \<open>The contents of a slice; a nil slice is empty.\<close>

definition sliceBytes :: "bytes option \<Rightarrow> bytes" where
  "sliceBytes b = (case b of None \<Rightarrow> [] | Some bs \<Rightarrow> bs)"

definition EmptyCodeHash :: "'c sdb_keeper \<Rightarrow> Hash" where
  "EmptyCodeHash K = k_Keccak256Hash K []"

definition NewEmptyAccount :: "'c sdb_keeper \<Rightarrow> Account" where
  "NewEmptyAccount K = \<lparr>Nonce = 0, Balance = 0, CodeHash = EmptyCodeHash K\<rparr>"

definition IsContract :: "'c sdb_keeper \<Rightarrow> Account \<Rightarrow> bool" where
  "IsContract K acct \<longleftrightarrow> CodeHash acct \<noteq> EmptyCodeHash K"

definition SortedKeys :: "Storage \<Rightarrow> Hash list" where
  "SortedKeys s = sorted_list_of_fset (fmdom s)"

record stateObject =
  account :: Account
  code :: "bytes option"
  originStorage :: Storage
  dirtyStorage :: Storage
  address :: Address
  dirtyCode :: bool
  selfDestructed :: bool
  newContract :: bool

text \<open>
  The zero value \<open>Account{}\<close> of \<open>createObject\<close>, with its nil balance and nil code hash, is \<open>None\<close>.
\<close>

definition newObject :: "'c sdb_keeper \<Rightarrow> Address \<Rightarrow> Account option \<Rightarrow> stateObject" where
  "newObject K addr acc =
    \<lparr>account = (case acc of
        None \<Rightarrow> \<lparr>Nonce = 0, Balance = 0, CodeHash = EmptyCodeHash K\<rparr>
      | Some a \<Rightarrow> a),
     code = None, originStorage = fmempty, dirtyStorage = fmempty, address = addr,
     dirtyCode = False, selfDestructed = False, newContract = False\<rparr>"

definition so_empty :: "'c sdb_keeper \<Rightarrow> stateObject \<Rightarrow> bool" where
  "so_empty K s \<longleftrightarrow> Nonce (account s) = 0 \<and> Balance (account s) = 0 \<and> CodeHash (account s) = EmptyCodeHash K"

definition so_setBalance :: "u256 \<Rightarrow> stateObject \<Rightarrow> stateObject" where
  "so_setBalance amount s = s\<lparr>account := (account s)\<lparr>Balance := amount\<rparr>\<rparr>"

definition so_setNonce :: "u64 \<Rightarrow> stateObject \<Rightarrow> stateObject" where
  "so_setNonce nonce s = s\<lparr>account := (account s)\<lparr>Nonce := nonce\<rparr>\<rparr>"

definition so_setCode :: "Hash \<Rightarrow> bytes option \<Rightarrow> stateObject \<Rightarrow> stateObject" where
  "so_setCode codeHash c s = s\<lparr>code := c, account := (account s)\<lparr>CodeHash := codeHash\<rparr>, dirtyCode := True\<rparr>"

definition so_setState :: "Hash \<Rightarrow> Hash \<Rightarrow> stateObject \<Rightarrow> stateObject" where
  "so_setState key value s = s\<lparr>dirtyStorage := fmupd key value (dirtyStorage s)\<rparr>"

definition so_Code :: "'c sdb_keeper \<Rightarrow> 'c \<Rightarrow> stateObject \<Rightarrow> bytes option \<times> stateObject" where
  "so_Code K c s =
    (if code s \<noteq> None then (code s, s)
     else if CodeHash (account s) = EmptyCodeHash K then (None, s)
     else let cd = k_GetCode K c (CodeHash (account s)) in (cd, s\<lparr>code := cd\<rparr>))"

definition so_GetCommittedState :: "'c sdb_keeper \<Rightarrow> 'c \<Rightarrow> Hash \<Rightarrow> stateObject \<Rightarrow> Hash \<times> stateObject" where
  "so_GetCommittedState K c key s =
    (case fmlookup (originStorage s) key of
       Some value \<Rightarrow> (value, s)
     | None \<Rightarrow>
        let value = k_GetState K c (address s) key
        in (value, s\<lparr>originStorage := fmupd key value (originStorage s)\<rparr>))"

definition so_GetState :: "'c sdb_keeper \<Rightarrow> 'c \<Rightarrow> Hash \<Rightarrow> stateObject \<Rightarrow> Hash \<times> stateObject" where
  "so_GetState K c key s =
    (case fmlookup (dirtyStorage s) key of
       Some value \<Rightarrow> (value, s)
     | None \<Rightarrow> so_GetCommittedState K c key s)"

section \<open>Journal and database\<close>

datatype 'v JournalEntry =
    createContractChange Address
  | createObjectChange Address
  | resetObjectChange stateObject
  | selfDestructChange Address bool u256
  | balanceChange Address u256
  | nonceChange Address u64
  | storageChange Address Hash Hash
  | transientStorageChange Address Hash Hash
  | codeChange Address "bytes option" Hash
  | refundChange u64
  | addLogChange
  | accessListAddAccountChange Address
  | accessListAddSlotChange Address Hash
  | precompileCallChange int 'v

fun Dirtied :: "'v JournalEntry \<Rightarrow> Address option" where
  "Dirtied (createObjectChange a) = Some a"
| "Dirtied (selfDestructChange a _ _) = Some a"
| "Dirtied (balanceChange a _) = Some a"
| "Dirtied (nonceChange a _) = Some a"
| "Dirtied (codeChange a _ _) = Some a"
| "Dirtied (storageChange a _ _) = Some a"
| "Dirtied _ = None"

record revision =
  rev_id :: int
  journalIndex :: nat

record TxConfig =
  BlockHash :: Hash
  TxHash :: Hash
  TxIndex :: u64
  LogIndex :: u64

record Log =
  log_Address :: Address
  log_Topics :: "Hash list"
  log_Data :: bytes
  log_BlockNumber :: u64
  log_TxHash :: Hash
  log_BlockHash :: Hash
  log_TxIndex :: u64
  log_Index :: u64

text \<open>
  \<open>writeCache\<close> is nil before the first precompile call; then it emits either the events of the
  cache context or, after a revert, the events saved with the journal entry.
\<close>

datatype 'v write_cache = EmitCacheEvents | EmitSavedEvents 'v

text \<open>
  \<open>snapshotter\<close> and the multi store of \<open>cacheCtx\<close> are the same object, so the context is kept as that
  multi store and the events of its event manager.
\<close>

record ('c, 'm, 'v) StateDB =
  ctx :: 'c
  snapshotter :: "'m option"
  cacheEvents :: "'v option"
  writeCache :: "'v write_cache option"
  transientStore :: transientStorage
  entries :: "'v JournalEntry list"
  dirties :: "(Address, int) fmap"
  validRevisions :: "revision list"
  nextRevisionID :: int
  stateObjects :: "(Address, stateObject) fmap"
  txConfig :: TxConfig
  refund :: u64
  logs :: "Log list"
  accessLst :: accessList
  precompileCallsCounter :: u8

type_synonym ('c, 'm, 'v, 'a) sdb_go = "(('c, 'm, 'v) StateDB, string, 'a) go"

definition StateDB_New :: "'c \<Rightarrow> TxConfig \<Rightarrow> ('c, 'm, 'v) StateDB" where
  "StateDB_New c cfg =
    \<lparr>ctx = c, snapshotter = None, cacheEvents = None, writeCache = None, transientStore = newTransientStorage, entries = [],
     dirties = fmempty, validRevisions = [], nextRevisionID = 0, stateObjects = fmempty, txConfig = cfg,
     refund = 0, logs = [], accessLst = newAccessList, precompileCallsCounter = 0\<rparr>"

definition journal_append :: "'v JournalEntry \<Rightarrow> ('c, 'm, 'v) StateDB \<Rightarrow> ('c, 'm, 'v) StateDB" where
  "journal_append entry s =
    s\<lparr>entries := entries s @ [entry],
      dirties := (case Dirtied entry of
          None \<Rightarrow> dirties s
        | Some addr \<Rightarrow> fmupd addr (fm_get0 (dirties s) addr + 1) (dirties s))\<rparr>"

definition sortedDirties :: "('c, 'm, 'v) StateDB \<Rightarrow> Address list" where
  "sortedDirties s = sorted_list_of_fset (fmdom (dirties s))"

definition setStateObject :: "stateObject \<Rightarrow> ('c, 'm, 'v) StateDB \<Rightarrow> ('c, 'm, 'v) StateDB" where
  "setStateObject object s = s\<lparr>stateObjects := fmupd (address object) object (stateObjects s)\<rparr>"

definition getStateObject ::
    "'c sdb_keeper \<Rightarrow> Address \<Rightarrow> ('c, 'm, 'v) StateDB \<Rightarrow> stateObject option \<times> ('c, 'm, 'v) StateDB" where
  "getStateObject K addr s =
    (case fmlookup (stateObjects s) addr of
       Some obj \<Rightarrow> (Some obj, s)
     | None \<Rightarrow>
       (case k_GetAccount K (ctx s) addr of
          None \<Rightarrow> (None, s)
        | Some acc \<Rightarrow> let obj = newObject K addr (Some acc) in (Some obj, setStateObject obj s)))"

definition createObject ::
    "'c sdb_keeper \<Rightarrow> Address \<Rightarrow> ('c, 'm, 'v) StateDB \<Rightarrow> (stateObject \<times> stateObject option) \<times> ('c, 'm, 'v) StateDB" where
  "createObject K addr s =
    (case getStateObject K addr s of
       (prev, s1) \<Rightarrow>
         let newobj = newObject K addr None;
             s2 = (case prev of
                 None \<Rightarrow> journal_append (createObjectChange addr) s1
               | Some p \<Rightarrow> journal_append (resetObjectChange p) s1)
         in ((newobj, prev), setStateObject newobj s2))"

definition getOrNewStateObject ::
    "'c sdb_keeper \<Rightarrow> Address \<Rightarrow> ('c, 'm, 'v) StateDB \<Rightarrow> stateObject \<times> ('c, 'm, 'v) StateDB" where
  "getOrNewStateObject K addr s =
    (case getStateObject K addr s of
       (Some obj, s1) \<Rightarrow> (obj, s1)
     | (None, s1) \<Rightarrow> (case createObject K addr s1 of ((newobj, _), s2) \<Rightarrow> (newobj, s2)))"

section \<open>Reads\<close>

definition GetBalance :: "'c sdb_keeper \<Rightarrow> Address \<Rightarrow> ('c, 'm, 'v) StateDB \<Rightarrow> u256 \<times> ('c, 'm, 'v) StateDB" where
  "GetBalance K addr s =
    (case getStateObject K addr s of (Some obj, s1) \<Rightarrow> (Balance (account obj), s1) | (None, s1) \<Rightarrow> (0, s1))"

definition GetNonce :: "'c sdb_keeper \<Rightarrow> Address \<Rightarrow> ('c, 'm, 'v) StateDB \<Rightarrow> u64 \<times> ('c, 'm, 'v) StateDB" where
  "GetNonce K addr s =
    (case getStateObject K addr s of (Some obj, s1) \<Rightarrow> (Nonce (account obj), s1) | (None, s1) \<Rightarrow> (0, s1))"

definition GetCode :: "'c sdb_keeper \<Rightarrow> Address \<Rightarrow> ('c, 'm, 'v) StateDB \<Rightarrow> bytes option \<times> ('c, 'm, 'v) StateDB" where
  "GetCode K addr s =
    (case getStateObject K addr s of
       (Some obj, s1) \<Rightarrow> (case so_Code K (ctx s1) obj of (cd, obj') \<Rightarrow> (cd, setStateObject obj' s1))
     | (None, s1) \<Rightarrow> (None, s1))"

definition GetCodeSize :: "'c sdb_keeper \<Rightarrow> Address \<Rightarrow> ('c, 'm, 'v) StateDB \<Rightarrow> nat \<times> ('c, 'm, 'v) StateDB" where
  "GetCodeSize K addr s =
    (case GetCode K addr s of (cd, s1) \<Rightarrow> (case cd of None \<Rightarrow> 0 | Some bs \<Rightarrow> length bs, s1))"

definition GetCodeHash :: "'c sdb_keeper \<Rightarrow> Address \<Rightarrow> ('c, 'm, 'v) StateDB \<Rightarrow> Hash \<times> ('c, 'm, 'v) StateDB" where
  "GetCodeHash K addr s =
    (case getStateObject K addr s of (None, s1) \<Rightarrow> (0, s1) | (Some obj, s1) \<Rightarrow> (CodeHash (account obj), s1))"

definition GetState :: "'c sdb_keeper \<Rightarrow> Address \<Rightarrow> Hash \<Rightarrow> ('c, 'm, 'v) StateDB \<Rightarrow> Hash \<times> ('c, 'm, 'v) StateDB" where
  "GetState K addr key s =
    (case getStateObject K addr s of
       (Some obj, s1) \<Rightarrow> (case so_GetState K (ctx s1) key obj of (v, obj') \<Rightarrow> (v, setStateObject obj' s1))
     | (None, s1) \<Rightarrow> (0, s1))"

definition GetCommittedState :: "'c sdb_keeper \<Rightarrow> Address \<Rightarrow> Hash \<Rightarrow> ('c, 'm, 'v) StateDB \<Rightarrow> Hash \<times> ('c, 'm, 'v) StateDB" where
  "GetCommittedState K addr key s =
    (case getStateObject K addr s of
       (Some obj, s1) \<Rightarrow> (case so_GetCommittedState K (ctx s1) key obj of (v, obj') \<Rightarrow> (v, setStateObject obj' s1))
     | (None, s1) \<Rightarrow> (0, s1))"

definition Exist :: "'c sdb_keeper \<Rightarrow> Address \<Rightarrow> ('c, 'm, 'v) StateDB \<Rightarrow> bool \<times> ('c, 'm, 'v) StateDB" where
  "Exist K addr s = (case getStateObject K addr s of (obj, s1) \<Rightarrow> (obj \<noteq> None, s1))"

definition Empty :: "'c sdb_keeper \<Rightarrow> Address \<Rightarrow> ('c, 'm, 'v) StateDB \<Rightarrow> bool \<times> ('c, 'm, 'v) StateDB" where
  "Empty K addr s =
    (case getStateObject K addr s of (None, s1) \<Rightarrow> (True, s1) | (Some so, s1) \<Rightarrow> (so_empty K so, s1))"

definition HasSelfDestructed :: "'c sdb_keeper \<Rightarrow> Address \<Rightarrow> ('c, 'm, 'v) StateDB \<Rightarrow> bool \<times> ('c, 'm, 'v) StateDB" where
  "HasSelfDestructed K addr s =
    (case getStateObject K addr s of (Some obj, s1) \<Rightarrow> (selfDestructed obj, s1) | (None, s1) \<Rightarrow> (False, s1))"

definition GetTransientState :: "Address \<Rightarrow> Hash \<Rightarrow> ('c, 'm, 'v) StateDB \<Rightarrow> Hash" where
  "GetTransientState addr key s = TransientGet (transientStore s) addr key"

definition IsStorageEmpty :: "'c sdb_keeper \<Rightarrow> Address \<Rightarrow> ('c, 'm, 'v) StateDB \<Rightarrow> bool" where
  "IsStorageEmpty K addr s \<longleftrightarrow> k_ForEachStorage K (ctx s) addr = []"

section \<open>Writes\<close>

definition so_SetBalance :: "u256 \<Rightarrow> stateObject \<Rightarrow> ('c, 'm, 'v) StateDB \<Rightarrow> u256 \<times> ('c, 'm, 'v) StateDB" where
  "so_SetBalance amount obj s =
    (let prev = Balance (account obj);
         s1 = journal_append (balanceChange (address obj) prev) s
     in (prev, setStateObject (so_setBalance amount obj) s1))"

definition so_AddBalance :: "u256 \<Rightarrow> stateObject \<Rightarrow> ('c, 'm, 'v) StateDB \<Rightarrow> u256 \<times> ('c, 'm, 'v) StateDB" where
  "so_AddBalance amount obj s =
    (if amount = 0 then (Balance (account obj), s)
     else so_SetBalance (Balance (account obj) + amount) obj s)"

definition so_SubBalance :: "u256 \<Rightarrow> stateObject \<Rightarrow> ('c, 'm, 'v) StateDB \<Rightarrow> u256 \<times> ('c, 'm, 'v) StateDB" where
  "so_SubBalance amount obj s =
    (if amount = 0 then (Balance (account obj), s)
     else so_SetBalance (Balance (account obj) - amount) obj s)"

definition AddBalance :: "'c sdb_keeper \<Rightarrow> Address \<Rightarrow> u256 \<Rightarrow> ('c, 'm, 'v, u256) sdb_go" where
  "AddBalance K addr amount s =
    (case getOrNewStateObject K addr s of (obj, s1) \<Rightarrow>
       (case so_AddBalance amount obj s1 of (r, s2) \<Rightarrow> (Ret r, s2)))"

definition SubBalance :: "'c sdb_keeper \<Rightarrow> Address \<Rightarrow> u256 \<Rightarrow> ('c, 'm, 'v, u256) sdb_go" where
  "SubBalance K addr amount s =
    (case getOrNewStateObject K addr s of (obj, s1) \<Rightarrow>
       if amount = 0 then (Ret (Balance (account obj)), s1)
       else (case so_SubBalance amount obj s1 of (r, s2) \<Rightarrow> (Ret r, s2)))"

definition SetNonce :: "'c sdb_keeper \<Rightarrow> Address \<Rightarrow> u64 \<Rightarrow> ('c, 'm, 'v, unit) sdb_go" where
  "SetNonce K addr nonce s =
    (case getOrNewStateObject K addr s of (obj, s1) \<Rightarrow>
       let s2 = journal_append (nonceChange (address obj) (Nonce (account obj))) s1
       in (Ret (), setStateObject (so_setNonce nonce obj) s2))"

definition SetCode :: "'c sdb_keeper \<Rightarrow> Address \<Rightarrow> bytes option \<Rightarrow> ('c, 'm, 'v, bytes option) sdb_go" where
  "SetCode K addr cd s =
    (case getOrNewStateObject K addr s of (obj, s1) \<Rightarrow>
       let prev = code obj in
       (case so_Code K (ctx s1) obj of (prevcode, obj1) \<Rightarrow>
          let s2 = journal_append (codeChange (address obj1) prevcode (CodeHash (account obj1))) s1
          in (Ret prev, setStateObject (so_setCode (k_Keccak256Hash K (sliceBytes cd)) cd obj1) s2)))"

definition SetState :: "'c sdb_keeper \<Rightarrow> Address \<Rightarrow> Hash \<Rightarrow> Hash \<Rightarrow> ('c, 'm, 'v, Hash) sdb_go" where
  "SetState K addr key value s =
    (case getOrNewStateObject K addr s of (obj, s1) \<Rightarrow>
       (case so_GetState K (ctx s1) key obj of (prev, obj1) \<Rightarrow>
          if prev = value then (Ret prev, setStateObject obj1 s1)
          else
            let s2 = journal_append (storageChange (address obj1) key prev) s1
            in (Ret prev, setStateObject (so_setState key value obj1) s2)))"

definition SelfDestruct :: "'c sdb_keeper \<Rightarrow> Address \<Rightarrow> ('c, 'm, 'v, u256) sdb_go" where
  "SelfDestruct K addr s =
    (case getStateObject K addr s of
       (None, s1) \<Rightarrow> (Ret 0, s1)
     | (Some obj, s1) \<Rightarrow>
        let prevBalance = Balance (account obj);
            s2 = journal_append (selfDestructChange addr (selfDestructed obj) prevBalance) s1
        in (Ret prevBalance, setStateObject (so_setBalance 0 (obj\<lparr>selfDestructed := True\<rparr>)) s2))"

definition SelfDestruct6780 :: "'c sdb_keeper \<Rightarrow> Address \<Rightarrow> ('c, 'm, 'v, u256 \<times> bool) sdb_go" where
  "SelfDestruct6780 K addr s =
    (case getStateObject K addr s of
       (None, s1) \<Rightarrow> (Ret (0, False), s1)
     | (Some obj, s1) \<Rightarrow>
        if newContract obj then go_bind (SelfDestruct K addr) (\<lambda>b. go_return (b, True)) s1
        else (Ret (Balance (account obj), False), s1))"

definition CreateAccount :: "'c sdb_keeper \<Rightarrow> Address \<Rightarrow> ('c, 'm, 'v, unit) sdb_go" where
  "CreateAccount K addr s =
    (case createObject K addr s of ((newObj, prev), s1) \<Rightarrow>
       (case prev of
          None \<Rightarrow> (Ret (), s1)
        | Some p \<Rightarrow> (Ret (), setStateObject (so_setBalance (Balance (account p)) newObj) s1)))"

definition CreateContract :: "'c sdb_keeper \<Rightarrow> Address \<Rightarrow> ('c, 'm, 'v, unit) sdb_go" where
  "CreateContract K addr s =
    (case getStateObject K addr s of
       (None, s1) \<Rightarrow> (Panic ''nil pointer dereference'', s1)
     | (Some obj, s1) \<Rightarrow>
        if \<not> newContract obj
        then (Ret (), journal_append (createContractChange addr) (setStateObject (obj\<lparr>newContract := True\<rparr>) s1))
        else (Ret (), s1))"

definition setTransientState :: "Address \<Rightarrow> Hash \<Rightarrow> Hash \<Rightarrow> ('c, 'm, 'v) StateDB \<Rightarrow> ('c, 'm, 'v) StateDB" where
  "setTransientState addr key value s = s\<lparr>transientStore := TransientSet addr key value (transientStore s)\<rparr>"

definition SetTransientState :: "Address \<Rightarrow> Hash \<Rightarrow> Hash \<Rightarrow> ('c, 'm, 'v, unit) sdb_go" where
  "SetTransientState addr key value s =
    (let prev = GetTransientState addr key s
     in if prev = value then (Ret (), s)
        else (Ret (), setTransientState addr key value (journal_append (transientStorageChange addr key prev) s)))"

definition AddLog :: "Log \<Rightarrow> ('c, 'm, 'v, unit) sdb_go" where
  "AddLog lg s =
    (let s1 = journal_append addLogChange s;
         lg' = lg\<lparr>log_TxHash := TxHash (txConfig s), log_BlockHash := BlockHash (txConfig s),
                  log_TxIndex := TxIndex (txConfig s),
                  log_Index := LogIndex (txConfig s) + of_nat (length (logs s))\<rparr>
     in (Ret (), s1\<lparr>logs := logs s @ [lg']\<rparr>))"

definition AddRefund :: "u64 \<Rightarrow> ('c, 'm, 'v, unit) sdb_go" where
  "AddRefund gas s =
    (let s1 = journal_append (refundChange (refund s)) s in (Ret (), s1\<lparr>refund := refund s + gas\<rparr>))"

definition SubRefund :: "u64 \<Rightarrow> ('c, 'm, 'v, unit) sdb_go" where
  "SubRefund gas s =
    (let s1 = journal_append (refundChange (refund s)) s
     in if gas > refund s then (Panic ''Refund counter below zero'', s1)
        else (Ret (), s1\<lparr>refund := refund s - gas\<rparr>))"

definition AddAddressToAccessList :: "Address \<Rightarrow> ('c, 'm, 'v, unit) sdb_go" where
  "AddAddressToAccessList addr s =
    (case AddAddress addr (accessLst s) of (added, al) \<Rightarrow>
       let s1 = s\<lparr>accessLst := al\<rparr>
       in (Ret (), if added then journal_append (accessListAddAccountChange addr) s1 else s1))"

definition AddSlotToAccessList :: "Address \<Rightarrow> Hash \<Rightarrow> ('c, 'm, 'v, unit) sdb_go" where
  "AddSlotToAccessList addr slot s =
    (case AddSlot addr slot (accessLst s) of
       None \<Rightarrow> (Panic ''index out of range'', s)
     | Some ((addrMod, slotMod), al) \<Rightarrow>
        let s1 = s\<lparr>accessLst := al\<rparr>;
            s2 = (if addrMod then journal_append (accessListAddAccountChange addr) s1 else s1)
        in (Ret (), if slotMod then journal_append (accessListAddSlotChange addr slot) s2 else s2))"

definition AddressInAccessList :: "Address \<Rightarrow> ('c, 'm, 'v) StateDB \<Rightarrow> bool" where
  "AddressInAccessList addr s = ContainsAddress (accessLst s) addr"

definition SlotInAccessList :: "Address \<Rightarrow> Hash \<Rightarrow> ('c, 'm, 'v) StateDB \<Rightarrow> (bool \<times> bool) option" where
  "SlotInAccessList addr slot s = Contains (accessLst s) addr slot"

definition MaxPrecompileCalls :: u8 where
  "MaxPrecompileCalls = 7"

definition AddPrecompileFn :: "int \<Rightarrow> 'v \<Rightarrow> ('c, 'm, 'v, unit) sdb_go" where
  "AddPrecompileFn snapshot events s =
    (let s1 = journal_append (precompileCallChange snapshot events) s;
         s2 = s1\<lparr>precompileCallsCounter := precompileCallsCounter s1 + 1\<rparr>
     in if precompileCallsCounter s2 > MaxPrecompileCalls then (Err ''max calls to precompiles reached'', s2)
        else (Ret (), s2))"

record Rules =
  IsEIP2929 :: bool
  IsEIP4762 :: bool
  IsShanghai :: bool

fun addAccessTuple :: "Address \<Rightarrow> Hash list \<Rightarrow> accessList \<Rightarrow> accessList option" where
  "addAccessTuple addr [] al = Some al"
| "addAccessTuple addr (key # keys) al =
    (case AddSlot addr key al of None \<Rightarrow> None | Some (_, al') \<Rightarrow> addAccessTuple addr keys al')"

fun addAccessTuples :: "(Address \<times> Hash list) list \<Rightarrow> accessList \<Rightarrow> accessList option" where
  "addAccessTuples [] al = Some al"
| "addAccessTuples ((addr, keys) # els) al =
    (case addAccessTuple addr keys (snd (AddAddress addr al)) of
       None \<Rightarrow> None | Some al' \<Rightarrow> addAccessTuples els al')"

definition Prepare :: "Rules \<Rightarrow> Address \<Rightarrow> Address \<Rightarrow> Address option \<Rightarrow> Address list \<Rightarrow>
    (Address \<times> Hash list) list \<Rightarrow> ('c, 'm, 'v, unit) sdb_go" where
  "Prepare rules sender coinbase dst precompiles lst s =
    (if IsEIP2929 rules \<and> IsEIP4762 rules then (Panic ''eip2929 and eip4762 are both activated'', s)
     else if IsEIP2929 rules then
       (let al0 = snd (AddAddress sender newAccessList);
            al1 = (case dst of None \<Rightarrow> al0 | Some d \<Rightarrow> snd (AddAddress d al0));
            al2 = fold (\<lambda>addr al. snd (AddAddress addr al)) precompiles al1
        in case addAccessTuples lst al2 of
             None \<Rightarrow> (Panic ''index out of range'', s)
           | Some al3 \<Rightarrow>
               let al4 = (if IsShanghai rules then snd (AddAddress coinbase al3) else al3)
               in (Ret (), s\<lparr>accessLst := al4, transientStore := newTransientStorage\<rparr>))
     else (Ret (), s\<lparr>transientStore := newTransientStorage\<rparr>))"

definition Finalise :: "'c sdb_keeper \<Rightarrow> bool \<Rightarrow> ('c, 'm, 'v) StateDB \<Rightarrow> ('c, 'm, 'v) StateDB" where
  "Finalise K deleteEmptyObjects s =
    s\<lparr>stateObjects := fmfilter (\<lambda>addr.
        \<not> (addr |\<in>| fmdom (dirties s) \<and>
           (case fmlookup (stateObjects s) addr of
              None \<Rightarrow> False
            | Some obj \<Rightarrow> selfDestructed obj \<or> (deleteEmptyObjects \<and> so_empty K obj)))) (stateObjects s)\<rparr>"

section \<open>Snapshots\<close>

text \<open>
  The multi store under a cache context: \<open>cm_Cache\<close> is \<open>CacheContext\<close> of the SDK with \<open>snapshotmulti.NewStore\<close>
  around it, and the events it starts with (None when the context has no multi store), \<open>cm_Context\<close>
  is the context that reads through the multi store, and \<open>cm_Update\<close> the multi store after writes
  through that context.
\<close>

record ('c, 'm, 'v) cache_api =
  cm_Cache :: "'c \<Rightarrow> ('m \<times> 'v) option"
  cm_Snapshot :: "'m \<Rightarrow> (int \<times> 'm) option"
  cm_RevertToSnapshot :: "int \<Rightarrow> 'm \<Rightarrow> 'm option"
  cm_Context :: "'m \<Rightarrow> 'c"
  cm_Update :: "'c \<Rightarrow> 'm \<Rightarrow> 'm"

text \<open>
  \<open>RevertMultiStore\<close>: the snapshotter reverts and \<open>writeCache\<close> will emit the saved events; a nil
  snapshotter panics.
\<close>

definition RevertMultiStore :: "('c, 'm, 'v) cache_api \<Rightarrow> int \<Rightarrow> 'v \<Rightarrow>
    ('c, 'm, 'v) StateDB \<Rightarrow> ('c, 'm, 'v) StateDB option" where
  "RevertMultiStore rm snapshot events s =
    (case snapshotter s of
       None \<Rightarrow> None
     | Some m \<Rightarrow>
        (case cm_RevertToSnapshot rm snapshot m of
           None \<Rightarrow> None
         | Some m' \<Rightarrow> Some (s\<lparr>snapshotter := Some m', writeCache := Some (EmitSavedEvents events)\<rparr>)))"

text \<open>A journal entry that updates its account's state object; a missing object is a nil dereference.\<close>

definition onObject :: "'c sdb_keeper \<Rightarrow> Address \<Rightarrow> (stateObject \<Rightarrow> stateObject) \<Rightarrow>
    ('c, 'm, 'v) StateDB \<Rightarrow> ('c, 'm, 'v) StateDB option" where
  "onObject K a f s =
    (case getStateObject K a s of (None, _) \<Rightarrow> None | (Some obj, s1) \<Rightarrow> Some (setStateObject (f obj) s1))"

fun revertEntry :: "'c sdb_keeper \<Rightarrow> ('c, 'm, 'v) cache_api \<Rightarrow> 'v JournalEntry \<Rightarrow>
    ('c, 'm, 'v) StateDB \<Rightarrow> ('c, 'm, 'v) StateDB option" where
  "revertEntry K rm (createContractChange a) s = onObject K a (\<lambda>obj. obj\<lparr>newContract := False\<rparr>) s"
| "revertEntry K rm (precompileCallChange snapshot events) s = RevertMultiStore rm snapshot events s"
| "revertEntry K rm (createObjectChange a) s = Some (s\<lparr>stateObjects := fmdrop a (stateObjects s)\<rparr>)"
| "revertEntry K rm (resetObjectChange prv) s = Some (setStateObject prv s)"
| "revertEntry K rm (selfDestructChange a prv prevbalance) s =
    (case getStateObject K a s of
       (None, s1) \<Rightarrow> Some s1
     | (Some obj, s1) \<Rightarrow> Some (setStateObject (so_setBalance prevbalance (obj\<lparr>selfDestructed := prv\<rparr>)) s1))"
| "revertEntry K rm (balanceChange a prv) s = onObject K a (so_setBalance prv) s"
| "revertEntry K rm (nonceChange a prv) s = onObject K a (so_setNonce prv) s"
| "revertEntry K rm (codeChange a prevcode prevhash) s = onObject K a (so_setCode prevhash prevcode) s"
| "revertEntry K rm (storageChange a key prevalue) s = onObject K a (so_setState key prevalue) s"
| "revertEntry K rm (transientStorageChange a key prevalue) s = Some (setTransientState a key prevalue s)"
| "revertEntry K rm (refundChange prv) s = Some (s\<lparr>refund := prv\<rparr>)"
| "revertEntry K rm addLogChange s =
    (if logs s = [] then None else Some (s\<lparr>logs := take (length (logs s) - 1) (logs s)\<rparr>))"
| "revertEntry K rm (accessListAddAccountChange a) s = Some (s\<lparr>accessLst := DeleteAddress a (accessLst s)\<rparr>)"
| "revertEntry K rm (accessListAddSlotChange a slot) s =
    (case DeleteSlot a slot (accessLst s) of None \<Rightarrow> None | Some al \<Rightarrow> Some (s\<lparr>accessLst := al\<rparr>))"

definition dropDirty :: "'v JournalEntry \<Rightarrow> ('c, 'm, 'v) StateDB \<Rightarrow> ('c, 'm, 'v) StateDB" where
  "dropDirty entry s =
    (case Dirtied entry of
       None \<Rightarrow> s
     | Some addr \<Rightarrow> s\<lparr>dirties := fm_put0 addr (fm_get0 (dirties s) addr - 1) (dirties s)\<rparr>)"

text \<open>\<open>journal.Revert\<close>: undo the entries from the last one down to the index, then truncate.\<close>

fun undoEntries :: "'c sdb_keeper \<Rightarrow> ('c, 'm, 'v) cache_api \<Rightarrow> 'v JournalEntry list \<Rightarrow>
    ('c, 'm, 'v) StateDB \<Rightarrow> ('c, 'm, 'v) StateDB option" where
  "undoEntries K rm [] s = Some s"
| "undoEntries K rm (e # es) s =
    (case revertEntry K rm e s of None \<Rightarrow> None | Some s1 \<Rightarrow> undoEntries K rm es (dropDirty e s1))"

definition journal_Revert :: "'c sdb_keeper \<Rightarrow> ('c, 'm, 'v) cache_api \<Rightarrow> nat \<Rightarrow>
    ('c, 'm, 'v) StateDB \<Rightarrow> ('c, 'm, 'v) StateDB option" where
  "journal_Revert K rm snapshot s =
    map_option (\<lambda>s1. s1\<lparr>entries := take snapshot (entries s)\<rparr>)
      (undoEntries K rm (rev (drop snapshot (entries s))) s)"

definition Snapshot :: "('c, 'm, 'v) StateDB \<Rightarrow> int \<times> ('c, 'm, 'v) StateDB" where
  "Snapshot s =
    (let i = nextRevisionID s
     in (i, s\<lparr>nextRevisionID := nextRevisionID s + 1,
              validRevisions := validRevisions s @ [\<lparr>rev_id = i, journalIndex = length (entries s)\<rparr>]\<rparr>))"

text \<open>
  \<open>sort.Search\<close> finds the smallest index whose predicate holds in a slice on which it is
  monotone; the revision ids increase, so this is the first one not below \<open>revid\<close>.
\<close>

fun searchRevision :: "int \<Rightarrow> revision list \<Rightarrow> nat" where
  "searchRevision revid [] = 0"
| "searchRevision revid (r # rs) = (if rev_id r \<ge> revid then 0 else Suc (searchRevision revid rs))"

definition RevertToSnapshot :: "'c sdb_keeper \<Rightarrow> ('c, 'm, 'v) cache_api \<Rightarrow> int \<Rightarrow> ('c, 'm, 'v, unit) sdb_go" where
  "RevertToSnapshot K rm revid s =
    (let idx = searchRevision revid (validRevisions s)
     in if idx = length (validRevisions s) \<or> rev_id (validRevisions s ! idx) \<noteq> revid
        then (Panic ''revision id cannot be reverted'', s)
        else (case journal_Revert K rm (journalIndex (validRevisions s ! idx)) s of
                None \<Rightarrow> (Panic ''journal revert'', s)
              | Some s1 \<Rightarrow> (Ret (), s1\<lparr>validRevisions := take idx (validRevisions s1)\<rparr>)))"

section \<open>Commit\<close>

text \<open>
  \<open>valueBytes\<close> is the 32-byte array of a \<open>common.Hash\<close>, so its length is never zero.
\<close>

definition commitStorage :: "'c sdb_keeper \<Rightarrow> stateObject \<Rightarrow> ('c, string, unit) go" where
  "commitStorage K obj =
    go_for (SortedKeys (dirtyStorage obj)) (\<lambda>key.
      let value = (case fmlookup (dirtyStorage obj) key of Some v \<Rightarrow> v | None \<Rightarrow> 0);
          valueBytes = HashBytes value
      in if length valueBytes = 0 then go_modify (k_DeleteState K (address obj) key)
         else go_modify (k_SetState K (address obj) key valueBytes))"

definition commitObject :: "'c sdb_keeper \<Rightarrow> stateObject \<Rightarrow> ('c, string, unit) go" where
  "commitObject K obj =
    (if selfDestructed obj then k_DeleteAccount K (address obj)
     else
       go_seq (case code obj of
           Some cd \<Rightarrow>
             if dirtyCode obj
             then (if length cd = 0 then go_modify (k_DeleteCode K (CodeHash (account obj)))
                   else go_modify (k_SetCode K (CodeHash (account obj)) cd))
             else go_return ()
         | None \<Rightarrow> go_return ())
       (go_seq (k_SetAccount K (address obj) (account obj)) (commitStorage K obj)))"

definition commitWithCtx :: "'c sdb_keeper \<Rightarrow> ('c, 'm, 'v) StateDB \<Rightarrow> ('c, string, unit) go" where
  "commitWithCtx K s =
    go_for (sortedDirties s) (\<lambda>addr.
      case fmlookup (stateObjects s) addr of
        None \<Rightarrow> go_panic ''nil pointer dereference''
      | Some obj \<Rightarrow> commitObject K obj)"

section \<open>Precompile calls\<close>

definition cache :: "('c, 'm, 'v) cache_api \<Rightarrow> ('c, 'm, 'v, unit) sdb_go" where
  "cache rm s =
    (case cm_Cache rm (ctx s) of
       None \<Rightarrow> (Err ''ctx has no multi store'', s)
     | Some (m, ev) \<Rightarrow> (Ret (), s\<lparr>snapshotter := Some m, cacheEvents := Some ev, writeCache := Some EmitCacheEvents\<rparr>))"

text \<open>The context it returns is the one that the cache fields hold afterwards.\<close>

definition GetCacheContext :: "('c, 'm, 'v) cache_api \<Rightarrow> ('c, 'm, 'v, unit) sdb_go" where
  "GetCacheContext rm s = (if writeCache s = None then cache rm s else (Ret (), s))"

definition MultiStoreSnapshot :: "('c, 'm, 'v) cache_api \<Rightarrow> ('c, 'm, 'v, int) sdb_go" where
  "MultiStoreSnapshot rm s =
    (case snapshotter s of
       None \<Rightarrow> (Panic ''nil pointer dereference'', s)
     | Some m \<Rightarrow>
        (case cm_Snapshot rm m of
           None \<Rightarrow> (Panic ''nil pointer dereference'', s)
         | Some (i, m') \<Rightarrow> (Ret i, s\<lparr>snapshotter := Some m'\<rparr>)))"

text \<open>The events that the keeper emits while it writes the accounts are left out.\<close>

definition CommitWithCacheCtx :: "'c sdb_keeper \<Rightarrow> ('c, 'm, 'v) cache_api \<Rightarrow> ('c, 'm, 'v, unit) sdb_go" where
  "CommitWithCacheCtx K rm s =
    (case snapshotter s of
       None \<Rightarrow> (Panic ''nil pointer dereference'', s)
     | Some m \<Rightarrow>
        (case commitWithCtx K s (cm_Context rm m) of
           (r, c) \<Rightarrow> (r, s\<lparr>snapshotter := Some (cm_Update rm c m)\<rparr>)))"

definition contextEvents :: "('c, 'm, 'v, 'v) sdb_go" where
  "contextEvents s = (case cacheEvents s of None \<Rightarrow> (Panic ''nil pointer dereference'', s) | Some ev \<Rightarrow> (Ret ev, s))"

text \<open>What \<open>RunSetup\<close> of the precompiles does to the database before the method is looked up.\<close>

definition runSetup :: "'c sdb_keeper \<Rightarrow> ('c, 'm, 'v) cache_api \<Rightarrow> ('c, 'm, 'v, unit) sdb_go" where
  "runSetup K rm =
    go_seq (GetCacheContext rm)
   (go_bind (MultiStoreSnapshot rm) (\<lambda>snapshot.
    go_bind contextEvents (\<lambda>events.
    go_seq (AddPrecompileFn snapshot events) (CommitWithCacheCtx K rm))))"

text \<open>
  A call of a precompile: the setup, then the method, which changes the stores and the events of the
  cache context by \<open>body\<close>.  What it does to the state database besides are further operations.
\<close>

definition writeContext :: "('c, 'm, 'v) cache_api \<Rightarrow> ('c \<times> 'v \<Rightarrow> 'c \<times> 'v) \<Rightarrow> ('c, 'm, 'v, unit) sdb_go" where
  "writeContext rm body s =
    (case (snapshotter s, cacheEvents s) of
       (Some m, Some ev) \<Rightarrow>
         (case body (cm_Context rm m, ev) of
            (c, ev') \<Rightarrow> (Ret (), s\<lparr>snapshotter := Some (cm_Update rm c m), cacheEvents := Some ev'\<rparr>))
     | _ \<Rightarrow> (Panic ''nil pointer dereference'', s))"

definition precompileCall :: "'c sdb_keeper \<Rightarrow> ('c, 'm, 'v) cache_api \<Rightarrow> ('c \<times> 'v \<Rightarrow> 'c \<times> 'v) \<Rightarrow> ('c, 'm, 'v, unit) sdb_go" where
  "precompileCall K rm body = go_seq (runSetup K rm) (writeContext rm body)"

end
