(* ===== verification/VmKeeper.thy ===== *)
theory VmKeeper
  imports VmBank FeeMarket VmParams StateDBModel
begin

text \<open>
  The keeper of the EVM module as the database behind the state database: \<open>x/vm/keeper/statedb.go\<close>,
  \<open>x/vm/keeper/keeper.go\<close> and \<open>x/vm/keeper/utils.go\<close>.

  The context \<open>vm_ctx\<close> holds the module's own stores (contract storage, code hashes, code,
  parameters), its transient store (block bloom, transaction index, log size, gas used), the
  store of the fee market and, as \<open>sdkState\<close>, the stores of x/bank, x/precisebank and x/auth, which are
  reached through the bank wrapper and the account keeper \<open>auth_keeper\<close>.  An absent transient value
  reads as zero.  Keccak and the history contract address of go-ethereum are fields of the keeper.
\<close>

section \<open>State\<close>

record ('p, 'a) auth_keeper =
  au_GetAccount :: "'p \<Rightarrow> AccAddress \<Rightarrow> 'a option"
  au_NewAccountWithAddress :: "AccAddress \<Rightarrow> 'p \<Rightarrow> 'a \<times> 'p"
  au_SetAccount :: "'a \<Rightarrow> 'p \<Rightarrow> 'p"
  au_RemoveAccount :: "'a \<Rightarrow> 'p \<Rightarrow> 'p"
  au_Address :: "'a \<Rightarrow> AccAddress"
  au_Sequence :: "'a \<Rightarrow> u64"
  au_SetSequence :: "u64 \<Rightarrow> 'a \<Rightarrow> string + 'a"
  au_PubKey :: "'a \<Rightarrow> bytes option"
  au_AccountNumber :: "'a \<Rightarrow> u64"
  au_NewBaseAccount :: "AccAddress \<Rightarrow> bytes option \<Rightarrow> u64 \<Rightarrow> u64 \<Rightarrow> 'a"

record ('p, 'a) vm_keeper =
  vkBank :: "'p BankWrapper"
  vkAuth :: "('p, 'a) auth_keeper"
  vkFee :: fm_keeper
  vkApi :: vm_api
  vkKeccak256 :: "bytes \<Rightarrow> Hash"
  vkHistoryStorageAddress :: Address
  vkAuthority :: string

record 'p vm_ctx =
  sdkState :: 'p
  storageStore :: "(Address \<times> Hash, bytes) fmap"
  codeHashStore :: "(Address, bytes) fmap"
  codeStore :: "(Hash, bytes) fmap"
  paramsStore :: "vm_Params option"
  feeStore :: fm_ctx
  bloomTransient :: "(int, bytes) fmap"
  txIndexTransient :: "u64 option"
  logSizeTransient :: "u64 option"
  gasUsedTransient :: "u64 option"

text \<open>The header information of the SDK context.\<close>

record vm_header =
  vhBlockHeight :: int
  vhHeaderHash :: bytes
  vhTime :: u64

type_synonym ('p, 'x) vm_go = "('p vm_ctx, sdk_error, 'x) go"

definition onSdk :: "('p, sdk_error, 'x) go \<Rightarrow> ('p, 'x) vm_go" where
  "onSdk m = go_zoom sdkState (\<lambda>p c. c\<lparr>sdkState := p\<rparr>) m"

definition vkEmptyCodeHash :: "('p, 'a) vm_keeper \<Rightarrow> Hash" where
  "vkEmptyCodeHash K = vkKeccak256 K []"

definition IsEmptyCodeHash :: "('p, 'a) vm_keeper \<Rightarrow> Hash \<Rightarrow> bool" where
  "IsEmptyCodeHash K h \<longleftrightarrow> h = vkEmptyCodeHash K"

section \<open>Contract storage and code\<close>

definition vk_GetState :: "'p vm_ctx \<Rightarrow> Address \<Rightarrow> Hash \<Rightarrow> Hash" where
  "vk_GetState c addr key =
    (case fmlookup (storageStore c) (addr, key) of
       None \<Rightarrow> 0
     | Some v \<Rightarrow> if length v = 0 then 0 else BytesToHash v)"

definition GetFastState :: "'p vm_ctx \<Rightarrow> Address \<Rightarrow> Hash \<Rightarrow> bytes option" where
  "GetFastState c addr key = fmlookup (storageStore c) (addr, key)"

definition vk_SetState :: "Address \<Rightarrow> Hash \<Rightarrow> bytes \<Rightarrow> 'p vm_ctx \<Rightarrow> 'p vm_ctx" where
  "vk_SetState addr key v c = c\<lparr>storageStore := fmupd (addr, key) v (storageStore c)\<rparr>"

definition vk_DeleteState :: "Address \<Rightarrow> Hash \<Rightarrow> 'p vm_ctx \<Rightarrow> 'p vm_ctx" where
  "vk_DeleteState addr key c = c\<lparr>storageStore := fmdrop (addr, key) (storageStore c)\<rparr>"

text \<open>The prefix iterator visits the keys of an address in ascending order.\<close>

definition storageKeys :: "'p vm_ctx \<Rightarrow> Address \<Rightarrow> Hash list" where
  "storageKeys c addr =
    sorted_list_of_fset (snd |`| ffilter (\<lambda>ak. fst ak = addr) (fmdom (storageStore c)))"

fun forEach :: "(Hash \<Rightarrow> Hash \<Rightarrow> 'acc \<Rightarrow> bool \<times> 'acc) \<Rightarrow> (Hash \<times> Hash) list \<Rightarrow> 'acc \<Rightarrow> 'acc" where
  "forEach cb [] acc = acc"
| "forEach cb ((key, v) # rest) acc =
    (case cb key v acc of (continue, acc') \<Rightarrow> if \<not> continue then acc' else forEach cb rest acc')"

definition storageEntries :: "'p vm_ctx \<Rightarrow> Address \<Rightarrow> (Hash \<times> Hash) list" where
  "storageEntries c addr =
    map (\<lambda>key. (key, BytesToHash (the (fmlookup (storageStore c) (addr, key))))) (storageKeys c addr)"

definition vk_ForEachStorage :: "'p vm_ctx \<Rightarrow> Address \<Rightarrow> (Hash \<Rightarrow> Hash \<Rightarrow> 'acc \<Rightarrow> bool \<times> 'acc) \<Rightarrow> 'acc \<Rightarrow> 'acc" where
  "vk_ForEachStorage c addr cb acc = forEach cb (storageEntries c addr) acc"

definition GetAccountStorage :: "'p vm_ctx \<Rightarrow> Address \<Rightarrow> (Hash \<times> Hash) list" where
  "GetAccountStorage c addr = vk_ForEachStorage c addr (\<lambda>key v storage. (True, storage @ [(key, v)])) []"

definition vk_GetCodeHash :: "('p, 'a) vm_keeper \<Rightarrow> 'p vm_ctx \<Rightarrow> Address \<Rightarrow> Hash" where
  "vk_GetCodeHash K c addr =
    (case fmlookup (codeHashStore c) addr of
       None \<Rightarrow> vkEmptyCodeHash K
     | Some bz \<Rightarrow> if length bz = 0 then vkEmptyCodeHash K else BytesToHash bz)"

definition vk_SetCodeHash :: "Address \<Rightarrow> Hash \<Rightarrow> 'p vm_ctx \<Rightarrow> 'p vm_ctx" where
  "vk_SetCodeHash addr h c = c\<lparr>codeHashStore := fmupd addr (HashBytes h) (codeHashStore c)\<rparr>"

definition DeleteCodeHash :: "Address \<Rightarrow> 'p vm_ctx \<Rightarrow> 'p vm_ctx" where
  "DeleteCodeHash addr c = c\<lparr>codeHashStore := fmdrop addr (codeHashStore c)\<rparr>"

definition vk_IsContract :: "'p vm_ctx \<Rightarrow> Address \<Rightarrow> bool" where
  "vk_IsContract c addr \<longleftrightarrow> fmlookup (codeHashStore c) addr \<noteq> None"

fun iterContracts :: "(Address \<Rightarrow> Hash \<Rightarrow> 'acc \<Rightarrow> bool \<times> 'acc) \<Rightarrow> (Address \<times> Hash) list \<Rightarrow> 'acc \<Rightarrow> 'acc" where
  "iterContracts cb [] acc = acc"
| "iterContracts cb ((addr, codeHash) # rest) acc =
    (case cb addr codeHash acc of (stop, acc') \<Rightarrow> if stop then acc' else iterContracts cb rest acc')"

definition IterateContracts :: "'p vm_ctx \<Rightarrow> (Address \<Rightarrow> Hash \<Rightarrow> 'acc \<Rightarrow> bool \<times> 'acc) \<Rightarrow> 'acc \<Rightarrow> 'acc" where
  "IterateContracts c cb acc =
    iterContracts cb (map (\<lambda>addr. (addr, BytesToHash (the (fmlookup (codeHashStore c) addr))))
      (sorted_list_of_fset (fmdom (codeHashStore c)))) acc"

definition vk_GetCode :: "'p vm_ctx \<Rightarrow> Hash \<Rightarrow> bytes option" where
  "vk_GetCode c h = fmlookup (codeStore c) h"

definition vk_SetCode :: "Hash \<Rightarrow> bytes \<Rightarrow> 'p vm_ctx \<Rightarrow> 'p vm_ctx" where
  "vk_SetCode h cd c = c\<lparr>codeStore := fmupd h cd (codeStore c)\<rparr>"

definition vk_DeleteCode :: "Hash \<Rightarrow> 'p vm_ctx \<Rightarrow> 'p vm_ctx" where
  "vk_DeleteCode h c = c\<lparr>codeStore := fmdrop h (codeStore c)\<rparr>"

section \<open>Accounts\<close>

definition Uint256FromBigInt :: "int \<Rightarrow> string + u256" where
  "Uint256FromBigInt i =
    (if i < 0 then Inl ''trying to convert negative big.Int to uint256.Int''
     else if i \<ge> 2 ^ 256 then Inl ''overflow trying to convert big.Int to uint256.Int''
     else Inr (word_of_int i))"

definition vk_SpendableCoin :: "('p, 'a) vm_keeper \<Rightarrow> Address \<Rightarrow> ('p, u256 option) vm_go" where
  "vk_SpendableCoin K addr =
    go_bind (onSdk (bw_SpendableCoin (vkBank K) (AddressBytes addr) (eci_Denom (bw_info (vkBank K))))) (\<lambda>coin.
      go_return (case Uint256FromBigInt (Amount coin) of Inl _ \<Rightarrow> None | Inr v \<Rightarrow> Some v))"

definition vk_GetBalance :: "('p, 'a) vm_keeper \<Rightarrow> Address \<Rightarrow> ('p, u256 option) vm_go" where
  "vk_GetBalance K addr =
    go_bind (onSdk (bw_GetBalance (vkBank K) (AddressBytes addr) (eci_Denom (bw_info (vkBank K))))) (\<lambda>coin.
      go_return (case Uint256FromBigInt (Amount coin) of Inl _ \<Rightarrow> None | Inr v \<Rightarrow> Some v))"

text \<open>A \<open>statedb.Account\<close> as the keeper returns it; its balance may be nil.\<close>

record keeperAccount =
  ka_Nonce :: u64
  ka_Balance :: "u256 option"
  ka_CodeHash :: Hash

definition GetAccountWithoutBalance :: "('p, 'a) vm_keeper \<Rightarrow> 'p vm_ctx \<Rightarrow> Address \<Rightarrow> keeperAccount option" where
  "GetAccountWithoutBalance K c addr =
    (case au_GetAccount (vkAuth K) (sdkState c) (AddressBytes addr) of
       None \<Rightarrow> None
     | Some acct \<Rightarrow> Some \<lparr>ka_Nonce = au_Sequence (vkAuth K) acct, ka_Balance = None, ka_CodeHash = vk_GetCodeHash K c addr\<rparr>)"

definition vk_GetAccount :: "('p, 'a) vm_keeper \<Rightarrow> Address \<Rightarrow> ('p, keeperAccount option) vm_go" where
  "vk_GetAccount K addr =
    go_bind (go_gets (\<lambda>c. GetAccountWithoutBalance K c addr)) (\<lambda>acct.
      case acct of
        None \<Rightarrow> go_return None
      | Some acc \<Rightarrow> go_bind (vk_SpendableCoin K addr) (\<lambda>bal. go_return (Some (acc\<lparr>ka_Balance := bal\<rparr>))))"

definition GetAccountOrEmpty :: "('p, 'a) vm_keeper \<Rightarrow> Address \<Rightarrow> ('p, keeperAccount) vm_go" where
  "GetAccountOrEmpty K addr =
    go_bind (vk_GetAccount K addr) (\<lambda>acct.
      go_return (case acct of
        Some acc \<Rightarrow> acc
      | None \<Rightarrow> \<lparr>ka_Nonce = 0, ka_Balance = Some 0, ka_CodeHash = vkEmptyCodeHash K\<rparr>))"

definition vk_GetNonce :: "('p, 'a) vm_keeper \<Rightarrow> 'p vm_ctx \<Rightarrow> Address \<Rightarrow> u64" where
  "vk_GetNonce K c addr =
    (case au_GetAccount (vkAuth K) (sdkState c) (AddressBytes addr) of
       None \<Rightarrow> 0
     | Some acct \<Rightarrow> au_Sequence (vkAuth K) acct)"

definition vk_SetBalance :: "('p, 'a) vm_keeper \<Rightarrow> Address \<Rightarrow> u256 option \<Rightarrow> ('p, unit) vm_go" where
  "vk_SetBalance K addr amount = onSdk (SetBalance (vkBank K) (AddressBytes addr) amount)"

definition vk_SetAccount :: "('p, 'a) vm_keeper \<Rightarrow> Address \<Rightarrow> Account \<Rightarrow> ('p, unit) vm_go" where
  "vk_SetAccount K addr acc = (\<lambda>c.
    case (case au_GetAccount (vkAuth K) (sdkState c) (AddressBytes addr) of
            None \<Rightarrow> au_NewAccountWithAddress (vkAuth K) (AddressBytes addr) (sdkState c)
          | Some acct \<Rightarrow> (acct, sdkState c)) of
      (acct, p) \<Rightarrow>
        (case au_SetSequence (vkAuth K) (Nonce acc) acct of
           Inl e \<Rightarrow> (Err (ErrOther e), c\<lparr>sdkState := p\<rparr>)
         | Inr acct' \<Rightarrow>
             go_seq (go_modify (if IsEmptyCodeHash K (CodeHash acc) then DeleteCodeHash addr else vk_SetCodeHash addr (CodeHash acc)))
               (go_seq (go_modify (\<lambda>c. c\<lparr>sdkState := au_SetAccount (vkAuth K) acct' (sdkState c)\<rparr>))
                 (vk_SetBalance K addr (Some (Balance acc))))
               (c\<lparr>sdkState := p\<rparr>)))"

definition vk_DeleteAccount :: "('p, 'a) vm_keeper \<Rightarrow> Address \<Rightarrow> ('p, unit) vm_go" where
  "vk_DeleteAccount K addr = (\<lambda>c.
    case au_GetAccount (vkAuth K) (sdkState c) (AddressBytes addr) of
      None \<Rightarrow> (Ret (), c)
    | Some acct \<Rightarrow>
       if \<not> vk_IsContract c addr then (Err (ErrOther ''only smart contracts can be self-destructed''), c)
       else
         go_seq (go_modify (\<lambda>c. c\<lparr>sdkState := au_SetAccount (vkAuth K)
             (au_NewBaseAccount (vkAuth K) (AddressBytes addr) (au_PubKey (vkAuth K) acct)
               (au_AccountNumber (vkAuth K) acct) (au_Sequence (vkAuth K) acct)) (sdkState c)\<rparr>))
        (go_seq (vk_SetBalance K addr (Some 0))
        (go_bind (go_gets (\<lambda>c. vk_ForEachStorage c addr (\<lambda>key _ keys. (True, keys @ [key])) [])) (\<lambda>keys.
         go_seq (go_for keys (\<lambda>key. go_modify (vk_DeleteState addr key)))
        (go_seq (go_modify (DeleteCodeHash addr))
           (go_modify (\<lambda>c. c\<lparr>sdkState := au_RemoveAccount (vkAuth K) acct (sdkState c)\<rparr>)))))) c)"

section \<open>The keeper of the state database\<close>

text \<open>
  \<open>newObject\<close> replaces a nil balance by zero, so the interface of the state database has it as zero;
  reading an account cannot panic because the denom it asks for is the configured one.
\<close>

definition sdbGetAccount :: "('p, 'a) vm_keeper \<Rightarrow> 'p vm_ctx \<Rightarrow> Address \<Rightarrow> Account option" where
  "sdbGetAccount K c addr =
    (case fst (vk_GetAccount K addr c) of
       Ret (Some acc) \<Rightarrow> Some \<lparr>Nonce = ka_Nonce acc, Balance = (case ka_Balance acc of None \<Rightarrow> 0 | Some b \<Rightarrow> b),
                            CodeHash = ka_CodeHash acc\<rparr>
     | _ \<Rightarrow> None)"

definition errString :: "sdk_error \<Rightarrow> string" where
  "errString e = (case e of ErrOther m \<Rightarrow> m | ErrInsufficientFunds _ \<Rightarrow> ''insufficient funds'' | _ \<Rightarrow> ''sdk error'')"

definition vmSdb :: "('p, 'a) vm_keeper \<Rightarrow> 'p vm_ctx sdb_keeper" where
  "vmSdb K = \<lparr>k_GetAccount = sdbGetAccount K, k_GetState = vk_GetState, k_GetCode = vk_GetCode,
     k_ForEachStorage = storageEntries, k_SetAccount = (\<lambda>addr acc. go_convErr errString (vk_SetAccount K addr acc)),
     k_DeleteState = vk_DeleteState, k_SetState = vk_SetState, k_DeleteCode = vk_DeleteCode, k_SetCode = vk_SetCode,
     k_DeleteAccount = (\<lambda>addr. go_convErr errString (vk_DeleteAccount K addr)), k_Keccak256Hash = vkKeccak256 K\<rparr>"

section \<open>Transient values\<close>

definition GetBlockBloomTransient :: "vm_header \<Rightarrow> 'p vm_ctx \<Rightarrow> nat" where
  "GetBlockBloomTransient h c =
    (case fmlookup (bloomTransient c) (vhBlockHeight h) of
       None \<Rightarrow> 0
     | Some bz \<Rightarrow> if length bz = 0 then 0 else fromBytes bz)"

text \<open>\<open>big.Int.Bytes\<close> is the shortest big-endian form.\<close>

function bigBytes :: "nat \<Rightarrow> bytes" where
  "bigBytes n = (if n = 0 then [] else bigBytes (n div 256) @ [of_nat (n mod 256)])"
  by auto
termination by (relation "measure id") auto

declare bigBytes.simps [simp del]

definition SetBlockBloomTransient :: "vm_header \<Rightarrow> nat \<Rightarrow> 'p vm_ctx \<Rightarrow> 'p vm_ctx" where
  "SetBlockBloomTransient h bloom c = c\<lparr>bloomTransient := fmupd (vhBlockHeight h) (bigBytes bloom) (bloomTransient c)\<rparr>"

definition SetTxIndexTransient :: "u64 \<Rightarrow> 'p vm_ctx \<Rightarrow> 'p vm_ctx" where
  "SetTxIndexTransient index c = c\<lparr>txIndexTransient := Some index\<rparr>"

definition GetTxIndexTransient :: "'p vm_ctx \<Rightarrow> u64" where
  "GetTxIndexTransient c = (case txIndexTransient c of None \<Rightarrow> 0 | Some i \<Rightarrow> i)"

definition GetLogSizeTransient :: "'p vm_ctx \<Rightarrow> u64" where
  "GetLogSizeTransient c = (case logSizeTransient c of None \<Rightarrow> 0 | Some i \<Rightarrow> i)"

definition SetLogSizeTransient :: "u64 \<Rightarrow> 'p vm_ctx \<Rightarrow> 'p vm_ctx" where
  "SetLogSizeTransient logSize c = c\<lparr>logSizeTransient := Some logSize\<rparr>"

definition ResetTransientGasUsed :: "'p vm_ctx \<Rightarrow> 'p vm_ctx" where
  "ResetTransientGasUsed c = c\<lparr>gasUsedTransient := None\<rparr>"

definition GetTransientGasUsed :: "'p vm_ctx \<Rightarrow> u64" where
  "GetTransientGasUsed c = (case gasUsedTransient c of None \<Rightarrow> 0 | Some g \<Rightarrow> g)"

definition SetTransientGasUsed :: "u64 \<Rightarrow> 'p vm_ctx \<Rightarrow> 'p vm_ctx" where
  "SetTransientGasUsed gasUsed c = c\<lparr>gasUsedTransient := Some gasUsed\<rparr>"

definition AddTransientGasUsed :: "u64 \<Rightarrow> ('p, u64) vm_go" where
  "AddTransientGasUsed gasUsed = (\<lambda>c.
    let result = GetTransientGasUsed c + gasUsed
    in if result < gasUsed then (Err (ErrOther ''transient gas used''), c)
       else (Ret result, SetTransientGasUsed result c))"

section \<open>Fees and block hashes\<close>

definition vk_GetBaseFee :: "('p, 'a) vm_keeper \<Rightarrow> bool \<Rightarrow> 'p vm_ctx \<Rightarrow> int option" where
  "vk_GetBaseFee K isLondon c =
    (if \<not> isLondon then None
     else case fw_GetBaseFee (vkFee K) (feeStore c) of None \<Rightarrow> Some 0 | Some f \<Rightarrow> Some f)"

definition GetMinGasMultiplier :: "('p, 'a) vm_keeper \<Rightarrow> 'p vm_ctx \<Rightarrow> LegacyDec option" where
  "GetMinGasMultiplier K c = MinGasMultiplier (fw_GetParams (vkFee K) (feeStore c))"

definition GetMinGasPrice :: "('p, 'a) vm_keeper \<Rightarrow> 'p vm_ctx \<Rightarrow> LegacyDec option" where
  "GetMinGasPrice K c = MinGasPrice (fw_GetParams (vkFee K) (feeStore c))"

definition historyWindow :: "'p vm_ctx \<Rightarrow> u64" where
  "historyWindow c =
    (let w = vp_HistoryServeWindow (vm_GetParams (paramsStore c)) in if w > 0 then w else DefaultHistoryServeWindow)"

definition ringKey :: "u64 \<Rightarrow> Hash" where
  "ringKey ringIndex = ucast ringIndex"

definition SetHeaderHash :: "('p, 'a) vm_keeper \<Rightarrow> vm_header \<Rightarrow> 'p vm_ctx \<Rightarrow> 'p vm_ctx" where
  "SetHeaderHash K h c =
    (let window = historyWindow c
     in case fst (vk_GetAccount K (vkHistoryStorageAddress K) c) of
          Ret (Some acct) \<Rightarrow>
            if ka_CodeHash acct \<noteq> vkEmptyCodeHash K
            then vk_SetState (vkHistoryStorageAddress K) (ringKey (word_of_int (vhBlockHeight h) mod window)) (vhHeaderHash h) c
            else c
        | _ \<Rightarrow> c)"

definition GetHeaderHash :: "('p, 'a) vm_keeper \<Rightarrow> 'p vm_ctx \<Rightarrow> u64 \<Rightarrow> Hash" where
  "GetHeaderHash K c height = vk_GetState c (vkHistoryStorageAddress K) (ringKey (height mod historyWindow c))"

text \<open>\<open>recompute\<close> is the hash of the header as CometBFT computes it, \<open>None\<close> when the header is invalid.\<close>

definition GetHashFn :: "('p, 'a) vm_keeper \<Rightarrow> vm_header \<Rightarrow> bytes option \<Rightarrow> 'p vm_ctx \<Rightarrow> u64 \<Rightarrow> Hash" where
  "GetHashFn K h recompute c height =
    (case SafeInt64 height of
       None \<Rightarrow> 0
     | Some n \<Rightarrow>
        if vhBlockHeight h = n
        then (if length (vhHeaderHash h) \<noteq> 0 then BytesToHash (vhHeaderHash h)
              else case recompute of None \<Rightarrow> 0 | Some hh \<Rightarrow> BytesToHash hh)
        else if vhBlockHeight h > n then GetHeaderHash K c height
        else 0)"

end
