(* ===== verification/VmGas.thy ===== *)
theory VmGas
  imports GasMeter
begin

text \<open>
  Gas and fee arithmetic of the EVM module: \<open>GasToRefund\<close> of \<open>x/vm/keeper/gas.go\<close>,
  \<open>CheckSenderBalance\<close> and \<open>VerifyFee\<close> of \<open>x/vm/keeper/fees.go\<close>, \<open>BinSearch\<close> and
  \<open>EffectiveGasPrice\<close> of \<open>x/vm/types/utils.go\<close>, \<open>GetTxPriority\<close> of \<open>x/vm/types/tx.go\<close> and
  \<open>calculateCumulativeGasFromEthResponse\<close> of \<open>x/vm/keeper/state_transition.go\<close>.
\<close>

section \<open>Definitions\<close>

text \<open>A quotient of zero is a division by zero, \<open>None\<close>; the callers pass 1, 2 or 5.\<close>

definition GasToRefund :: "u64 \<Rightarrow> u64 \<Rightarrow> u64 \<Rightarrow> u64 option" where
  "GasToRefund availableRefund gasConsumed refundQuotient =
    (if refundQuotient = 0 then None
     else let rfnd = gasConsumed div refundQuotient
          in Some (if rfnd > availableRefund then availableRefund else rfnd))"

definition EffectiveGasPrice :: "int \<Rightarrow> int \<Rightarrow> int \<Rightarrow> int" where
  "EffectiveGasPrice baseFee feeCap tipCap =
    (let calcVal = tipCap + baseFee in if calcVal < feeCap then calcVal else feeCap)"


definition calculateCumulativeGasFromEthResponse :: "infiniteGasMeterWithLimit option \<Rightarrow> u64 \<Rightarrow> u64" where
  "calculateCumulativeGasFromEthResponse meter gasUsed =
    (case meter of
       None \<Rightarrow> gasUsed
     | Some g \<Rightarrow>
        let cumulativeGasUsed = gasUsed + GasConsumed g
        in if cumulativeGasUsed > Limit g then Limit g else cumulativeGasUsed)"

datatype fee_error = NegativeCost | SenderBalanceTooLow | IntrinsicGasFailed | OutOfGas | InsufficientFee

definition CheckSenderBalance :: "int \<Rightarrow> int \<Rightarrow> fee_error option" where
  "CheckSenderBalance balance cost =
    (if cost < 0 then Some NegativeCost
     else if balance < 0 \<or> balance < cost then Some SenderBalanceTooLow
     else None)"

text \<open>
  The fields of an Ethereum transaction that \<open>VerifyFee\<close> reads; the intrinsic gas and the effective
  tip are computed by go-ethereum.
\<close>

record fee_tx =
  ft_Gas :: u64
  ft_GasFeeCap :: int
  ft_IntrinsicGas :: "string + u64"
  ft_EffectiveGasTip :: "int option \<Rightarrow> int"

text \<open>The result is the amount of the one coin, \<open>None\<close> for no coins.  Adding a nil base fee panics, and so does \<open>NewIntFromBigInt\<close> above 256 bits.\<close>

definition VerifyFee :: "fee_tx \<Rightarrow> int option \<Rightarrow> bool \<Rightarrow> (fee_error, int option) outcome" where
  "VerifyFee tx baseFee isCheckTx =
    (case ft_IntrinsicGas tx of
       Inl _ \<Rightarrow> Err IntrinsicGasFailed
     | Inr intrinsicGas \<Rightarrow>
        if isCheckTx \<and> ft_Gas tx < intrinsicGas then Err OutOfGas
        else case baseFee of
          None \<Rightarrow> Panic ''nil pointer dereference''
        | Some bf \<Rightarrow>
           if ft_GasFeeCap tx < bf then Err InsufficientFee
           else
             let price = ft_EffectiveGasTip tx baseFee + bf;
                 feeAmt = uint (ft_Gas tx) * price
             in if feeAmt = 0 then Ret None
                else if 2 ^ 256 \<le> \<bar>feeAmt\<bar> then Panic ''NewIntFromBigInt() out of bound''
                else Ret (Some feeAmt))"

definition GetTxPriority :: "int \<Rightarrow> int \<Rightarrow> int" where
  "GetTxPriority tipPrice priorityReduction =
    (let priorityBig = Quo tipPrice priorityReduction
     in if - (2 ^ 63) \<le> priorityBig \<and> priorityBig < 2 ^ 63 then priorityBig else 2 ^ 63 - 1)"

section \<open>Lemmas\<close>

lemma GasToRefund_bounds:
  assumes "GasToRefund available used q = Some r"
  shows "unat r \<le> unat available" "unat r \<le> unat used div unat q" "r = available \<or> r = used div q"
  using assms by (auto simp: GasToRefund_def Let_def word_le_nat_alt word_less_nat_alt unat_div split: if_splits)





section \<open>Properties\<close>



text \<open>A transaction with a tip of two over a base fee of seven, and a fee cap of eight.\<close>

definition feeExample :: fee_tx where
  "feeExample = \<lparr>ft_Gas = 21000, ft_GasFeeCap = 8, ft_IntrinsicGas = Inr 21000,
     ft_EffectiveGasTip = (\<lambda>bf. case bf of None \<Rightarrow> 2 | Some b \<Rightarrow> min 2 (8 - b))\<rparr>"

text \<open>
  \<open>VerifyFee\<close> charges exactly the gas limit times the effective gas price, which lies between
  the base fee and the fee cap: it accepts only a fee cap of at least the base fee and, when
  checking a transaction, a gas limit of at least the intrinsic gas; the fee is below \<open>2 ^ 256\<close>.
\<close>

theorem VerifyFee_charges:
  assumes "ft_EffectiveGasTip tx (Some bf) = min tip (ft_GasFeeCap tx - bf)" "0 \<le> tip" "0 \<le> bf"
  shows "VerifyFee tx (Some bf) isCheckTx = Ret fee \<longleftrightarrow>
    (\<exists>g. ft_IntrinsicGas tx = Inr g \<and> (isCheckTx \<longrightarrow> g \<le> ft_Gas tx)) \<and> bf \<le> ft_GasFeeCap tx \<and>
    uint (ft_Gas tx) * EffectiveGasPrice bf (ft_GasFeeCap tx) tip < 2 ^ 256 \<and>
    fee = (let f = uint (ft_Gas tx) * EffectiveGasPrice bf (ft_GasFeeCap tx) tip in if f = 0 then None else Some f) \<and>
    bf \<le> EffectiveGasPrice bf (ft_GasFeeCap tx) tip \<and> EffectiveGasPrice bf (ft_GasFeeCap tx) tip \<le> ft_GasFeeCap tx"
proof -
  let ?p = "EffectiveGasPrice bf (ft_GasFeeCap tx) tip"
  have p: "ft_EffectiveGasTip tx (Some bf) + bf = ?p"
    using assms(1) by (simp add: EffectiveGasPrice_def Let_def min_def)
  have b: "bf \<le> ?p" "?p \<le> ft_GasFeeCap tx" if "bf \<le> ft_GasFeeCap tx"
    using that assms(2) by (simp_all add: EffectiveGasPrice_def Let_def)
  have "0 \<le> uint (ft_Gas tx) * ?p" if "bf \<le> ft_GasFeeCap tx"
    using b(1) [OF that] assms(3) by simp
  then show ?thesis
    using b unfolding VerifyFee_def Let_def option.case p by (auto simp: not_less split: sum.split if_splits)
qed

theorem VerifyFee_charges_witness: "VerifyFee feeExample (Some 7) True = Ret (Some (21000 * 8))"
  using VerifyFee_charges [of feeExample 7 2 True "Some (21000 * 8)"]
  by (simp add: feeExample_def EffectiveGasPrice_def)

end
