(* ===== verification/VmTransition.thy ===== *)
theory VmTransition
  imports VmKeeper VmGas
begin

text \<open>
  The state transition: \<open>x/vm/keeper/state_transition.go\<close>, \<open>x/vm/keeper/config.go\<close>,
  \<open>x/vm/keeper/block_proposer.go\<close>, \<open>RefundGas\<close> and \<open>GetEthIntrinsicGas\<close> of \<open>x/vm/keeper/gas.go\<close>, \<open>Commit\<close> of
  \<open>x/vm/statedb/statedb.go\<close> and \<open>CallEVMWithData\<close> of \<open>x/vm/keeper/call_evm.go\<close>.

  The interpreter and the transaction functions of go-ethereum are the fields of \<open>eth_api\<close>: a call
  or a creation runs on the state database and returns the leftover gas.  The validator lookup of
  x/staking and the post-transaction hooks are parameters too.  Tracing, events and logging are
  left out; a panic that go-ethereum or the SDK raises is a \<open>Panic\<close>.  The logs of a response are
  kept in their Ethereum form, since converting them to protobuf and back is the identity.
\<close>

section \<open>Messages and the chain configuration\<close>

record SetCodeAuthorization =
  sa_ChainID :: u256
  sa_Address :: Address
  sa_Nonce :: u64
  sa_Signature :: bytes

record core_msg =
  m_From :: Address
  m_To :: "Address option"
  m_Nonce :: u64
  m_Value :: int
  m_GasLimit :: u64
  m_GasPrice :: int
  m_Data :: bytes
  m_AccessList :: "(Address \<times> Hash list) list"
  m_SetCodeAuthorizations :: "SetCodeAuthorization list"

text \<open>\<open>params.ChainConfig\<close>: which forks are active at a height and time.\<close>

record chain_config =
  cc_ChainID :: int
  cc_IsHomestead :: "int \<Rightarrow> bool"
  cc_IsIstanbul :: "int \<Rightarrow> bool"
  cc_IsLondon :: "int \<Rightarrow> bool"
  cc_IsShanghai :: "int \<Rightarrow> u64 \<Rightarrow> bool"
  cc_IsPrague :: "int \<Rightarrow> u64 \<Rightarrow> bool"
  cc_Rules :: "int \<Rightarrow> u64 \<Rightarrow> Rules"

record EVMConfig =
  cfg_Params :: vm_Params
  cfg_CoinBase :: Address
  cfg_BaseFee :: "int option"

text \<open>The block and message environment that \<open>NewEVM\<close> gives to the interpreter.\<close>

record evm_env =
  ee_Msg :: core_msg
  ee_Coinbase :: Address
  ee_GasLimit :: u64
  ee_BlockNumber :: int
  ee_Time :: u64
  ee_BaseFee :: "int option"
  ee_NoBaseFee :: bool
  ee_ExtraEips :: "int list"
  ee_GetHash :: "u64 \<Rightarrow> Hash"
  ee_AccessControl :: AccessControl

record evm_result =
  er_Ret :: bytes
  er_LeftoverGas :: u64
  er_Err :: "string option"
  er_ReturnData :: bytes

record ('c, 'm, 'v, 'tx) eth_api =
  eth_IntrinsicGas :: "bytes \<Rightarrow> (Address \<times> Hash list) list \<Rightarrow> SetCodeAuthorization list \<Rightarrow> bool \<Rightarrow> bool \<Rightarrow> bool \<Rightarrow> bool \<Rightarrow> string + u64"
  eth_FloorDataGas :: "bytes \<Rightarrow> string + u64"
  eth_ActivePrecompiles :: "evm_env \<Rightarrow> Address list"
  eth_Create :: "evm_env \<Rightarrow> Address \<Rightarrow> bytes \<Rightarrow> u64 \<Rightarrow> u256 \<Rightarrow> ('c, 'm, 'v, evm_result) sdb_go"
  eth_Call :: "evm_env \<Rightarrow> Address \<Rightarrow> Address \<Rightarrow> bytes \<Rightarrow> u64 \<Rightarrow> u256 \<Rightarrow> ('c, 'm, 'v, evm_result) sdb_go"
  eth_ParseDelegation :: "bytes \<Rightarrow> Address option"
  eth_AddressToDelegation :: "Address \<Rightarrow> bytes"
  eth_Authority :: "SetCodeAuthorization \<Rightarrow> string + Address"
  eth_CreateBloom :: "Log list \<Rightarrow> nat"
  eth_CreateAddress :: "Address \<Rightarrow> u64 \<Rightarrow> Address"
  eth_TransactionToMessage :: "'tx \<Rightarrow> int option \<Rightarrow> string + core_msg"
  eth_Sender :: "'tx \<Rightarrow> string + Address"
  eth_TxHash :: "'tx \<Rightarrow> Hash"

section \<open>Configuration\<close>

definition GetProposerAddress :: "bytes \<Rightarrow> bytes \<Rightarrow> bytes" where
  "GetProposerAddress headerProposer proposerAddress =
    (if length proposerAddress = 0 then headerProposer else proposerAddress)"

text \<open>\<open>validator\<close> is the lookup of x/staking: the operator of a consensus address.\<close>

definition GetCoinbaseAddress :: "(bytes \<Rightarrow> bytes option) \<Rightarrow> bytes \<Rightarrow> bytes \<Rightarrow> string + Address" where
  "GetCoinbaseAddress validator headerProposer proposerAddress =
    (case validator (GetProposerAddress headerProposer proposerAddress) of
       None \<Rightarrow> Inl ''failed to retrieve validator from block proposer address''
     | Some op \<Rightarrow> Inr (BytesToAddress op))"

definition vk_EVMConfig ::
    "('p, 'a) vm_keeper \<Rightarrow> chain_config \<Rightarrow> vm_header \<Rightarrow> string + Address \<Rightarrow> 'p vm_ctx \<Rightarrow> string + EVMConfig" where
  "vk_EVMConfig K CC h coinbase c =
    (case coinbase of
       Inl _ \<Rightarrow> Inl ''failed to obtain coinbase address''
     | Inr cb \<Rightarrow> Inr \<lparr>cfg_Params = vm_GetParams (paramsStore c), cfg_CoinBase = cb,
                     cfg_BaseFee = vk_GetBaseFee K (cc_IsLondon CC (vhBlockHeight h)) c\<rparr>)"

definition vk_TxConfig :: "vm_header \<Rightarrow> Hash \<Rightarrow> 'p vm_ctx \<Rightarrow> TxConfig" where
  "vk_TxConfig h txHash c = \<lparr>BlockHash = BytesToHash (vhHeaderHash h), TxHash = txHash,
     TxIndex = GetTxIndexTransient c, LogIndex = GetLogSizeTransient c\<rparr>"

definition NewEmptyTxConfig :: "Hash \<Rightarrow> TxConfig" where
  "NewEmptyTxConfig bhash = \<lparr>BlockHash = bhash, TxHash = 0, TxIndex = 0, LogIndex = 0\<rparr>"

text \<open>\<open>recompute\<close> is the CometBFT hash of the header, \<open>blockGas\<close> the value of \<open>BlockGasLimit\<close>.\<close>

definition NewEVM ::
    "('p, 'a) vm_keeper \<Rightarrow> chain_config \<Rightarrow> vm_header \<Rightarrow> bytes option \<Rightarrow> u64 \<Rightarrow> core_msg \<Rightarrow> EVMConfig \<Rightarrow> 'p vm_ctx \<Rightarrow> evm_env" where
  "NewEVM K CC h recompute blockGas msg cfg c =
    \<lparr>ee_Msg = msg, ee_Coinbase = cfg_CoinBase cfg, ee_GasLimit = blockGas, ee_BlockNumber = vhBlockHeight h, ee_Time = vhTime h,
     ee_BaseFee = cfg_BaseFee cfg,
     ee_NoBaseFee = (if cc_IsLondon CC (vhBlockHeight h) then NoBaseFee (fw_GetParams (vkFee K) (feeStore c)) else True),
     ee_ExtraEips = vp_ExtraEIPs (cfg_Params cfg), ee_GetHash = GetHashFn K h recompute c,
     ee_AccessControl = vp_AccessControl (cfg_Params cfg)\<rparr>"

definition GetEthIntrinsicGas ::
    "('c, 'm, 'v, 'tx) eth_api \<Rightarrow> chain_config \<Rightarrow> vm_header \<Rightarrow> core_msg \<Rightarrow> bool \<Rightarrow> string + u64" where
  "GetEthIntrinsicGas E CC h msg isContractCreation =
    eth_IntrinsicGas E (m_Data msg) (m_AccessList msg) (m_SetCodeAuthorizations msg) isContractCreation
      (cc_IsHomestead CC (vhBlockHeight h)) (cc_IsIstanbul CC (vhBlockHeight h)) (cc_IsShanghai CC (vhBlockHeight h) (vhTime h))"

section \<open>Delegations\<close>

text \<open>An operation of the state database that only returns a value.\<close>

definition sdbDo :: "(('c, 'm, 'v) StateDB \<Rightarrow> 'x \<times> ('c, 'm, 'v) StateDB) \<Rightarrow> ('c, 'm, 'v, 'x) sdb_go" where
  "sdbDo f = (\<lambda>s. case f s of (x, s') \<Rightarrow> (Ret x, s'))"

definition validateAuthorization ::
    "'c sdb_keeper \<Rightarrow> ('c, 'm, 'v, 'tx) eth_api \<Rightarrow> SetCodeAuthorization \<Rightarrow> int \<Rightarrow> ('c, 'm, 'v, Address) sdb_go" where
  "validateAuthorization K E auth chainID =
    (if sa_ChainID auth \<noteq> 0 \<and> uint (sa_ChainID auth) \<noteq> chainID then go_err ''wrong chain id''
     else if sa_Nonce auth + 1 < sa_Nonce auth then go_err ''nonce overflow''
     else case eth_Authority E auth of
       Inl _ \<Rightarrow> go_err ''invalid signature''
     | Inr authority \<Rightarrow>
        go_seq (AddAddressToAccessList authority)
       (go_bind (sdbDo (GetCode K authority)) (\<lambda>cd.
          if length (sliceBytes cd) \<noteq> 0 \<and> eth_ParseDelegation E (sliceBytes cd) = None then go_err ''destination has code''
          else go_bind (sdbDo (GetNonce K authority)) (\<lambda>have.
            if have \<noteq> sa_Nonce auth then go_err ''nonce mismatch'' else go_return authority))))"

text \<open>The refund is \<open>CallNewAccountGas - TxAuthTupleGas\<close>, 25000 minus 12500.\<close>

definition applyAuthorization ::
    "'c sdb_keeper \<Rightarrow> ('c, 'm, 'v, 'tx) eth_api \<Rightarrow> SetCodeAuthorization \<Rightarrow> int \<Rightarrow> ('c, 'm, 'v, unit) sdb_go" where
  "applyAuthorization K E auth chainID =
    go_bind (validateAuthorization K E auth chainID) (\<lambda>authority.
    go_bind (sdbDo (Exist K authority)) (\<lambda>ex.
    go_seq (go_when ex (AddRefund 12500))
   (go_seq (SetNonce K authority (sa_Nonce auth + 1))
     (go_bind (if sa_Address auth = 0 then SetCode K authority None
               else SetCode K authority (Some (eth_AddressToDelegation E (sa_Address auth)))) (\<lambda>_. go_return ())))))"

text \<open>Errors of an authorization are logged and skipped; its access list entry stays.\<close>

definition skipErr :: "('s, 'e, unit) go \<Rightarrow> ('s, 'e, unit) go" where
  "skipErr m = (\<lambda>s. case m s of (Err _, s') \<Rightarrow> (Ret (), s') | (Ret _, s') \<Rightarrow> (Ret (), s') | (Panic p, s') \<Rightarrow> (Panic p, s'))"

definition executeMessage ::
    "'c sdb_keeper \<Rightarrow> ('c, 'm, 'v, 'tx) eth_api \<Rightarrow> chain_config \<Rightarrow> evm_env \<Rightarrow> core_msg \<Rightarrow> u64 \<Rightarrow> u256 \<Rightarrow> ('c, 'm, 'v, evm_result) sdb_go" where
  "executeMessage K E CC env msg leftoverGas value =
    (case m_To msg of
       None \<Rightarrow>
         go_seq (SetNonce K (m_From msg) (m_Nonce msg))
        (go_bind (eth_Create E env (m_From msg) (m_Data msg) leftoverGas value) (\<lambda>res.
           go_seq (SetNonce K (m_From msg) (m_Nonce msg + 1)) (go_return res)))
     | Some to \<Rightarrow>
         go_seq (go_for (m_SetCodeAuthorizations msg) (\<lambda>auth. skipErr (applyAuthorization K E auth (cc_ChainID CC))))
        (go_bind (sdbDo (GetCode K to)) (\<lambda>cd.
         go_seq (case eth_ParseDelegation E (sliceBytes cd) of
                   Some addr \<Rightarrow> AddAddressToAccessList addr
                 | None \<Rightarrow> go_return ())
           (eth_Call E env (m_From msg) to (m_Data msg) leftoverGas value))))"

section \<open>Applying a message\<close>

datatype apply_error = ErrIntrinsicGas | ErrFloorDataGas | ErrGasOverflow | ErrCommit string | ErrApply string

record MsgEthereumTxResponse =
  GasUsed :: u64
  MaxUsedGas :: u64
  VmError :: string
  RespRet :: bytes
  Logs :: "Log list"
  RespHash :: Hash

definition Failed :: "MsgEthereumTxResponse \<Rightarrow> bool" where
  "Failed m \<longleftrightarrow> length (VmError m) > 0"

text \<open>
  \<open>Commit\<close>: what stateful precompiles wrote goes to the stores first, with the events of the cache
  context, or those that a revert saved.  \<open>writeStores\<close> is that write of the Cosmos SDK.
\<close>

definition cachedEvents :: "('c, 'm, 'v) StateDB \<Rightarrow> 'v write_cache \<Rightarrow> 'v option" where
  "cachedEvents s w = (case w of EmitCacheEvents \<Rightarrow> cacheEvents s | EmitSavedEvents evs \<Rightarrow> Some evs)"

definition StateDB_Commit ::
    "'c sdb_keeper \<Rightarrow> ('v option \<Rightarrow> 'm option \<Rightarrow> 'c \<Rightarrow> 'c) \<Rightarrow> ('c, 'm, 'v) StateDB \<Rightarrow> ('c, string, unit) go" where
  "StateDB_Commit K writeStores s =
    go_seq (case writeCache s of None \<Rightarrow> go_return () | Some w \<Rightarrow> go_modify (writeStores (cachedEvents s w) (snapshotter s)))
      (commitWithCtx K s)"

definition isUint64 :: "int \<Rightarrow> bool" where
  "isUint64 n \<longleftrightarrow> 0 \<le> n \<and> n < 2 ^ 64"

definition refundQuotient :: "bool \<Rightarrow> bool \<Rightarrow> u64" where
  "refundQuotient isLondon internal = (if internal then 1 else if isLondon then 5 else 2)"

text \<open>
  The gas that is charged, after the message has run and the state database is committed:
  \<open>limit\<close> is the gas limit, \<open>used\<close> the gas after the refund and \<open>leftover\<close> the rest.
\<close>

definition chargeGas :: "('p, 'a) vm_keeper \<Rightarrow> u64 \<Rightarrow> u64 \<Rightarrow> u64 \<Rightarrow> bool \<Rightarrow> ('p vm_ctx, apply_error, u64) go" where
  "chargeGas K lim used leftover internal =
    go_bind (go_gets (GetMinGasMultiplier K)) (\<lambda>mult.
      case mult of
        None \<Rightarrow> go_panic ''nil pointer dereference''
      | Some minGasMultiplier \<Rightarrow>
          let D = fmDec (vkFee K);
              minimumGasUsed = Dec_Mul D (Dec_FromInt D (uint lim)) minGasMultiplier
          in if \<not> isUint64 (Dec_TruncateInt D minimumGasUsed) then go_err ErrGasOverflow
             else if lim < leftover then go_err ErrGasOverflow
             else
               let gasUsed0 = Dec_FromInt D (sint used);
                   gasUsed = (if internal then gasUsed0 else max gasUsed0 minimumGasUsed);
                   n = Dec_TruncateInt D gasUsed
               in if \<not> isUint64 n then go_panic ''Uint64() out of bounds'' else go_return (word_of_int n))"

definition settleMessage ::
    "('p, 'a) vm_keeper \<Rightarrow> ('v option \<Rightarrow> 'm option \<Rightarrow> 'p vm_ctx \<Rightarrow> 'p vm_ctx) \<Rightarrow> u64 \<Rightarrow> bool \<Rightarrow> bool \<Rightarrow> bool \<Rightarrow>
     Hash \<Rightarrow> evm_result \<Rightarrow> ('p vm_ctx, 'm, 'v) StateDB \<Rightarrow> ('p vm_ctx, apply_error, MsgEthereumTxResponse) go" where
  "settleMessage K writeStores lim isLondon internal commit txHash res s =
    (if lim < er_LeftoverGas res then go_err ErrGasOverflow
     else
       let maxUsedGas = lim - er_LeftoverGas res
       in case GasToRefund (refund s) maxUsedGas (refundQuotient isLondon internal) of
            None \<Rightarrow> go_panic ''integer divide by zero''
          | Some rfnd \<Rightarrow>
             let vmError = (case er_Err res of None \<Rightarrow> '''' | Some e \<Rightarrow> e)
             in go_seq (go_when commit (go_convErr ErrCommit (StateDB_Commit (vmSdb K) writeStores s)))
               (go_bind (chargeGas K lim (maxUsedGas - rfnd) (er_LeftoverGas res + rfnd) internal) (\<lambda>gasUsed.
                  go_return \<lparr>GasUsed = gasUsed, MaxUsedGas = maxUsedGas, VmError = vmError,
                     RespRet = (if vmError = ''execution reverted'' then er_ReturnData res else er_Ret res),
                     Logs = logs s, RespHash = txHash\<rparr>)))"

text \<open>The floor of EIP-7623 applies from the Prague fork on.\<close>

definition checkFloorDataGas :: "('c, 'm, 'v, 'tx) eth_api \<Rightarrow> bool \<Rightarrow> core_msg \<Rightarrow> apply_error option" where
  "checkFloorDataGas E isPrague msg =
    (if \<not> isPrague then None
     else case eth_FloorDataGas E (m_Data msg) of
       Inl e \<Rightarrow> Some (ErrApply e)
     | Inr floorDataGas \<Rightarrow> if m_GasLimit msg < floorDataGas then Some ErrFloorDataGas else None)"

definition ApplyMessageWithConfig ::
    "('p, 'a) vm_keeper \<Rightarrow> ('p vm_ctx, 'm, 'v, 'tx) eth_api \<Rightarrow> chain_config \<Rightarrow> ('v option \<Rightarrow> 'm option \<Rightarrow> 'p vm_ctx \<Rightarrow> 'p vm_ctx) \<Rightarrow>
     vm_header \<Rightarrow> bytes option \<Rightarrow> u64 \<Rightarrow> core_msg \<Rightarrow> bool \<Rightarrow> EVMConfig \<Rightarrow> TxConfig \<Rightarrow> bool \<Rightarrow> ('p vm_ctx, apply_error, MsgEthereumTxResponse) go" where
  "ApplyMessageWithConfig K E CC writeStores h recompute blockGas msg commit cfg txConf internal = (\<lambda>c.
    let stateDB = StateDB_New c txConf;
        env = NewEVM K CC h recompute blockGas msg cfg c;
        rules = cc_Rules CC (vhBlockHeight h) (vhTime h)
    in case GetEthIntrinsicGas E CC h msg (m_To msg = None) of
         Inl _ \<Rightarrow> (Err (ErrApply ''intrinsic gas failed''), c)
       | Inr intrinsicGas \<Rightarrow>
          if m_GasLimit msg < intrinsicGas then (Err ErrIntrinsicGas, c)
          else case checkFloorDataGas E (cc_IsPrague CC (vhBlockHeight h) (vhTime h)) msg of
            Some e \<Rightarrow> (Err e, c)
          | None \<Rightarrow>
             (case Prepare rules (m_From msg) 0 (m_To msg) (eth_ActivePrecompiles E env) (m_AccessList msg) stateDB of
                (Panic p, _) \<Rightarrow> (Panic p, c)
              | (Err e, _) \<Rightarrow> (Err (ErrApply e), c)
              | (Ret _, s1) \<Rightarrow>
                 (case Uint256FromBigInt (m_Value msg) of
                    Inl e \<Rightarrow> (Err (ErrApply e), c)
                  | Inr convertedValue \<Rightarrow>
                     (case executeMessage (vmSdb K) E CC env msg (m_GasLimit msg - intrinsicGas) convertedValue s1 of
                        (Panic p, _) \<Rightarrow> (Panic p, c)
                      | (Err e, _) \<Rightarrow> (Err (ErrApply e), c)
                      | (Ret res, s2) \<Rightarrow>
                         settleMessage K writeStores (m_GasLimit msg) (cc_IsLondon CC (vhBlockHeight h)) internal commit (TxHash txConf) res s2 c))))"

definition ApplyMessage ::
    "('p, 'a) vm_keeper \<Rightarrow> ('p vm_ctx, 'm, 'v, 'tx) eth_api \<Rightarrow> chain_config \<Rightarrow> ('v option \<Rightarrow> 'm option \<Rightarrow> 'p vm_ctx \<Rightarrow> 'p vm_ctx) \<Rightarrow>
     vm_header \<Rightarrow> bytes option \<Rightarrow> u64 \<Rightarrow> string + Address \<Rightarrow> core_msg \<Rightarrow> bool \<Rightarrow> bool \<Rightarrow> ('p vm_ctx, apply_error, MsgEthereumTxResponse) go" where
  "ApplyMessage K E CC writeStores h recompute blockGas coinbase msg commit internal = (\<lambda>c.
    case vk_EVMConfig K CC h coinbase c of
      Inl _ \<Rightarrow> (Err (ErrApply ''failed to load evm config''), c)
    | Inr cfg \<Rightarrow> ApplyMessageWithConfig K E CC writeStores h recompute blockGas msg commit cfg
                 (NewEmptyTxConfig (BytesToHash (vhHeaderHash h))) internal c)"

section \<open>Applying a transaction\<close>

text \<open>
  The context of a transaction: the stores and the gas meter.  \<open>CacheContext\<close> copies the stores and
  shares the meter, so a context that is not written back is dropped here by going on with the
  old stores.
\<close>

record 'p tx_ctx =
  txVm :: "'p vm_ctx"
  txMeter :: infiniteGasMeterWithLimit

definition onVm :: "('p vm_ctx, 'e, 'x) go \<Rightarrow> ('p tx_ctx, 'e, 'x) go" where
  "onVm m = go_zoom txVm (\<lambda>c t. t\<lparr>txVm := c\<rparr>) m"

definition onMeter :: "'x gm_go \<Rightarrow> ('p tx_ctx, apply_error, 'x) go" where
  "onMeter m = go_zoom txMeter (\<lambda>g t. t\<lparr>txMeter := g\<rparr>)
     (\<lambda>g. case m g of (Err _, g') \<Rightarrow> (Panic ''gas meter'', g') | (Ret x, g') \<Rightarrow> (Ret x, g') | (Panic p, g') \<Rightarrow> (Panic p, g'))"

definition resetMeter :: "u64 \<Rightarrow> ('p tx_ctx, apply_error, unit) go" where
  "resetMeter gasUsed = onMeter (ResetGasMeterAndConsumeGas GasConsumed RefundGas ConsumeGas gasUsed)"

record Receipt =
  rc_Status :: bool
  rc_CumulativeGasUsed :: u64
  rc_Bloom :: nat
  rc_Logs :: "Log list"
  rc_TxHash :: Hash
  rc_ContractAddress :: Address
  rc_GasUsed :: u64
  rc_BlockHash :: Hash
  rc_BlockNumber :: int
  rc_TransactionIndex :: u64

text \<open>\<open>CreateBloom\<close> is the bloom filter of logs as a number; the block bloom accumulates it.\<close>

definition initializeBloomFromLogs :: "('c, 'm, 'v, 'tx) eth_api \<Rightarrow> vm_header \<Rightarrow> Log list \<Rightarrow> 'p vm_ctx \<Rightarrow> nat option" where
  "initializeBloomFromLogs E h ethLogs c =
    (if length ethLogs > 0 then Some (or (GetBlockBloomTransient h c) (eth_CreateBloom E ethLogs)) else None)"

definition FeeCollectorName :: string where
  "FeeCollectorName = ''fee_collector''"

definition vk_RefundGas :: "('p, 'a) vm_keeper \<Rightarrow> core_msg \<Rightarrow> u64 \<Rightarrow> denom \<Rightarrow> ('p vm_ctx, apply_error, unit) go" where
  "vk_RefundGas K msg leftoverGas denom =
    (let remaining = uint leftoverGas * m_GasPrice msg
     in if remaining < 0 then go_err (ErrApply ''refunded amount value cannot be negative'')
        else if remaining > 0
        then (if \<not> IsValidInt256 (Some remaining) then go_panic ''NewIntFromBigInt() out of bound''
              else go_convErr (\<lambda>_. ErrApply ''fee collector account failed to refund fees'')
                (onSdk (bw_SendCoinsFromModuleToAccount (vkBank K) FeeCollectorName (AddressBytes (m_From msg)) [NewCoin denom remaining])))
        else go_return ())"

type_synonym 'p tx_hook = "Address \<Rightarrow> core_msg \<Rightarrow> Receipt \<Rightarrow> ('p vm_ctx, string, Receipt) go"

text \<open>The receipt that the hooks see.\<close>

definition newReceipt ::
    "('c, 'm, 'v, 'tx) eth_api \<Rightarrow> vm_header \<Rightarrow> TxConfig \<Rightarrow> core_msg \<Rightarrow> MsgEthereumTxResponse \<Rightarrow> 'p tx_ctx \<Rightarrow> Receipt" where
  "newReceipt E h txConf msg res t =
    \<lparr>rc_Status = \<not> Failed res,
     rc_CumulativeGasUsed = calculateCumulativeGasFromEthResponse (Some (txMeter t)) (GasUsed res),
     rc_Bloom = (case initializeBloomFromLogs E h (Logs res) (txVm t) of None \<Rightarrow> 0 | Some b \<Rightarrow> b),
     rc_Logs = Logs res, rc_TxHash = TxHash txConf,
     rc_ContractAddress = (if m_To msg = None then eth_CreateAddress E (m_From msg) (m_Nonce msg) else 0),
     rc_GasUsed = GasUsed res, rc_BlockHash = BlockHash txConf, rc_BlockNumber = vhBlockHeight h,
     rc_TransactionIndex = TxIndex txConf\<rparr>"

text \<open>
  After the message: a failed execution drops its stores, then the hooks run.  An error of the
  hooks drops the stores as well and turns the response into a failure without logs.
\<close>

definition postProcess ::
    "'p tx_hook option \<Rightarrow> Address \<Rightarrow> core_msg \<Rightarrow> Receipt \<Rightarrow> MsgEthereumTxResponse \<Rightarrow> 'p vm_ctx \<Rightarrow> 'p vm_ctx \<Rightarrow>
     (apply_error, MsgEthereumTxResponse) outcome \<times> 'p vm_ctx" where
  "postProcess hooks signerAddr msg receipt res c c1 =
    (let tmp = (if Failed res then c else c1)
     in case hooks of
          None \<Rightarrow> (Ret res, tmp)
        | Some hook \<Rightarrow>
           (case hook signerAddr msg receipt tmp of
              (Panic p, _) \<Rightarrow> (Panic p, c)
            | (Err e, _) \<Rightarrow> (Ret (res\<lparr>VmError := ''failed to execute post transaction processing: '' @ e, Logs := []\<rparr>), c)
            | (Ret receipt', c2) \<Rightarrow> (Ret (res\<lparr>Logs := (if Failed res then [] else rc_Logs receipt')\<rparr>), c2)))"

text \<open>The transient values of the block after the transaction.\<close>

definition recordTx ::
    "('c, 'm, 'v, 'tx) eth_api \<Rightarrow> vm_header \<Rightarrow> TxConfig \<Rightarrow> MsgEthereumTxResponse \<Rightarrow> nat option \<Rightarrow> ('p vm_ctx, apply_error, u64) go" where
  "recordTx E h txConf res bloom =
    go_seq (case bloom of
        None \<Rightarrow> go_return ()
      | Some b \<Rightarrow> go_seq (go_modify (SetBlockBloomTransient h b))
                   (go_modify (SetLogSizeTransient (LogIndex txConf + of_nat (length (Logs res))))))
   (go_seq (go_modify (SetTxIndexTransient (TxIndex txConf + 1)))
     (go_convErr (\<lambda>_. ErrApply ''failed to add transient gas used'') (AddTransientGasUsed (GasUsed res))))"

definition ApplyTransaction ::
    "('p, 'a) vm_keeper \<Rightarrow> ('p vm_ctx, 'm, 'v, 'tx) eth_api \<Rightarrow> chain_config \<Rightarrow> ('v option \<Rightarrow> 'm option \<Rightarrow> 'p vm_ctx \<Rightarrow> 'p vm_ctx) \<Rightarrow>
     'p tx_hook option \<Rightarrow> vm_header \<Rightarrow> bytes option \<Rightarrow> u64 \<Rightarrow> string + Address \<Rightarrow> 'tx \<Rightarrow> ('p tx_ctx, apply_error, MsgEthereumTxResponse) go" where
  "ApplyTransaction K E CC writeStores hooks h recompute blockGas coinbase tx = (\<lambda>t.
    case vk_EVMConfig K CC h coinbase (txVm t) of
      Inl _ \<Rightarrow> (Err (ErrApply ''failed to load evm config''), t)
    | Inr cfg \<Rightarrow>
       let txConf = vk_TxConfig h (eth_TxHash E tx) (txVm t)
       in case eth_TransactionToMessage E tx (cfg_BaseFee cfg) of
            Inl _ \<Rightarrow> (Err (ErrApply ''failed to return ethereum transaction as core message''), t)
          | Inr msg \<Rightarrow>
             (case ApplyMessageWithConfig K E CC writeStores h recompute blockGas msg True cfg txConf False (txVm t) of
                (Panic p, _) \<Rightarrow> (Panic p, t)
              | (Err e, _) \<Rightarrow> go_seq (resetMeter (Limit (txMeter t))) (go_err e) t
              | (Ret res, c1) \<Rightarrow>
                 (case eth_Sender E tx of
                    Inl _ \<Rightarrow> (Err (ErrApply ''failed to extract sender address from ethereum transaction''), t)
                  | Inr signerAddr \<Rightarrow>
                     (case postProcess hooks signerAddr msg (newReceipt E h txConf msg res t) res (txVm t) c1 of
                        (Panic p, c2) \<Rightarrow> (Panic p, t)
                      | (Err e, c2) \<Rightarrow> (Err e, t)
                      | (Ret res', c2) \<Rightarrow>
                         let bloom = initializeBloomFromLogs E h (Logs res') c2;
                             remainingGas = (if m_GasLimit msg > GasUsed res' then m_GasLimit msg - GasUsed res' else 0)
                         in go_seq (onVm (vk_RefundGas K msg remainingGas (eci_Denom (bw_info (vkBank K)))))
                             (go_bind (onVm (recordTx E h txConf res' bloom)) (\<lambda>totalGasUsed.
                               go_seq (resetMeter totalGasUsed) (go_return res'))) (t\<lparr>txVm := c2\<rparr>)))))"

text \<open>A call from another module; \<open>getSequence\<close> is the lookup of x/auth.  The gas cap is not used.\<close>

definition CallEVMWithData ::
    "('p, 'a) vm_keeper \<Rightarrow> ('p vm_ctx, 'm, 'v, 'tx) eth_api \<Rightarrow> chain_config \<Rightarrow> ('v option \<Rightarrow> 'm option \<Rightarrow> 'p vm_ctx \<Rightarrow> 'p vm_ctx) \<Rightarrow>
     vm_header \<Rightarrow> bytes option \<Rightarrow> u64 \<Rightarrow> string + Address \<Rightarrow> (Address \<Rightarrow> 'p vm_ctx \<Rightarrow> string + u64) \<Rightarrow> u64 \<Rightarrow>
     Address \<Rightarrow> Address option \<Rightarrow> bytes \<Rightarrow> bool \<Rightarrow> int option \<Rightarrow> ('p tx_ctx, apply_error, MsgEthereumTxResponse) go" where
  "CallEVMWithData K E CC writeStores h recompute blockGas coinbase getSequence DefaultGasCap from contract data commit gasCap = (\<lambda>t.
    case getSequence from (txVm t) of
      Inl e \<Rightarrow> (Err (ErrApply e), t)
    | Inr nonce \<Rightarrow>
       let msg = \<lparr>m_From = from, m_To = contract, m_Nonce = nonce, m_Value = 0, m_GasLimit = DefaultGasCap, m_GasPrice = 0,
                  m_Data = data, m_AccessList = [], m_SetCodeAuthorizations = []\<rparr>
       in go_bind (onVm (ApplyMessage K E CC writeStores h recompute blockGas coinbase msg commit True)) (\<lambda>res.
            if Failed res
            then go_seq (resetMeter (Limit (txMeter t))) (go_err (ErrApply (VmError res)))
            else go_seq (onMeter (ConsumeGas (GasUsed res) ''apply evm message'')) (go_return res)) t)"

text \<open>\<open>pack\<close> is the ABI encoding of the method and its arguments.\<close>

definition CallEVM ::
    "('p, 'a) vm_keeper \<Rightarrow> ('p vm_ctx, 'm, 'v, 'tx) eth_api \<Rightarrow> chain_config \<Rightarrow> ('v option \<Rightarrow> 'm option \<Rightarrow> 'p vm_ctx \<Rightarrow> 'p vm_ctx) \<Rightarrow>
     vm_header \<Rightarrow> bytes option \<Rightarrow> u64 \<Rightarrow> string + Address \<Rightarrow> (Address \<Rightarrow> 'p vm_ctx \<Rightarrow> string + u64) \<Rightarrow> u64 \<Rightarrow>
     string + bytes \<Rightarrow> Address \<Rightarrow> Address \<Rightarrow> bool \<Rightarrow> int option \<Rightarrow> ('p tx_ctx, apply_error, MsgEthereumTxResponse) go" where
  "CallEVM K E CC writeStores h recompute blockGas coinbase getSequence DefaultGasCap pack from contract commit gasCap =
    (case pack of
       Inl _ \<Rightarrow> go_err (ErrApply ''failed to create transaction data'')
     | Inr data \<Rightarrow> CallEVMWithData K E CC writeStores h recompute blockGas coinbase getSequence DefaultGasCap from (Some contract) data commit gasCap)"

end
