(* ===== verification/StateDBCache.thy ===== *)
theory StateDBCache
  imports StateDBModel SnapshotStore
begin

text \<open>
  What the state database relies on of the multi store under its cache context: a revert to a
  snapshot gives the store at the snapshot back, whatever was written since.  The snapshot multi
  store of \<open>x/vm/store/snapshotmulti\<close> has this behaviour.
\<close>

section \<open>The contract\<close>

text \<open>The multi stores that a cache context can have.\<close>

inductive cm_reach :: "('c, 'm, 'v) cache_api \<Rightarrow> 'm \<Rightarrow> bool" for rm where
  cached: "cm_Cache rm c = Some (m, ev) \<Longrightarrow> cm_reach rm m"
| pushed: "cm_reach rm m \<Longrightarrow> cm_Snapshot rm m = Some (i, m') \<Longrightarrow> cm_reach rm m'"
| written: "cm_reach rm m \<Longrightarrow> cm_reach rm (cm_Update rm c m)"
| reverted: "cm_reach rm m \<Longrightarrow> cm_RevertToSnapshot rm i m = Some m' \<Longrightarrow> cm_reach rm m'"

locale cache_store =
  fixes rm :: "('c, 'm, 'v) cache_api"
  assumes fresh_store: "cm_Cache rm c = Some (m, ev) \<Longrightarrow> cm_RevertToSnapshot rm i m = None"
    and snapshot_store: "cm_reach rm m \<Longrightarrow> \<exists>i m'. cm_Snapshot rm m = Some (i, m') \<and> cm_RevertToSnapshot rm i m' = Some m"
    and update_store: "cm_reach rm m \<Longrightarrow> cm_RevertToSnapshot rm i (cm_Update rm c m) = cm_RevertToSnapshot rm i m"
begin

lemma update_twice:
  assumes "cm_reach rm m"
  shows "cm_RevertToSnapshot rm i (cm_Update rm c' (cm_Update rm c m)) = cm_RevertToSnapshot rm i m"
  using update_store [OF assms] update_store [OF cm_reach.written [OF assms]] by simp

end

section \<open>The snapshot multi store\<close>

text \<open>
  A context is the content of its KV stores, \<open>put\<close> writes a content into the top layer of a store,
  and \<open>ev\<close> is what a new event manager holds.
\<close>

definition multiCache :: "('l, 'd) cachekv \<Rightarrow> ('d \<Rightarrow> 'l \<Rightarrow> 'l) \<Rightarrow> 'v \<Rightarrow>
    (('k :: linorder, 'd) fmap, ('k, 'l, 'd) snapshotmulti, 'v) cache_api" where
  "multiCache C put ev =
    \<lparr>cm_Cache = (\<lambda>c. if fmdom c = {||} then None
        else Some (sm_NewStore (\<lambda>k. (the (fmlookup c k), ck_fresh C)) (fmdom c), ev)),
     cm_Snapshot = sm_Snapshot C, cm_RevertToSnapshot = sm_RevertToSnapshot,
     cm_Context = (\<lambda>m. fmmap (kv_view C) (sm_stores m)),
     cm_Update = (\<lambda>c m. fold (\<lambda>k m. case fmlookup c k of None \<Rightarrow> m | Some d \<Rightarrow> sm_updateCurrent (k, put d) m) (sm_storeKeys m) m)\<rparr>"

lemma multiCache_update:
  assumes "sm_fits m"
  shows "sm_fits (cm_Update (multiCache C put ev) c m)"
    "sm_RevertToSnapshot i (cm_Update (multiCache C put ev) c m) = sm_RevertToSnapshot i m"
proof -
  let ?f = "\<lambda>k m. case fmlookup c k of None \<Rightarrow> m | Some d \<Rightarrow> sm_updateCurrent (k, put d) m"
  have "sm_fits (fold ?f ks m) \<and> sm_RevertToSnapshot i (fold ?f ks m) = sm_RevertToSnapshot i m" for ks
    using assms
  proof (induction ks arbitrary: m)
    case (Cons k ks)
    have "sm_fits (?f k m)" "sm_RevertToSnapshot i (?f k m) = sm_RevertToSnapshot i m"
      using sm.change_fits [OF Cons.prems] sm.revert_change [OF Cons.prems] Cons.prems by (auto split: option.split)
    then show ?case using Cons.IH [of "?f k m"] by simp
  qed simp
  then show "sm_fits (cm_Update (multiCache C put ev) c m)"
    "sm_RevertToSnapshot i (cm_Update (multiCache C put ev) c m) = sm_RevertToSnapshot i m"
    by (simp_all add: multiCache_def)
qed

lemma multiCache_fits: "cm_reach (multiCache C put ev) m \<Longrightarrow> sm_fits m"
proof (induction rule: cm_reach.induct)
  case (cached c m ev')
  then show ?case by (auto simp: multiCache_def intro: sm_NewStore_fits split: if_splits)
next
  case (pushed m i m')
  then show ?case using sm.snapshot_push [OF pushed.IH, of C] by (auto simp: multiCache_def)
next
  case (written m c)
  then show ?case by (simp add: multiCache_update)
next
  case (reverted m i m')
  then show ?case using sm.revert_fits [OF reverted.IH] by (simp add: multiCache_def)
qed

interpretation multi: cache_store "multiCache C put ev"
  for C :: "('l, 'd) cachekv" and put :: "'d \<Rightarrow> 'l \<Rightarrow> 'l" and ev :: 'v
proof (unfold_locales, goal_cases)
  case (1 c m ev' i)
  then have "sm_head m = 0" by (auto simp: multiCache_def sm_NewStore_def InitialHead_def Let_def split: if_splits)
  then show ?case using sm_Revert_panics [OF multiCache_fits [OF cm_reach.cached [OF 1]], of i] by (simp add: multiCache_def)
next
  case (2 m)
  note fits = multiCache_fits [OF 2]
  obtain i m' where m': "sm_Snapshot C m = Some (i, m')" using sm.snapshot_push [OF fits, of C] by blast
  have "sm_RevertToSnapshot i m' = Some m"
    by (rule sm.revert_restores [OF fits _ m', of "[]"]) (simp_all add: sm_layers_def)
  then show ?case using m' by (simp add: multiCache_def)
next
  case (3 m i c)
  then show ?case using multiCache_update(2) [OF multiCache_fits [OF 3]] by (simp add: multiCache_def)
qed

section \<open>No multi store\<close>

text \<open>For databases that no stateful precompile is called on.\<close>

definition noCalls :: "'c \<Rightarrow> ('c, 'm, 'v) cache_api" where
  "noCalls c = \<lparr>cm_Cache = (\<lambda>_. None), cm_Snapshot = (\<lambda>_. None), cm_RevertToSnapshot = (\<lambda>_ _. None),
     cm_Context = (\<lambda>_. c), cm_Update = (\<lambda>_ m. m)\<rparr>"

lemma noCalls_unreachable: "\<not> cm_reach (noCalls c) m"
proof
  assume "cm_reach (noCalls c) m"
  then show False by induction (simp_all add: noCalls_def)
qed

interpretation nocall: cache_store "noCalls c" for c
  by unfold_locales (simp_all add: noCalls_unreachable, simp add: noCalls_def)

end
