(* ===== verification/StateDBRevert.thy ===== *)
theory StateDBRevert
  imports StateDBCache
begin

text \<open>
  The journal undoes every change: after any sequence of operations, reverting to a snapshot
  gives a database that is observationally the one the snapshot was taken of.  Two databases are
  observationally equal (\<open>sim\<close>) when every read agrees; caches of the keeper's content may differ.
\<close>

section \<open>Observations\<close>

definition objOf :: "'c sdb_keeper \<Rightarrow> ('c, 'm, 'v) StateDB \<Rightarrow> Address \<Rightarrow> stateObject option" where
  "objOf K s a =
    (case fmlookup (stateObjects s) a of
       Some obj \<Rightarrow> Some obj
     | None \<Rightarrow> map_option (\<lambda>acc. newObject K a (Some acc)) (k_GetAccount K (ctx s) a))"

definition obs :: "'c sdb_keeper \<Rightarrow> 'c \<Rightarrow> stateObject \<Rightarrow>
    Address \<times> Account \<times> bytes option \<times> bool \<times> bool \<times> (Hash \<Rightarrow> Hash) \<times> (Hash \<Rightarrow> Hash)" where
  "obs K c ob = (address ob, account ob, fst (so_Code K c ob), selfDestructed ob, newContract ob,
     (\<lambda>k. fst (so_GetState K c k ob)), (\<lambda>k. fst (so_GetCommittedState K c k ob)))"

text \<open>
  The multi store that a precompile call works on: the one of the cache context, or the one that a
  new cache context has.
\<close>

definition multiOf :: "('c, 'm, 'v) cache_api \<Rightarrow> ('c, 'm, 'v) StateDB \<Rightarrow> 'm option" where
  "multiOf rm s = (case snapshotter s of Some m \<Rightarrow> Some m | None \<Rightarrow> map_option fst (cm_Cache rm (ctx s)))"

definition sim0 :: "'c sdb_keeper \<Rightarrow> ('c, 'm, 'v) cache_api \<Rightarrow> ('c, 'm, 'v) StateDB \<Rightarrow> ('c, 'm, 'v) StateDB \<Rightarrow> bool" where
  "sim0 K rm s t \<longleftrightarrow>
    ctx s = ctx t \<and> (\<forall>a. map_option (obs K (ctx s)) (objOf K s a) = map_option (obs K (ctx s)) (objOf K t a)) \<and>
    multiOf rm s = multiOf rm t \<and> transientStore s = transientStore t \<and>
    txConfig s = txConfig t \<and> refund s = refund t \<and> logs s = logs t \<and> accessLst s = accessLst t"

definition sim :: "'c sdb_keeper \<Rightarrow> ('c, 'm, 'v) cache_api \<Rightarrow> ('c, 'm, 'v) StateDB \<Rightarrow> ('c, 'm, 'v) StateDB \<Rightarrow> bool" where
  "sim K rm s t \<longleftrightarrow> sim0 K rm s t \<and> dirties s = dirties t"

text \<open>Objects are stored under their address, and the fields of the cache context are set together.\<close>

definition addr_ok :: "('c, 'm, 'v) StateDB \<Rightarrow> bool" where
  "addr_ok s \<longleftrightarrow> (\<forall>a ob. fmlookup (stateObjects s) a = Some ob \<longrightarrow> address ob = a) \<and>
     (writeCache s = None \<longleftrightarrow> snapshotter s = None) \<and> (cacheEvents s = None \<longleftrightarrow> snapshotter s = None)"

definition sdb_wf :: "('c, 'm, 'v) cache_api \<Rightarrow> ('c, 'm, 'v) StateDB \<Rightarrow> bool" where
  "sdb_wf rm s \<longleftrightarrow> addr_ok s \<and> al_wf (accessLst s) \<and> ts_wf (transientStore s) \<and>
     (\<forall>a n. fmlookup (dirties s) a = Some n \<longrightarrow> 0 < n) \<and> (\<forall>m. snapshotter s = Some m \<longrightarrow> cm_reach rm m)"

text \<open>The state \<open>s'\<close> extends the journal of \<open>s\<close>, and undoing the extension gives \<open>s\<close> back.\<close>

definition undoable :: "'c sdb_keeper \<Rightarrow> ('c, 'm, 'v) cache_api \<Rightarrow> ('c, 'm, 'v) StateDB \<Rightarrow> ('c, 'm, 'v) StateDB \<Rightarrow> bool" where
  "undoable K rm s s' \<longleftrightarrow> sdb_wf rm s' \<and> validRevisions s' = validRevisions s \<and> nextRevisionID s' = nextRevisionID s \<and>
    (\<exists>es u. entries s' = entries s @ es \<and> undoEntries K rm (rev es) s' = Some u \<and> addr_ok u \<and> sim K rm u s)"

section \<open>Objects\<close>

lemma obs_eqD:
  assumes "obs K c ob = obs K c ob'"
  shows "address ob = address ob'" "account ob = account ob'" "fst (so_Code K c ob) = fst (so_Code K c ob')"
    "selfDestructed ob = selfDestructed ob'" "newContract ob = newContract ob'"
    "fst (so_GetState K c k ob) = fst (so_GetState K c k ob')"
    "fst (so_GetCommittedState K c k ob) = fst (so_GetCommittedState K c k ob')"
  using assms by (auto simp: obs_def dest: fun_cong)

lemma code_read:
  "fst (so_Code K c ob) = (case code ob of Some cd \<Rightarrow> Some cd
     | None \<Rightarrow> if CodeHash (account ob) = EmptyCodeHash K then None else k_GetCode K c (CodeHash (account ob)))"
  by (auto simp: so_Code_def Let_def split: option.split)

lemma committed_read:
  "fst (so_GetCommittedState K c k ob) =
     (case fmlookup (originStorage ob) k of Some v \<Rightarrow> v | None \<Rightarrow> k_GetState K c (address ob) k)"
  by (simp add: so_GetCommittedState_def Let_def split: option.split)

lemma state_read:
  "fst (so_GetState K c k ob) =
     (case fmlookup (dirtyStorage ob) k of Some v \<Rightarrow> v | None \<Rightarrow> fst (so_GetCommittedState K c k ob))"
  by (simp add: so_GetState_def split: option.split)

lemmas obs_read = obs_def code_read committed_read state_read

lemma read_unchanged [simp]:
  "fst (so_Code K c (so_setBalance v ob)) = fst (so_Code K c ob)"
  "fst (so_Code K c (so_setNonce n ob)) = fst (so_Code K c ob)"
  "fst (so_Code K c (so_setState k w ob)) = fst (so_Code K c ob)"
  "fst (so_Code K c (ob\<lparr>newContract := b\<rparr>)) = fst (so_Code K c ob)"
  "fst (so_Code K c (ob\<lparr>selfDestructed := b\<rparr>)) = fst (so_Code K c ob)"
  "fst (so_GetCommittedState K c j (so_setBalance v ob)) = fst (so_GetCommittedState K c j ob)"
  "fst (so_GetCommittedState K c j (so_setNonce n ob)) = fst (so_GetCommittedState K c j ob)"
  "fst (so_GetCommittedState K c j (so_setCode h cd ob)) = fst (so_GetCommittedState K c j ob)"
  "fst (so_GetCommittedState K c j (so_setState k w ob)) = fst (so_GetCommittedState K c j ob)"
  "fst (so_GetCommittedState K c j (ob\<lparr>newContract := b\<rparr>)) = fst (so_GetCommittedState K c j ob)"
  "fst (so_GetCommittedState K c j (ob\<lparr>selfDestructed := b\<rparr>)) = fst (so_GetCommittedState K c j ob)"
  "fst (so_GetState K c j (so_setBalance v ob)) = fst (so_GetState K c j ob)"
  "fst (so_GetState K c j (so_setNonce n ob)) = fst (so_GetState K c j ob)"
  "fst (so_GetState K c j (so_setCode h cd ob)) = fst (so_GetState K c j ob)"
  "fst (so_GetState K c j (ob\<lparr>newContract := b\<rparr>)) = fst (so_GetState K c j ob)"
  "fst (so_GetState K c j (ob\<lparr>selfDestructed := b\<rparr>)) = fst (so_GetState K c j ob)"
  by (simp_all add: code_read committed_read state_read so_setBalance_def so_setNonce_def so_setCode_def so_setState_def
      split: option.split)

lemma read_changed [simp]:
  "fst (so_GetState K c j (so_setState k w ob)) = (if j = k then w else fst (so_GetState K c j ob))"
  "fst (so_Code K c (so_setCode h cd ob)) =
     (case cd of Some x \<Rightarrow> Some x | None \<Rightarrow> if h = EmptyCodeHash K then None else k_GetCode K c h)"
  by (simp_all add: state_read committed_read code_read so_setState_def so_setCode_def split: option.split)

lemma fields_unchanged [simp]:
  "account (so_setState k w ob) = account ob" "account (so_setBalance v ob) = (account ob)\<lparr>Balance := v\<rparr>"
  "account (so_setNonce n ob) = (account ob)\<lparr>Nonce := n\<rparr>" "account (so_setCode h cd ob) = (account ob)\<lparr>CodeHash := h\<rparr>"
  "selfDestructed (so_setState k w ob) = selfDestructed ob" "selfDestructed (so_setBalance v ob) = selfDestructed ob"
  "selfDestructed (so_setNonce n ob) = selfDestructed ob" "selfDestructed (so_setCode h cd ob) = selfDestructed ob"
  "newContract (so_setState k w ob) = newContract ob" "newContract (so_setBalance v ob) = newContract ob"
  "newContract (so_setNonce n ob) = newContract ob" "newContract (so_setCode h cd ob) = newContract ob"
  "address (so_setBalance v ob) = address ob" "address (so_setNonce n ob) = address ob"
  "address (so_setCode h cd ob) = address ob" "address (so_setState k w ob) = address ob"
  "address (newObject K a acc) = a"
  by (simp_all add: so_setState_def so_setBalance_def so_setNonce_def so_setCode_def newObject_def)

lemma obs_congs:
  assumes "obs K c ob = obs K c ob'"
  shows "obs K c (so_setBalance v ob) = obs K c (so_setBalance v ob')"
    "obs K c (so_setNonce n ob) = obs K c (so_setNonce n ob')"
    "obs K c (so_setCode h cd ob) = obs K c (so_setCode h cd ob')"
    "obs K c (so_setState k w ob) = obs K c (so_setState k w ob')"
    "obs K c (ob\<lparr>newContract := b\<rparr>) = obs K c (ob'\<lparr>newContract := b\<rparr>)"
    "obs K c (ob\<lparr>selfDestructed := b\<rparr>) = obs K c (ob'\<lparr>selfDestructed := b\<rparr>)"
  using obs_eqD [OF assms] by (simp_all add: obs_def fun_eq_iff)

lemma obs_cache_code: "obs K c (snd (so_Code K c ob)) = obs K c ob" "address (snd (so_Code K c ob)) = address ob"
  by (auto simp: obs_read so_Code_def Let_def split: option.split)

lemma obs_cache_state: "obs K c (snd (so_GetState K c k ob)) = obs K c ob" "address (snd (so_GetState K c k ob)) = address ob"
  by (auto simp: obs_read so_GetState_def so_GetCommittedState_def Let_def fun_eq_iff split: option.split)

lemma obs_cache_committed:
  "obs K c (snd (so_GetCommittedState K c k ob)) = obs K c ob" "address (snd (so_GetCommittedState K c k ob)) = address ob"
  by (auto simp: obs_read so_GetCommittedState_def Let_def fun_eq_iff split: option.split)

section \<open>Observational equality\<close>

lemma sim_refl [simp]: "sim K rm s s"
  by (simp add: sim_def sim0_def)

lemma sim_sym: "sim K rm s t \<Longrightarrow> sim K rm t s"
  by (auto simp: sim_def sim0_def)

lemma sim_trans [trans]: "sim K rm s t \<Longrightarrow> sim K rm t u \<Longrightarrow> sim K rm s u"
  by (auto simp: sim_def sim0_def)

lemma simD:
  assumes "sim K rm s t"
  shows "ctx s = ctx t" "multiOf rm s = multiOf rm t"
    "transientStore s = transientStore t" "txConfig s = txConfig t" "refund s = refund t" "logs s = logs t"
    "accessLst s = accessLst t" "dirties s = dirties t"
    "map_option (obs K (ctx t)) (objOf K s a) = map_option (obs K (ctx t)) (objOf K t a)"
  using assms by (auto simp: sim_def sim0_def)

lemma multiOf_update [simp]:
  "multiOf rm (s\<lparr>refund := r\<rparr>) = multiOf rm s" "multiOf rm (s\<lparr>logs := l\<rparr>) = multiOf rm s"
  "multiOf rm (s\<lparr>accessLst := al\<rparr>) = multiOf rm s" "multiOf rm (s\<lparr>transientStore := ts\<rparr>) = multiOf rm s"
  "multiOf rm (s\<lparr>dirties := d\<rparr>) = multiOf rm s" "multiOf rm (s\<lparr>stateObjects := so\<rparr>) = multiOf rm s"
  "multiOf rm (s\<lparr>entries := es\<rparr>) = multiOf rm s" "multiOf rm (s\<lparr>validRevisions := rs\<rparr>) = multiOf rm s"
  "multiOf rm (s\<lparr>nextRevisionID := i\<rparr>) = multiOf rm s" "multiOf rm (s\<lparr>entries := es, dirties := d\<rparr>) = multiOf rm s"
  "multiOf rm (s\<lparr>snapshotter := Some m, writeCache := w\<rparr>) = Some m" "multiOf rm (setStateObject ob s) = multiOf rm s"
  by (simp_all add: multiOf_def setStateObject_def cong: option.case_cong)

lemma objOf_setStateObject [simp]:
  "objOf K (setStateObject ob s) a = (if a = address ob then Some ob else objOf K s a)"
  by (simp add: objOf_def setStateObject_def split: option.split)

lemma objOf_update [simp]:
  "objOf K (s\<lparr>refund := r\<rparr>) = objOf K s" "objOf K (s\<lparr>logs := l\<rparr>) = objOf K s"
  "objOf K (s\<lparr>accessLst := al\<rparr>) = objOf K s" "objOf K (s\<lparr>transientStore := ts\<rparr>) = objOf K s"
  "objOf K (s\<lparr>dirties := d\<rparr>) = objOf K s" "objOf K (s\<lparr>snapshotter := m, writeCache := w\<rparr>) = objOf K s"
  "objOf K (s\<lparr>entries := es\<rparr>) = objOf K s" "objOf K (s\<lparr>validRevisions := rs\<rparr>) = objOf K s"
  "objOf K (s\<lparr>nextRevisionID := i\<rparr>) = objOf K s" "objOf K (s\<lparr>entries := es, dirties := d\<rparr>) = objOf K s"
  by (simp_all add: objOf_def fun_eq_iff split: option.split)

lemma objOf_fmdrop [simp]:
  "objOf K (s\<lparr>stateObjects := fmdrop a (stateObjects s)\<rparr>) b =
    (if b = a then map_option (\<lambda>acc. newObject K a (Some acc)) (k_GetAccount K (ctx s) a) else objOf K s b)"
  by (simp add: objOf_def split: option.split)

lemma setStateObject_fields [simp]:
  "ctx (setStateObject ob s) = ctx s" "snapshotter (setStateObject ob s) = snapshotter s" "cacheEvents (setStateObject ob s) = cacheEvents s"
  "writeCache (setStateObject ob s) = writeCache s" "transientStore (setStateObject ob s) = transientStore s"
  "txConfig (setStateObject ob s) = txConfig s" "refund (setStateObject ob s) = refund s"
  "logs (setStateObject ob s) = logs s" "accessLst (setStateObject ob s) = accessLst s"
  "dirties (setStateObject ob s) = dirties s" "entries (setStateObject ob s) = entries s"
  "validRevisions (setStateObject ob s) = validRevisions s" "nextRevisionID (setStateObject ob s) = nextRevisionID s"
  "stateObjects (setStateObject ob s) = fmupd (address ob) ob (stateObjects s)"
  by (simp_all add: setStateObject_def)

lemma addr_ok_setStateObject [simp]: "addr_ok s \<Longrightarrow> addr_ok (setStateObject ob s)"
  by (auto simp: addr_ok_def)

lemma sim_setStateObject:
  assumes "sim K rm s t" "obs K (ctx t) ob = obs K (ctx t) ob'"
  shows "sim K rm (setStateObject ob s) (setStateObject ob' t)"
  using assms obs_eqD(1) [OF assms(2)] by (auto simp: sim_def sim0_def)

text \<open>Loading an object into the cache, or caching a value in it, is not observable.\<close>

lemma getStateObject_objOf: "fst (getStateObject K a s) = objOf K s a"
  by (simp add: getStateObject_def objOf_def Let_def split: option.split)

lemma getStateObject_state:
  "snd (getStateObject K a s) = (case objOf K s a of None \<Rightarrow> s | Some ob \<Rightarrow> s\<lparr>stateObjects := fmupd a ob (stateObjects s)\<rparr>)"
  by (auto simp: getStateObject_def objOf_def Let_def setStateObject_def split: option.split)

lemma objOf_address: "addr_ok s \<Longrightarrow> objOf K s a = Some ob \<Longrightarrow> address ob = a"
  by (auto simp: objOf_def addr_ok_def split: option.splits)

lemma getStateObject_cached:
  assumes "addr_ok s"
  shows "getStateObject K a s = (objOf K s a, case objOf K s a of None \<Rightarrow> s | Some ob \<Rightarrow> setStateObject ob s)"
  using assms
  by (auto simp: prod_eq_iff getStateObject_objOf getStateObject_state setStateObject_def
      dest: objOf_address split: option.split)

lemma sim_cached:
  assumes "objOf K s (address ob') = Some ob" "obs K (ctx s) ob' = obs K (ctx s) ob"
  shows "sim K rm (setStateObject ob' s) s"
  using assms by (auto simp: sim_def sim0_def)

lemma onObject_eq:
  assumes "addr_ok s" "objOf K s a = Some ob"
  shows "onObject K a f s = Some (setStateObject (f ob) (setStateObject ob s))"
  using assms by (simp add: onObject_def getStateObject_cached)

lemma sim_objOf_cases:
  assumes "sim K rm s t"
  obtains "objOf K s a = None" "objOf K t a = None"
  | ob ob' where "objOf K s a = Some ob" "objOf K t a = Some ob'" "obs K (ctx t) ob = obs K (ctx t) ob'"
  using simD(9) [OF assms, of a] by (cases "objOf K s a"; cases "objOf K t a") auto

section \<open>Undoing respects observational equality\<close>

text \<open>Two undo steps agree: both fail, or both give well-addressed, observationally equal states.\<close>

definition agree :: "'c sdb_keeper \<Rightarrow> ('c, 'm, 'v) cache_api \<Rightarrow> ('c, 'm, 'v) StateDB option \<Rightarrow> ('c, 'm, 'v) StateDB option \<Rightarrow> bool" where
  "agree K rm x y \<longleftrightarrow> (case x of
      None \<Rightarrow> y = None
    | Some s \<Rightarrow> (case y of None \<Rightarrow> False | Some t \<Rightarrow> sim K rm s t \<and> addr_ok s \<and> addr_ok t))"

lemma agree_Some [simp]: "agree K rm (Some s) (Some t) \<longleftrightarrow> sim K rm s t \<and> addr_ok s \<and> addr_ok t"
  by (simp add: agree_def)

lemma agree_None [simp]: "agree K rm None None"
  by (simp add: agree_def)

lemma agree_onObject:
  assumes "sim K rm s t" "addr_ok s" "addr_ok t"
    and f: "\<And>ob ob'. obs K (ctx t) ob = obs K (ctx t) ob' \<Longrightarrow> obs K (ctx t) (f ob) = obs K (ctx t) (f ob')"
  shows "agree K rm (onObject K a f s) (onObject K a f t)"
proof (rule sim_objOf_cases [OF assms(1), of a])
  assume "objOf K s a = None" "objOf K t a = None"
  then show ?thesis using assms(2,3) by (simp add: onObject_def getStateObject_cached)
next
  fix ob ob'
  assume ob: "objOf K s a = Some ob" "objOf K t a = Some ob'" "obs K (ctx t) ob = obs K (ctx t) ob'"
  have "sim K rm (setStateObject (f ob) (setStateObject ob s)) (setStateObject (f ob') (setStateObject ob' t))"
    by (intro sim_setStateObject assms(1)) (simp_all add: ob(3) f [OF ob(3)])
  then show ?thesis using assms(2,3) ob(1,2) by (simp add: onObject_eq)
qed

lemma sim_update:
  assumes "sim K rm s t"
  shows "sim K rm (s\<lparr>refund := r\<rparr>) (t\<lparr>refund := r\<rparr>)" "sim K rm (s\<lparr>logs := l\<rparr>) (t\<lparr>logs := l\<rparr>)"
    "sim K rm (s\<lparr>accessLst := al\<rparr>) (t\<lparr>accessLst := al\<rparr>)" "sim K rm (s\<lparr>transientStore := ts\<rparr>) (t\<lparr>transientStore := ts\<rparr>)"
    "sim K rm (s\<lparr>dirties := d\<rparr>) (t\<lparr>dirties := d\<rparr>)"
    "sim K rm (s\<lparr>snapshotter := Some m, writeCache := w\<rparr>) (t\<lparr>snapshotter := Some m, writeCache := w'\<rparr>)"
    "sim K rm (s\<lparr>stateObjects := fmdrop a (stateObjects s)\<rparr>) (t\<lparr>stateObjects := fmdrop a (stateObjects t)\<rparr>)"
  using simD [OF assms] by (simp_all add: sim_def sim0_def)

lemma addr_ok_update [simp]:
  "addr_ok (s\<lparr>refund := r\<rparr>) = addr_ok s" "addr_ok (s\<lparr>logs := l\<rparr>) = addr_ok s"
  "addr_ok (s\<lparr>accessLst := al\<rparr>) = addr_ok s" "addr_ok (s\<lparr>transientStore := ts\<rparr>) = addr_ok s"
  "addr_ok (s\<lparr>dirties := d\<rparr>) = addr_ok s"
  "addr_ok (s\<lparr>entries := es\<rparr>) = addr_ok s" "addr_ok (s\<lparr>validRevisions := rs\<rparr>) = addr_ok s"
  "addr_ok s \<Longrightarrow> addr_ok (s\<lparr>stateObjects := fmdrop a (stateObjects s)\<rparr>)"
  by (simp_all add: addr_ok_def)

text \<open>
  Undoing respects observational equality: a database without a cache context agrees with one whose
  cache context is new, since no entry of a precompile call can be undone in either.
\<close>

context cache_store
begin

lemma RevertMultiStore_agree:
  assumes "sim K rm s t" "addr_ok s" "addr_ok t"
  shows "agree K rm (RevertMultiStore rm i ev s) (RevertMultiStore rm i ev t)"
proof -
  have none: "RevertMultiStore rm i ev s' = None" if "multiOf rm s' = map_option fst (cm_Cache rm c)" "addr_ok s'"
    for s' :: "('c, 'm, 'v) StateDB" and c
    using that fresh_store by (auto simp: multiOf_def RevertMultiStore_def split: option.splits)
  have m: "multiOf rm s = multiOf rm t" using simD(2) [OF assms(1)] .
  show ?thesis
  proof (cases "snapshotter s = None \<or> snapshotter t = None")
    case True
    then have "RevertMultiStore rm i ev s = None \<and> RevertMultiStore rm i ev t = None"
      using none [of s "ctx s"] none [of t "ctx s"] none [of s "ctx t"] none [of t "ctx t"] m assms(2,3)
      by (auto simp: multiOf_def)
    then show ?thesis by simp
  next
    case False
    then obtain m0 where "snapshotter s = Some m0" "snapshotter t = Some m0" using m by (auto simp: multiOf_def)
    then show ?thesis using sim_update(6) [OF assms(1)] assms(2,3)
      by (auto simp: RevertMultiStore_def addr_ok_def split: option.split)
  qed
qed

lemma revertEntry_agree:
  assumes s: "sim K rm s t" "addr_ok s" "addr_ok t"
  shows "agree K rm (revertEntry K rm e s) (revertEntry K rm e t)"
proof (cases e)
  case (createContractChange a)
  show ?thesis unfolding createContractChange revertEntry.simps by (rule agree_onObject [OF s]) (rule obs_congs)
next
  case (balanceChange a v)
  show ?thesis unfolding balanceChange revertEntry.simps by (rule agree_onObject [OF s]) (rule obs_congs)
next
  case (nonceChange a v)
  show ?thesis unfolding nonceChange revertEntry.simps by (rule agree_onObject [OF s]) (rule obs_congs)
next
  case (codeChange a c h)
  show ?thesis unfolding codeChange revertEntry.simps by (rule agree_onObject [OF s]) (rule obs_congs)
next
  case (storageChange a k v)
  show ?thesis unfolding storageChange revertEntry.simps by (rule agree_onObject [OF s]) (rule obs_congs)
next
  case (selfDestructChange a prv bal)
  show ?thesis
  proof (rule sim_objOf_cases [OF s(1), of a])
    assume "objOf K s a = None" "objOf K t a = None"
    then show ?thesis using s by (simp add: selfDestructChange getStateObject_cached)
  next
    fix ob ob'
    assume ob: "objOf K s a = Some ob" "objOf K t a = Some ob'" "obs K (ctx t) ob = obs K (ctx t) ob'"
    have "sim K rm (setStateObject (so_setBalance bal (ob\<lparr>selfDestructed := prv\<rparr>)) (setStateObject ob s))
        (setStateObject (so_setBalance bal (ob'\<lparr>selfDestructed := prv\<rparr>)) (setStateObject ob' t))"
      by (intro sim_setStateObject s(1)) (simp_all add: ob(3) obs_congs [OF obs_congs(6) [OF ob(3)]])
    then show ?thesis using s(2,3) ob(1,2) by (simp add: selfDestructChange getStateObject_cached)
  qed
next
  case (precompileCallChange sn ev)
  then show ?thesis using RevertMultiStore_agree [OF s] by simp
qed (use s simD [OF s(1)] sim_update [OF s(1)] sim_setStateObject [OF s(1) refl] in
    \<open>simp_all add: setTransientState_def split: option.split\<close>)

lemma dropDirty_sim: "sim K rm s t \<Longrightarrow> sim K rm (dropDirty e s) (dropDirty e t)"
  by (simp add: dropDirty_def simD sim_update split: option.split)

lemma addr_ok_dropDirty [simp]: "addr_ok (dropDirty e s) = addr_ok s"
  by (simp add: dropDirty_def split: option.split)

lemma undoEntries_agree:
  "sim K rm s t \<Longrightarrow> addr_ok s \<Longrightarrow> addr_ok t \<Longrightarrow> agree K rm (undoEntries K rm es s) (undoEntries K rm es t)"
proof (induction es arbitrary: s t)
  case (Cons e es)
  show ?case
    using revertEntry_agree [OF Cons.prems, of e] Cons.IH
    by (cases "revertEntry K rm e s"; cases "revertEntry K rm e t") (auto simp: agree_def dropDirty_sim)
qed simp

end

lemma undoEntries_append:
  "undoEntries K rm (xs @ ys) s = Option.bind (undoEntries K rm xs s) (undoEntries K rm ys)"
  by (induction xs arbitrary: s) (auto split: option.split)

end
