(* ===== verification/StateDBUndo.thy ===== *)
theory StateDBUndo
  imports StateDBRevert
begin

text \<open>
  Every operation of the state database is undone by the journal entries it appends
  (\<open>undoable\<close>), and undoable steps compose.
\<close>

section \<open>One step\<close>

lemma undoableI0:
  assumes "sdb_wf rm s'" "entries s' = entries s" "validRevisions s' = validRevisions s"
    "nextRevisionID s' = nextRevisionID s" "sim K rm s' s"
  shows "undoable K rm s s'"
  unfolding undoable_def using assms by (auto simp: sdb_wf_def intro!: exI [of _ "[]"])

lemma undoableI1:
  assumes "sdb_wf rm s'" "entries s' = entries s @ [e]" "validRevisions s' = validRevisions s"
    "nextRevisionID s' = nextRevisionID s" "revertEntry K rm e s' = Some u" "addr_ok u" "sim K rm (dropDirty e u) s"
  shows "undoable K rm s s'"
  unfolding undoable_def using assms by (auto intro!: exI [of _ "[e]"])

lemma undoable_wf: "undoable K rm s s' \<Longrightarrow> sdb_wf rm s'"
  by (simp add: undoable_def)

lemma undoable_refl: "sdb_wf rm s \<Longrightarrow> undoable K rm s s"
  by (rule undoableI0) simp_all

section \<open>Journal entries\<close>

lemma journal_append_fields [simp]:
  "ctx (journal_append e s) = ctx s" "snapshotter (journal_append e s) = snapshotter s" "cacheEvents (journal_append e s) = cacheEvents s"
  "writeCache (journal_append e s) = writeCache s" "transientStore (journal_append e s) = transientStore s"
  "txConfig (journal_append e s) = txConfig s" "refund (journal_append e s) = refund s"
  "logs (journal_append e s) = logs s" "accessLst (journal_append e s) = accessLst s"
  "entries (journal_append e s) = entries s @ [e]" "validRevisions (journal_append e s) = validRevisions s"
  "nextRevisionID (journal_append e s) = nextRevisionID s" "stateObjects (journal_append e s) = stateObjects s"
  "objOf K (journal_append e s) = objOf K s" "multiOf rm (journal_append e s) = multiOf rm s"
  by (simp_all add: journal_append_def)

lemma dirties_nonneg: "sdb_wf rm s \<Longrightarrow> 0 \<le> fm_get0 (dirties s) a"
  by (auto simp: sdb_wf_def fm_get0_def less_imp_le split: option.split)

lemma journal_append_wf:
  assumes "sdb_wf rm s"
  shows "sdb_wf rm (journal_append e s)"
proof -
  have "0 < n" if "fmlookup (dirties (journal_append e s)) a = Some n" for a n
  proof (cases "Dirtied e")
    case None
    then show ?thesis using that assms by (simp add: journal_append_def sdb_wf_def)
  next
    case (Some b)
    then show ?thesis
      using that assms dirties_nonneg [OF assms, of b]
      by (cases "a = b") (auto simp: journal_append_def sdb_wf_def)
  qed
  then show ?thesis using assms by (simp add: sdb_wf_def addr_ok_def)
qed

lemma dropDirty_fields [simp]:
  "ctx (dropDirty e s) = ctx s" "snapshotter (dropDirty e s) = snapshotter s" "cacheEvents (dropDirty e s) = cacheEvents s"
  "writeCache (dropDirty e s) = writeCache s" "transientStore (dropDirty e s) = transientStore s"
  "txConfig (dropDirty e s) = txConfig s" "refund (dropDirty e s) = refund s"
  "logs (dropDirty e s) = logs s" "accessLst (dropDirty e s) = accessLst s"
  "objOf K (dropDirty e s) = objOf K s" "multiOf rm (dropDirty e s) = multiOf rm s"
  by (simp_all add: dropDirty_def split: option.split)

text \<open>The counter of a dirtied account goes back, and is deleted when it reaches zero.\<close>

lemma dirties_restored:
  assumes "sdb_wf rm s" "dirties u = dirties (journal_append e s)"
  shows "dirties (dropDirty e u) = dirties s"
proof (cases "Dirtied e")
  case None
  then show ?thesis using assms(2) by (simp add: dropDirty_def journal_append_def)
next
  case (Some a)
  have "fm_put0 a (fm_get0 (dirties s) a) (fmupd a v (dirties s)) = dirties s" for v
    using assms(1) by (auto simp: fm_put0_def fm_get0_def sdb_wf_def fmap_eq_iff split: option.splits)
  then show ?thesis using Some assms(2) by (simp add: dropDirty_def journal_append_def fm_get0_def [of "fmupd _ _ _"])
qed

lemma sdb_wf_setStateObject [simp]: "sdb_wf rm s \<Longrightarrow> sdb_wf rm (setStateObject ob s)"
  by (simp add: sdb_wf_def)

lemma journal_setStateObject:
  "journal_append e (setStateObject ob s) = setStateObject ob (journal_append e s)"
  by (simp add: journal_append_def setStateObject_def split: option.split)

text \<open>A journalled change of one state object.\<close>

lemma undoable_object:
  assumes wf: "sdb_wf rm s" and ob: "objOf K s (address ob') = Some ob"
    and rev: "revertEntry K rm e (setStateObject ob' (journal_append e s)) =
      Some (setStateObject ob'' (setStateObject ob' (journal_append e s)))"
    and same: "obs K (ctx s) ob'' = obs K (ctx s) ob"
  shows "undoable K rm s (setStateObject ob' (journal_append e s))"
proof (rule undoableI1 [OF _ _ _ _ rev])
  let ?s' = "setStateObject ob' (journal_append e s)"
  have ok: "addr_ok s" using wf by (simp add: sdb_wf_def)
  show "sdb_wf rm ?s'" using wf by (simp add: journal_append_wf)
  show "addr_ok (setStateObject ob'' ?s')"
    using journal_append_wf [OF wf, of e] by (simp add: sdb_wf_def)
  have a: "address ob'' = address ob'"
    using obs_eqD(1) [OF same] objOf_address [OF ok ob] by simp
  have "dirties (dropDirty e (setStateObject ob'' ?s')) = dirties s"
    by (rule dirties_restored [OF wf]) simp
  then show "sim K rm (dropDirty e (setStateObject ob'' ?s')) s"
    using ob same a by (auto simp: sim_def sim0_def)
qed simp_all

text \<open>A journalled change of the rest of the state.\<close>

lemma undoable_rest:
  assumes wf: "sdb_wf rm s" and wf': "sdb_wf rm s'"
    and s': "entries s' = entries s @ [e]" "dirties s' = dirties s" "Dirtied e = None"
      "validRevisions s' = validRevisions s" "nextRevisionID s' = nextRevisionID s"
    and rev: "revertEntry K rm e s' = Some u" and ok: "addr_ok u" and sim: "sim K rm u s"
  shows "undoable K rm s s'"
  by (rule undoableI1 [OF wf' s'(1,4,5) rev ok]) (use s'(3) sim in \<open>simp add: dropDirty_def\<close>)

lemma journal_append_dirties: "Dirtied e = None \<Longrightarrow> dirties (journal_append e s) = dirties s"
  by (simp add: journal_append_def)

section \<open>Composition\<close>

text \<open>The database after a precompile call that got its cache context.\<close>

definition afterCall :: "int \<Rightarrow> 'v \<Rightarrow> 'm \<Rightarrow> 'v \<Rightarrow> 'v write_cache \<Rightarrow> ('c, 'm, 'v) StateDB \<Rightarrow> ('c, 'm, 'v) StateDB" where
  "afterCall i ev m ev' w s = (journal_append (precompileCallChange i ev) s)\<lparr>snapshotter := Some m, cacheEvents := Some ev',
     writeCache := Some w, precompileCallsCounter := precompileCallsCounter s + 1\<rparr>"

context cache_store
begin

lemma undoable_trans [trans]:
  assumes 1: "undoable K rm s s'" and 2: "undoable K rm s' s''"
  shows "undoable K rm s s''"
proof -
  obtain es u where u: "entries s' = entries s @ es" "undoEntries K rm (rev es) s' = Some u" "addr_ok u" "sim K rm u s"
    using 1 unfolding undoable_def by blast
  obtain es' u' where u': "entries s'' = entries s' @ es'" "undoEntries K rm (rev es') s'' = Some u'"
      "addr_ok u'" "sim K rm u' s'"
    using 2 unfolding undoable_def by blast
  have "agree K rm (undoEntries K rm (rev es) u') (Some u)"
    using undoEntries_agree [OF u'(4,3), of "rev es"] 1 u(2) by (simp add: undoable_def sdb_wf_def)
  then obtain u'' where u'': "undoEntries K rm (rev es) u' = Some u''" "sim K rm u'' u" "addr_ok u''"
    by (auto simp: agree_def split: option.splits)
  have "undoEntries K rm (rev (es @ es')) s'' = Some u''"
    by (simp add: undoEntries_append u'(2) u''(1))
  moreover have "sim K rm u'' s" using u''(2) u(4) by (rule sim_trans)
  ultimately show ?thesis
    using 1 2 u(1) u'(1) u''(3) unfolding undoable_def by (metis append.assoc)
qed

section \<open>Operations\<close>

lemma undoable_cached:
  assumes "sdb_wf rm s" "objOf K s (address ob') = Some ob" "obs K (ctx s) ob' = obs K (ctx s) ob"
  shows "undoable K rm s (setStateObject ob' s)"
  by (rule undoableI0) (use assms in \<open>simp_all add: sim_cached\<close>)

lemma getStateObject_undo:
  assumes wf: "sdb_wf rm s" and get: "getStateObject K a s = (r, s1)"
  shows "undoable K rm s s1" "r = objOf K s a" "objOf K s1 a = r" "\<And>ob. r = Some ob \<Longrightarrow> address ob = a" "sdb_wf rm s1"
proof -
  have ok: "addr_ok s" using wf by (simp add: sdb_wf_def)
  have *: "r = objOf K s a" "s1 = (case objOf K s a of None \<Rightarrow> s | Some ob \<Rightarrow> setStateObject ob s)"
    using get ok by (auto simp: getStateObject_cached)
  show "r = objOf K s a" by (fact *(1))
  show "address ob = a" if "r = Some ob" for ob
    using objOf_address [OF ok] that *(1) by simp
  show u: "undoable K rm s s1"
    using wf ok by (auto simp: *(2) objOf_address intro: undoable_refl undoable_cached split: option.split)
  show "objOf K s1 a = r"
    using ok by (auto simp: * objOf_address split: option.split)
  show "sdb_wf rm s1" by (rule undoable_wf [OF u])
qed

lemma createObject_undo:
  assumes wf: "sdb_wf rm s" and new: "createObject K a s = ((ob, prev), s1)" and bal: "address ob' = a"
  shows "undoable K rm s s1" "objOf K s1 a = Some ob" "address ob = a" "sdb_wf rm s1"
    "prev \<noteq> None \<Longrightarrow> undoable K rm s (setStateObject ob' s1)"
proof -
  obtain s0 where get: "getStateObject K a s = (prev, s0)" and ob: "ob = newObject K a None"
    and s1: "s1 = setStateObject ob (journal_append (case prev of None \<Rightarrow> createObjectChange a | Some p \<Rightarrow> resetObjectChange p) s0)"
    using new by (auto simp: createObject_def Let_def split: prod.splits option.splits)
  note g = getStateObject_undo [OF wf get]
  show ob_a: "address ob = a" by (simp add: ob)
  have reset: "undoable K rm s0 (setStateObject ob1 (journal_append (resetObjectChange p) s0))"
    if "prev = Some p" "address ob1 = a" for p ob1
  proof (rule undoable_object [OF g(5)])
    show "objOf K s0 (address ob1) = Some p" using g(3) that by simp
    show "revertEntry K rm (resetObjectChange p) (setStateObject ob1 (journal_append (resetObjectChange p) s0)) =
        Some (setStateObject p (setStateObject ob1 (journal_append (resetObjectChange p) s0)))"
      by simp
  qed simp
  show undo: "undoable K rm s s1"
  proof (cases prev)
    case None
    let ?s = "journal_append (createObjectChange a) s0"
    have none: "objOf K s0 a = None" using g(3) None by simp
    then have kp: "fmlookup (stateObjects s0) a = None" "k_GetAccount K (ctx s0) a = None"
      by (auto simp: objOf_def split: option.splits)
    have s1': "s1 = setStateObject ob ?s" by (simp add: s1 None)
    have "undoable K rm s0 s1"
    proof (rule undoableI1)
      show "sdb_wf rm s1" using g(5) by (simp add: s1' journal_append_wf)
      show "revertEntry K rm (createObjectChange a) s1 = Some (s1\<lparr>stateObjects := fmdrop a (stateObjects s1)\<rparr>)"
        by simp
      show "addr_ok (s1\<lparr>stateObjects := fmdrop a (stateObjects s1)\<rparr>)"
        using g(5) by (auto simp: s1' sdb_wf_def addr_ok_def)
      have d: "dirties (dropDirty (createObjectChange a) (s1\<lparr>stateObjects := fmdrop a (stateObjects s1)\<rparr>)) = dirties s0"
        by (rule dirties_restored [OF g(5)]) (simp add: s1')
      show "sim K rm (dropDirty (createObjectChange a) (s1\<lparr>stateObjects := fmdrop a (stateObjects s1)\<rparr>)) s0"
        using d none kp(2) by (simp add: sim_def sim0_def) (simp add: s1' ob_a)
    qed (simp_all add: s1')
    with g(1) show ?thesis by (rule undoable_trans)
  next
    case (Some p)
    then show ?thesis using undoable_trans [OF g(1) reset [OF Some ob_a]] by (simp add: s1)
  qed
  show "objOf K s1 a = Some ob" by (simp add: s1 ob_a)
  show "sdb_wf rm s1" by (rule undoable_wf [OF undo])
  assume "prev \<noteq> None"
  then obtain p where p: "prev = Some p" by blast
  have "setStateObject ob' s1 = setStateObject ob' (journal_append (resetObjectChange p) s0)"
    using bal ob_a by (simp add: s1 p setStateObject_def)
  then show "undoable K rm s (setStateObject ob' s1)"
    using undoable_trans [OF g(1) reset [OF p bal]] by simp
qed

lemma getOrNewStateObject_undo:
  assumes wf: "sdb_wf rm s" and get: "getOrNewStateObject K a s = (ob, s1)"
  shows "undoable K rm s s1" "objOf K s1 a = Some ob" "address ob = a" "sdb_wf rm s1"
proof -
  obtain r s0 where g0: "getStateObject K a s = (r, s0)" by fastforce
  note g = getStateObject_undo [OF wf g0]
  have "undoable K rm s s1 \<and> objOf K s1 a = Some ob \<and> address ob = a \<and> sdb_wf rm s1"
  proof (cases r)
    case None
    then obtain prev where c: "createObject K a s0 = ((ob, prev), s1)"
      using get g0 by (auto simp: getOrNewStateObject_def split: prod.splits)
    note c' = createObject_undo [OF g(5) c, of "newObject K a None"]
    show ?thesis using c' undoable_trans [OF g(1) c'(1)] by simp
  next
    case (Some ob0)
    then show ?thesis using get g0 g by (simp add: getOrNewStateObject_def)
  qed
  then show "undoable K rm s s1" "objOf K s1 a = Some ob" "address ob = a" "sdb_wf rm s1" by blast+
qed

text \<open>The pattern of the setters: load the object, append an entry, store the changed object.\<close>

lemma setter_undo:
  assumes wf: "sdb_wf rm s" and ob: "objOf K s a = Some ob" "address ob = a" "address ob' = a"
    and rev: "\<And>t. addr_ok t \<Longrightarrow> objOf K t a = Some ob' \<Longrightarrow>
      revertEntry K rm e t = Some (setStateObject (g ob') (setStateObject ob' t))"
    and same: "obs K (ctx s) (g ob') = obs K (ctx s) ob"
  shows "undoable K rm s (setStateObject ob' (journal_append e s))"
proof (rule undoable_object [OF wf _ _ same])
  let ?s' = "setStateObject ob' (journal_append e s)"
  show "objOf K s (address ob') = Some ob" using ob by simp
  have "addr_ok ?s'" using journal_append_wf [OF wf, of e] by (simp add: sdb_wf_def)
  moreover have "setStateObject ob' ?s' = ?s'" by (simp add: setStateObject_def)
  ultimately show "revertEntry K rm e ?s' = Some (setStateObject (g ob') ?s')"
    using rev [of ?s'] ob by simp
qed

lemma so_SetBalance_undo:
  assumes "sdb_wf rm s" "objOf K s a = Some ob" "address ob = a"
  shows "undoable K rm s (snd (so_SetBalance v ob s))"
proof -
  have "undoable K rm s (setStateObject (so_setBalance v ob) (journal_append (balanceChange a (Balance (account ob))) s))"
    by (rule setter_undo [where g = "so_setBalance (Balance (account ob))", OF assms])
      (simp_all add: assms(3) onObject_eq obs_def)
  then show ?thesis using assms(3) by (simp add: so_SetBalance_def Let_def)
qed

lemma AddBalance_undo:
  assumes "sdb_wf rm s" shows "undoable K rm s (snd (AddBalance K a v s))"
proof -
  obtain ob s1 where g: "getOrNewStateObject K a s = (ob, s1)" by fastforce
  note g' = getOrNewStateObject_undo [OF assms g]
  show ?thesis using g'(1) undoable_trans [OF g'(1) so_SetBalance_undo [OF g'(4,2,3)]] g
    by (simp add: AddBalance_def so_AddBalance_def prod.case_eq_if)
qed

lemma SubBalance_undo:
  assumes "sdb_wf rm s" shows "undoable K rm s (snd (SubBalance K a v s))"
proof -
  obtain ob s1 where g: "getOrNewStateObject K a s = (ob, s1)" by fastforce
  note g' = getOrNewStateObject_undo [OF assms g]
  show ?thesis using g'(1) undoable_trans [OF g'(1) so_SetBalance_undo [OF g'(4,2,3)]] g
    by (simp add: SubBalance_def so_SubBalance_def prod.case_eq_if)
qed

lemma SetNonce_undo:
  assumes "sdb_wf rm s" shows "undoable K rm s (snd (SetNonce K a n s))"
proof -
  obtain ob s1 where g: "getOrNewStateObject K a s = (ob, s1)" by fastforce
  note g' = getOrNewStateObject_undo [OF assms g]
  have "undoable K rm s1 (setStateObject (so_setNonce n ob) (journal_append (nonceChange a (Nonce (account ob))) s1))"
    by (rule setter_undo [where g = "so_setNonce (Nonce (account ob))", OF g'(4,2,3)])
      (simp_all add: g'(3) onObject_eq obs_def)
  then show ?thesis using undoable_trans [OF g'(1)] g g'(3) by (simp add: SetNonce_def Let_def)
qed

lemma SetCode_undo:
  assumes "sdb_wf rm s" shows "undoable K rm s (snd (SetCode K a cd s))"
proof -
  obtain ob s1 where g: "getOrNewStateObject K a s = (ob, s1)" by fastforce
  note g' = getOrNewStateObject_undo [OF assms g]
  obtain prev ob1 where c: "so_Code K (ctx s1) ob = (prev, ob1)" by fastforce
  have ob1: "address ob1 = a" "obs K (ctx s1) ob1 = obs K (ctx s1) ob"
    using obs_cache_code [of K "ctx s1" ob] g'(3) by (simp_all add: c)
  have prev: "prev = fst (so_Code K (ctx s1) ob1)"
    using obs_eqD(3) [OF ob1(2)] by (simp add: c)
  have acct: "account ob1 = account ob" "selfDestructed ob1 = selfDestructed ob" "newContract ob1 = newContract ob"
    using obs_eqD [OF ob1(2)] by simp_all
  have "obs K (ctx s1) (so_setCode (CodeHash (account ob1)) prev (so_setCode (k_Keccak256Hash K (sliceBytes cd)) cd ob1)) = obs K (ctx s1) ob1"
    unfolding prev by (simp add: obs_def) (simp add: code_read split: option.split)
  then have "undoable K rm s1 (setStateObject (so_setCode (k_Keccak256Hash K (sliceBytes cd)) cd ob1)
      (journal_append (codeChange a prev (CodeHash (account ob1))) s1))"
    by (intro setter_undo [where g = "so_setCode (CodeHash (account ob1)) prev", OF g'(4,2,3)])
      (use ob1 in \<open>simp_all add: onObject_eq\<close>)
  then show ?thesis using undoable_trans [OF g'(1)] g c ob1(1) by (simp add: SetCode_def Let_def)
qed

lemma SetState_undo:
  assumes "sdb_wf rm s" shows "undoable K rm s (snd (SetState K a k v s))"
proof -
  obtain ob s1 where g: "getOrNewStateObject K a s = (ob, s1)" by fastforce
  note g' = getOrNewStateObject_undo [OF assms g]
  obtain prev ob1 where c: "so_GetState K (ctx s1) k ob = (prev, ob1)" by fastforce
  have ob1: "address ob1 = a" "obs K (ctx s1) ob1 = obs K (ctx s1) ob"
    using obs_cache_state [of K "ctx s1" k ob] g'(3) by (simp_all add: c)
  have prev: "prev = fst (so_GetState K (ctx s1) k ob1)"
    using obs_eqD(6) [OF ob1(2), of k] by (simp add: c)
  have same: "undoable K rm s1 (setStateObject ob1 s1)"
    by (rule undoable_cached) (use g' ob1 in simp_all)
  have "obs K (ctx s1) (so_setState k prev (so_setState k v ob1)) = obs K (ctx s1) ob1"
    unfolding prev by (simp add: obs_def fun_eq_iff)
  then have "undoable K rm s1 (setStateObject (so_setState k v ob1) (journal_append (storageChange a k prev) s1))"
    by (intro setter_undo [where g = "so_setState k prev", OF g'(4,2,3)])
      (use ob1 in \<open>simp_all add: onObject_eq\<close>)
  then show ?thesis using undoable_trans [OF g'(1)] undoable_trans [OF g'(1) same] g c ob1(1)
    by (simp add: SetState_def Let_def)
qed

lemma SelfDestruct_undo:
  assumes "sdb_wf rm s" shows "undoable K rm s (snd (SelfDestruct K a s))"
proof -
  obtain r s1 where g: "getStateObject K a s = (r, s1)" by fastforce
  note g' = getStateObject_undo [OF assms g]
  show ?thesis
  proof (cases r)
    case None
    then show ?thesis using g g'(1) by (simp add: SelfDestruct_def)
  next
    case (Some ob)
    let ?b = "Balance (account ob)"
    have "undoable K rm s1 (setStateObject (so_setBalance 0 (ob\<lparr>selfDestructed := True\<rparr>))
        (journal_append (selfDestructChange a (selfDestructed ob) ?b) s1))"
      by (rule setter_undo [where g = "\<lambda>o'. so_setBalance ?b (o'\<lparr>selfDestructed := selfDestructed ob\<rparr>)",
            OF g'(5) g'(3) [unfolded Some] g'(4) [OF Some]])
        (simp_all add: g'(4) [OF Some] getStateObject_cached obs_def)
    then show ?thesis using undoable_trans [OF g'(1)] g Some by (simp add: SelfDestruct_def Let_def)
  qed
qed

lemma SelfDestruct6780_undo:
  assumes "sdb_wf rm s" shows "undoable K rm s (snd (SelfDestruct6780 K a s))"
proof -
  obtain r s1 where g: "getStateObject K a s = (r, s1)" by fastforce
  note g' = getStateObject_undo [OF assms g]
  have "snd (go_bind (SelfDestruct K a) (\<lambda>b. go_return (b, True)) s1) = snd (SelfDestruct K a s1)"
    by (simp add: go_bind_def split: prod.split outcome.split)
  then show ?thesis
    using g'(1) undoable_trans [OF g'(1) SelfDestruct_undo [OF g'(5)]] g
    by (auto simp: SelfDestruct6780_def split: option.split)
qed

lemma CreateAccount_undo:
  assumes "sdb_wf rm s" shows "undoable K rm s (snd (CreateAccount K a s))"
proof -
  obtain ob prev s1 where c: "createObject K a s = ((ob, prev), s1)" by (metis prod.exhaust)
  have "address ob = a" by (rule createObject_undo(3) [OF assms c, of ob]) (use c in \<open>auto simp: createObject_def Let_def split: prod.splits\<close>)
  then have "undoable K rm s s1" "prev = Some p \<Longrightarrow> undoable K rm s (setStateObject (so_setBalance b ob) s1)" for p b
    using createObject_undo(1,5) [OF assms c, of "so_setBalance b ob"] by simp_all
  then show ?thesis using c by (simp add: CreateAccount_def split: option.split)
qed

lemma CreateContract_undo:
  assumes "sdb_wf rm s" shows "undoable K rm s (snd (CreateContract K a s))"
proof -
  obtain r s1 where g: "getStateObject K a s = (r, s1)" by fastforce
  note g' = getStateObject_undo [OF assms g]
  show ?thesis
  proof (cases r)
    case None
    then show ?thesis using g g'(1) by (simp add: CreateContract_def)
  next
    case (Some ob)
    have "undoable K rm s1 (setStateObject (ob\<lparr>newContract := True\<rparr>) (journal_append (createContractChange a) s1))"
      if "\<not> newContract ob"
      by (rule setter_undo [where g = "\<lambda>o'. o'\<lparr>newContract := False\<rparr>", OF g'(5) g'(3) [unfolded Some] g'(4) [OF Some]])
        (simp_all add: g'(4) [OF Some] onObject_eq obs_def that)
    then show ?thesis using undoable_trans [OF g'(1)] g'(1) g Some
      by (simp add: CreateContract_def journal_setStateObject)
  qed
qed

section \<open>Operations on the rest of the state\<close>

lemma SetTransientState_undo:
  assumes wf: "sdb_wf rm s" shows "undoable K rm s (snd (SetTransientState a k v s))"
proof (cases "GetTransientState a k s = v")
  case True
  then show ?thesis using undoable_refl [OF wf] by (simp add: SetTransientState_def)
next
  case False
  let ?e = "transientStorageChange a k (GetTransientState a k s)"
  let ?s = "journal_append ?e s"
  have ts: "ts_wf (transientStore s)" using wf by (simp add: sdb_wf_def)
  have "undoable K rm s (setTransientState a k v ?s)"
  proof (rule undoable_rest [OF wf])
    show "sdb_wf rm (setTransientState a k v ?s)"
      using journal_append_wf [OF wf, of ?e] by (simp add: sdb_wf_def setTransientState_def TransientSet_wf)
    show "addr_ok (setTransientState a k (GetTransientState a k s) (setTransientState a k v ?s))"
      using journal_append_wf [OF wf, of ?e] by (simp add: setTransientState_def sdb_wf_def)
    show "sim K rm (setTransientState a k (GetTransientState a k s) (setTransientState a k v ?s)) s"
      by (simp add: setTransientState_def sim_def sim0_def GetTransientState_def TransientSet_undo [OF ts refl])
        (simp add: journal_append_def)
    show "dirties (setTransientState a k v ?s) = dirties s"
      by (simp add: setTransientState_def journal_append_def)
    show "Dirtied ?e = None" by simp
    show "revertEntry K rm ?e (setTransientState a k v ?s) =
        Some (setTransientState a k (GetTransientState a k s) (setTransientState a k v ?s))" by simp
  qed (simp_all add: setTransientState_def)
  then show ?thesis using False by (simp add: SetTransientState_def Let_def)
qed

lemma wf_update:
  assumes "sdb_wf rm s"
  shows "sdb_wf rm (journal_append e s\<lparr>logs := l\<rparr>)" "sdb_wf rm (journal_append e s\<lparr>refund := r\<rparr>)"
    "al_wf al \<Longrightarrow> sdb_wf rm (journal_append e (s\<lparr>accessLst := al\<rparr>))"
proof -
  have al: "sdb_wf rm (s\<lparr>accessLst := al\<rparr>)" if "al_wf al" using assms that by (simp add: sdb_wf_def)
  show "sdb_wf rm (journal_append e s\<lparr>logs := l\<rparr>)" "sdb_wf rm (journal_append e s\<lparr>refund := r\<rparr>)"
    using journal_append_wf [OF assms, of e] by (simp_all add: sdb_wf_def)
  show "al_wf al \<Longrightarrow> sdb_wf rm (journal_append e (s\<lparr>accessLst := al\<rparr>))"
    using al by (rule journal_append_wf)
qed

lemma undoable_pair:
  assumes wf: "sdb_wf rm s'" and s': "entries s' = entries s @ [e, e']" "validRevisions s' = validRevisions s"
      "nextRevisionID s' = nextRevisionID s"
    and clean: "Dirtied e = None" "Dirtied e' = None"
    and rev: "revertEntry K rm e' s' = Some u'" "revertEntry K rm e u' = Some u" and u: "addr_ok u" "sim K rm u s"
  shows "undoable K rm s s'"
  unfolding undoable_def using assms by (auto simp: dropDirty_def intro!: exI [of _ "[e, e']"])

lemma AddLog_undo:
  assumes wf: "sdb_wf rm s" shows "undoable K rm s (snd (AddLog lg s))"
proof -
  have "undoable K rm s (journal_append addLogChange s\<lparr>logs := logs s @ [l]\<rparr>)" for l
    by (rule undoable_rest [OF wf wf_update(1) [OF wf], where e = addLogChange and u = "journal_append addLogChange s\<lparr>logs := logs s\<rparr>"])
      (use wf_update(1) [OF wf, where e = addLogChange] in \<open>simp_all add: journal_append_dirties sim_def sim0_def sdb_wf_def\<close>)
  then show ?thesis by (simp add: AddLog_def Let_def)
qed

lemma refund_undo:
  assumes wf: "sdb_wf rm s" shows "undoable K rm s (journal_append (refundChange (refund s)) s\<lparr>refund := r\<rparr>)"
  by (rule undoable_rest [OF wf wf_update(2) [OF wf], where e = "refundChange (refund s)" and u = "journal_append (refundChange (refund s)) s\<lparr>refund := refund s\<rparr>"])
    (use wf_update(2) [OF wf, where e = "refundChange (refund s)"] in \<open>simp_all add: journal_append_dirties sim_def sim0_def sdb_wf_def\<close>)

lemma AddRefund_undo: "sdb_wf rm s \<Longrightarrow> undoable K rm s (snd (AddRefund g s))"
  by (simp add: AddRefund_def Let_def refund_undo)

lemma SubRefund_undo:
  assumes "sdb_wf rm s" shows "undoable K rm s (snd (SubRefund g s))"
proof -
  have "journal_append (refundChange (refund s)) s = journal_append (refundChange (refund s)) s\<lparr>refund := refund s\<rparr>"
    by (simp add: journal_append_def)
  then have "undoable K rm s (journal_append (refundChange (refund s)) s)"
    using refund_undo [OF assms, of K "refund s"] by (simp only:)
  then show ?thesis using refund_undo [OF assms] by (simp add: SubRefund_def Let_def)
qed

lemma AddAddressToAccessList_undo:
  assumes wf: "sdb_wf rm s" shows "undoable K rm s (snd (AddAddressToAccessList a s))"
proof -
  obtain added al where add: "AddAddress a (accessLst s) = (added, al)" by fastforce
  have al: "al_wf al" using AddAddress_wf [of "accessLst s" a] wf add by (simp add: sdb_wf_def)
  show ?thesis
  proof (cases added)
    case True
    have del: "DeleteAddress a al = accessLst s" using add True by (simp add: AddAddress_undo)
    let ?s = "journal_append (accessListAddAccountChange a) (s\<lparr>accessLst := al\<rparr>)"
    have "undoable K rm s ?s"
      by (rule undoable_rest [OF wf wf_update(3) [OF wf al], where e = "accessListAddAccountChange a" and u = "?s\<lparr>accessLst := accessLst s\<rparr>"])
        (use wf_update(3) [OF wf al, of "accessListAddAccountChange a"] in
          \<open>simp_all add: journal_append_dirties sim_def sim0_def sdb_wf_def del\<close>)
    then show ?thesis using add True by (simp add: AddAddressToAccessList_def)
  next
    case False
    then show ?thesis using add AddAddress_no_change [of a "accessLst s" al] undoable_refl [OF wf]
      by (simp add: AddAddressToAccessList_def)
  qed
qed

lemma AddSlotToAccessList_undo:
  assumes wf: "sdb_wf rm s" shows "undoable K rm s (snd (AddSlotToAccessList a slot s))"
proof -
  have al0: "al_wf (accessLst s)" using wf by (simp add: sdb_wf_def)
  obtain addrMod slotMod al where add: "AddSlot a slot (accessLst s) = Some ((addrMod, slotMod), al)" and al: "al_wf al"
    using AddSlot_wf [OF al0] by fastforce
  show ?thesis
  proof (cases slotMod)
    case True
    then obtain al' where del: "DeleteSlot a slot al = Some al'" "(if addrMod then DeleteAddress a al' else al') = accessLst s"
      using AddSlot_undo [OF al0, of a slot addrMod al] add by auto
    let ?s1 = "journal_append (accessListAddAccountChange a) (s\<lparr>accessLst := al\<rparr>)"
    let ?s2 = "journal_append (accessListAddSlotChange a slot) ?s1"
    let ?t = "journal_append (accessListAddSlotChange a slot) (s\<lparr>accessLst := al\<rparr>)"
    have wf2: "sdb_wf rm ?s2" by (rule journal_append_wf) (rule wf_update(3) [OF wf al])
    have wft: "sdb_wf rm ?t" by (rule wf_update(3) [OF wf al])
    have "undoable K rm s ?s2" if addrMod
      by (rule undoable_pair [OF wf2, where e = "accessListAddAccountChange a" and e' = "accessListAddSlotChange a slot" and u' = "?s2\<lparr>accessLst := al'\<rparr>" and u = "?s2\<lparr>accessLst := accessLst s\<rparr>"])
        (use wf2 del that in \<open>simp_all add: journal_append_dirties sim_def sim0_def sdb_wf_def\<close>)
    moreover have "undoable K rm s ?t" if "\<not> addrMod"
      by (rule undoable_rest [OF wf wft, where e = "accessListAddSlotChange a slot" and u = "?t\<lparr>accessLst := accessLst s\<rparr>"])
        (use wft del that in \<open>simp_all add: journal_append_dirties sim_def sim0_def sdb_wf_def\<close>)
    ultimately show ?thesis using add True by (simp add: AddSlotToAccessList_def Let_def)
  next
    case False
    then show ?thesis using add AddSlot_no_change [of a slot "accessLst s" addrMod al] undoable_refl [OF wf]
      by (simp add: AddSlotToAccessList_def Let_def)
  qed
qed

section \<open>Precompile calls\<close>

lemma precompileCall_cases:
  assumes wf: "sdb_wf rm s"
  obtains "snd (precompileCall K rm body s) = s"
  | i ev m0 m ev' w where "snd (precompileCall K rm body s) = afterCall i ev m ev' w s"
      "multiOf rm s = Some m0" "cm_reach rm m" "cm_RevertToSnapshot rm i m = Some m0"
proof -
  have ok: "addr_ok s" using wf by (simp add: sdb_wf_def)
  consider (no) e where "GetCacheContext rm s = (Err e, s)"
    | (yes) m0 ev w where "GetCacheContext rm s = (Ret (), s\<lparr>snapshotter := Some m0, cacheEvents := Some ev, writeCache := Some w\<rparr>)"
        "multiOf rm s = Some m0" "cm_reach rm m0"
  proof (cases "writeCache s = None")
    case True
    then have "snapshotter s = None" using ok by (simp add: addr_ok_def)
    then show ?thesis using True that cm_reach.cached [of rm "ctx s"]
      by (cases "cm_Cache rm (ctx s)") (auto simp: GetCacheContext_def cache_def multiOf_def)
  next
    case False
    then obtain m0 ev w where s: "snapshotter s = Some m0" "cacheEvents s = Some ev" "writeCache s = Some w"
      using ok by (auto simp: addr_ok_def)
    then have "s\<lparr>snapshotter := Some m0, cacheEvents := Some ev, writeCache := Some w\<rparr> = s" by simp
    then show ?thesis using that(2) [where ?m0.0 = m0 and ?ev = ev and ?w = w] False s wf by (simp add: GetCacheContext_def multiOf_def sdb_wf_def)
  qed
  then show thesis
  proof cases
    case no
    then show ?thesis using that(1) by (simp add: precompileCall_def runSetup_def)
  next
    case (yes m0 ev w)
    obtain i m1 where m1: "cm_Snapshot rm m0 = Some (i, m1)" "cm_RevertToSnapshot rm i m1 = Some m0"
      using snapshot_store [OF yes(3)] by blast
    have r1: "cm_reach rm m1" by (rule cm_reach.pushed [OF yes(3) m1(1)])
    let ?t = "afterCall i ev m1 ev w s"
    have start: "runSetup K rm s = (if precompileCallsCounter ?t > MaxPrecompileCalls then (Err ''max calls to precompiles reached'', ?t)
        else CommitWithCacheCtx K rm ?t)"
      by (simp add: runSetup_def yes(1) MultiStoreSnapshot_def m1(1) contextEvents_def AddPrecompileFn_def Let_def go_bind_def
          afterCall_def journal_append_def) (intro impI arg_cong [where f = "CommitWithCacheCtx K rm"], simp)
    obtain r c where c: "commitWithCtx K ?t (cm_Context rm m1) = (r, c)" by fastforce
    have t: "snapshotter (afterCall i ev m ev' w s) = Some m" "cacheEvents (afterCall i ev m ev' w s) = Some ev'"
        "(afterCall i ev m ev' w s)\<lparr>snapshotter := Some m'\<rparr> = afterCall i ev m' ev' w s"
        "(afterCall i ev m ev' w s)\<lparr>cacheEvents := Some ev''\<rparr> = afterCall i ev m ev'' w s" for m m' ev' ev''
      by (simp_all add: afterCall_def)
    have cmt: "CommitWithCacheCtx K rm ?t = (r, afterCall i ev (cm_Update rm c m1) ev w s)"
      by (simp add: CommitWithCacheCtx_def c t)
    obtain c' ev' where b: "body (cm_Context rm (cm_Update rm c m1), ev) = (c', ev')" by fastforce
    have wr: "writeContext rm body (afterCall i ev (cm_Update rm c m1) ev w s) =
        (Ret (), afterCall i ev (cm_Update rm c' (cm_Update rm c m1)) ev' w s)"
      by (simp add: writeContext_def t b)
    have ends: "snd (precompileCall K rm body s) = ?t \<or> snd (precompileCall K rm body s) = afterCall i ev (cm_Update rm c m1) ev w s
        \<or> snd (precompileCall K rm body s) = afterCall i ev (cm_Update rm c' (cm_Update rm c m1)) ev' w s"
    proof (cases "precompileCallsCounter ?t > MaxPrecompileCalls")
      case True
      have "runSetup K rm s = (Err ''max calls to precompiles reached'', ?t)" using start unfolding if_P [OF True] .
      then show ?thesis by (simp only: precompileCall_def go_seq_def go_bind_def prod.case outcome.case snd_conv simp_thms)
    next
      case False
      have set: "runSetup K rm s = (r, afterCall i ev (cm_Update rm c m1) ev w s)" using start unfolding if_not_P [OF False] cmt .
      show ?thesis
        by (cases r) (simp_all only: set wr precompileCall_def go_seq_def go_bind_def prod.case outcome.case snd_conv simp_thms)
    qed
    have r2: "cm_reach rm (cm_Update rm c m1)" by (rule cm_reach.written [OF r1])
    have r3: "cm_reach rm (cm_Update rm c' (cm_Update rm c m1))" by (rule cm_reach.written [OF r2])
    have v2: "cm_RevertToSnapshot rm i (cm_Update rm c m1) = Some m0"
      by (simp only: update_store [OF r1] m1(2))
    have v3: "cm_RevertToSnapshot rm i (cm_Update rm c' (cm_Update rm c m1)) = Some m0"
      by (simp only: update_twice [OF r1] update_store [OF r1] m1(2))
    from ends show ?thesis
      by (elim disjE that(2) [OF _ yes(2) r1 m1(2)] that(2) [OF _ yes(2) r2 v2] that(2) [OF _ yes(2) r3 v3])
  qed
qed

lemma afterCall_undo:
  assumes wf: "sdb_wf rm s" and m: "multiOf rm s = Some m0" "cm_reach rm m" "cm_RevertToSnapshot rm i m = Some m0"
  shows "undoable K rm s (afterCall i ev m ev' w s)"
proof (rule undoable_rest [OF wf, where e = "precompileCallChange i ev"])
  let ?t = "afterCall i ev m ev' w s" and ?u = "(afterCall i ev m ev' w s)\<lparr>snapshotter := Some m0, writeCache := Some (EmitSavedEvents ev)\<rparr>"
  show "sdb_wf rm ?t" using wf m(2) by (simp add: sdb_wf_def addr_ok_def afterCall_def journal_append_def)
  show "revertEntry K rm (precompileCallChange i ev) ?t = Some ?u" using m(3) by (simp add: RevertMultiStore_def afterCall_def)
  show "addr_ok ?u" using wf by (simp add: sdb_wf_def addr_ok_def afterCall_def)
  have "objOf K ?u = objOf K s" by (simp add: objOf_def fun_eq_iff afterCall_def split: option.split)
  then show "sim K rm ?u s" using m(1) by (simp add: sim_def sim0_def) (simp add: afterCall_def journal_append_def)
qed (simp_all add: afterCall_def journal_append_def)

lemma precompileCall_undo:
  assumes "sdb_wf rm s" shows "undoable K rm s (snd (precompileCall K rm body s))"
  by (rule precompileCall_cases [OF assms, of K body]) (simp_all add: undoable_refl [OF assms] afterCall_undo [OF assms])

section \<open>Reads\<close>

lemma read_undo:
  assumes "sdb_wf rm s"
  shows "undoable K rm s (snd (GetBalance K a s))" "undoable K rm s (snd (GetNonce K a s))"
    "undoable K rm s (snd (GetCodeHash K a s))" "undoable K rm s (snd (Exist K a s))"
    "undoable K rm s (snd (Empty K a s))" "undoable K rm s (snd (HasSelfDestructed K a s))"
    "undoable K rm s (snd (GetCode K a s))" "undoable K rm s (snd (GetState K a k s))"
    "undoable K rm s (snd (GetCommittedState K a k s))"
proof -
  obtain r s1 where g: "getStateObject K a s = (r, s1)" by fastforce
  note g' = getStateObject_undo [OF assms g]
  show "undoable K rm s (snd (GetBalance K a s))" "undoable K rm s (snd (GetNonce K a s))"
    "undoable K rm s (snd (GetCodeHash K a s))" "undoable K rm s (snd (Exist K a s))"
    "undoable K rm s (snd (Empty K a s))" "undoable K rm s (snd (HasSelfDestructed K a s))"
    using g g'(1) by (cases r; simp add: GetBalance_def GetNonce_def GetCodeHash_def Exist_def Empty_def HasSelfDestructed_def)+
  have cache: "undoable K rm s (setStateObject ob' s1)"
    if "r = Some ob" "address ob' = address ob" "obs K (ctx s1) ob' = obs K (ctx s1) ob" for ob ob'
    by (rule undoable_trans [OF g'(1)], rule undoable_cached [OF g'(5)]) (use that g'(3,4) in auto)
  show "undoable K rm s (snd (GetCode K a s))"
    using g g'(1) by (cases r) (simp_all add: GetCode_def prod.case_eq_if cache obs_cache_code)
  show "undoable K rm s (snd (GetState K a k s))"
    using g g'(1) by (cases r) (simp_all add: GetState_def prod.case_eq_if cache obs_cache_state)
  show "undoable K rm s (snd (GetCommittedState K a k s))"
    using g g'(1) by (cases r) (simp_all add: GetCommittedState_def prod.case_eq_if cache obs_cache_committed)
qed

lemma GetCodeSize_undo: "sdb_wf rm s \<Longrightarrow> undoable K rm s (snd (GetCodeSize K a s))"
  using read_undo(7) [of s K a] by (simp add: GetCodeSize_def prod.case_eq_if)

end

end
