(* ===== verification/StateDBSnapshot.thy ===== *)
theory StateDBSnapshot
  imports StateDBUndo
begin

text \<open>
  Snapshots of the state database over arbitrary sequences of operations, nested snapshots,
  reverts and calls of stateful precompiles included: the invariant of the revision stack, and that \<open>RevertToSnapshot\<close> gives every
  reader the state of the snapshot back.
\<close>

section \<open>Sequences of operations\<close>

datatype ('c, 'v) sdb_op =
    OpGetBalance Address | OpGetNonce Address | OpGetCodeHash Address | OpGetCode Address
  | OpGetCodeSize Address | OpGetState Address Hash | OpGetCommittedState Address Hash
  | OpExist Address | OpEmpty Address | OpHasSelfDestructed Address
  | OpAddBalance Address u256 | OpSubBalance Address u256 | OpSetNonce Address u64
  | OpSetCode Address "bytes option" | OpSetState Address Hash Hash | OpSelfDestruct Address
  | OpSelfDestruct6780 Address | OpCreateAccount Address | OpCreateContract Address
  | OpSetTransientState Address Hash Hash | OpAddLog Log | OpAddRefund u64 | OpSubRefund u64
  | OpAddAddressToAccessList Address | OpAddSlotToAccessList Address Hash
  | OpSnapshot | OpRevertToSnapshot int
  | OpPrecompile "'c \<times> 'v \<Rightarrow> 'c \<times> 'v"

fun sdb_step :: "'c sdb_keeper \<Rightarrow> ('c, 'm, 'v) cache_api \<Rightarrow> ('c, 'v) sdb_op \<Rightarrow> ('c, 'm, 'v) StateDB \<Rightarrow> ('c, 'm, 'v) StateDB" where
  "sdb_step K rm (OpGetBalance a) s = snd (GetBalance K a s)"
| "sdb_step K rm (OpGetNonce a) s = snd (GetNonce K a s)"
| "sdb_step K rm (OpGetCodeHash a) s = snd (GetCodeHash K a s)"
| "sdb_step K rm (OpGetCode a) s = snd (GetCode K a s)"
| "sdb_step K rm (OpGetCodeSize a) s = snd (GetCodeSize K a s)"
| "sdb_step K rm (OpGetState a k) s = snd (GetState K a k s)"
| "sdb_step K rm (OpGetCommittedState a k) s = snd (GetCommittedState K a k s)"
| "sdb_step K rm (OpExist a) s = snd (Exist K a s)"
| "sdb_step K rm (OpEmpty a) s = snd (Empty K a s)"
| "sdb_step K rm (OpHasSelfDestructed a) s = snd (HasSelfDestructed K a s)"
| "sdb_step K rm (OpAddBalance a v) s = snd (AddBalance K a v s)"
| "sdb_step K rm (OpSubBalance a v) s = snd (SubBalance K a v s)"
| "sdb_step K rm (OpSetNonce a n) s = snd (SetNonce K a n s)"
| "sdb_step K rm (OpSetCode a cd) s = snd (SetCode K a cd s)"
| "sdb_step K rm (OpSetState a k v) s = snd (SetState K a k v s)"
| "sdb_step K rm (OpSelfDestruct a) s = snd (SelfDestruct K a s)"
| "sdb_step K rm (OpSelfDestruct6780 a) s = snd (SelfDestruct6780 K a s)"
| "sdb_step K rm (OpCreateAccount a) s = snd (CreateAccount K a s)"
| "sdb_step K rm (OpCreateContract a) s = snd (CreateContract K a s)"
| "sdb_step K rm (OpSetTransientState a k v) s = snd (SetTransientState a k v s)"
| "sdb_step K rm (OpAddLog l) s = snd (AddLog l s)"
| "sdb_step K rm (OpAddRefund g) s = snd (AddRefund g s)"
| "sdb_step K rm (OpSubRefund g) s = snd (SubRefund g s)"
| "sdb_step K rm (OpAddAddressToAccessList a) s = snd (AddAddressToAccessList a s)"
| "sdb_step K rm (OpAddSlotToAccessList a k) s = snd (AddSlotToAccessList a k s)"
| "sdb_step K rm OpSnapshot s = snd (Snapshot s)"
| "sdb_step K rm (OpRevertToSnapshot i) s = snd (RevertToSnapshot K rm i s)"
| "sdb_step K rm (OpPrecompile body) s = snd (precompileCall K rm body s)"

definition sdb_run :: "'c sdb_keeper \<Rightarrow> ('c, 'm, 'v) cache_api \<Rightarrow> ('c, 'v) sdb_op list \<Rightarrow> ('c, 'm, 'v) StateDB \<Rightarrow> ('c, 'm, 'v) StateDB" where
  "sdb_run K rm = fold (sdb_step K rm)"

text \<open>No revert of the sequence goes to revision \<open>i\<close> or to one before it.\<close>

fun revertsAfter :: "int \<Rightarrow> ('c, 'v) sdb_op \<Rightarrow> bool" where
  "revertsAfter i (OpRevertToSnapshot j) = (i < j)"
| "revertsAfter i _ = True"

text \<open>Everything the EVM can read.\<close>

definition sameReads :: "'c sdb_keeper \<Rightarrow> ('c, 'm, 'v) StateDB \<Rightarrow> ('c, 'm, 'v) StateDB \<Rightarrow> bool" where
  "sameReads K s t \<longleftrightarrow>
    (\<forall>a k. fst (GetBalance K a s) = fst (GetBalance K a t) \<and> fst (GetNonce K a s) = fst (GetNonce K a t) \<and>
       fst (GetCode K a s) = fst (GetCode K a t) \<and> fst (GetCodeHash K a s) = fst (GetCodeHash K a t) \<and>
       fst (GetState K a k s) = fst (GetState K a k t) \<and>
       fst (GetCommittedState K a k s) = fst (GetCommittedState K a k t) \<and>
       fst (Exist K a s) = fst (Exist K a t) \<and> fst (Empty K a s) = fst (Empty K a t) \<and>
       fst (HasSelfDestructed K a s) = fst (HasSelfDestructed K a t) \<and>
       GetTransientState a k s = GetTransientState a k t \<and>
       AddressInAccessList a s = AddressInAccessList a t \<and> SlotInAccessList a k s = SlotInAccessList a k t) \<and>
    refund s = refund t \<and> logs s = logs t"

text \<open>
  A revision is revertible to \<open>g\<close>: its journal index is inside the journal, and undoing the
  entries above it succeeds and is observationally \<open>g\<close>.
\<close>

definition revertible :: "'c sdb_keeper \<Rightarrow> ('c, 'm, 'v) cache_api \<Rightarrow> nat \<Rightarrow> ('c, 'm, 'v) StateDB \<Rightarrow> ('c, 'm, 'v) StateDB \<Rightarrow> bool" where
  "revertible K rm n g s \<longleftrightarrow> n \<le> length (entries s) \<and> take n (entries s) = entries g \<and> sdb_wf rm g \<and>
    (\<exists>u. undoEntries K rm (rev (drop n (entries s))) s = Some u \<and> addr_ok u \<and> sim K rm u g)"

definition revisionOrder :: "revision \<Rightarrow> revision \<Rightarrow> bool" where
  "revisionOrder r r' \<longleftrightarrow> rev_id r < rev_id r' \<and> journalIndex r \<le> journalIndex r'"

definition sdb_inv :: "'c sdb_keeper \<Rightarrow> ('c, 'm, 'v) cache_api \<Rightarrow> ('c, 'm, 'v) StateDB \<Rightarrow> bool" where
  "sdb_inv K rm s \<longleftrightarrow> sdb_wf rm s \<and> sorted_wrt revisionOrder (validRevisions s) \<and>
    (\<forall>r\<in>set (validRevisions s). rev_id r < nextRevisionID s \<and> (\<exists>g. revertible K rm (journalIndex r) g s))"

section \<open>Reads\<close>

lemma read_objOf:
  "fst (GetBalance K a s) = (case objOf K s a of None \<Rightarrow> 0 | Some ob \<Rightarrow> Balance (account ob))"
  "fst (GetNonce K a s) = (case objOf K s a of None \<Rightarrow> 0 | Some ob \<Rightarrow> Nonce (account ob))"
  "fst (GetCodeHash K a s) = (case objOf K s a of None \<Rightarrow> 0 | Some ob \<Rightarrow> CodeHash (account ob))"
  "fst (GetCode K a s) = (case objOf K s a of None \<Rightarrow> None | Some ob \<Rightarrow> fst (so_Code K (ctx s) ob))"
  "fst (GetState K a k s) = (case objOf K s a of None \<Rightarrow> 0 | Some ob \<Rightarrow> fst (so_GetState K (ctx s) k ob))"
  "fst (GetCommittedState K a k s) = (case objOf K s a of None \<Rightarrow> 0 | Some ob \<Rightarrow> fst (so_GetCommittedState K (ctx s) k ob))"
  "fst (Exist K a s) = (objOf K s a \<noteq> None)"
  "fst (Empty K a s) = (case objOf K s a of None \<Rightarrow> True | Some ob \<Rightarrow> so_empty K ob)"
  "fst (HasSelfDestructed K a s) = (case objOf K s a of None \<Rightarrow> False | Some ob \<Rightarrow> selfDestructed ob)"
proof -
  obtain r s1 where g: "getStateObject K a s = (r, s1)" by fastforce
  have r: "objOf K s a = r" using getStateObject_objOf [of K a s] g by simp
  have c: "ctx s1 = ctx s" using getStateObject_state [of K a s] g by (auto split: option.splits)
  show "fst (GetBalance K a s) = (case objOf K s a of None \<Rightarrow> 0 | Some ob \<Rightarrow> Balance (account ob))"
    "fst (GetNonce K a s) = (case objOf K s a of None \<Rightarrow> 0 | Some ob \<Rightarrow> Nonce (account ob))"
    "fst (GetCodeHash K a s) = (case objOf K s a of None \<Rightarrow> 0 | Some ob \<Rightarrow> CodeHash (account ob))"
    "fst (GetCode K a s) = (case objOf K s a of None \<Rightarrow> None | Some ob \<Rightarrow> fst (so_Code K (ctx s) ob))"
    "fst (GetState K a k s) = (case objOf K s a of None \<Rightarrow> 0 | Some ob \<Rightarrow> fst (so_GetState K (ctx s) k ob))"
    "fst (GetCommittedState K a k s) = (case objOf K s a of None \<Rightarrow> 0 | Some ob \<Rightarrow> fst (so_GetCommittedState K (ctx s) k ob))"
    "fst (Exist K a s) = (objOf K s a \<noteq> None)"
    "fst (Empty K a s) = (case objOf K s a of None \<Rightarrow> True | Some ob \<Rightarrow> so_empty K ob)"
    "fst (HasSelfDestructed K a s) = (case objOf K s a of None \<Rightarrow> False | Some ob \<Rightarrow> selfDestructed ob)"
    unfolding r using g c
    by (cases r; simp add: GetBalance_def GetNonce_def GetCodeHash_def GetCode_def GetState_def GetCommittedState_def
        Exist_def Empty_def HasSelfDestructed_def prod.case_eq_if)+
qed

lemma sim_sameReads:
  assumes "sim K rm s t"
  shows "sameReads K s t"
proof -
  have "fst (GetBalance K a s) = fst (GetBalance K a t) \<and> fst (GetNonce K a s) = fst (GetNonce K a t) \<and>
       fst (GetCode K a s) = fst (GetCode K a t) \<and> fst (GetCodeHash K a s) = fst (GetCodeHash K a t) \<and>
       fst (GetState K a k s) = fst (GetState K a k t) \<and>
       fst (GetCommittedState K a k s) = fst (GetCommittedState K a k t) \<and>
       fst (Exist K a s) = fst (Exist K a t) \<and> fst (Empty K a s) = fst (Empty K a t) \<and>
       fst (HasSelfDestructed K a s) = fst (HasSelfDestructed K a t)" for a k
  proof (rule sim_objOf_cases [OF assms, of a])
    assume "objOf K s a = None" "objOf K t a = None"
    then show ?thesis by (simp add: read_objOf)
  next
    fix ob ob'
    assume ob: "objOf K s a = Some ob" "objOf K t a = Some ob'" "obs K (ctx t) ob = obs K (ctx t) ob'"
    show ?thesis using ob(1,2) obs_eqD [OF ob(3)] simD(1) [OF assms] by (simp add: read_objOf so_empty_def)
  qed
  then show ?thesis
    using simD [OF assms] unfolding sameReads_def GetTransientState_def AddressInAccessList_def SlotInAccessList_def
    by simp
qed

section \<open>Revisions\<close>

lemma agree_Some_right:
  assumes "agree K rm x (Some t)"
  obtains s where "x = Some s" "sim K rm s t" "addr_ok s"
  using assms by (auto simp: agree_def split: option.splits)

lemma revertEntry_revisions:
  "revertEntry K rm e s = Some u \<Longrightarrow> validRevisions u = validRevisions s \<and> nextRevisionID u = nextRevisionID s"
  by (cases e) (auto simp: onObject_def getStateObject_def RevertMultiStore_def setTransientState_def Let_def
      split: option.splits prod.splits if_splits)

lemma undoEntries_revisions:
  "undoEntries K rm es s = Some u \<Longrightarrow> validRevisions u = validRevisions s \<and> nextRevisionID u = nextRevisionID s"
proof (induction es arbitrary: s)
  case (Cons e es)
  then obtain s1 where "revertEntry K rm e s = Some s1" "undoEntries K rm es (dropDirty e s1) = Some u"
    by (auto split: option.splits)
  then show ?case using Cons.IH revertEntry_revisions [of K rm e s s1]
    by (auto simp: dropDirty_def split: option.splits)
qed simp

lemma sim_journal:
  "sim K rm (s\<lparr>entries := es, validRevisions := rs\<rparr>) t = sim K rm s t"
  "sim K rm (s\<lparr>nextRevisionID := i, validRevisions := rs\<rparr>) t = sim K rm s t"
  "sim K rm t (s\<lparr>entries := es, validRevisions := rs\<rparr>) = sim K rm t s"
proof -
  have o: "objOf K (s\<lparr>entries := es, validRevisions := rs\<rparr>) = objOf K s"
    "objOf K (s\<lparr>nextRevisionID := i, validRevisions := rs\<rparr>) = objOf K s"
    by (simp_all add: objOf_def fun_eq_iff split: option.split)
  show "sim K rm (s\<lparr>entries := es, validRevisions := rs\<rparr>) t = sim K rm s t"
    "sim K rm (s\<lparr>nextRevisionID := i, validRevisions := rs\<rparr>) t = sim K rm s t"
    "sim K rm t (s\<lparr>entries := es, validRevisions := rs\<rparr>) = sim K rm t s"
    by (simp_all add: sim_def sim0_def o)
qed

lemma searchRevision_found:
  "\<forall>r\<in>set xs. rev_id r < rev_id r0 \<Longrightarrow> searchRevision (rev_id r0) (xs @ r0 # ys) = length xs"
  by (induction xs) auto

lemma searchRevision_le: "searchRevision i rs \<le> length rs"
  by (induction rs) auto

lemma sdb_inv_order:
  assumes "sdb_inv K rm s" "validRevisions s = xs @ r # ys"
  shows "\<forall>r'\<in>set xs. rev_id r' < rev_id r \<and> journalIndex r' \<le> journalIndex r"
    "\<forall>r'\<in>set ys. rev_id r < rev_id r' \<and> journalIndex r \<le> journalIndex r'"
  using assms by (auto simp: sdb_inv_def sorted_wrt_append revisionOrder_def)

lemma multiOf_reach: "sdb_wf rm g \<Longrightarrow> multiOf rm g = Some m \<Longrightarrow> cm_reach rm m"
  by (auto simp: sdb_wf_def multiOf_def intro: cm_reach.cached split: option.splits)

lemma sdb_wf_sim:
  assumes g: "sdb_wf rm g" and sim: "sim K rm u g" and ok: "addr_ok u"
  shows "sdb_wf rm u"
proof -
  have "cm_reach rm m" if "snapshotter u = Some m" for m
    using multiOf_reach [OF g, of m] simD(2) [OF sim] that by (simp add: multiOf_def)
  then show ?thesis using g ok simD [OF sim] by (simp add: sdb_wf_def)
qed

lemma RevertToSnapshot_cases:
  assumes "sdb_inv K rm s"
  obtains "RevertToSnapshot K rm i s = (Panic ''revision id cannot be reverted'', s)"
  | xs r ys where "validRevisions s = xs @ r # ys" "rev_id r = i"
proof (cases "\<exists>r\<in>set (validRevisions s). rev_id r = i")
  case True
  then show ?thesis using that(2) by (metis split_list)
next
  case False
  let ?k = "searchRevision i (validRevisions s)"
  have "?k = length (validRevisions s) \<or> rev_id (validRevisions s ! ?k) \<noteq> i"
    using False searchRevision_le [of i "validRevisions s"] by (metis nat_less_le nth_mem)
  then show ?thesis using that(1) by (simp add: RevertToSnapshot_def Let_def)
qed

lemma Snapshot_revertible:
  assumes wf: "sdb_wf rm s"
  shows "revertible K rm (length (entries s)) s (snd (Snapshot s))"
  using wf by (simp add: revertible_def Snapshot_def Let_def sdb_wf_def addr_ok_def sim_journal)

text \<open>A transaction starts with a fresh database and \<open>Prepare\<close>, which leaves well-formed access lists.\<close>

lemma addAccessTuple_wf: "al_wf al \<Longrightarrow> \<exists>al'. addAccessTuple a keys al = Some al' \<and> al_wf al'"
proof (induction keys arbitrary: al)
  case (Cons k keys)
  obtain r al' where "AddSlot a k al = Some (r, al')" "al_wf al'" using AddSlot_wf [OF Cons.prems] by blast
  then show ?case using Cons.IH [of al'] by simp
qed simp

lemma addAccessTuples_wf: "al_wf al \<Longrightarrow> \<exists>al'. addAccessTuples els al = Some al' \<and> al_wf al'"
proof (induction els arbitrary: al)
  case (Cons el els)
  obtain a keys where el: "el = (a, keys)" by fastforce
  obtain al' where "addAccessTuple a keys (snd (AddAddress a al)) = Some al'" "al_wf al'"
    using addAccessTuple_wf [OF AddAddress_wf [OF Cons.prems]] by blast
  then show ?case using Cons.IH [of al'] by (simp add: el)
qed simp

lemma addAddresses_wf: "al_wf al \<Longrightarrow> al_wf (fold (\<lambda>addr al. snd (AddAddress addr al)) as al)"
  by (induction "as" arbitrary: al) (simp_all add: AddAddress_wf)

lemma New_Prepare_inv: "sdb_inv K rm (snd (Prepare rules sender coinbase dst precompiles lst (StateDB_New c cfg)))"
proof -
  let ?al0 = "snd (AddAddress sender newAccessList)"
  let ?al1 = "case dst of None \<Rightarrow> ?al0 | Some d \<Rightarrow> snd (AddAddress d ?al0)"
  have "al_wf ?al1" by (simp add: AddAddress_wf split: option.split)
  then obtain al where al: "addAccessTuples lst (fold (\<lambda>addr al. snd (AddAddress addr al)) precompiles ?al1) = Some al" "al_wf al"
    using addAccessTuples_wf [OF addAddresses_wf] by blast
  then show ?thesis
    by (auto simp: Prepare_def sdb_inv_def sdb_wf_def StateDB_New_def addr_ok_def Let_def AddAddress_wf)
qed

text \<open>Revision \<open>r\<close>, taken of \<open>s0\<close>, is still on the stack and reverts to \<open>s0\<close>.\<close>

definition tracked :: "'c sdb_keeper \<Rightarrow> ('c, 'm, 'v) cache_api \<Rightarrow> ('c, 'm, 'v) StateDB \<Rightarrow> revision \<Rightarrow> ('c, 'm, 'v) StateDB \<Rightarrow> bool" where
  "tracked K rm s0 r s \<longleftrightarrow> sdb_inv K rm s \<and> revertible K rm (journalIndex r) s0 s \<and>
    (\<exists>ys. validRevisions s = validRevisions s0 @ r # ys)"

context cache_store
begin

section \<open>Revertible revisions\<close>

lemma step_undoable:
  assumes "sdb_wf rm s" "\<nexists>j. op = OpRevertToSnapshot j" "op \<noteq> OpSnapshot"
  shows "undoable K rm s (sdb_step K rm op s)"
  using assms(2,3)
  by (cases op) (simp_all add: assms(1) read_undo GetCodeSize_undo AddBalance_undo SubBalance_undo SetNonce_undo
      SetCode_undo SetState_undo SelfDestruct_undo SelfDestruct6780_undo CreateAccount_undo CreateContract_undo
      SetTransientState_undo AddLog_undo AddRefund_undo SubRefund_undo AddAddressToAccessList_undo
      AddSlotToAccessList_undo precompileCall_undo)

lemma revertible_step:
  assumes r: "revertible K rm n g s" and u: "undoable K rm s s'" and wf: "sdb_wf rm s"
  shows "revertible K rm n g s'"
proof -
  obtain v where v: "undoEntries K rm (rev (drop n (entries s))) s = Some v" "addr_ok v" "sim K rm v g"
    using r unfolding revertible_def by blast
  obtain es u' where u': "entries s' = entries s @ es" "undoEntries K rm (rev es) s' = Some u'" "addr_ok u'" "sim K rm u' s"
    using u unfolding undoable_def by blast
  have "addr_ok s" using wf by (simp add: sdb_wf_def)
  then obtain w where w: "undoEntries K rm (rev (drop n (entries s))) u' = Some w" "sim K rm w v" "addr_ok w"
    using undoEntries_agree [OF u'(4,3), of "rev (drop n (entries s))"] agree_Some_right v(1) by metis
  have n: "n \<le> length (entries s)" using r by (simp add: revertible_def)
  have "undoEntries K rm (rev (drop n (entries s'))) s' = Some w"
    using n by (simp add: u'(1) undoEntries_append u'(2) w(1))
  then show ?thesis
    using r n u'(1) w(3) sim_trans [OF w(2) v(3)] by (simp add: revertible_def)
qed

text \<open>What remains revertible after a revert to index \<open>m\<close>.\<close>

lemma revertible_revert:
  assumes r: "revertible K rm n g s" and nm: "n \<le> m" "m \<le> length (entries s)"
    and u: "undoEntries K rm (rev (drop m (entries s))) s = Some u" "addr_ok u"
  shows "revertible K rm n g (u\<lparr>entries := take m (entries s), validRevisions := rs\<rparr>)"
proof -
  let ?t = "u\<lparr>entries := take m (entries s), validRevisions := rs\<rparr>"
  let ?es = "rev (drop n (take m (entries s)))"
  obtain v where v: "undoEntries K rm (rev (drop n (entries s))) s = Some v" "addr_ok v" "sim K rm v g"
    using r unfolding revertible_def by blast
  have "drop n (entries s) = drop n (take m (entries s)) @ drop m (entries s)"
    using nm by (metis append_take_drop_id drop_append length_take min.absorb2 diff_is_0_eq drop0)
  then have "undoEntries K rm ?es u = Some v"
    using v(1) u(1) by (simp add: undoEntries_append)
  moreover have ok: "addr_ok ?t" using u(2) by (simp add: addr_ok_def)
  moreover have "sim K rm ?t u" by (simp add: sim_journal)
  ultimately obtain w where "undoEntries K rm ?es ?t = Some w" "sim K rm w v" "addr_ok w"
    using undoEntries_agree [of K ?t u ?es] u(2) agree_Some_right by metis
  then show ?thesis
    using r nm sim_trans [of K rm w v g] v(3) by (simp add: revertible_def min.absorb1)
qed

section \<open>The revision stack\<close>

lemma RevertToSnapshot_valid:
  assumes inv: "sdb_inv K rm s" and vr: "validRevisions s = xs @ r # ys" and g: "revertible K rm (journalIndex r) g s"
  obtains t where "RevertToSnapshot K rm (rev_id r) s = (Ret (), t)" "sim K rm t g" "entries t = entries g"
    "validRevisions t = xs" "nextRevisionID t = nextRevisionID s" "sdb_wf rm t"
    "\<And>n h. n \<le> journalIndex r \<Longrightarrow> revertible K rm n h s \<Longrightarrow> revertible K rm n h t"
proof -
  let ?m = "journalIndex r"
  obtain u where u: "undoEntries K rm (rev (drop ?m (entries s))) s = Some u" "addr_ok u" "sim K rm u g"
    using g unfolding revertible_def by blast
  let ?t = "u\<lparr>entries := take ?m (entries s), validRevisions := xs\<rparr>"
  have idx: "searchRevision (rev_id r) (validRevisions s) = length xs"
    using sdb_inv_order(1) [OF inv vr] by (simp add: vr searchRevision_found)
  have ret: "RevertToSnapshot K rm (rev_id r) s = (Ret (), ?t)"
    using u(1) undoEntries_revisions [OF u(1)]
    by (simp add: RevertToSnapshot_def journal_Revert_def idx Let_def) (simp add: vr)
  show thesis
  proof (rule that [OF ret])
    show "sim K rm ?t g" using u(3) by (simp add: sim_journal)
    show "entries ?t = entries g" using g by (simp add: revertible_def)
    show "nextRevisionID ?t = nextRevisionID s" using undoEntries_revisions [OF u(1)] by simp
    have "addr_ok ?t" using u(2) by (simp add: addr_ok_def)
    then show "sdb_wf rm ?t" using g \<open>sim K rm ?t g\<close> by (auto simp: revertible_def intro: sdb_wf_sim)
    show "revertible K rm n h ?t" if "n \<le> ?m" "revertible K rm n h s" for n h
      by (rule revertible_revert [OF that(2,1) _ u(1,2)]) (use g in \<open>simp add: revertible_def\<close>)
  qed simp
qed

section \<open>The invariant of a transaction\<close>

lemma Snapshot_undoable: "sdb_wf rm s \<Longrightarrow> revertible K rm n g s \<Longrightarrow> revertible K rm n g (snd (Snapshot s))"
proof -
  assume wf: "sdb_wf rm s" and r: "revertible K rm n g s"
  obtain v where v: "undoEntries K rm (rev (drop n (entries s))) s = Some v" "addr_ok v" "sim K rm v g"
    using r unfolding revertible_def by blast
  let ?s = "snd (Snapshot s)"
  have s': "sim K rm ?s s" "addr_ok ?s" "entries ?s = entries s"
    using wf by (simp_all add: Snapshot_def Let_def sim_journal sdb_wf_def addr_ok_def)
  have "addr_ok s" using wf by (simp add: sdb_wf_def)
  then obtain w where "undoEntries K rm (rev (drop n (entries s))) ?s = Some w" "sim K rm w v" "addr_ok w"
    using undoEntries_agree [OF s'(1,2), of "rev (drop n (entries s))"] agree_Some_right v(1) by metis
  then show ?thesis using r s'(3) sim_trans [of K rm w v g] v(3) by (simp add: revertible_def)
qed

lemma Snapshot_inv:
  assumes "sdb_inv K rm s"
  shows "sdb_inv K rm (snd (Snapshot s))"
proof -
  have wf: "sdb_wf rm s" using assms by (simp add: sdb_inv_def)
  let ?r = "\<lparr>rev_id = nextRevisionID s, journalIndex = length (entries s)\<rparr>"
  have vr: "validRevisions (snd (Snapshot s)) = validRevisions s @ [?r]" "nextRevisionID (snd (Snapshot s)) = nextRevisionID s + 1"
    by (simp_all add: Snapshot_def Let_def)
  have old: "rev_id r < nextRevisionID s \<and> journalIndex r \<le> length (entries s) \<and>
      (\<exists>g. revertible K rm (journalIndex r) g (snd (Snapshot s)))" if "r \<in> set (validRevisions s)" for r
    using assms that Snapshot_undoable [OF wf] by (fastforce simp: sdb_inv_def revertible_def [of _ _ _ _ s])
  have "sdb_wf rm (snd (Snapshot s))" using wf by (simp add: Snapshot_def Let_def sdb_wf_def addr_ok_def)
  moreover have "sorted_wrt revisionOrder (validRevisions s @ [?r])"
    using assms old by (simp add: sdb_inv_def sorted_wrt_append revisionOrder_def)
  ultimately show ?thesis
    using old Snapshot_revertible [OF wf, of K] by (fastforce simp: sdb_inv_def vr)
qed

lemma RevertToSnapshot_inv:
  assumes inv: "sdb_inv K rm s"
  shows "sdb_inv K rm (snd (RevertToSnapshot K rm i s))"
proof (rule RevertToSnapshot_cases [OF inv, of i])
  fix xs r ys
  assume vr: "validRevisions s = xs @ r # ys" and i: "rev_id r = i"
  obtain g where g: "revertible K rm (journalIndex r) g s" using inv vr by (auto simp: sdb_inv_def)
  obtain t where t: "RevertToSnapshot K rm (rev_id r) s = (Ret (), t)" "validRevisions t = xs"
      "nextRevisionID t = nextRevisionID s" "sdb_wf rm t"
      "\<And>n h. n \<le> journalIndex r \<Longrightarrow> revertible K rm n h s \<Longrightarrow> revertible K rm n h t"
    by (rule RevertToSnapshot_valid [OF inv vr g]) blast
  have "rev_id r' < nextRevisionID s \<and> (\<exists>h. revertible K rm (journalIndex r') h t)" if "r' \<in> set xs" for r'
    using inv that sdb_inv_order(1) [OF inv vr] t(5) vr by (fastforce simp: sdb_inv_def)
  then show ?thesis using t(1-4) i inv vr by (simp add: sdb_inv_def sorted_wrt_append)
qed (use inv in simp)

lemma undoable_inv:
  assumes inv: "sdb_inv K rm s" and u: "undoable K rm s s'"
  shows "sdb_inv K rm s'"
proof -
  have wf: "sdb_wf rm s" using inv by (simp add: sdb_inv_def)
  show ?thesis using inv u revertible_step [OF _ u wf] undoable_wf [OF u]
    by (fastforce simp: sdb_inv_def undoable_def [of K rm s s'])
qed

lemma step_inv:
  assumes "sdb_inv K rm s"
  shows "sdb_inv K rm (sdb_step K rm op s)"
proof (cases "(\<exists>j. op = OpRevertToSnapshot j) \<or> op = OpSnapshot")
  case True
  then show ?thesis using Snapshot_inv [OF assms] RevertToSnapshot_inv [OF assms] by auto
next
  case False
  then show ?thesis
    using assms by (intro undoable_inv [OF assms] step_undoable) (auto simp: sdb_inv_def)
qed

lemma run_inv: "sdb_inv K rm s \<Longrightarrow> sdb_inv K rm (sdb_run K rm ops s)"
  unfolding sdb_run_def by (induction ops arbitrary: s) (simp_all add: step_inv)

section \<open>Tracking one snapshot\<close>

lemma tracked_start:
  assumes "sdb_inv K rm s"
  shows "tracked K rm s \<lparr>rev_id = fst (Snapshot s), journalIndex = length (entries s)\<rparr> (snd (Snapshot s))"
  using Snapshot_inv [OF assms] Snapshot_revertible [of rm s K] assms
  by (simp add: tracked_def) (simp add: Snapshot_def Let_def sdb_inv_def)

lemma tracked_revert:
  assumes t: "tracked K rm s0 r s" and i: "rev_id r < i"
  shows "tracked K rm s0 r (snd (RevertToSnapshot K rm i s))"
proof -
  have inv: "sdb_inv K rm s" and r: "revertible K rm (journalIndex r) s0 s" using t by (simp_all add: tracked_def)
  obtain zs where zs: "validRevisions s = validRevisions s0 @ r # zs" using t by (auto simp: tracked_def)
  show ?thesis
  proof (rule RevertToSnapshot_cases [OF inv, of i])
    fix xs r' ys
    assume vr: "validRevisions s = xs @ r' # ys" and i': "rev_id r' = i"
    have "r' \<in> set (validRevisions s0 @ r # zs)" by (simp add: zs [symmetric] vr)
    then have "r' \<in> set zs" using i i' sdb_inv_order(1) [OF inv zs] by auto
    then have le: "journalIndex r \<le> journalIndex r'" using sdb_inv_order(2) [OF inv zs] by blast
    have "r \<notin> set (r' # ys)" using sdb_inv_order(2) [OF inv vr] i i' by auto
    then obtain ws where ws: "xs = validRevisions s0 @ r # ws"
      using zs vr by (auto simp: append_eq_append_conv2 Cons_eq_append_conv append_eq_Cons_conv)
    obtain g where g: "revertible K rm (journalIndex r') g s" using inv vr by (auto simp: sdb_inv_def)
    obtain t where t: "RevertToSnapshot K rm (rev_id r') s = (Ret (), t)" "validRevisions t = xs"
        "\<And>n h. n \<le> journalIndex r' \<Longrightarrow> revertible K rm n h s \<Longrightarrow> revertible K rm n h t"
      by (rule RevertToSnapshot_valid [OF inv vr g]) blast
    show ?thesis
      using RevertToSnapshot_inv [OF inv, of i] t(1,2) t(3) [OF le r] ws i' by (simp add: tracked_def)
  qed (use t in simp)
qed

lemma tracked_step:
  assumes t: "tracked K rm s0 r s" and "revertsAfter (rev_id r) op"
  shows "tracked K rm s0 r (sdb_step K rm op s)"
proof -
  have inv: "sdb_inv K rm s" and wf: "sdb_wf rm s" and r: "revertible K rm (journalIndex r) s0 s"
    using t by (simp_all add: tracked_def sdb_inv_def)
  consider (revert) j where "op = OpRevertToSnapshot j" | (snap) "op = OpSnapshot"
    | (other) "\<nexists>j. op = OpRevertToSnapshot j" "op \<noteq> OpSnapshot" by blast
  then show ?thesis
  proof cases
    case revert
    then show ?thesis using assms by (simp add: tracked_revert)
  next
    case snap
    then show ?thesis using t Snapshot_inv [OF inv] Snapshot_undoable [OF wf r]
      by (auto simp: tracked_def) (simp add: Snapshot_def Let_def)
  next
    case other
    note u = step_undoable [OF wf other, of K]
    show ?thesis using t undoable_inv [OF inv u] revertible_step [OF r u wf] u
      by (simp add: tracked_def undoable_def)
  qed
qed

lemma tracked_run:
  "tracked K rm s0 r s \<Longrightarrow> list_all (revertsAfter (rev_id r)) ops \<Longrightarrow> tracked K rm s0 r (sdb_run K rm ops s)"
  unfolding sdb_run_def by (induction ops arbitrary: s) (simp_all add: tracked_step)

lemma tracked_end:
  assumes "tracked K rm s0 r s"
  obtains t where "RevertToSnapshot K rm (rev_id r) s = (Ret (), t)" "sim K rm t s0" "entries t = entries s0"
    "validRevisions t = validRevisions s0"
  using assms RevertToSnapshot_valid unfolding tracked_def by metis

end

end
