(* ===== verification/StateDBProps.thy ===== *)
theory StateDBProps
  imports StateDBSnapshot
begin

text \<open>
  The properties of the state database: every write is read back and nothing else changes,
  \<open>RevertToSnapshot\<close> restores what a snapshot saw, and the limit on precompile calls.
\<close>

section \<open>Writes\<close>

text \<open>The object a write works on, created when the account does not exist.\<close>

definition objOrNew :: "'c sdb_keeper \<Rightarrow> ('c, 'm, 'v) StateDB \<Rightarrow> Address \<Rightarrow> stateObject" where
  "objOrNew K s a = (case objOf K s a of Some ob \<Rightarrow> ob | None \<Rightarrow> newObject K a None)"

lemma getOrNew_objOf:
  assumes "addr_ok s" and g: "getOrNewStateObject K a s = (ob, s1)"
  shows "ob = objOrNew K s a" "address ob = a" "ctx s1 = ctx s" "objOf K s1 b = (if b = a then Some ob else objOf K s b)"
proof -
  have "ob = objOrNew K s a \<and> address ob = a \<and> ctx s1 = ctx s \<and> (\<forall>b. objOf K s1 b = (if b = a then Some ob else objOf K s b))"
  proof (cases "objOf K s a")
    case None
    then show ?thesis using g assms(1)
      by (auto simp: getOrNewStateObject_def createObject_def getStateObject_cached Let_def objOrNew_def)
  next
    case (Some o')
    then show ?thesis using g assms(1) objOf_address [OF assms(1) Some]
      by (auto simp: getOrNewStateObject_def getStateObject_cached objOrNew_def)
  qed
  then show "ob = objOrNew K s a" "address ob = a" "ctx s1 = ctx s" "objOf K s1 b = (if b = a then Some ob else objOf K s b)"
    by blast+
qed

text \<open>A write replaces the object by \<open>f\<close> of it, up to values cached in it.\<close>

definition updates :: "'c sdb_keeper \<Rightarrow> Address \<Rightarrow> (stateObject \<Rightarrow> stateObject) \<Rightarrow> ('c, 'm, 'v) StateDB \<Rightarrow> ('c, 'm, 'v) StateDB \<Rightarrow> bool" where
  "updates K a f s s' \<longleftrightarrow> ctx s' = ctx s \<and> (\<forall>b. b \<noteq> a \<longrightarrow> objOf K s' b = objOf K s b) \<and>
    (\<exists>ob. objOf K s' a = Some ob \<and> obs K (ctx s) ob = obs K (ctx s) (f (objOrNew K s a)))"

lemma AddBalance_updates:
  assumes "addr_ok s"
  shows "updates K a (\<lambda>ob. so_setBalance (Balance (account ob) + v) ob) s (snd (AddBalance K a v s))"
proof -
  obtain ob s1 where g: "getOrNewStateObject K a s = (ob, s1)" by fastforce
  note o1 = getOrNew_objOf [OF assms g]
  show ?thesis using o1
    by (auto simp: updates_def AddBalance_def g so_AddBalance_def so_SetBalance_def Let_def so_setBalance_def split: prod.split)
qed

lemma SubBalance_updates:
  assumes "addr_ok s"
  shows "updates K a (\<lambda>ob. so_setBalance (Balance (account ob) - v) ob) s (snd (SubBalance K a v s))"
proof -
  obtain ob s1 where g: "getOrNewStateObject K a s = (ob, s1)" by fastforce
  note o1 = getOrNew_objOf [OF assms g]
  show ?thesis using o1
    by (auto simp: updates_def SubBalance_def g so_SubBalance_def so_SetBalance_def Let_def so_setBalance_def split: prod.split)
qed

lemma SetNonce_updates:
  assumes "addr_ok s"
  shows "updates K a (so_setNonce n) s (snd (SetNonce K a n s))"
proof -
  obtain ob s1 where g: "getOrNewStateObject K a s = (ob, s1)" by fastforce
  note o1 = getOrNew_objOf [OF assms g]
  show ?thesis using o1 by (auto simp: updates_def SetNonce_def g Let_def)
qed

lemma SetCode_updates:
  assumes "addr_ok s"
  shows "updates K a (so_setCode (k_Keccak256Hash K (sliceBytes cd)) cd) s (snd (SetCode K a cd s))"
proof -
  obtain ob s1 where g: "getOrNewStateObject K a s = (ob, s1)" by fastforce
  note o1 = getOrNew_objOf [OF assms g]
  obtain pc ob1 where c: "so_Code K (ctx s) ob = (pc, ob1)" by fastforce
  have ob1: "obs K (ctx s) ob1 = obs K (ctx s) ob" "address ob1 = a"
    using obs_cache_code [of K "ctx s" ob] c o1(2) by simp_all
  show ?thesis using o1(3,4) ob1(2) obs_congs(3) [OF ob1(1)]
    by (simp add: updates_def SetCode_def g c Let_def o1(1) [symmetric])
qed

lemma SetState_updates:
  assumes "addr_ok s"
  shows "updates K a (so_setState k v) s (snd (SetState K a k v s))"
proof -
  obtain ob s1 where g: "getOrNewStateObject K a s = (ob, s1)" by fastforce
  note o1 = getOrNew_objOf [OF assms g]
  obtain p ob1 where c: "so_GetState K (ctx s) k ob = (p, ob1)" by fastforce
  have ob1: "obs K (ctx s) ob1 = obs K (ctx s) ob" "address ob1 = a"
    using obs_cache_state [of K "ctx s" k ob] c o1(2) by simp_all
  have "obs K (ctx s) (so_setState k v ob) = obs K (ctx s) ob" if "p = v"
    using c that by (auto simp: obs_def fun_eq_iff)
  then show ?thesis using o1(3,4) ob1 obs_congs(4) [OF ob1(1), of k v]
    by (simp add: updates_def SetState_def g c Let_def o1(1) [symmetric])
qed

text \<open>What the EVM reads of account \<open>a\<close>, with the slot \<open>k\<close> of its storage.\<close>

record account_reads =
  rd_Exist :: bool
  rd_Balance :: u256
  rd_Nonce :: u64
  rd_CodeHash :: Hash
  rd_Code :: "bytes option"
  rd_State :: Hash
  rd_CommittedState :: Hash
  rd_SelfDestructed :: bool

definition readsOf :: "'c sdb_keeper \<Rightarrow> Address \<Rightarrow> Hash \<Rightarrow> ('c, 'm, 'v) StateDB \<Rightarrow> account_reads" where
  "readsOf K a k s = \<lparr>rd_Exist = fst (Exist K a s), rd_Balance = fst (GetBalance K a s), rd_Nonce = fst (GetNonce K a s),
     rd_CodeHash = fst (GetCodeHash K a s), rd_Code = fst (GetCode K a s), rd_State = fst (GetState K a k s),
     rd_CommittedState = fst (GetCommittedState K a k s), rd_SelfDestructed = fst (HasSelfDestructed K a s)\<rparr>"

definition readsObject :: "'c sdb_keeper \<Rightarrow> 'c \<Rightarrow> Hash \<Rightarrow> stateObject \<Rightarrow> account_reads" where
  "readsObject K c k ob = \<lparr>rd_Exist = True, rd_Balance = Balance (account ob), rd_Nonce = Nonce (account ob),
     rd_CodeHash = CodeHash (account ob), rd_Code = fst (so_Code K c ob), rd_State = fst (so_GetState K c k ob),
     rd_CommittedState = fst (so_GetCommittedState K c k ob), rd_SelfDestructed = selfDestructed ob\<rparr>"

text \<open>A write creates the account when there is none: it exists, with the hash of the empty code.\<close>

definition createdReads :: "'c sdb_keeper \<Rightarrow> account_reads \<Rightarrow> account_reads" where
  "createdReads K r = (if rd_Exist r then r else r\<lparr>rd_Exist := True, rd_CodeHash := EmptyCodeHash K\<rparr>)"

lemma readsOf_object: "objOf K s a = Some ob \<Longrightarrow> readsOf K a k s = readsObject K (ctx s) k ob"
  by (simp add: readsOf_def readsObject_def read_objOf)

lemma readsObject_obs: "obs K c ob = obs K c ob' \<Longrightarrow> readsObject K c k ob = readsObject K c k ob'"
  using obs_eqD [of K c ob ob'] by (simp add: readsObject_def)

lemma readsOf_created:
  assumes "\<And>a k. k_GetAccount K (ctx s) a = None \<Longrightarrow> k_GetState K (ctx s) a k = 0"
  shows "createdReads K (readsOf K a k s) = readsObject K (ctx s) k (objOrNew K s a)"
proof (cases "objOf K s a")
  case None
  then have "k_GetAccount K (ctx s) a = None" by (auto simp: objOf_def split: option.splits)
  with None show ?thesis
    by (simp add: createdReads_def readsOf_def readsObject_def objOrNew_def read_objOf code_read state_read committed_read newObject_def assms)
next
  case (Some ob)
  then show ?thesis by (simp add: createdReads_def readsOf_object readsObject_def objOrNew_def)
qed

lemma updates_read:
  assumes "updates K a f s s'"
  shows "readsOf K b k s' = (if b = a then readsObject K (ctx s) k (f (objOrNew K s a)) else readsOf K b k s)"
proof -
  obtain ob where o1: "ctx s' = ctx s" "\<And>b. b \<noteq> a \<Longrightarrow> objOf K s' b = objOf K s b" "objOf K s' a = Some ob"
      "obs K (ctx s) ob = obs K (ctx s) (f (objOrNew K s a))"
    using assms by (auto simp: updates_def)
  show ?thesis
  proof (cases "b = a")
    case True
    then show ?thesis using readsOf_object [OF o1(3), of k] readsObject_obs [OF o1(4), of k] o1(1) by simp
  next
    case False
    then show ?thesis using o1(2) [OF False] by (simp add: readsOf_def read_objOf o1(1) split: option.split)
  qed
qed

text \<open>Each setter of a state object changes its own field.\<close>

lemma readsObject_set:
  "readsObject K c k (so_setBalance v ob) = (readsObject K c k ob)\<lparr>rd_Balance := v\<rparr>"
  "readsObject K c k (so_setNonce n ob) = (readsObject K c k ob)\<lparr>rd_Nonce := n\<rparr>"
  "readsObject K c k (so_setState j w ob) = (if k = j then (readsObject K c k ob)\<lparr>rd_State := w\<rparr> else readsObject K c k ob)"
  "readsObject K c k (so_setCode (k_Keccak256Hash K (sliceBytes cd)) cd ob) =
     (readsObject K c k ob)\<lparr>rd_CodeHash := k_Keccak256Hash K (sliceBytes cd), rd_Code := cd\<rparr>"
  by (simp_all add: readsObject_def sliceBytes_def EmptyCodeHash_def split: option.split)

lemma readsObject_balance: "Balance (account ob) = rd_Balance (readsObject K c k ob)"
  by (simp add: readsObject_def)

section \<open>Precompile calls\<close>

text \<open>The state after \<open>n\<close> calls to precompiles.\<close>

definition afterPrecompiles :: "int \<Rightarrow> 'v \<Rightarrow> nat \<Rightarrow> ('c, 'm, 'v) StateDB \<Rightarrow> ('c, 'm, 'v) StateDB" where
  "afterPrecompiles i ev n = ((\<lambda>s. snd (AddPrecompileFn i ev s)) ^^ n)"

lemma AddPrecompileFn_counter:
  "precompileCallsCounter (snd (AddPrecompileFn i ev s)) = precompileCallsCounter s + 1"
  by (simp add: AddPrecompileFn_def Let_def journal_append_def)

lemma afterPrecompiles_counter:
  "precompileCallsCounter (afterPrecompiles i ev n s) = precompileCallsCounter s + of_nat n"
  by (induction n) (simp_all add: afterPrecompiles_def AddPrecompileFn_counter algebra_simps)

lemma AddPrecompileFn_result:
  "fst (AddPrecompileFn i ev s) =
    (if 7 < unat (precompileCallsCounter s + 1) then Err ''max calls to precompiles reached'' else Ret ())"
  by (simp add: AddPrecompileFn_def Let_def journal_append_def MaxPrecompileCalls_def word_less_nat_alt)

section \<open>A transaction\<close>

lemma revertEntry_ctx: "revertEntry K rm e s = Some u \<Longrightarrow> ctx u = ctx s"
  by (cases e) (auto simp: onObject_def getStateObject_def RevertMultiStore_def setTransientState_def Let_def
      split: option.splits prod.splits if_splits)

lemma undoEntries_ctx: "undoEntries K rm es s = Some u \<Longrightarrow> ctx u = ctx s"
proof (induction es arbitrary: s)
  case (Cons e es)
  then obtain s1 where "revertEntry K rm e s = Some s1" "undoEntries K rm es (dropDirty e s1) = Some u"
    by (auto split: option.splits)
  then show ?case using Cons.IH revertEntry_ctx [of K rm e s s1] by fastforce
qed simp

text \<open>The states of a transaction: a fresh database, \<open>Prepare\<close>, then any operations of the EVM.\<close>

definition txReachable :: "'c sdb_keeper \<Rightarrow> ('c, 'm, 'v) cache_api \<Rightarrow> 'c \<Rightarrow> ('c, 'm, 'v) StateDB \<Rightarrow> bool" where
  "txReachable K rm c s \<longleftrightarrow> (\<exists>cfg rules sender coinbase dst precompiles lst ops.
    s = sdb_run K rm ops (snd (Prepare rules sender coinbase dst precompiles lst (StateDB_New c cfg))))"

context cache_store
begin

lemma txReachable_inv: "txReachable K rm c s \<Longrightarrow> sdb_inv K rm s"
  by (auto simp: txReachable_def intro: run_inv New_Prepare_inv)

lemma txReachable_addr_ok: "txReachable K rm c s \<Longrightarrow> addr_ok s"
  using txReachable_inv by (fastforce simp: sdb_inv_def sdb_wf_def)

lemma step_ctx:
  assumes inv: "sdb_inv K rm s"
  shows "ctx (sdb_step K rm op s) = ctx s"
proof (cases "(\<exists>j. op = OpRevertToSnapshot j) \<or> op = OpSnapshot")
  case True
  show ?thesis
  proof (cases "op = OpSnapshot")
    case False
    then obtain j where j: "op = OpRevertToSnapshot j" using True by blast
    show ?thesis
    proof (rule RevertToSnapshot_cases [OF inv, of j])
      fix xs r ys
      assume vr: "validRevisions s = xs @ r # ys" and i: "rev_id r = j"
      obtain g where g: "revertible K rm (journalIndex r) g s" using inv vr by (auto simp: sdb_inv_def)
      obtain t where t: "RevertToSnapshot K rm (rev_id r) s = (Ret (), t)" "sim K rm t g"
        by (rule RevertToSnapshot_valid [OF inv vr g]) blast
      have "ctx g = ctx s" using g undoEntries_ctx by (fastforce simp: revertible_def dest: simD(1))
      then show ?thesis using t i j simD(1) [OF t(2)] by simp
    qed (simp add: j)
  qed (simp add: Snapshot_def Let_def)
next
  case False
  then have "undoable K rm s (sdb_step K rm op s)" using inv by (intro step_undoable) (auto simp: sdb_inv_def)
  then show ?thesis using undoEntries_ctx by (fastforce simp: undoable_def dest: simD(1))
qed

lemma run_ctx: "sdb_inv K rm s \<Longrightarrow> ctx (sdb_run K rm ops s) = ctx s"
  unfolding sdb_run_def by (induction ops arbitrary: s) (simp_all add: step_ctx step_inv)

lemma txReachable_ctx:
  assumes "txReachable K rm c s"
  shows "ctx s = c"
proof -
  obtain cfg rules sender coinbase dst precompiles lst ops where
    s: "s = sdb_run K rm ops (snd (Prepare rules sender coinbase dst precompiles lst (StateDB_New c cfg)))"
    using assms by (auto simp: txReachable_def)
  have "ctx (snd (Prepare rules sender coinbase dst precompiles lst (StateDB_New c cfg))) = c"
    by (auto simp: Prepare_def StateDB_New_def Let_def split: option.split)
  then show ?thesis unfolding s by (simp add: run_ctx New_Prepare_inv)
qed

lemma RevertToSnapshot_ok:
  assumes inv: "sdb_inv K rm s" and i: "i \<in> rev_id ` set (validRevisions s)"
  obtains t where "RevertToSnapshot K rm i s = (Ret (), t)" "i \<notin> rev_id ` set (validRevisions t)"
proof -
  obtain xs r ys where vr: "validRevisions s = xs @ r # ys" and r: "rev_id r = i"
    using i by (metis imageE split_list)
  obtain g where g: "revertible K rm (journalIndex r) g s" using inv vr by (auto simp: sdb_inv_def)
  obtain t where "RevertToSnapshot K rm (rev_id r) s = (Ret (), t)" "validRevisions t = xs"
    by (rule RevertToSnapshot_valid [OF inv vr g]) blast
  moreover have "i \<notin> rev_id ` set xs" using sdb_inv_order(1) [OF inv vr] r by fastforce
  ultimately show thesis using that [of t] r by simp
qed

lemma RevertToSnapshot_unknown:
  assumes inv: "sdb_inv K rm s" and i: "i \<notin> rev_id ` set (validRevisions s)"
  shows "RevertToSnapshot K rm i s = (Panic ''revision id cannot be reverted'', s)"
  by (rule RevertToSnapshot_cases [OF inv, of i]) (use i in auto)

text \<open>Reverting to a snapshot after any operations that do not revert past it.\<close>

lemma revert_restores:
  assumes "txReachable K rm c s" and "Snapshot s = (i, s1)" and "list_all (revertsAfter i) ops"
  shows "\<exists>t. RevertToSnapshot K rm i (sdb_run K rm ops s1) = (Ret (), t) \<and> sim K rm t s \<and>
    entries t = entries s \<and> validRevisions t = validRevisions s"
proof -
  from tracked_start [OF txReachable_inv [OF assms(1)]]
  have "tracked K rm s \<lparr>rev_id = i, journalIndex = length (entries s)\<rparr> s1" by (simp add: assms(2))
  from tracked_run [OF this] assms(3)
  have "tracked K rm s \<lparr>rev_id = i, journalIndex = length (entries s)\<rparr> (sdb_run K rm ops s1)" by simp
  then show ?thesis by (rule tracked_end) auto
qed

text \<open>
  In every state of a transaction, \<open>RevertToSnapshot\<close> succeeds exactly for the revisions on
  the stack and takes the revision off it; any other identifier panics and leaves the database
  as it is.
\<close>

lemma RevertToSnapshot_valid_ids:
  assumes "txReachable K rm c s"
  shows "if i \<in> rev_id ` set (validRevisions s)
    then \<exists>t. RevertToSnapshot K rm i s = (Ret (), t) \<and> i \<notin> rev_id ` set (validRevisions t)
    else RevertToSnapshot K rm i s = (Panic ''revision id cannot be reverted'', s)"
  using RevertToSnapshot_ok [OF txReachable_inv [OF assms], of i] RevertToSnapshot_unknown [OF txReachable_inv [OF assms], of i]
  by auto

end

section \<open>An example\<close>

text \<open>A keeper with one account, for concrete transactions.\<close>

definition oneAccount :: "'c sdb_keeper" where
  "oneAccount = \<lparr>k_GetAccount = (\<lambda>_ a. if a = 1 then Some \<lparr>Nonce = 4, Balance = 10, CodeHash = 0\<rparr> else None),
     k_GetState = (\<lambda>_ a k. if a = 1 \<and> k = 2 then 6 else 0), k_GetCode = (\<lambda>_ _. None),
     k_ForEachStorage = (\<lambda>_ a. if a = 1 then [(2, 6)] else []),
     k_SetAccount = (\<lambda>_ _. go_return ()), k_DeleteState = (\<lambda>_ _ c. c), k_SetState = (\<lambda>_ _ _ c. c),
     k_DeleteCode = (\<lambda>_ c. c), k_SetCode = (\<lambda>_ _ c. c), k_DeleteAccount = (\<lambda>_. go_return ()),
     k_Keccak256Hash = (\<lambda>bs. word_of_nat (length bs))\<rparr>"

text \<open>One KV store with one entry, under a snapshot multi store, and a precompile that overwrites the entry and emits an event.\<close>

definition oneStore :: "(nat, nat \<rightharpoonup> nat) fmap" where
  "oneStore = fmupd 0 [7 \<mapsto> 100] fmempty"

abbreviation mapMulti :: "((nat, nat \<rightharpoonup> nat) fmap, (nat, nat \<rightharpoonup> nat, nat \<rightharpoonup> nat) snapshotmulti, string list) cache_api" where
  "mapMulti \<equiv> multiCache mapCache (\<lambda>d _. d) []"

abbreviation overwrite :: "(nat, nat \<rightharpoonup> nat) fmap \<times> string list \<Rightarrow> (nat, nat \<rightharpoonup> nat) fmap \<times> string list" where
  "overwrite \<equiv> \<lambda>(c, evs). (fmupd 0 [7 \<mapsto> 1] c, ''transfer'' # evs)"

definition txStart :: "'c \<Rightarrow> ('c, 'm, 'v) StateDB" where
  "txStart c = snd (Prepare \<lparr>IsEIP2929 = True, IsEIP4762 = False, IsShanghai = True\<rparr> 1 0 (Some 3) [] []
     (StateDB_New c \<lparr>BlockHash = 0, TxHash = 0, TxIndex = 0, LogIndex = 0\<rparr>))"

abbreviation oneTx :: "((nat, nat \<rightharpoonup> nat) fmap, (nat, nat \<rightharpoonup> nat, nat \<rightharpoonup> nat) snapshotmulti, string list) StateDB" where
  "oneTx \<equiv> txStart oneStore"

lemma txStart_reachable: "txReachable K rm c (txStart c)"
proof -
  have "txStart c = sdb_run K rm [] (txStart c)" by (simp add: sdb_run_def)
  then show ?thesis unfolding txReachable_def txStart_def by blast
qed

lemma txStart_read:
  "fst (GetBalance oneAccount 1 (txStart c)) = 10" "fst (GetState oneAccount 1 2 (txStart c)) = 6"
  "fst (GetNonce oneAccount 1 (txStart c)) = 4" "fst (Exist oneAccount 1 (txStart c))"
  "nextRevisionID (txStart c) = 0"
  by (simp_all add: read_objOf objOf_def txStart_def Prepare_def StateDB_New_def oneAccount_def Let_def newObject_def
      state_read committed_read)

lemma txStart_multi: "map_option (cm_Context mapMulti) (multiOf mapMulti (txStart oneStore)) = Some oneStore"
proof -
  have "snapshotter oneTx = None" "ctx oneTx = oneStore"
    by (simp_all add: txStart_def Prepare_def StateDB_New_def Let_def)
  then have "multiOf mapMulti (txStart oneStore) = map_option fst (cm_Cache mapMulti oneStore)" by (simp add: multiOf_def)
  moreover have "fmlookup (fmmap (kv_view mapCache) (sm_stores (sm_NewStore (\<lambda>k. (the (fmlookup oneStore k), ck_fresh mapCache)) (fmdom oneStore)))) k =
      fmlookup oneStore k" for k
    by (simp add: sm_NewStore_def Let_def oneStore_def kv_view_def kv_NewStore_def mapCache_def SortedKVStoreKeys_def sorted_list_of_fset_def)
  ultimately show ?thesis by (simp add: multiCache_def fmap_eq_iff) (simp add: oneStore_def)
qed

section \<open>Properties\<close>

text \<open>
  C15.  \<open>RevertToSnapshot\<close> to a snapshot taken in any state of a transaction succeeds after any
  sequence of operations that does not revert past the snapshot: nested snapshots, reverts and
  calls of stateful precompiles included.  Every read of the EVM then gives what it gave before
  the snapshot, the next precompile call works on the multi store of the snapshot, whatever the
  precompiles and the flushes of dirty accounts before them wrote since, and the journal, its
  dirty counts and the revision stack are the ones of the snapshot.  The multi store is the one
  of \<open>x/vm/store/snapshotmulti\<close>, over any cache layers.
\<close>

theorem RevertToSnapshot_restores:
  assumes "txReachable K (multiCache C put ev) c s" and "Snapshot s = (i, s1)" and "list_all (revertsAfter i) ops"
  shows "\<exists>t. RevertToSnapshot K (multiCache C put ev) i (sdb_run K (multiCache C put ev) ops s1) = (Ret (), t) \<and>
    sameReads K t s \<and> multiOf (multiCache C put ev) t = multiOf (multiCache C put ev) s \<and>
    entries t = entries s \<and> dirties t = dirties s \<and> validRevisions t = validRevisions s"
proof -
  obtain t where t: "RevertToSnapshot K (multiCache C put ev) i (sdb_run K (multiCache C put ev) ops s1) = (Ret (), t)"
      "sim K (multiCache C put ev) t s" "entries t = entries s" "validRevisions t = validRevisions s"
    using multi.revert_restores [OF assms] by blast
  then show ?thesis using sim_sameReads [OF t(2)] simD(2,8) [OF t(2)] by blast
qed

theorem RevertToSnapshot_restores_witness:
  "\<exists>t. RevertToSnapshot oneAccount mapMulti 0 (sdb_run oneAccount mapMulti
      [OpAddBalance 1 5, OpPrecompile overwrite, OpSnapshot, OpSetState 1 2 9, OpPrecompile overwrite, OpSelfDestruct 1,
       OpRevertToSnapshot 1, OpSetNonce 7 3]
      (snd (Snapshot oneTx))) = (Ret (), t) \<and>
    fst (GetBalance oneAccount 1 t) = 10 \<and> fst (GetState oneAccount 1 2 t) = 6 \<and>
    map_option (cm_Context mapMulti) (multiOf mapMulti t) = Some oneStore"
proof -
  let ?ops = "[OpAddBalance 1 5, OpPrecompile overwrite, OpSnapshot, OpSetState 1 2 9, OpPrecompile overwrite, OpSelfDestruct 1,
       OpRevertToSnapshot 1, OpSetNonce 7 3]"
  have s: "Snapshot oneTx = (0, snd (Snapshot oneTx))" by (simp add: Snapshot_def Let_def txStart_read)
  have "list_all (revertsAfter 0) ?ops" by simp
  from RevertToSnapshot_restores [OF txStart_reachable s this, of oneAccount]
  obtain t where t: "RevertToSnapshot oneAccount mapMulti 0 (sdb_run oneAccount mapMulti ?ops (snd (Snapshot oneTx))) = (Ret (), t)"
      "sameReads oneAccount t oneTx" "multiOf mapMulti t = multiOf mapMulti oneTx" by blast
  show ?thesis using t(1,2) by (intro exI [of _ t]) (simp add: sameReads_def txStart_read t(3) txStart_multi)
qed

text \<open>
  C16.  Every write of the EVM is read back, wraps at the width of its field, and changes nothing
  else that can be read: \<open>AddBalance\<close> and \<open>SubBalance\<close> change the balance, \<open>SetNonce\<close> the nonce,
  \<open>SetState\<close> the one slot and \<open>SetCode\<close> code and code hash, each of the account it is called on.
  All other reads of that account and all reads of other accounts (existence, balance, nonce, code
  hash, code, storage, committed storage, self-destruction) stay the same, except that a write to
  an account that does not exist creates it, with the hash of the empty code.  The state is any
  state of a transaction, over a keeper that has no storage for accounts that do not exist.
\<close>

theorem writes_read_back:
  assumes "txReachable K (multiCache C put ev) c s" and "\<And>a k. k_GetAccount K c a = None \<Longrightarrow> k_GetState K c a k = 0"
  shows "readsOf K b j (snd (AddBalance K a v s)) =
      (if b = a then (createdReads K (readsOf K a j s))\<lparr>rd_Balance := rd_Balance (readsOf K a j s) + v\<rparr> else readsOf K b j s) \<and>
    readsOf K b j (snd (SubBalance K a v s)) =
      (if b = a then (createdReads K (readsOf K a j s))\<lparr>rd_Balance := rd_Balance (readsOf K a j s) - v\<rparr> else readsOf K b j s) \<and>
    readsOf K b j (snd (SetNonce K a n s)) =
      (if b = a then (createdReads K (readsOf K a j s))\<lparr>rd_Nonce := n\<rparr> else readsOf K b j s) \<and>
    readsOf K b j (snd (SetState K a k w s)) =
      (if b = a then (createdReads K (readsOf K a j s))\<lparr>rd_State := if j = k then w else rd_State (readsOf K a j s)\<rparr>
       else readsOf K b j s) \<and>
    readsOf K b j (snd (SetCode K a cd s)) =
      (if b = a then (createdReads K (readsOf K a j s))\<lparr>rd_CodeHash := k_Keccak256Hash K (sliceBytes cd), rd_Code := cd\<rparr>
       else readsOf K b j s)"
proof -
  note ok = multi.txReachable_addr_ok [OF assms(1)]
  have r: "readsObject K (ctx s) j (objOrNew K s a) = createdReads K (readsOf K a j s)" for j
    by (rule readsOf_created [symmetric]) (simp add: multi.txReachable_ctx [OF assms(1)] assms(2))
  have o1: "Balance (account (objOrNew K s a)) = rd_Balance (readsOf K a j s)"
      "rd_State (createdReads K (readsOf K a j s)) = rd_State (readsOf K a j s)"
    unfolding readsObject_balance [of _ K "ctx s" j] r by (simp_all add: createdReads_def)
  show ?thesis
    by (simp add: updates_read [OF AddBalance_updates [OF ok]] updates_read [OF SubBalance_updates [OF ok]]
        updates_read [OF SetNonce_updates [OF ok]] updates_read [OF SetState_updates [OF ok]]
        updates_read [OF SetCode_updates [OF ok]] readsObject_set r o1)
qed

theorem writes_read_back_witness:
  "fst (GetBalance oneAccount 1 (snd (SubBalance oneAccount 1 11 oneTx))) = - 1 \<and>
   fst (GetNonce oneAccount 1 (snd (SubBalance oneAccount 1 11 oneTx))) = 4 \<and>
   fst (GetState oneAccount 1 2 (snd (SetState oneAccount 1 2 9 oneTx))) = 9 \<and>
   fst (GetState oneAccount 1 2 (snd (SetState oneAccount 1 3 9 oneTx))) = 6"
proof -
  have h: "k_GetState oneAccount oneStore a k = 0" if "k_GetAccount oneAccount oneStore a = None" for a k
    using that by (simp add: oneAccount_def split: if_splits)
  note w = writes_read_back [OF txStart_reachable [of oneAccount mapMulti oneStore] h]
  have c: "createdReads oneAccount (readsOf oneAccount 1 2 oneTx) = readsOf oneAccount 1 2 oneTx"
    by (simp add: createdReads_def readsOf_def txStart_read)
  show ?thesis
    using w [of 1 2 1 11 0 2 9 None] w [of 1 2 1 11 0 3 9 None] unfolding c by (simp add: readsOf_def txStart_read)
qed

text \<open>
  C17.  The limit on precompile calls is kept in a \<open>uint8\<close> that wraps: call number \<open>n + 1\<close> of a
  transaction is refused exactly when \<open>(n + 1) mod 256\<close> exceeds seven, so after 248 refused calls
  eight more go through.
\<close>

theorem precompile_limit_wraps:
  "fst (AddPrecompileFn i ev (afterPrecompiles i ev n (StateDB_New c cfg))) =
    (if 7 < (n + 1) mod 256 then Err ''max calls to precompiles reached'' else Ret ())"
proof -
  have "unat (precompileCallsCounter (afterPrecompiles i ev n (StateDB_New c cfg)) + 1) = unat (of_nat (n + 1) :: 8 word)"
    by (simp add: afterPrecompiles_counter StateDB_New_def add.commute)
  also have "\<dots> = (n + 1) mod 256" by (simp only: unat_of_nat take_bit_eq_mod) simp
  finally show ?thesis unfolding AddPrecompileFn_result by (rule arg_cong)
qed

end
