(* ===== verification/StateDBClean.thy ===== *)
theory StateDBClean
  imports StateDBProps
begin

text \<open>
  What a transaction leaves for \<open>Commit\<close>: the journal's dirty counts name every account that
  differs from the keeper, each of them has a state object, and code agrees with its hash.  The
  invariant holds through any operations, snapshots and reverts, provided \<open>CreateAccount\<close> is only
  used for accounts that do not exist, which is how go-ethereum uses it.
\<close>

section \<open>Observations that are committed\<close>

definition obsE :: "'c sdb_keeper \<Rightarrow> 'c \<Rightarrow> stateObject \<Rightarrow> Address \<times> Account \<times> bytes option \<times> bool \<times> (Hash \<Rightarrow> Hash)" where
  "obsE K c ob = (address ob, account ob, fst (so_Code K c ob), selfDestructed ob, (\<lambda>k. fst (so_GetState K c k ob)))"

text \<open>Code and code hash of an account agree; only the empty hash has no code.\<close>

definition codeAgrees :: "'c sdb_keeper \<Rightarrow> bytes option \<Rightarrow> Hash \<Rightarrow> bool" where
  "codeAgrees K cd h \<longleftrightarrow> (case cd of None \<Rightarrow> h = EmptyCodeHash K | Some bs \<Rightarrow> k_Keccak256Hash K bs = h)"

definition codeOk :: "'c sdb_keeper \<Rightarrow> ('c, 'm, 'v) StateDB \<Rightarrow> bool" where
  "codeOk K s \<longleftrightarrow> (\<forall>a ob. objOf K s a = Some ob \<longrightarrow> codeAgrees K (fst (so_Code K (ctx s) ob)) (CodeHash (account ob)))"

definition dirtiedBy :: "'v JournalEntry list \<Rightarrow> Address \<Rightarrow> bool" where
  "dirtiedBy es a \<longleftrightarrow> (\<exists>e\<in>set es. Dirtied e = Some a)"

text \<open>No journal entry is a call of a stateful precompile.\<close>

definition callFree :: "'v JournalEntry list \<Rightarrow> bool" where
  "callFree es \<longleftrightarrow> (\<forall>i ev. precompileCallChange i ev \<notin> set es)"

definition ready :: "'c sdb_keeper \<Rightarrow> ('c, 'm, 'v) StateDB \<Rightarrow> bool" where
  "ready K s \<longleftrightarrow>
    (\<forall>a. a |\<notin>| fmdom (dirties s) \<longrightarrow> map_option (obsE K (ctx s)) (objOf K s a) =
       map_option (\<lambda>acc. obsE K (ctx s) (newObject K a (Some acc))) (k_GetAccount K (ctx s) a)) \<and>
    codeOk K s \<and>
    (\<forall>a. a |\<in>| fmdom (dirties s) \<longleftrightarrow> dirtiedBy (entries s) a) \<and>
    (\<forall>a. a |\<in>| fmdom (dirties s) \<longrightarrow> objOf K s a \<noteq> None) \<and>
    (\<forall>a. createObjectChange a \<in> set (entries s) \<longrightarrow> k_GetAccount K (ctx s) a = None)"

definition present :: "('c, 'm, 'v) StateDB \<Rightarrow> bool" where
  "present s \<longleftrightarrow> (\<forall>a. a |\<in>| fmdom (dirties s) \<longrightarrow> a |\<in>| fmdom (stateObjects s))"

text \<open>A forward step: it only changes the committed observations of the accounts it dirties.\<close>

definition effect :: "'c sdb_keeper \<Rightarrow> ('c, 'm, 'v) StateDB \<Rightarrow> ('c, 'm, 'v) StateDB \<Rightarrow> bool" where
  "effect K s s' \<longleftrightarrow> ctx s' = ctx s \<and> (codeOk K s \<longrightarrow> codeOk K s') \<and>
    (\<exists>es. entries s' = entries s @ es \<and> callFree es \<and>
      (\<forall>a. a |\<in>| fmdom (dirties s') \<longleftrightarrow> a |\<in>| fmdom (dirties s) \<or> dirtiedBy es a) \<and>
      (\<forall>a. \<not> dirtiedBy es a \<longrightarrow> map_option (obsE K (ctx s)) (objOf K s' a) = map_option (obsE K (ctx s)) (objOf K s a)) \<and>
      (\<forall>a. a |\<in>| fmdom (stateObjects s) \<or> dirtiedBy es a \<longrightarrow> a |\<in>| fmdom (stateObjects s')) \<and>
      (\<forall>a. createObjectChange a \<in> set es \<longrightarrow> k_GetAccount K (ctx s) a = None))"

lemma dirtiedBy_simps [simp]: "\<not> dirtiedBy [] a" "dirtiedBy (xs @ ys) a \<longleftrightarrow> dirtiedBy xs a \<or> dirtiedBy ys a"
  "dirtiedBy [e] a \<longleftrightarrow> Dirtied e = Some a"
  by (auto simp: dirtiedBy_def)

lemma callFree_simps [simp]: "callFree []" "callFree (xs @ ys) \<longleftrightarrow> callFree xs \<and> callFree ys"
  "callFree [e] \<longleftrightarrow> (\<forall>i ev. e \<noteq> precompileCallChange i ev)"
  by (auto simp: callFree_def)

lemma obs_obsE: "obs K c ob = obs K c ob' \<Longrightarrow> obsE K c ob = obsE K c ob'"
  using obs_eqD [of K c ob ob'] by (simp add: obsE_def)

lemma stateObjects_objOf: "a |\<in>| fmdom (stateObjects s) \<Longrightarrow> objOf K s a \<noteq> None"
  by (auto simp: objOf_def fmlookup_dom_iff)

lemma sim_obsE:
  assumes "sim K rm s t"
  shows "map_option (obsE K (ctx t)) (objOf K s a) = map_option (obsE K (ctx t)) (objOf K t a)"
proof (rule sim_objOf_cases [OF assms, of a])
  fix ob ob'
  assume "objOf K s a = Some ob" "objOf K t a = Some ob'" "obs K (ctx t) ob = obs K (ctx t) ob'"
  then show ?thesis using obs_obsE [of K "ctx t" ob ob'] by simp
qed simp

lemma codeOk_sim:
  assumes "sim K rm s t" "codeOk K t"
  shows "codeOk K s"
proof -
  have "codeAgrees K (fst (so_Code K (ctx s) ob)) (CodeHash (account ob))"
    if "objOf K s a = Some ob" for a ob
  proof (rule sim_objOf_cases [OF assms(1), of a])
    fix ob0 ob'
    assume o1: "objOf K s a = Some ob0" "objOf K t a = Some ob'" "obs K (ctx t) ob0 = obs K (ctx t) ob'"
    have "ob0 = ob" using o1(1) that by simp
    then have "fst (so_Code K (ctx s) ob) = fst (so_Code K (ctx t) ob')" "account ob = account ob'"
      using simD(1) [OF assms(1)] obs_eqD(2,3) [OF o1(3)] by simp_all
    then show ?thesis using assms(2) o1(2) unfolding codeOk_def by metis
  qed (use that in simp)
  then show ?thesis by (auto simp: codeOk_def)
qed

lemma ready_sim:
  assumes "sim K rm s t" "entries s = entries t" "ready K t"
  shows "ready K s"
proof -
  have n: "objOf K s a = None \<longleftrightarrow> objOf K t a = None" for a
    by (rule sim_objOf_cases [OF assms(1), of a]) simp_all
  show ?thesis
    using assms(3) codeOk_sim [OF assms(1)]
    unfolding ready_def simD(1,8) [OF assms(1)] assms(2) sim_obsE [OF assms(1)] n by blast
qed

lemma effect_ready:
  assumes e: "effect K s s'" and r: "ready K s" and p: "present s"
  shows "ready K s'" "present s'"
proof -
  obtain es where es: "entries s' = entries s @ es"
      "\<And>a. a |\<in>| fmdom (dirties s') \<longleftrightarrow> a |\<in>| fmdom (dirties s) \<or> dirtiedBy es a"
      "\<And>a. \<not> dirtiedBy es a \<Longrightarrow> map_option (obsE K (ctx s)) (objOf K s' a) = map_option (obsE K (ctx s)) (objOf K s a)"
      "\<And>a. a |\<in>| fmdom (stateObjects s) \<or> dirtiedBy es a \<Longrightarrow> a |\<in>| fmdom (stateObjects s')"
      "\<And>a. createObjectChange a \<in> set es \<Longrightarrow> k_GetAccount K (ctx s) a = None"
    using e unfolding effect_def by blast
  have c: "ctx s' = ctx s" "codeOk K s \<longrightarrow> codeOk K s'" using e by (auto simp: effect_def)
  show p': "present s'" using p es(2,4) by (auto simp: present_def)
  show "ready K s'"
    using r c es p' stateObjects_objOf [of _ s' K] by (auto simp: ready_def present_def)
qed

lemma effect_refl: "effect K s s"
  by (auto simp: effect_def intro: exI [of _ "[]"])

lemma effect_trans:
  assumes "effect K s s1" "effect K s1 s2"
  shows "effect K s s2"
proof -
  obtain es1 es2 where es: "entries s1 = entries s @ es1" "entries s2 = entries s1 @ es2"
      "\<And>a. a |\<in>| fmdom (dirties s1) \<longleftrightarrow> a |\<in>| fmdom (dirties s) \<or> dirtiedBy es1 a"
      "\<And>a. a |\<in>| fmdom (dirties s2) \<longleftrightarrow> a |\<in>| fmdom (dirties s1) \<or> dirtiedBy es2 a"
      "\<And>a. \<not> dirtiedBy es1 a \<Longrightarrow> map_option (obsE K (ctx s)) (objOf K s1 a) = map_option (obsE K (ctx s)) (objOf K s a)"
      "\<And>a. \<not> dirtiedBy es2 a \<Longrightarrow> map_option (obsE K (ctx s1)) (objOf K s2 a) = map_option (obsE K (ctx s1)) (objOf K s1 a)"
      "\<And>a. a |\<in>| fmdom (stateObjects s) \<or> dirtiedBy es1 a \<Longrightarrow> a |\<in>| fmdom (stateObjects s1)"
      "\<And>a. a |\<in>| fmdom (stateObjects s1) \<or> dirtiedBy es2 a \<Longrightarrow> a |\<in>| fmdom (stateObjects s2)"
      "\<And>a. createObjectChange a \<in> set es1 \<Longrightarrow> k_GetAccount K (ctx s) a = None"
      "\<And>a. createObjectChange a \<in> set es2 \<Longrightarrow> k_GetAccount K (ctx s1) a = None" "callFree es1" "callFree es2"
    using assms unfolding effect_def by blast
  have c: "ctx s1 = ctx s" "ctx s2 = ctx s" "codeOk K s \<longrightarrow> codeOk K s2" using assms by (auto simp: effect_def)
  show ?thesis unfolding effect_def using c(2,3)
  proof (intro conjI exI [of _ "es1 @ es2"])
    show "\<forall>a. \<not> dirtiedBy (es1 @ es2) a \<longrightarrow> map_option (obsE K (ctx s)) (objOf K s2 a) = map_option (obsE K (ctx s)) (objOf K s a)"
      using es(5,6) c(1) by simp
    show "\<forall>a. a |\<in>| fmdom (stateObjects s) \<or> dirtiedBy (es1 @ es2) a \<longrightarrow> a |\<in>| fmdom (stateObjects s2)"
      using es(7,8) by auto
    show "\<forall>a. createObjectChange a \<in> set (es1 @ es2) \<longrightarrow> k_GetAccount K (ctx s) a = None"
      using es(9,10) c(1) by auto
  qed (use es(1-4,11,12) in auto)
qed

lemma effect_callFree: "effect K s s' \<Longrightarrow> callFree (entries s) \<Longrightarrow> callFree (entries s')"
  by (auto simp: effect_def)

section \<open>Building blocks\<close>

lemma effect_cached:
  assumes "objOf K s (address ob') = Some ob" "obsE K (ctx s) ob' = obsE K (ctx s) ob"
  shows "effect K s (setStateObject ob' s)"
proof -
  have "codeOk K (setStateObject ob' s)" if "codeOk K s"
    using that assms by (auto simp: codeOk_def obsE_def)
  then show ?thesis using assms by (auto simp: effect_def intro!: exI [of _ "[]"])
qed

lemma journal_append_dom:
  "a |\<in>| fmdom (dirties (journal_append e s)) \<longleftrightarrow> a |\<in>| fmdom (dirties s) \<or> Dirtied e = Some a"
  by (auto simp: journal_append_def split: option.split)

lemma codeOk_cong: "ctx s' = ctx s \<Longrightarrow> objOf K s' = objOf K s \<Longrightarrow> codeOk K s' = codeOk K s"
  by (simp add: codeOk_def)

lemma effect_write:
  assumes d: "Dirtied e = Some (address ob')" "\<nexists>a. e = createObjectChange a \<and> k_GetAccount K (ctx s) a \<noteq> None"
    and code: "codeOk K s \<Longrightarrow> codeAgrees K (fst (so_Code K (ctx s) ob')) (CodeHash (account ob'))"
  shows "effect K s (setStateObject ob' (journal_append e s))"
proof -
  have "codeOk K (setStateObject ob' (journal_append e s))" if "codeOk K s"
    using that code by (auto simp: codeOk_def)
  then show ?thesis using d by (auto simp: effect_def journal_append_dom intro!: exI [of _ "[e]"])
qed

lemma effect_rest:
  assumes "ctx s' = ctx s" "objOf K s' = objOf K s" "stateObjects s' = stateObjects s" "entries s' = entries s @ es"
    "dirties s' = dirties s" "\<And>e. e \<in> set es \<Longrightarrow> Dirtied e = None" "callFree es"
  shows "effect K s s'"
proof -
  have "\<not> dirtiedBy es a" "createObjectChange a \<notin> set es" for a
    using assms(6) by (fastforce simp: dirtiedBy_def)+
  then show ?thesis using assms codeOk_cong [OF assms(1,2)] by (auto simp: effect_def intro!: exI [of _ es])
qed

lemma getStateObject_effect:
  assumes "addr_ok s" and g: "getStateObject K a s = (r, s1)"
  shows "effect K s s1" "r = objOf K s a" "objOf K s1 = objOf K s" "addr_ok s1" "ctx s1 = ctx s"
proof -
  have r: "r = objOf K s a" and s1: "s1 = (case objOf K s a of None \<Rightarrow> s | Some ob \<Rightarrow> setStateObject ob s)"
    using g [unfolded getStateObject_cached [OF assms(1)]] by blast+
  show "r = objOf K s a" by (rule r)
  have ad: "address ob = a" if "objOf K s a = Some ob" for ob by (rule objOf_address [OF assms(1) that])
  show "effect K s s1" using ad by (auto simp: s1 effect_refl split: option.split intro!: effect_cached)
  show "objOf K s1 = objOf K s" using ad by (auto simp: s1 fun_eq_iff split: option.split)
  show "addr_ok s1" "ctx s1 = ctx s" using assms(1) by (auto simp: s1 split: option.split)
qed

lemma createObject_effect:
  assumes "addr_ok s" "objOf K s a = None" "createObject K a s = ((ob, prev), s1)"
  shows "effect K s s1" "prev = None" "ob = newObject K a None" "objOf K s1 a = Some ob" "addr_ok s1" "ctx s1 = ctx s"
proof -
  have g: "getStateObject K a s = (None, s)" using assms(2) by (simp add: getStateObject_cached [OF assms(1)])
  have s1: "s1 = setStateObject ob (journal_append (createObjectChange a) s)" and ob: "ob = newObject K a None" and p: "prev = None"
    using assms(3) by (auto simp: createObject_def g Let_def)
  show "prev = None" "ob = newObject K a None" by fact+
  have "k_GetAccount K (ctx s) a = None" using assms(2) by (auto simp: objOf_def split: option.splits)
  then show "effect K s s1" unfolding s1 by (intro effect_write) (auto simp: ob newObject_def so_Code_def codeAgrees_def)
  show "objOf K s1 a = Some ob" "ctx s1 = ctx s" by (simp_all add: s1 ob)
  show "addr_ok s1" using assms(1) by (simp add: s1 addr_ok_def ob)
qed

lemma getOrNew_effect:
  assumes "addr_ok s" "getOrNewStateObject K a s = (ob, s1)"
  shows "effect K s s1" "objOf K s1 a = Some ob" "address ob = a" "addr_ok s1" "ctx s1 = ctx s"
proof -
  obtain r s0 where g0: "getStateObject K a s = (r, s0)" by fastforce
  note g = getStateObject_effect [OF assms(1) g0]
  have "effect K s s1 \<and> objOf K s1 a = Some ob \<and> address ob = a \<and> addr_ok s1 \<and> ctx s1 = ctx s"
  proof (cases r)
    case None
    then obtain prev where c: "createObject K a s0 = ((ob, prev), s1)"
      using assms(2) g0 by (auto simp: getOrNewStateObject_def split: prod.splits)
    have "objOf K s0 a = None" using g(2,3) None by simp
    note c' = createObject_effect [OF g(4) this c]
    show ?thesis using c' g(5) effect_trans [OF g(1) c'(1)] by simp
  next
    case (Some ob0)
    then show ?thesis using assms(2) g0 g objOf_address [OF g(4), of K a ob0] by (simp add: getOrNewStateObject_def)
  qed
  then show "effect K s s1" "objOf K s1 a = Some ob" "address ob = a" "addr_ok s1" "ctx s1 = ctx s" by blast+
qed

section \<open>The operations\<close>

lemma codeOk_objOf:
  "codeOk K s \<Longrightarrow> objOf K s a = Some ob \<Longrightarrow> codeAgrees K (fst (so_Code K (ctx s) ob)) (CodeHash (account ob))"
  by (simp add: codeOk_def)

text \<open>A write through \<open>getOrNewStateObject\<close> that keeps the code.\<close>

lemma write_effect:
  assumes ok: "addr_ok s" and g: "getOrNewStateObject K a s = (ob, s1)"
    and o1: "obs K (ctx s) ob1 = obs K (ctx s) ob" "Dirtied e = Some a" "\<nexists>b. e = createObjectChange b"
      "address ob' = a" "CodeHash (account ob') = CodeHash (account ob1)" "fst (so_Code K (ctx s) ob') = fst (so_Code K (ctx s) ob1)"
  shows "effect K s (setStateObject ob' (journal_append e s1))"
proof -
  note n = getOrNew_effect [OF ok g]
  have "effect K s1 (setStateObject ob' (journal_append e s1))"
  proof (rule effect_write)
    assume "codeOk K s1"
    then show "codeAgrees K (fst (so_Code K (ctx s1) ob')) (CodeHash (account ob'))"
      using codeOk_objOf [of K s1 a ob] n(2,5) o1(5,6) obs_eqD(2,3) [OF o1(1)] by simp
  qed (use o1(2-4) in auto)
  with n(1) show ?thesis by (rule effect_trans)
qed

lemma SetBalance_effect:
  assumes "addr_ok s" "getOrNewStateObject K a s = (ob, s1)"
  shows "effect K s (snd (so_SetBalance v ob s1))"
  unfolding so_SetBalance_def Let_def snd_conv
  by (rule write_effect [OF assms refl]) (use getOrNew_effect(3) [OF assms] in simp_all)

lemma setters_effect:
  assumes "addr_ok s"
  shows "effect K s (snd (AddBalance K a v s))" "effect K s (snd (SubBalance K a v s))" "effect K s (snd (SetNonce K a n s))"
proof -
  obtain ob s1 where g: "getOrNewStateObject K a s = (ob, s1)" by fastforce
  note n = getOrNew_effect [OF assms g]
  show "effect K s (snd (AddBalance K a v s))" "effect K s (snd (SubBalance K a v s))"
    using n(1) SetBalance_effect [OF assms g]
    by (simp_all add: AddBalance_def SubBalance_def so_AddBalance_def so_SubBalance_def g split_def)
  show "effect K s (snd (SetNonce K a n s))"
    unfolding SetNonce_def g prod.case Let_def snd_conv
    by (rule write_effect [OF assms g refl]) (use n(3) in simp_all)
qed

lemma SetState_effect:
  assumes "addr_ok s"
  shows "effect K s (snd (SetState K a k v s))"
proof -
  obtain ob s1 where g: "getOrNewStateObject K a s = (ob, s1)" by fastforce
  note n = getOrNew_effect [OF assms g]
  obtain p ob1 where c: "so_GetState K (ctx s) k ob = (p, ob1)" by fastforce
  have ob1: "obs K (ctx s) ob1 = obs K (ctx s) ob" "address ob1 = a"
    using obs_cache_state [of K "ctx s" k ob] c n(3) by simp_all
  have "effect K s (setStateObject ob1 s1)"
    using effect_trans [OF n(1) effect_cached [of K s1 ob1 ob]] obs_obsE [OF ob1(1)] n(2,5) ob1(2) by simp
  moreover have "effect K s (setStateObject (so_setState k v ob1) (journal_append (storageChange (address ob1) k p) s1))"
    by (rule write_effect [OF assms g ob1(1)]) (use ob1(2) in simp_all)
  ultimately show ?thesis by (simp add: SetState_def g c n(5) Let_def)
qed

lemma SetCode_effect:
  assumes "addr_ok s"
  shows "effect K s (snd (SetCode K a cd s))"
proof -
  obtain ob s1 where g: "getOrNewStateObject K a s = (ob, s1)" by fastforce
  note n = getOrNew_effect [OF assms g]
  obtain pc ob1 where c: "so_Code K (ctx s) ob = (pc, ob1)" by fastforce
  have ob1: "address ob1 = a" using obs_cache_code(2) [of K "ctx s" ob] c n(3) by simp
  have "effect K s1 (setStateObject (so_setCode (k_Keccak256Hash K (sliceBytes cd)) cd ob1)
      (journal_append (codeChange (address ob1) pc (CodeHash (account ob1))) s1))"
    by (rule effect_write) (auto simp: ob1 sliceBytes_def EmptyCodeHash_def codeAgrees_def split: option.splits)
  with n(1) have "effect K s (setStateObject (so_setCode (k_Keccak256Hash K (sliceBytes cd)) cd ob1)
      (journal_append (codeChange (address ob1) pc (CodeHash (account ob1))) s1))" by (rule effect_trans)
  then show ?thesis by (simp add: SetCode_def g c n(5) Let_def)
qed

lemma SelfDestruct_effect:
  assumes "addr_ok s"
  shows "effect K s (snd (SelfDestruct K a s))"
proof -
  obtain r s1 where g: "getStateObject K a s = (r, s1)" by fastforce
  note n = getStateObject_effect [OF assms g]
  show ?thesis
  proof (cases r)
    case (Some ob)
    have ob: "objOf K s1 a = Some ob" using Some n(2,3) by simp
    have "address ob = a" by (rule objOf_address [OF n(4) ob])
    then have "effect K s1 (setStateObject (so_setBalance 0 (ob\<lparr>selfDestructed := True\<rparr>))
        (journal_append (selfDestructChange a (selfDestructed ob) (Balance (account ob))) s1))"
      by (intro effect_write) (auto simp: codeOk_objOf [OF _ ob])
    with n(1) show ?thesis using effect_trans by (fastforce simp: SelfDestruct_def g Some Let_def)
  qed (use n(1) in \<open>simp add: SelfDestruct_def g\<close>)
qed

lemma SelfDestruct6780_effect:
  assumes "addr_ok s"
  shows "effect K s (snd (SelfDestruct6780 K a s))"
proof -
  obtain r s1 where g: "getStateObject K a s = (r, s1)" by fastforce
  note n = getStateObject_effect [OF assms g]
  obtain v s2 where sd: "SelfDestruct K a s1 = (Ret v, s2)"
    by (cases "getStateObject K a s1"; cases "fst (getStateObject K a s1)") (simp_all add: SelfDestruct_def Let_def)
  show ?thesis
    using n(1) effect_trans [OF n(1) SelfDestruct_effect [OF n(4), of K a]] sd
    by (simp add: SelfDestruct6780_def g split: option.split)
qed

lemma CreateAccount_effect:
  assumes "addr_ok s" "objOf K s a = None"
  shows "effect K s (snd (CreateAccount K a s))"
proof -
  obtain ob prev s1 where c: "createObject K a s = ((ob, prev), s1)" by (metis prod.exhaust)
  note e = createObject_effect [OF assms c]
  show ?thesis using e(1,2) by (simp add: CreateAccount_def c)
qed

lemma CreateContract_effect:
  assumes "addr_ok s"
  shows "effect K s (snd (CreateContract K a s))"
proof -
  obtain r s1 where g: "getStateObject K a s = (r, s1)" by fastforce
  note n = getStateObject_effect [OF assms g]
  show ?thesis
  proof (cases r)
    case (Some ob)
    have ob: "objOf K s1 a = Some ob" using Some n(2,3) by simp
    have ad: "address ob = a" by (rule objOf_address [OF n(4) ob])
    let ?ob = "ob\<lparr>newContract := True\<rparr>"
    have "obsE K (ctx s1) ?ob = obsE K (ctx s1) ob" by (simp add: obsE_def)
    then have 1: "effect K s1 (setStateObject ?ob s1)" using ob ad by (intro effect_cached) simp_all
    have 2: "effect K (setStateObject ?ob s1) (journal_append (createContractChange a) (setStateObject ?ob s1))"
      by (rule effect_rest [of _ _ _ "[createContractChange a]"]) (simp_all add: journal_append_def)
    show ?thesis
      using n(1) effect_trans [OF n(1) effect_trans [OF 1 2]] by (simp add: CreateContract_def g Some)
  qed (use n(1) in \<open>simp add: CreateContract_def g\<close>)
qed

lemma so_Code_effect:
  assumes "objOf K s a = Some ob" "address ob = a"
  shows "effect K s (setStateObject (snd (so_Code K (ctx s) ob)) s)"
    "effect K s (setStateObject (snd (so_GetState K (ctx s) k ob)) s)"
    "effect K s (setStateObject (snd (so_GetCommittedState K (ctx s) k ob)) s)"
  using assms
  by (auto intro!: effect_cached obs_obsE simp: obs_cache_code obs_cache_state obs_cache_committed)

lemma reads_effect:
  assumes "addr_ok s"
  shows "effect K s (snd (GetBalance K a s))" "effect K s (snd (GetNonce K a s))" "effect K s (snd (GetCodeHash K a s))"
    "effect K s (snd (GetCode K a s))" "effect K s (snd (GetCodeSize K a s))" "effect K s (snd (GetState K a k s))"
    "effect K s (snd (GetCommittedState K a k s))" "effect K s (snd (Exist K a s))" "effect K s (snd (Empty K a s))"
    "effect K s (snd (HasSelfDestructed K a s))"
proof -
  obtain r s1 where g: "getStateObject K a s = (r, s1)" by fastforce
  note n = getStateObject_effect [OF assms g]
  have c: "effect K s (setStateObject (snd (so_Code K (ctx s1) ob)) s1)"
    "effect K s (setStateObject (snd (so_GetState K (ctx s1) k ob)) s1)"
    "effect K s (setStateObject (snd (so_GetCommittedState K (ctx s1) k ob)) s1)" if "r = Some ob" for ob
  proof -
    have ob: "objOf K s1 a = Some ob" using that n(2,3) by simp
    note e = so_Code_effect [OF ob objOf_address [OF n(4) ob]]
    show "effect K s (setStateObject (snd (so_Code K (ctx s1) ob)) s1)"
      "effect K s (setStateObject (snd (so_GetState K (ctx s1) k ob)) s1)"
      "effect K s (setStateObject (snd (so_GetCommittedState K (ctx s1) k ob)) s1)"
      by (rule effect_trans [OF n(1) e(1)], rule effect_trans [OF n(1) e(2)], rule effect_trans [OF n(1) e(3)])
  qed
  show "effect K s (snd (GetBalance K a s))" "effect K s (snd (GetNonce K a s))" "effect K s (snd (GetCodeHash K a s))"
    "effect K s (snd (Exist K a s))" "effect K s (snd (Empty K a s))" "effect K s (snd (HasSelfDestructed K a s))"
    using n(1) by (simp_all add: GetBalance_def GetNonce_def GetCodeHash_def Exist_def Empty_def HasSelfDestructed_def g split: option.split)
  show "effect K s (snd (GetCode K a s))" "effect K s (snd (GetCodeSize K a s))" "effect K s (snd (GetState K a k s))"
    "effect K s (snd (GetCommittedState K a k s))"
    using n(1) c by (simp_all add: GetCode_def GetCodeSize_def GetState_def GetCommittedState_def g split_def split: option.split)
qed

lemma rest_effect:
  "effect K s (snd (SetTransientState a k v s))" "effect K s (snd (AddLog l s))" "effect K s (snd (AddRefund x s))"
  "effect K s (snd (SubRefund x s))" "effect K s (snd (AddAddressToAccessList a s))" "effect K s (snd (AddSlotToAccessList a k s))"
  "effect K s (snd (Snapshot s))"
proof -
  show "effect K s (snd (Snapshot s))"
    by (rule effect_rest [of _ _ _ "[]"]) (simp_all add: Snapshot_def Let_def objOf_def fun_eq_iff split: option.split)
  show "effect K s (snd (AddLog l s))"
    by (rule effect_rest [of _ _ _ "[addLogChange]"]) (simp_all add: AddLog_def Let_def journal_append_dirties)
  show "effect K s (snd (AddRefund x s))"
    by (rule effect_rest [of _ _ _ "[refundChange (refund s)]"]) (simp_all add: AddRefund_def Let_def journal_append_dirties)
  show "effect K s (snd (SubRefund x s))"
    by (rule effect_rest [of _ _ _ "[refundChange (refund s)]"]) (simp_all add: SubRefund_def Let_def journal_append_dirties)
  show "effect K s (snd (SetTransientState a k v s))"
    by (rule effect_rest [of _ _ _ "if GetTransientState a k s = v then [] else [transientStorageChange a k (GetTransientState a k s)]"])
      (auto simp: SetTransientState_def setTransientState_def Let_def journal_append_dirties split: if_splits)
  show "effect K s (snd (AddAddressToAccessList a s))"
    by (rule effect_rest [of _ _ _ "if fst (AddAddress a (accessLst s)) then [accessListAddAccountChange a] else []"])
      (auto simp: AddAddressToAccessList_def Let_def journal_append_dirties split_def split: if_splits)
  show "effect K s (snd (AddSlotToAccessList a k s))"
    by (rule effect_rest [of _ _ _ "case AddSlot a k (accessLst s) of None \<Rightarrow> [] | Some ((am, sm), _) \<Rightarrow>
        (if am then [accessListAddAccountChange a] else []) @ (if sm then [accessListAddSlotChange a k] else [])"])
      (auto simp: AddSlotToAccessList_def Let_def journal_append_dirties split: option.splits prod.splits if_splits)
qed

section \<open>Transactions\<close>

text \<open>
  go-ethereum calls \<open>CreateAccount\<close> only for addresses without an account; no stateful precompile
  is called.
\<close>

fun callsPrecompile :: "('c, 'v) sdb_op \<Rightarrow> bool" where
  "callsPrecompile (OpPrecompile body) = True"
| "callsPrecompile _ = False"

fun admissible :: "'c sdb_keeper \<Rightarrow> ('c, 'm, 'v) cache_api \<Rightarrow> ('c, 'v) sdb_op list \<Rightarrow> ('c, 'm, 'v) StateDB \<Rightarrow> bool" where
  "admissible K rm [] s = True"
| "admissible K rm (op # ops) s \<longleftrightarrow> \<not> callsPrecompile op \<and> (\<forall>a. op = OpCreateAccount a \<longrightarrow> \<not> fst (Exist K a s)) \<and>
     admissible K rm ops (sdb_step K rm op s)"

lemma step_effect:
  assumes "addr_ok s" "\<nexists>j. op = OpRevertToSnapshot j" "\<forall>a. op = OpCreateAccount a \<longrightarrow> \<not> fst (Exist K a s)"
    "\<not> callsPrecompile op"
  shows "effect K s (sdb_step K rm op s)"
  using assms(2-4)
  by (cases op) (simp_all add: assms(1) reads_effect rest_effect setters_effect SetState_effect SetCode_effect SelfDestruct_effect
      SelfDestruct6780_effect CreateAccount_effect CreateContract_effect read_objOf)

text \<open>Reverting keeps the objects it does not create.\<close>

lemma revertEntry_objects:
  "revertEntry K rm e s = Some u \<Longrightarrow> a |\<in>| fmdom (stateObjects s) \<Longrightarrow> e \<noteq> createObjectChange a \<Longrightarrow> a |\<in>| fmdom (stateObjects u)"
  by (cases e) (auto simp: onObject_def getStateObject_def RevertMultiStore_def setTransientState_def Let_def
      split: option.splits prod.splits if_splits)

lemma undoEntries_objects:
  "undoEntries K rm es s = Some u \<Longrightarrow> a |\<in>| fmdom (stateObjects s) \<Longrightarrow> createObjectChange a \<notin> set es \<Longrightarrow>
    a |\<in>| fmdom (stateObjects u)"
proof (induction es arbitrary: s)
  case (Cons e es)
  then obtain s1 where s1: "revertEntry K rm e s = Some s1" "undoEntries K rm es (dropDirty e s1) = Some u"
    by (auto split: option.splits)
  have "stateObjects (dropDirty e s1) = stateObjects s1" by (simp add: dropDirty_def split: option.split)
  then show ?case using Cons.IH [OF s1(2)] revertEntry_objects [OF s1(1), of a] Cons.prems(2,3) by auto
qed simp

lemma RevertToSnapshot_objects:
  assumes "RevertToSnapshot K rm i s = (Ret (), t)"
  obtains n u where "undoEntries K rm (rev (drop n (entries s))) s = Some u" "stateObjects t = stateObjects u"
    "entries t = take n (entries s)"
  using assms by (auto simp: RevertToSnapshot_def journal_Revert_def Let_def split: if_splits option.splits)

lemma revertible_unique:
  "revertible K rm n g s \<Longrightarrow> revertible K rm n g' s \<Longrightarrow> sim K rm g g' \<and> entries g = entries g'"
  unfolding revertible_def using sim_trans sim_sym by (metis option.inject)

definition readyRun :: "'c sdb_keeper \<Rightarrow> ('c, 'm, 'v) cache_api \<Rightarrow> ('c, 'm, 'v) StateDB \<Rightarrow> bool" where
  "readyRun K rm s \<longleftrightarrow> sdb_inv K rm s \<and> ready K s \<and> present s \<and> callFree (entries s) \<and>
    (\<forall>r\<in>set (validRevisions s). \<forall>g. revertible K rm (journalIndex r) g s \<longrightarrow> ready K g)"

text \<open>What is revertible in the next state was revertible to a ready state before.\<close>

lemma ready_kept:
  assumes "sdb_inv K rm s" "r \<in> set (validRevisions s)"
    "\<And>g. revertible K rm (journalIndex r) g s \<Longrightarrow> revertible K rm (journalIndex r) g s' \<and> ready K g"
    "revertible K rm (journalIndex r) g s'"
  shows "ready K g"
proof -
  obtain g0 where "revertible K rm (journalIndex r) g0 s" using assms(1,2) by (auto simp: sdb_inv_def)
  from assms(3) [OF this] revertible_unique [OF assms(4)] show ?thesis using ready_sim by blast
qed

context cache_store
begin

lemma readyRun_revert:
  assumes r: "readyRun K rm s"
  shows "readyRun K rm (snd (RevertToSnapshot K rm i s))"
proof -
  have inv: "sdb_inv K rm s" and rdy: "ready K s" "present s" and cf: "callFree (entries s)"
    and revs: "\<And>r g. r \<in> set (validRevisions s) \<Longrightarrow> revertible K rm (journalIndex r) g s \<Longrightarrow> ready K g"
    using r by (auto simp: readyRun_def)
  show ?thesis
  proof (rule RevertToSnapshot_cases [OF inv, of i])
    fix xs q ys
    assume vr: "validRevisions s = xs @ q # ys" and i: "rev_id q = i"
    obtain g where g: "revertible K rm (journalIndex q) g s" using inv vr by (auto simp: sdb_inv_def)
    obtain t where t: "RevertToSnapshot K rm (rev_id q) s = (Ret (), t)" "sim K rm t g" "entries t = entries g" "validRevisions t = xs"
        "\<And>n h. n \<le> journalIndex q \<Longrightarrow> revertible K rm n h s \<Longrightarrow> revertible K rm n h t"
      by (rule RevertToSnapshot_valid [OF inv vr g]) blast
    have rt: "ready K t" by (rule ready_sim [OF t(2,3)]) (use revs [of q g] g vr in simp)
    obtain n u where u: "undoEntries K rm (rev (drop n (entries s))) s = Some u" "stateObjects t = stateObjects u"
        "entries t = take n (entries s)" by (rule RevertToSnapshot_objects [OF t(1)])
    have ct: "ctx t = ctx s" using step_ctx [OF inv, of "OpRevertToSnapshot (rev_id q)"] t(1) by simp
    have "a |\<in>| fmdom (stateObjects t)" if a: "a |\<in>| fmdom (dirties t)" for a
    proof (rule ccontr)
      assume no: "a |\<notin>| fmdom (stateObjects t)"
      have "dirtiedBy (entries t) a" using rt a by (simp add: ready_def)
      then have "dirtiedBy (entries s) a" using u(3) by (auto simp: dirtiedBy_def dest: in_set_takeD)
      then have "a |\<in>| fmdom (stateObjects s)" using rdy by (auto simp: ready_def present_def)
      then have "createObjectChange a \<in> set (entries s)"
        using undoEntries_objects [OF u(1), of a] no u(2) by (auto dest: in_set_dropD)
      then have "k_GetAccount K (ctx t) a = None" using rdy(1) ct by (simp add: ready_def)
      then have "objOf K t a = None" using no by (simp add: objOf_def fmlookup_dom_iff split: option.split) 
      then show False using rt a unfolding ready_def by blast
    qed
    then have "present t" by (simp add: present_def)
    moreover have "ready K h" if "r \<in> set xs" "revertible K rm (journalIndex r) h t" for r h
    proof (rule ready_kept [OF inv])
      show "r \<in> set (validRevisions s)" using that(1) vr by simp
      have "journalIndex r \<le> journalIndex q" using sdb_inv_order(1) [OF inv vr] that(1) by blast
      then show "revertible K rm (journalIndex r) g' t \<and> ready K g'" if "revertible K rm (journalIndex r) g' s" for g'
        using t(5) that revs [of r g'] \<open>r \<in> set xs\<close> vr by auto
    qed (rule that(2))
    moreover have "callFree (entries t)" using cf u(3) by (auto simp: callFree_def dest: in_set_takeD)
    ultimately show ?thesis using RevertToSnapshot_inv [OF inv, of i] t(1,4) rt i by (simp add: readyRun_def)
  qed (use r in simp)
qed

lemma readyRun_step:
  assumes r: "readyRun K rm s" and g: "\<forall>a. op = OpCreateAccount a \<longrightarrow> \<not> fst (Exist K a s)" "\<not> callsPrecompile op"
  shows "readyRun K rm (sdb_step K rm op s)"
proof (cases "\<exists>j. op = OpRevertToSnapshot j")
  case True
  then show ?thesis using readyRun_revert [OF r] by auto
next
  case False
  let ?t = "sdb_step K rm op s"
  have inv: "sdb_inv K rm s" and wf: "sdb_wf rm s" and rdy: "ready K s" "present s" and cf: "callFree (entries s)"
    and revs: "\<And>r g. r \<in> set (validRevisions s) \<Longrightarrow> revertible K rm (journalIndex r) g s \<Longrightarrow> ready K g"
    using r by (auto simp: readyRun_def sdb_inv_def)
  have e: "effect K s ?t" by (rule step_effect [OF _ False g]) (use wf in \<open>simp add: sdb_wf_def\<close>)
  have old: "ready K h" if "q \<in> set (validRevisions s)" "revertible K rm (journalIndex q) h ?t" for q h
  proof (rule ready_kept [OF inv that(1) _ that(2)])
    fix g' assume g': "revertible K rm (journalIndex q) g' s"
    have "revertible K rm (journalIndex q) g' ?t"
      using Snapshot_undoable [OF wf g'] revertible_step [OF g' step_undoable [OF wf, of op] wf] False by (cases "op = OpSnapshot") auto
    then show "revertible K rm (journalIndex q) g' ?t \<and> ready K g'" using revs [OF that(1) g'] by blast
  qed
  have "ready K h" if "q \<in> set (validRevisions ?t)" "revertible K rm (journalIndex q) h ?t" for q h
  proof (cases "op = OpSnapshot")
    case True
    have "sim K rm h s \<and> entries h = entries s" if "journalIndex q = length (entries s)"
      using \<open>revertible K rm (journalIndex q) h ?t\<close> revertible_unique [OF _ Snapshot_revertible [OF wf]] that True by auto
    then show ?thesis using that old True rdy(1) ready_sim [of K rm h s] by (auto simp: Snapshot_def Let_def)
  next
    case no: False
    have "validRevisions ?t = validRevisions s" using step_undoable [OF wf False no, of K] by (simp add: undoable_def)
    then show ?thesis using that old by simp
  qed
  then show ?thesis using step_inv [OF inv, of op] effect_ready [OF e rdy] effect_callFree [OF e cf] by (simp add: readyRun_def)
qed

end

text \<open>Without calls of stateful precompiles, the multi store does not matter.\<close>

lemma undoEntries_callFree: "callFree es \<Longrightarrow> undoEntries K rm es s = undoEntries K rm' es s"
proof (induction es arbitrary: s)
  case (Cons e es)
  have "revertEntry K rm e s = revertEntry K rm' e s" using Cons.prems by (cases e) (auto simp: callFree_def)
  moreover have "callFree es" using Cons.prems by (auto simp: callFree_def)
  ultimately show ?case using Cons.IH by (simp split: option.split)
qed simp

lemma step_callFree:
  assumes "callFree (entries s)" "\<not> callsPrecompile op"
  shows "sdb_step K rm op s = sdb_step K rm' op s"
proof -
  have "callFree (rev (drop n (entries s)))" for n using assms(1) by (auto simp: callFree_def dest: in_set_dropD)
  note u = undoEntries_callFree [OF this, of K rm _ s rm']
  show ?thesis using assms(2) by (cases op) (simp_all add: RevertToSnapshot_def journal_Revert_def Let_def u)
qed

lemma readyRun_run:
  "readyRun K (noCalls c) s \<Longrightarrow> admissible K rm ops s \<Longrightarrow>
    readyRun K (noCalls c) (sdb_run K rm ops s) \<and> sdb_run K rm ops s = sdb_run K (noCalls c) ops s"
proof (induction ops arbitrary: s)
  case (Cons op ops)
  have op: "\<not> callsPrecompile op" "\<forall>a. op = OpCreateAccount a \<longrightarrow> \<not> fst (Exist K a s)" "admissible K rm ops (sdb_step K rm op s)"
    using Cons.prems(2) by auto
  have s: "sdb_step K rm op s = sdb_step K (noCalls c) op s"
    by (rule step_callFree) (use Cons.prems(1) op(1) in \<open>simp_all add: readyRun_def\<close>)
  from Cons.IH [OF nocall.readyRun_step [OF Cons.prems(1) op(2,1)] op(3) [unfolded s]]
  show ?case by (auto simp: sdb_run_def s)
qed (simp add: sdb_run_def)

text \<open>The code of every account is stored under its hash.\<close>

definition codeStored :: "'c sdb_keeper \<Rightarrow> 'c \<Rightarrow> bool" where
  "codeStored K c \<longleftrightarrow> (\<forall>a acc. k_GetAccount K c a = Some acc \<longrightarrow> CodeHash acc \<noteq> EmptyCodeHash K \<longrightarrow>
     (\<exists>cd. k_GetCode K c (CodeHash acc) = Some cd \<and> k_Keccak256Hash K cd = CodeHash acc))"

lemma readyRun_start:
  assumes "codeStored K c"
  shows "readyRun K rm (snd (Prepare rules sender coinbase dst precompiles lst (StateDB_New c cfg)))"
proof -
  let ?s = "snd (Prepare rules sender coinbase dst precompiles lst (StateDB_New c cfg))"
  have f: "ctx ?s = c" "stateObjects ?s = fmempty" "dirties ?s = fmempty" "entries ?s = []" "validRevisions ?s = []"
    by (auto simp: Prepare_def StateDB_New_def Let_def split: option.split)
  have o1: "objOf K ?s a = map_option (\<lambda>acc. newObject K a (Some acc)) (k_GetAccount K c a)" for a
    by (simp add: objOf_def f)
  have "codeOk K ?s"
    using assms by (fastforce simp: codeOk_def o1 f(1) code_read newObject_def codeStored_def codeAgrees_def)
  then have "ready K ?s" by (simp add: ready_def f o1 option.map_comp comp_def)
  then show ?thesis by (simp add: readyRun_def present_def f New_Prepare_inv)
qed

text \<open>A finished transaction over the keeper state \<open>c\<close>.\<close>

definition txFinished :: "'c sdb_keeper \<Rightarrow> ('c, 'm, 'v) cache_api \<Rightarrow> 'c \<Rightarrow> ('c, 'm, 'v) StateDB \<Rightarrow> bool" where
  "txFinished K rm c s \<longleftrightarrow> (\<exists>cfg rules sender coinbase dst precompiles lst ops.
    admissible K rm ops (snd (Prepare rules sender coinbase dst precompiles lst (StateDB_New c cfg :: ('c, 'm, 'v) StateDB))) \<and>
    s = sdb_run K rm ops (snd (Prepare rules sender coinbase dst precompiles lst (StateDB_New c cfg))))"

lemma txFinished_ready:
  assumes "codeStored K c" "txFinished K rm c s"
  shows "ready K s" "present s" "addr_ok s" "ctx s = c"
proof -
  obtain cfg rules sender coinbase dst precompiles lst ops where
    a: "admissible K rm ops (snd (Prepare rules sender coinbase dst precompiles lst (StateDB_New c cfg)))"
    and s: "s = sdb_run K rm ops (snd (Prepare rules sender coinbase dst precompiles lst (StateDB_New c cfg)))"
    using assms(2) unfolding txFinished_def by blast
  note r = readyRun_run [OF readyRun_start [OF assms(1), of "noCalls c"] a]
  from r show "ready K s" "present s" "addr_ok s" by (auto simp: s readyRun_def sdb_inv_def sdb_wf_def)
  show "ctx s = c"
    by (rule nocall.txReachable_ctx [of K c]) (use r in \<open>unfold txReachable_def s, blast\<close>)
qed

end
