(* ===== verification/StateDBCommit.thy ===== *)
theory StateDBCommit
  imports StateDBClean
begin

text \<open>
  \<open>Commit\<close> of the state database onto its keeper.  The locale \<open>statedb_keeper\<close> is the contract of the
  keeper interface; its theorem says that a database opened on the committed state reads what the
  committing database read.
\<close>

section \<open>What state objects cache\<close>

text \<open>
  Values cached in a state object are the keeper's: the committed storage, and the code unless it
  has been set.
\<close>

definition cacheOk :: "'c sdb_keeper \<Rightarrow> 'c \<Rightarrow> stateObject \<Rightarrow> bool" where
  "cacheOk K c ob \<longleftrightarrow>
    (\<forall>k v. fmlookup (originStorage ob) k = Some v \<longrightarrow> v = k_GetState K c (address ob) k) \<and>
    (\<forall>cd. code ob = Some cd \<longrightarrow> \<not> dirtyCode ob \<longrightarrow> k_GetCode K c (CodeHash (account ob)) = Some cd)"

definition cachesOk :: "'c sdb_keeper \<Rightarrow> 'c \<Rightarrow> ('c, 'm, 'v) StateDB \<Rightarrow> bool" where
  "cachesOk K c s \<longleftrightarrow> ctx s = c \<and> (\<forall>a ob. fmlookup (stateObjects s) a = Some ob \<longrightarrow> cacheOk K c ob) \<and>
    (\<forall>prv. resetObjectChange prv \<in> set (entries s) \<longrightarrow> cacheOk K c prv)"

lemma cacheOk_setters [simp]:
  "cacheOk K c (so_setBalance v ob) = cacheOk K c ob" "cacheOk K c (so_setNonce n ob) = cacheOk K c ob"
  "cacheOk K c (so_setState k w ob) = cacheOk K c ob"
  "cacheOk K c (ob\<lparr>newContract := b\<rparr>) = cacheOk K c ob" "cacheOk K c (ob\<lparr>selfDestructed := b\<rparr>) = cacheOk K c ob"
  "cacheOk K c (newObject K' a acc)"
  by (auto simp: cacheOk_def so_setBalance_def so_setNonce_def so_setState_def newObject_def)

lemma cacheOk_loads [simp]:
  "cacheOk K c ob \<Longrightarrow> cacheOk K c (so_setCode h cd ob)" "cacheOk K c ob \<Longrightarrow> cacheOk K c (snd (so_Code K c ob))"
  "cacheOk K c ob \<Longrightarrow> cacheOk K c (snd (so_GetState K c k ob))"
  "cacheOk K c ob \<Longrightarrow> cacheOk K c (snd (so_GetCommittedState K c k ob))"
  by (auto simp: cacheOk_def so_setCode_def so_Code_def so_GetState_def so_GetCommittedState_def Let_def split: option.split if_splits)

lemma cachesOk_set: "cachesOk K c s \<Longrightarrow> cacheOk K c ob \<Longrightarrow> cachesOk K c (setStateObject ob s)"
  by (simp add: cachesOk_def)

lemma cachesOk_append: "cachesOk K c s \<Longrightarrow> (\<And>prv. e = resetObjectChange prv \<Longrightarrow> cacheOk K c prv) \<Longrightarrow> cachesOk K c (journal_append e s)"
  by (auto simp: cachesOk_def)

lemma cachesOk_rest:
  "cachesOk K c s \<Longrightarrow> ctx s' = ctx s \<Longrightarrow> stateObjects s' = stateObjects s \<Longrightarrow> set (entries s') \<subseteq> set (entries s) \<union> E \<Longrightarrow>
    (\<And>prv. resetObjectChange prv \<notin> E) \<Longrightarrow> cachesOk K c s'"
  unfolding cachesOk_def by (metis UnE subsetD)

lemma getStateObject_caches:
  assumes "cachesOk K c s" "getStateObject K a s = (r, s1)"
  shows "cachesOk K c s1" "\<And>ob. r = Some ob \<Longrightarrow> cacheOk K c ob" "ctx s1 = c"
  using assms by (auto simp: getStateObject_def cachesOk_def Let_def split: option.splits if_splits)

lemma createObject_caches:
  assumes "cachesOk K c s" "createObject K a s = ((ob, prev), s1)"
  shows "cachesOk K c s1" "cacheOk K c ob" "\<And>p. prev = Some p \<Longrightarrow> cacheOk K c p"
proof -
  obtain s0 where g: "getStateObject K a s = (prev, s0)" and ob: "ob = newObject K a None"
    and s1: "s1 = setStateObject ob (journal_append (case prev of None \<Rightarrow> createObjectChange a | Some p \<Rightarrow> resetObjectChange p) s0)"
    using assms(2) by (auto simp: createObject_def Let_def split: prod.splits option.splits)
  note g' = getStateObject_caches [OF assms(1) g]
  show "cacheOk K c ob" "\<And>p. prev = Some p \<Longrightarrow> cacheOk K c p" using g'(2) by (simp_all add: ob)
  show "cachesOk K c s1" unfolding s1
    by (intro cachesOk_set cachesOk_append g'(1)) (use g'(2) in \<open>auto simp: ob split: option.splits\<close>)
qed

lemma getOrNew_caches:
  assumes "cachesOk K c s" "getOrNewStateObject K a s = (ob, s1)"
  shows "cachesOk K c s1" "cacheOk K c ob" "ctx s1 = c"
proof -
  obtain r s0 where g: "getStateObject K a s = (r, s0)" by fastforce
  note g' = getStateObject_caches [OF assms(1) g]
  have "cachesOk K c s1 \<and> cacheOk K c ob"
    using assms(2) g' createObject_caches [OF g'(1)]
    by (auto simp: getOrNewStateObject_def g split: option.splits prod.splits)
  then show "cachesOk K c s1" "cacheOk K c ob" "ctx s1 = c" by (auto simp: cachesOk_def)
qed

lemma writes_caches:
  assumes "cachesOk K c s"
  shows "cachesOk K c (snd (AddBalance K a v s))" "cachesOk K c (snd (SubBalance K a v s))" "cachesOk K c (snd (SetNonce K a n s))"
    "cachesOk K c (snd (SetCode K a cd s))" "cachesOk K c (snd (SetState K a k w s))"
proof -
  obtain ob s1 where g: "getOrNewStateObject K a s = (ob, s1)" by fastforce
  note n = getOrNew_caches [OF assms g]
  have b: "cachesOk K c (snd (so_SetBalance v ob s1))" for v
    by (auto simp: so_SetBalance_def Let_def n intro!: cachesOk_set cachesOk_append)
  show "cachesOk K c (snd (AddBalance K a v s))" "cachesOk K c (snd (SubBalance K a v s))"
    using n(1) b by (simp_all add: AddBalance_def SubBalance_def so_AddBalance_def so_SubBalance_def g split_def)
  show "cachesOk K c (snd (SetNonce K a n s))"
    by (auto simp: SetNonce_def g Let_def n intro!: cachesOk_set cachesOk_append)
  show "cachesOk K c (snd (SetCode K a cd s))"
    by (auto simp: SetCode_def g Let_def n split_def intro!: cachesOk_set cachesOk_append)
  show "cachesOk K c (snd (SetState K a k w s))"
    by (auto simp: SetState_def g Let_def n split_def intro!: cachesOk_set cachesOk_append)
qed

lemma SelfDestruct_caches:
  assumes "cachesOk K c s"
  shows "cachesOk K c (snd (SelfDestruct K a s))"
proof -
  obtain r s1 where g: "getStateObject K a s = (r, s1)" by fastforce
  note n = getStateObject_caches [OF assms g]
  show ?thesis
    using n by (auto simp: SelfDestruct_def g Let_def split: option.split intro!: cachesOk_set cachesOk_append)
qed

lemma objects_caches:
  assumes "cachesOk K c s"
  shows "cachesOk K c (snd (SelfDestruct6780 K a s))" "cachesOk K c (snd (CreateAccount K a s))"
    "cachesOk K c (snd (CreateContract K a s))"
proof -
  obtain r s1 where g: "getStateObject K a s = (r, s1)" by fastforce
  note n = getStateObject_caches [OF assms g]
  obtain x s2 where x: "SelfDestruct K a s1 = (x, s2)" by fastforce
  show "cachesOk K c (snd (SelfDestruct6780 K a s))"
    using n SelfDestruct_caches [OF n(1), of a] x by (cases x) (auto simp: SelfDestruct6780_def g split: option.split)
  show "cachesOk K c (snd (CreateContract K a s))"
    using n by (auto simp: CreateContract_def g split: option.split intro!: cachesOk_set cachesOk_append)
  obtain ob prev s3 where c: "createObject K a s = ((ob, prev), s3)" by (metis prod.exhaust)
  note c' = createObject_caches [OF assms c]
  show "cachesOk K c (snd (CreateAccount K a s))"
    using c'(1,2) by (auto simp: CreateAccount_def c split: option.split intro!: cachesOk_set)
qed

lemma reads_caches:
  assumes "cachesOk K c s"
  shows "cachesOk K c (snd (GetBalance K a s))" "cachesOk K c (snd (GetNonce K a s))" "cachesOk K c (snd (GetCodeHash K a s))"
    "cachesOk K c (snd (GetCode K a s))" "cachesOk K c (snd (GetCodeSize K a s))" "cachesOk K c (snd (GetState K a k s))"
    "cachesOk K c (snd (GetCommittedState K a k s))" "cachesOk K c (snd (Exist K a s))" "cachesOk K c (snd (Empty K a s))"
    "cachesOk K c (snd (HasSelfDestructed K a s))"
proof -
  obtain r s1 where g: "getStateObject K a s = (r, s1)" by fastforce
  note n = getStateObject_caches [OF assms g]
  show "cachesOk K c (snd (GetBalance K a s))" "cachesOk K c (snd (GetNonce K a s))" "cachesOk K c (snd (GetCodeHash K a s))"
    "cachesOk K c (snd (Exist K a s))" "cachesOk K c (snd (Empty K a s))" "cachesOk K c (snd (HasSelfDestructed K a s))"
    using n(1) by (simp_all add: GetBalance_def GetNonce_def GetCodeHash_def Exist_def Empty_def HasSelfDestructed_def g
        split: option.split)
  show "cachesOk K c (snd (GetCode K a s))" "cachesOk K c (snd (GetCodeSize K a s))" "cachesOk K c (snd (GetState K a k s))"
    "cachesOk K c (snd (GetCommittedState K a k s))"
    using n by (auto simp: GetCode_def GetCodeSize_def GetState_def GetCommittedState_def g split_def split: option.split
        intro!: cachesOk_set)
qed

lemma rest_caches:
  assumes "cachesOk K c s"
  shows "cachesOk K c (snd (SetTransientState a k v s))" "cachesOk K c (snd (AddLog l s))" "cachesOk K c (snd (AddRefund x s))"
    "cachesOk K c (snd (SubRefund x s))" "cachesOk K c (snd (AddAddressToAccessList a s))"
    "cachesOk K c (snd (AddSlotToAccessList a k s))" "cachesOk K c (snd (Snapshot s))"
  using assms
  by (auto simp: cachesOk_def SetTransientState_def setTransientState_def AddLog_def AddRefund_def SubRefund_def
      AddAddressToAccessList_def AddSlotToAccessList_def Snapshot_def Let_def split: prod.split option.split)

lemma revertEntry_caches:
  assumes "cachesOk K c s" "revertEntry K rm e s = Some u" "\<And>prv. e = resetObjectChange prv \<Longrightarrow> cacheOk K c prv"
  shows "cachesOk K c u"
proof -
  have on: "cachesOk K c u" if "onObject K a f s = Some u" "\<And>ob. cacheOk K c ob \<Longrightarrow> cacheOk K c (f ob)" for a f
    using that getStateObject_caches [OF assms(1), of a]
    by (auto simp: onObject_def split: prod.splits option.splits intro!: cachesOk_set)
  show ?thesis
  proof (cases e)
    case (selfDestructChange a prv bal)
    then show ?thesis using assms(2) getStateObject_caches [OF assms(1), of a]
      by (auto split: prod.splits option.splits intro!: cachesOk_set)
  next
    case (createObjectChange a)
    then show ?thesis using assms(1,2) by (auto simp: cachesOk_def split: if_splits)
  next
    case (resetObjectChange prv)
    then show ?thesis using assms by (auto intro!: cachesOk_set)
  qed (use assms(1,2) on in \<open>auto simp: cachesOk_def setTransientState_def RevertMultiStore_def split: if_splits option.splits\<close>)
qed

lemma undoEntries_caches:
  "cachesOk K c s \<Longrightarrow> undoEntries K rm es s = Some u \<Longrightarrow> (\<And>prv. resetObjectChange prv \<in> set es \<Longrightarrow> cacheOk K c prv) \<Longrightarrow> cachesOk K c u"
proof (induction es arbitrary: s)
  case (Cons e es)
  then obtain s1 where s1: "revertEntry K rm e s = Some s1" "undoEntries K rm es (dropDirty e s1) = Some u"
    by (auto split: option.splits)
  have "cachesOk K c s1" by (rule revertEntry_caches [OF Cons.prems(1) s1(1)]) (use Cons.prems(3) in auto)
  then have "cachesOk K c (dropDirty e s1)" by (simp add: cachesOk_def dropDirty_def split: option.split)
  then show ?case using Cons.IH s1(2) Cons.prems(3) by simp
qed simp

lemma RevertToSnapshot_caches:
  assumes "cachesOk K c s"
  shows "cachesOk K c (snd (RevertToSnapshot K rm i s))"
proof (cases "fst (RevertToSnapshot K rm i s) = Ret ()")
  case True
  then obtain t where t: "RevertToSnapshot K rm i s = (Ret (), t)" by (metis prod.collapse)
  from RevertToSnapshot_objects [OF t] obtain n u where u:
    "undoEntries K rm (rev (drop n (entries s))) s = Some u" "stateObjects t = stateObjects u" "entries t = take n (entries s)" "ctx t = ctx u"
    using t by (auto simp: RevertToSnapshot_def journal_Revert_def Let_def split: if_splits option.splits)
  have "cachesOk K c u"
    by (rule undoEntries_caches [OF assms u(1)]) (use assms in \<open>auto simp: cachesOk_def dest: in_set_dropD\<close>)
  then show ?thesis using assms t u(2-4) by (auto simp: cachesOk_def dest: in_set_takeD)
next
  case False
  then have "snd (RevertToSnapshot K rm i s) = s"
    by (auto simp: RevertToSnapshot_def Let_def split: if_splits option.splits)
  then show ?thesis using assms by simp
qed

lemma step_caches: "cachesOk K c s \<Longrightarrow> \<not> callsPrecompile op \<Longrightarrow> cachesOk K c (sdb_step K rm op s)"
  by (cases op) (simp_all add: reads_caches writes_caches SelfDestruct_caches objects_caches rest_caches RevertToSnapshot_caches)

lemma txFinished_caches:
  assumes "txFinished K rm c s"
  shows "cachesOk K c s"
proof -
  have run: "cachesOk K c s \<Longrightarrow> admissible K rm ops s \<Longrightarrow> cachesOk K c (sdb_run K rm ops s)" for ops and s :: "('a, 'b, 'c) StateDB"
    unfolding sdb_run_def by (induction ops arbitrary: s) (simp_all add: step_caches)
  have "cachesOk K c (snd (Prepare rules sender coinbase dst precompiles lst (StateDB_New c cfg)))"
    for rules sender coinbase dst precompiles lst cfg
    by (auto simp: cachesOk_def Prepare_def StateDB_New_def Let_def split: option.split)
  then show ?thesis using assms run unfolding txFinished_def by blast
qed

section \<open>The contract of the keeper\<close>

text \<open>
  A family of keepers, indexed by their configuration.  \<open>holder\<close> are the accounts whose balance
  the EVM may set.
\<close>

locale statedb_keeper =
  fixes good :: "'k \<Rightarrow> bool"
    and inv :: "'k \<Rightarrow> 'c \<Rightarrow> bool"
    and keeper :: "'k \<Rightarrow> 'c sdb_keeper"
    and holder :: "'k \<Rightarrow> Address \<Rightarrow> bool"
  assumes set_account: "good K \<Longrightarrow> inv K c \<Longrightarrow> holder K a \<Longrightarrow>
      \<exists>c'. k_SetAccount (keeper K) a acc c = (Ret (), c') \<and> inv K c' \<and> k_GetAccount (keeper K) c' a = Some acc \<and>
        (\<forall>b. holder K b \<longrightarrow> b \<noteq> a \<longrightarrow> k_GetAccount (keeper K) c' b = k_GetAccount (keeper K) c b) \<and>
        k_GetState (keeper K) c' = k_GetState (keeper K) c \<and> k_GetCode (keeper K) c' = k_GetCode (keeper K) c"
    and set_state: "good K \<Longrightarrow> inv K c \<Longrightarrow> inv K (k_SetState (keeper K) a k (HashBytes v) c) \<and>
        k_GetAccount (keeper K) (k_SetState (keeper K) a k (HashBytes v) c) = k_GetAccount (keeper K) c \<and>
        k_GetState (keeper K) (k_SetState (keeper K) a k (HashBytes v) c) =
          (k_GetState (keeper K) c)(a := (k_GetState (keeper K) c a)(k := v)) \<and>
        k_GetCode (keeper K) (k_SetState (keeper K) a k (HashBytes v) c) = k_GetCode (keeper K) c"
    and set_code: "good K \<Longrightarrow> inv K c \<Longrightarrow> inv K (k_SetCode (keeper K) h cd c) \<and>
        k_GetAccount (keeper K) (k_SetCode (keeper K) h cd c) = k_GetAccount (keeper K) c \<and>
        k_GetState (keeper K) (k_SetCode (keeper K) h cd c) = k_GetState (keeper K) c \<and>
        k_GetCode (keeper K) (k_SetCode (keeper K) h cd c) = (k_GetCode (keeper K) c)(h := Some cd)"
    and delete_code: "good K \<Longrightarrow> inv K c \<Longrightarrow> inv K (k_DeleteCode (keeper K) h c) \<and>
        k_GetAccount (keeper K) (k_DeleteCode (keeper K) h c) = k_GetAccount (keeper K) c \<and>
        k_GetState (keeper K) (k_DeleteCode (keeper K) h c) = k_GetState (keeper K) c \<and>
        k_GetCode (keeper K) (k_DeleteCode (keeper K) h c) = (k_GetCode (keeper K) c)(h := None)"
    and delete_absent: "good K \<Longrightarrow> inv K c \<Longrightarrow> k_GetAccount (keeper K) c a = None \<Longrightarrow>
        k_DeleteAccount (keeper K) a c = (Ret (), c)"
    and delete_contract: "good K \<Longrightarrow> inv K c \<Longrightarrow> holder K a \<Longrightarrow> k_GetAccount (keeper K) c a = Some acc \<Longrightarrow>
        CodeHash acc \<noteq> EmptyCodeHash (keeper K) \<Longrightarrow>
      \<exists>c'. k_DeleteAccount (keeper K) a c = (Ret (), c') \<and> inv K c' \<and> k_GetAccount (keeper K) c' a = None \<and>
        (\<forall>b. holder K b \<longrightarrow> b \<noteq> a \<longrightarrow> k_GetAccount (keeper K) c' b = k_GetAccount (keeper K) c b) \<and>
        (\<forall>b. b \<noteq> a \<longrightarrow> k_GetState (keeper K) c' b = k_GetState (keeper K) c b) \<and>
        k_GetCode (keeper K) c' = k_GetCode (keeper K) c"

text \<open>The code store after an object is committed.\<close>

definition codeAfter :: "stateObject \<Rightarrow> (Hash \<Rightarrow> bytes option) \<Rightarrow> Hash \<Rightarrow> bytes option" where
  "codeAfter ob f =
    (if selfDestructed ob \<or> \<not> dirtyCode ob then f
     else case code ob of
       None \<Rightarrow> f
     | Some cd \<Rightarrow> f(CodeHash (account ob) := (if cd = [] then None else Some cd)))"

text \<open>What the keeper holds of the address of a committed object.\<close>

definition stored :: "'c sdb_keeper \<Rightarrow> stateObject \<Rightarrow> (Hash \<Rightarrow> Hash) \<Rightarrow> 'c \<Rightarrow> bool" where
  "stored K ob old c \<longleftrightarrow>
    (if selfDestructed ob then k_GetAccount K c (address ob) = None
     else k_GetAccount K c (address ob) = Some (account ob) \<and>
       (\<forall>k. k_GetState K c (address ob) k = (case fmlookup (dirtyStorage ob) k of Some v \<Rightarrow> v | None \<Rightarrow> old k)))"

definition destroyable :: "'c sdb_keeper \<Rightarrow> 'c \<Rightarrow> stateObject \<Rightarrow> bool" where
  "destroyable K c ob \<longleftrightarrow> selfDestructed ob \<longrightarrow>
    (case k_GetAccount K c (address ob) of None \<Rightarrow> True | Some acc \<Rightarrow> CodeHash acc \<noteq> EmptyCodeHash K)"

context statedb_keeper
begin

lemma commitStorage_run:
  assumes "good K" "inv K c"
  shows "\<exists>c'. go_for ks (\<lambda>key.
      let value = (case fmlookup m key of Some v \<Rightarrow> v | None \<Rightarrow> 0); valueBytes = HashBytes value
      in if length valueBytes = 0 then go_modify (k_DeleteState (keeper K) a key)
         else go_modify (k_SetState (keeper K) a key valueBytes)) c = (Ret () :: (string, unit) outcome, c') \<and> inv K c' \<and>
    k_GetAccount (keeper K) c' = k_GetAccount (keeper K) c \<and> k_GetCode (keeper K) c' = k_GetCode (keeper K) c \<and>
    k_GetState (keeper K) c' = (k_GetState (keeper K) c)(a := (\<lambda>k. if k \<in> set ks
      then (case fmlookup m k of Some v \<Rightarrow> v | None \<Rightarrow> 0) else k_GetState (keeper K) c a k))"
  using assms(2)
proof (induction ks arbitrary: c)
  case (Cons k ks)
  let ?v = "case fmlookup m k of Some v \<Rightarrow> v | None \<Rightarrow> 0"
  let ?f = "\<lambda>key. let value = (case fmlookup m key of Some v \<Rightarrow> v | None \<Rightarrow> 0); valueBytes = HashBytes value
      in if length valueBytes = 0 then go_modify (k_DeleteState (keeper K) a key)
         else go_modify (k_SetState (keeper K) a key valueBytes) :: ('c, string, unit) go"
  define c1 where "c1 = k_SetState (keeper K) a k (HashBytes ?v) c"
  have l: "inv K c1" "k_GetAccount (keeper K) c1 = k_GetAccount (keeper K) c" "k_GetCode (keeper K) c1 = k_GetCode (keeper K) c"
    "k_GetState (keeper K) c1 = (k_GetState (keeper K) c)(a := (k_GetState (keeper K) c a)(k := ?v))"
    using set_state [OF assms(1) Cons.prems, of a k ?v] by (simp_all add: c1_def)
  obtain c' where c': "go_for ks ?f c1 = (Ret (), c')" "inv K c'" "k_GetAccount (keeper K) c' = k_GetAccount (keeper K) c1"
    "k_GetCode (keeper K) c' = k_GetCode (keeper K) c1"
    "k_GetState (keeper K) c' = (k_GetState (keeper K) c1)(a := (\<lambda>j. if j \<in> set ks
      then (case fmlookup m j of Some v \<Rightarrow> v | None \<Rightarrow> 0) else k_GetState (keeper K) c1 a j))"
    using Cons.IH [OF l(1)] by blast
  have "go_for (k # ks) ?f c = go_for ks ?f c1" by (simp add: Let_def c1_def)
  moreover have "k_GetState (keeper K) c' = (k_GetState (keeper K) c)(a := (\<lambda>j. if j \<in> set (k # ks)
      then (case fmlookup m j of Some v \<Rightarrow> v | None \<Rightarrow> 0) else k_GetState (keeper K) c a j))"
    by (auto simp: c'(5) l(4) fun_eq_iff)
  ultimately show ?case unfolding l(2,3) [symmetric] c'(3,4) [symmetric] using c'(1,2) by (metis (no_types, lifting))
qed auto

lemma commitObject_ok:
  assumes g: "good K" "inv K c" "holder K (address ob)" and d: "destroyable (keeper K) c ob"
  shows "\<exists>c'. commitObject (keeper K) ob c = (Ret (), c') \<and> inv K c' \<and> stored (keeper K) ob (k_GetState (keeper K) c (address ob)) c' \<and>
    (\<forall>b. holder K b \<longrightarrow> b \<noteq> address ob \<longrightarrow> k_GetAccount (keeper K) c' b = k_GetAccount (keeper K) c b) \<and>
    (\<forall>b. b \<noteq> address ob \<longrightarrow> k_GetState (keeper K) c' b = k_GetState (keeper K) c b) \<and>
    k_GetCode (keeper K) c' = codeAfter ob (k_GetCode (keeper K) c)"
proof (cases "selfDestructed ob")
  case True
  then show ?thesis
    using d delete_absent [OF g(1,2), of "address ob"] delete_contract [OF g] g(2)
    by (cases "k_GetAccount (keeper K) c (address ob)")
       (auto simp: commitObject_def stored_def destroyable_def codeAfter_def)
next
  case False
  let ?a = "address ob"
  define c1 where "c1 = (case code ob of
      Some cd \<Rightarrow> if dirtyCode ob then (if length cd = 0 then k_DeleteCode (keeper K) (CodeHash (account ob)) c
        else k_SetCode (keeper K) (CodeHash (account ob)) cd c) else c
    | None \<Rightarrow> c)"
  define m1 :: "('c, string, unit) go" where "m1 = (case code ob of
      Some cd \<Rightarrow> if dirtyCode ob
        then (if length cd = 0 then go_modify (k_DeleteCode (keeper K) (CodeHash (account ob)))
              else go_modify (k_SetCode (keeper K) (CodeHash (account ob)) cd)) else go_return ()
    | None \<Rightarrow> go_return ())"
  have run1: "m1 c = (Ret (), c1)" by (simp add: c1_def m1_def split: option.split)
  have c1: "inv K c1" "k_GetAccount (keeper K) c1 = k_GetAccount (keeper K) c" "k_GetState (keeper K) c1 = k_GetState (keeper K) c"
    "k_GetCode (keeper K) c1 = codeAfter ob (k_GetCode (keeper K) c)"
    using set_code [OF g(1,2)] delete_code [OF g(1,2)] g(2) False
    by (auto simp: c1_def codeAfter_def split: option.split)
  obtain c2 where c2: "k_SetAccount (keeper K) ?a (account ob) c1 = (Ret (), c2)" "inv K c2"
      "k_GetAccount (keeper K) c2 ?a = Some (account ob)"
      "\<forall>b. holder K b \<longrightarrow> b \<noteq> ?a \<longrightarrow> k_GetAccount (keeper K) c2 b = k_GetAccount (keeper K) c1 b"
      "k_GetState (keeper K) c2 = k_GetState (keeper K) c1" "k_GetCode (keeper K) c2 = k_GetCode (keeper K) c1"
    using set_account [OF g(1) c1(1) g(3)] by blast
  obtain c3 where c3: "commitStorage (keeper K) ob c2 = (Ret (), c3)" "inv K c3"
      "k_GetAccount (keeper K) c3 = k_GetAccount (keeper K) c2" "k_GetCode (keeper K) c3 = k_GetCode (keeper K) c2"
      "k_GetState (keeper K) c3 = (k_GetState (keeper K) c2)(?a := (\<lambda>k. if k \<in> set (SortedKeys (dirtyStorage ob))
        then (case fmlookup (dirtyStorage ob) k of Some v \<Rightarrow> v | None \<Rightarrow> 0) else k_GetState (keeper K) c2 ?a k))"
    using commitStorage_run [OF g(1) c2(2), of "SortedKeys (dirtyStorage ob)" "dirtyStorage ob" ?a] unfolding commitStorage_def by blast
  have "commitObject (keeper K) ob c = (Ret (), c3)"
    using run1 c2(1) c3(1) False by (simp add: commitObject_def m1_def [symmetric])
  moreover have "k \<in> set (SortedKeys (dirtyStorage ob)) \<longleftrightarrow> fmlookup (dirtyStorage ob) k \<noteq> None" for k
    by (simp add: SortedKeys_def fmlookup_dom_iff)
  ultimately show ?thesis
    using c1 c2 c3 False by (auto simp: stored_def split: option.split)
qed

text \<open>Committing the objects one after the other.\<close>

lemma commit_run:
  assumes "good K" "inv K c" "distinct as" "\<forall>a\<in>set as. holder K a \<and> address (ob a) = a \<and> destroyable (keeper K) c (ob a)"
  shows "\<exists>c'. go_for as (\<lambda>a. commitObject (keeper K) (ob a)) c = (Ret (), c') \<and> inv K c' \<and>
    (\<forall>a\<in>set as. stored (keeper K) (ob a) (k_GetState (keeper K) c a) c') \<and>
    (\<forall>b. holder K b \<longrightarrow> b \<notin> set as \<longrightarrow> k_GetAccount (keeper K) c' b = k_GetAccount (keeper K) c b) \<and>
    (\<forall>b. b \<notin> set as \<longrightarrow> k_GetState (keeper K) c' b = k_GetState (keeper K) c b) \<and>
    k_GetCode (keeper K) c' = fold (\<lambda>a. codeAfter (ob a)) as (k_GetCode (keeper K) c)"
  using assms(2-4)
proof (induction "as" arbitrary: c)
  case (Cons a as)
  have ha: "holder K (address (ob a))" "destroyable (keeper K) c (ob a)" "address (ob a) = a" using Cons.prems(3) by auto
  obtain c1 where c1: "commitObject (keeper K) (ob a) c = (Ret (), c1)" "inv K c1" "stored (keeper K) (ob a) (k_GetState (keeper K) c a) c1"
      "\<And>b. holder K b \<Longrightarrow> b \<noteq> a \<Longrightarrow> k_GetAccount (keeper K) c1 b = k_GetAccount (keeper K) c b"
      "\<And>b. b \<noteq> a \<Longrightarrow> k_GetState (keeper K) c1 b = k_GetState (keeper K) c b"
      "k_GetCode (keeper K) c1 = codeAfter (ob a) (k_GetCode (keeper K) c)"
    using commitObject_ok [OF assms(1) Cons.prems(1) ha(1,2)] ha(3) by auto
  have ne: "b \<noteq> a" if "b \<in> set as" for b using that Cons.prems(2) by auto
  have "\<forall>b\<in>set as. holder K b \<and> address (ob b) = b \<and> destroyable (keeper K) c1 (ob b)"
    using Cons.prems(3) c1(4) ne by (auto simp: destroyable_def)
  then obtain c2 where c2: "go_for as (\<lambda>a. commitObject (keeper K) (ob a)) c1 = (Ret (), c2)" "inv K c2"
      "\<And>b. b \<in> set as \<Longrightarrow> stored (keeper K) (ob b) (k_GetState (keeper K) c1 b) c2"
      "\<And>b. holder K b \<Longrightarrow> b \<notin> set as \<Longrightarrow> k_GetAccount (keeper K) c2 b = k_GetAccount (keeper K) c1 b"
      "\<And>b. b \<notin> set as \<Longrightarrow> k_GetState (keeper K) c2 b = k_GetState (keeper K) c1 b"
      "k_GetCode (keeper K) c2 = fold (\<lambda>a. codeAfter (ob a)) as (k_GetCode (keeper K) c1)"
    using Cons.IH [OF c1(2)] Cons.prems(2) by auto
  have "stored (keeper K) (ob a) (k_GetState (keeper K) c a) c2"
    using c1(3) c2(4) [of a] c2(5) [of a] Cons.prems(2) ha(1) unfolding stored_def ha(3) by simp
  moreover have "stored (keeper K) (ob b) (k_GetState (keeper K) c b) c2" if "b \<in> set as" for b
    using c2(3) [OF that] c1(5) [OF ne [OF that]] by simp
  ultimately show ?case using c1 c2 by (auto simp: ne)
qed auto

end

section \<open>The committed state\<close>

text \<open>All code that occurs in a transaction, with the empty code.\<close>

definition codesOf :: "'c sdb_keeper \<Rightarrow> ('c, 'm, 'v) StateDB \<Rightarrow> bytes set" where
  "codesOf K s = insert [] {cd. \<exists>a ob. objOf K s a = Some ob \<and> fst (so_Code K (ctx s) ob) = Some cd}"

text \<open>
  A database opened on the committed state \<open>c'\<close> reads of account \<open>a\<close> what \<open>s\<close> reads; a
  self-destructed account is gone.
\<close>

definition committedReads :: "'c sdb_keeper \<Rightarrow> ('c, 'm, 'v) StateDB \<Rightarrow> 'c \<Rightarrow> Address \<Rightarrow> bool" where
  "committedReads K s c' a \<longleftrightarrow>
    (let t = (StateDB_New c' (txConfig s) :: ('c, 'm, 'v) StateDB)
     in if fst (HasSelfDestructed K a s) then \<not> fst (Exist K a t)
        else fst (Exist K a t) = fst (Exist K a s) \<and> fst (GetBalance K a t) = fst (GetBalance K a s) \<and>
          fst (GetNonce K a t) = fst (GetNonce K a s) \<and> fst (GetCodeHash K a t) = fst (GetCodeHash K a s) \<and>
          sliceBytes (fst (GetCode K a t)) = sliceBytes (fst (GetCode K a s)) \<and>
          (\<forall>k. fst (GetState K a k t) = fst (GetState K a k s)))"

definition writesCode :: "stateObject \<Rightarrow> Hash \<Rightarrow> bytes \<Rightarrow> bool" where
  "writesCode ob h cd \<longleftrightarrow> \<not> selfDestructed ob \<and> dirtyCode ob \<and> code ob = Some cd \<and> CodeHash (account ob) = h"

lemma codeAfter_cases:
  "writesCode ob h cd \<Longrightarrow> codeAfter ob f h = (if cd = [] then None else Some cd)"
  "(\<And>cd. \<not> writesCode ob h cd) \<Longrightarrow> codeAfter ob f h = f h"
  by (auto simp: codeAfter_def writesCode_def split: option.split)

lemma fold_codeAfter:
  "(\<exists>a\<in>set as. \<exists>cd. writesCode (ob a) h cd \<and> fold (\<lambda>a. codeAfter (ob a)) as f h = (if cd = [] then None else Some cd)) \<or>
   fold (\<lambda>a. codeAfter (ob a)) as f h = f h \<and> (\<forall>a\<in>set as. \<forall>cd. \<not> writesCode (ob a) h cd)"
proof (induction "as" rule: rev_induct)
  case (snoc a as)
  show ?case
  proof (cases "\<exists>cd. writesCode (ob a) h cd")
    case True
    then obtain cd where "writesCode (ob a) h cd" by blast
    then show ?thesis using codeAfter_cases(1) [of "ob a" h cd] by (intro disjI1 bexI [of _ a] exI [of _ cd]) simp_all
  next
    case False
    then have "fold (\<lambda>a. codeAfter (ob a)) (as @ [a]) f h = fold (\<lambda>a. codeAfter (ob a)) as f h"
      using codeAfter_cases(2) [of "ob a" h] by simp
    then show ?thesis using snoc.IH False by auto
  qed
qed simp

lemma newObject_reads:
  "fst (so_Code K c (newObject K a (Some acc))) = (if CodeHash acc = EmptyCodeHash K then None else k_GetCode K c (CodeHash acc))"
  "fst (so_GetState K c k (newObject K a (Some acc))) = k_GetState K c a k"
  by (simp_all add: code_read state_read committed_read newObject_def)

text \<open>The code a reader finds after the commit.\<close>

lemma code_committed:
  fixes K :: "'c sdb_keeper" and s :: "('c, 'm, 'v) StateDB" and c :: 'c and "as" :: "Address list" and obj :: "Address \<Rightarrow> stateObject"
  defines "f' \<equiv> fold (\<lambda>a. codeAfter (obj a)) as (k_GetCode K c)"
  assumes ok: "codeOk K s" "ctx s = c" and inj: "inj_on (k_Keccak256Hash K) (codesOf K s)"
    and objs: "\<forall>b\<in>set as. objOf K s b = Some (obj b)"
    and ob: "objOf K s a = Some ob"
    and old: "a \<in> set as \<and> \<not> selfDestructed ob \<and> cacheOk K c ob \<or>
      fst (so_Code K c ob) = (if CodeHash (account ob) = EmptyCodeHash K then None else k_GetCode K c (CodeHash (account ob)))"
  shows "sliceBytes (if CodeHash (account ob) = EmptyCodeHash K then None else f' (CodeHash (account ob))) =
    sliceBytes (fst (so_Code K c ob))"
proof -
  let ?h = "CodeHash (account ob)" and ?x = "fst (so_Code K c ob)"
  have agr: "codeAgrees K (fst (so_Code K c o')) (CodeHash (account o'))" if "objOf K s b = Some o'" for b o'
    using ok that by (auto simp: codeOk_def)
  have mem: "cd \<in> codesOf K s" if "objOf K s b = Some o'" "fst (so_Code K c o') = Some cd" for b o' cd
    using that ok(2) by (auto simp: codesOf_def)
  have nil: "[] \<in> codesOf K s" by (simp add: codesOf_def)
  show ?thesis
  proof (cases "?h = EmptyCodeHash K")
    case True
    have "cd = []" if x: "?x = Some cd" for cd
    proof (rule inj_onD [OF inj _ mem [OF ob x] nil])
      show "k_Keccak256Hash K cd = k_Keccak256Hash K []" using agr [OF ob] x True by (simp add: codeAgrees_def EmptyCodeHash_def)
    qed
    then show ?thesis using True by (cases ?x) (auto simp: sliceBytes_def)
  next
    case False
    then obtain cd where cd: "?x = Some cd" "k_Keccak256Hash K cd = ?h" using agr [OF ob] by (auto simp: codeAgrees_def split: option.splits)
    have ne: "cd \<noteq> []" using cd(2) False by (auto simp: EmptyCodeHash_def)
    have "f' ?h = Some cd" using fold_codeAfter [of "as" obj ?h "k_GetCode K c"] unfolding f'_def [symmetric]
    proof
      assume "\<exists>b\<in>set as. \<exists>cd'. writesCode (obj b) ?h cd' \<and> f' ?h = (if cd' = [] then None else Some cd')"
      then obtain b cd' where b: "b \<in> set as" "writesCode (obj b) ?h cd'" "f' ?h = (if cd' = [] then None else Some cd')"
        by blast
      have ob': "objOf K s b = Some (obj b)" using objs b(1) by blast
      have x: "fst (so_Code K c (obj b)) = Some cd'" using b(2) by (simp add: code_read writesCode_def)
      have "k_Keccak256Hash K cd' = k_Keccak256Hash K cd"
        using agr [OF ob'] x b(2) cd(2) by (simp add: codeAgrees_def writesCode_def)
      then have "cd' = cd" by (rule inj_onD [OF inj _ mem [OF ob' x] mem [OF ob cd(1)]])
      then show ?thesis using b(3) ne by simp
    next
      assume n: "f' ?h = k_GetCode K c ?h \<and> (\<forall>b\<in>set as. \<forall>cd. \<not> writesCode (obj b) ?h cd)"
      have "k_GetCode K c ?h = Some cd"
        using old
      proof
        assume a: "a \<in> set as \<and> \<not> selfDestructed ob \<and> cacheOk K c ob"
        then have "obj a = ob" using objs ob by auto
        then have "\<not> dirtyCode ob \<or> code ob = None" using n a unfolding writesCode_def by fastforce
        then show ?thesis using a cd(1) False by (auto simp: cacheOk_def code_read split: option.splits)
      qed (use cd(1) False in simp)
      then show ?thesis using n by simp
    qed
    then show ?thesis using cd(1) False by simp
  qed
qed

lemma fresh_object:
  "objOf K (StateDB_New c cfg) a = map_option (\<lambda>acc. newObject K a (Some acc)) (k_GetAccount K c a)"
  "ctx (StateDB_New c cfg) = c" "account (newObject K a (Some acc)) = acc"
  by (simp_all add: objOf_def) (simp_all add: StateDB_New_def newObject_def)

lemmas fresh_reads = committedReads_def Let_def read_objOf fresh_object newObject_reads

lemma reads_dirty:
  assumes ob: "objOf K s a = Some ob" "ctx s = c" "address ob = a" "cacheOk K c ob"
    and st: "stored K ob (k_GetState K c a) c'"
    and cd: "\<not> selfDestructed ob \<Longrightarrow> sliceBytes (if CodeHash (account ob) = EmptyCodeHash K then None
      else k_GetCode K c' (CodeHash (account ob))) = sliceBytes (fst (so_Code K c ob))"
  shows "committedReads K s c' a"
proof (cases "selfDestructed ob")
  case True
  then show ?thesis using ob st by (simp add: fresh_reads stored_def)
next
  case False
  have acc: "k_GetAccount K c' a = Some (account ob)" using st ob(3) False by (simp add: stored_def)
  have org: "fst (so_GetCommittedState K c k ob) = k_GetState K c a k" for k
    using ob(3,4) by (auto simp: committed_read cacheOk_def split: option.split)
  have "k_GetState K c' a k = fst (so_GetState K c k ob)" for k
    using st ob(3) False by (simp add: stored_def state_read org split: option.split)
  then show ?thesis
    using ob(1,2) False cd by (simp add: fresh_reads acc)
qed

lemma reads_clean:
  assumes r: "map_option (obsE K c) (objOf K s a) = map_option (\<lambda>acc. obsE K c (newObject K a (Some acc))) (k_GetAccount K c a)"
    and c: "ctx s = c"
    and keep: "k_GetAccount K c' a = k_GetAccount K c a" "k_GetState K c' a = k_GetState K c a"
    and cd: "\<And>ob. objOf K s a = Some ob \<Longrightarrow>
      fst (so_Code K c ob) = (if CodeHash (account ob) = EmptyCodeHash K then None else k_GetCode K c (CodeHash (account ob))) \<Longrightarrow>
      sliceBytes (if CodeHash (account ob) = EmptyCodeHash K then None
      else k_GetCode K c' (CodeHash (account ob))) = sliceBytes (fst (so_Code K c ob))"
  shows "committedReads K s c' a"
proof (cases "k_GetAccount K c a")
  case None
  then have "objOf K s a = None" using r by simp
  then show ?thesis using None keep(1) by (simp add: fresh_reads)
next
  case (Some acc)
  then obtain ob where ob: "objOf K s a = Some ob" "obsE K c ob = obsE K c (newObject K a (Some acc))" using r by auto
  have f: "account ob = acc" "\<not> selfDestructed ob" "\<And>k. fst (so_GetState K c k ob) = k_GetState K c a k"
    "fst (so_Code K c ob) = (if CodeHash acc = EmptyCodeHash K then None else k_GetCode K c (CodeHash acc))"
    using ob(2) by (simp_all add: obsE_def newObject_reads fun_eq_iff) (simp_all add: newObject_def)
  have acc': "k_GetAccount K c' a = Some acc" using Some keep(1) by simp
  show ?thesis
    using cd [OF ob(1)] f(2,3,4) ob(1) c unfolding f(1) by (simp add: fresh_reads f(1) acc' keep(2))
qed

context statedb_keeper
begin

theorem commit_faithful:
  fixes s :: "('c, 'm, 'v) StateDB"
  assumes g: "good K" "inv K c" and tx: "codeStored (keeper K) c" "txFinished (keeper K) rm c s"
    and inj: "inj_on (k_Keccak256Hash (keeper K)) (codesOf (keeper K) s)"
    and dirty: "\<forall>a\<in>set (sortedDirties s). holder K a"
    and destr: "\<forall>a ob. fmlookup (stateObjects s) a = Some ob \<longrightarrow> destroyable (keeper K) c ob"
  shows "\<exists>c'. commitWithCtx (keeper K) s c = (Ret (), c') \<and> inv K c' \<and> (\<forall>a. holder K a \<longrightarrow> committedReads (keeper K) s c' a)"
proof -
  note rdy = txFinished_ready [OF tx]
  let ?obj = "\<lambda>a. the (fmlookup (stateObjects s) a)" and ?as = "sortedDirties s"
  have dom: "a \<in> set ?as \<longleftrightarrow> a |\<in>| fmdom (dirties s)" for a by (simp add: sortedDirties_def)
  have obj: "fmlookup (stateObjects s) a = Some (?obj a)" if "a \<in> set ?as" for a
    using that rdy(2) by (auto simp: dom present_def fmlookup_dom_iff)
  have objs: "objOf (keeper K) s a = Some (?obj a)" if "a \<in> set ?as" for a using obj [OF that] unfolding objOf_def by (metis option.simps(5))
  have adr: "address (?obj a) = a" if "a \<in> set ?as" for a using obj [OF that] rdy(3) by (auto simp: addr_ok_def)
  have cch: "cacheOk (keeper K) c (?obj a)" if "a \<in> set ?as" for a
    using obj [OF that] txFinished_caches [OF tx(2)] by (auto simp: cachesOk_def)
  have run: "commitWithCtx (keeper K) s c = go_for ?as (\<lambda>a. commitObject (keeper K) (?obj a)) c"
    unfolding commitWithCtx_def by (rule go_for_cong) (use obj in \<open>fastforce split: option.split\<close>)
  have dist: "distinct ?as" by (simp add: sortedDirties_def sorted_list_of_fset.rep_eq)
  have pre: "\<forall>a\<in>set ?as. holder K a \<and> address (?obj a) = a \<and> destroyable (keeper K) c (?obj a)"
    using dirty destr obj adr by blast
  obtain c' where c': "go_for ?as (\<lambda>a. commitObject (keeper K) (?obj a)) c = (Ret (), c')" "inv K c'"
      "\<And>a. a \<in> set ?as \<Longrightarrow> stored (keeper K) (?obj a) (k_GetState (keeper K) c a) c'"
      "\<And>b. holder K b \<Longrightarrow> b \<notin> set ?as \<Longrightarrow> k_GetAccount (keeper K) c' b = k_GetAccount (keeper K) c b"
      "\<And>b. b \<notin> set ?as \<Longrightarrow> k_GetState (keeper K) c' b = k_GetState (keeper K) c b"
      "k_GetCode (keeper K) c' = fold (\<lambda>a. codeAfter (?obj a)) ?as (k_GetCode (keeper K) c)"
    using commit_run [OF g dist, of ?obj] pre by blast
  have ok: "codeOk (keeper K) s" using rdy(1) by (simp add: ready_def)
  note cc = code_committed [OF ok rdy(4) inj, of ?as ?obj, folded c'(6)]
  have "committedReads (keeper K) s c' a" if "holder K a" for a
  proof (cases "a \<in> set ?as")
    case True
    show ?thesis
      by (rule reads_dirty [OF objs [OF True] rdy(4) adr [OF True] cch [OF True] c'(3) [OF True]])
         (rule cc; use objs cch True in blast)
  next
    case False
    show ?thesis
    proof (rule reads_clean [OF _ rdy(4) c'(4) [OF that False] c'(5) [OF False]])
      show "map_option (obsE (keeper K) c) (objOf (keeper K) s a) =
          map_option (\<lambda>acc. obsE (keeper K) c (newObject (keeper K) a (Some acc))) (k_GetAccount (keeper K) c a)"
        using rdy(1,4) False by (auto simp: ready_def dom)
    qed (rule cc; use objs in blast)
  qed
  then show ?thesis using c'(1,2) run by auto
qed

end

end
