(* ===== verification/FeeMarketProps.thy ===== *)
theory FeeMarketProps
  imports FeeMarket
begin

text \<open>
  The correctness of the fee market: the base fee is that of EIP-1559, moves by a bounded amount
  and respects the minimum price; the parameters stay valid along every sequence of blocks, so
  the begin blocker never panics; the end blocker records the gas that penalises unused gas.
\<close>

section \<open>Reference definitions\<close>

text \<open>The EIP-1559 recurrence with a single division, a minimal increment and a floor.\<close>

definition eip1559BaseFee :: "int \<Rightarrow> int \<Rightarrow> int \<Rightarrow> int \<Rightarrow> int \<Rightarrow> int \<Rightarrow> int" where
  "eip1559BaseFee gasUsed target denominator baseFee unit floorPrice =
    (if gasUsed = target then baseFee
     else if gasUsed > target then baseFee + max (baseFee * (gasUsed - target) div (target * denominator)) unit
     else max (baseFee - baseFee * (target - gasUsed) div (target * denominator)) floorPrice)"

text \<open>
  The steps of a chain: blocks begin and end, transactions add their gas limit, the transient
  store is dropped on commit, and governance replaces the parameters by validated ones.
\<close>

inductive fm_reach :: "fm_keeper \<Rightarrow> fm_ctx \<Rightarrow> bool" for K where
  genesis: "fm_Params_Validate (gs_Params gs) = Ret () \<Longrightarrow> fm_reach K (fm_InitGenesis gs s)"
| begin_block: "fm_reach K s \<Longrightarrow> fm_BeginBlock K b s = (Ret (), s') \<Longrightarrow> fm_reach K s'"
| tx: "fm_reach K s \<Longrightarrow> AddTransientGasWanted g s = (Ret r, s') \<Longrightarrow> fm_reach K s'"
| end_block: "fm_reach K s \<Longrightarrow> fm_EndBlock K b s = (Ret (), s') \<Longrightarrow> fm_reach K s'"
| commit: "fm_reach K s \<Longrightarrow> fm_reach K (s\<lparr>fmTransientGasWanted := None\<rparr>)"
| update: "fm_reach K s \<Longrightarrow> fm_Params_Validate p = Ret () \<Longrightarrow> fm_UpdateParams K auth p s = (Ret (), s') \<Longrightarrow> fm_reach K s'"

text \<open>An SDK decimal that meets the contract: products round half up.\<close>

definition decExact :: dec_api where
  "decExact = \<lparr>Dec_FromInt = (\<lambda>n. n * decOne), Dec_TruncateInt = (\<lambda>d. Quo d decOne),
     Dec_Mul = (\<lambda>d e. (2 * (d * e) + decOne) div (2 * decOne)), Dec_MulInt = (\<lambda>d n. d * n), Dec_QuoInt = Quo\<rparr>"

definition fmExample :: fm_keeper where
  "fmExample = \<lparr>fmDec = decExact, fmFactor = 1, fmAuthority = ''gov''\<rparr>"

section \<open>Decimals\<close>

lemma decOne_pos [simp]: "0 < decOne" "decOne \<noteq> 0"
  by (simp_all add: decOne_def)


lemma Dec_Mul_int:
  assumes "dec_contract D"
  shows "Dec_Mul D (Dec_FromInt D n) e = n * e"
proof -
  define k where "k = Dec_Mul D (n * decOne) e"
  have "\<bar>2 * (k * decOne - n * decOne * e)\<bar> \<le> decOne"
    using assms by (simp add: dec_contract_def k_def)
  then have "\<bar>(k - n * e) * (2 * decOne)\<bar> \<le> decOne" by (simp add: algebra_simps)
  then have "k - n * e = 0" by (simp add: decOne_def abs_le_iff)
  then show ?thesis using assms by (simp add: dec_contract_def k_def)
qed

lemma decExact_contract: "dec_contract decExact"
proof -
  have "\<bar>2 * ((2 * x + decOne) div (2 * decOne) * decOne - x)\<bar> \<le> decOne" for x :: int
  proof -
    define q r where "q = (2 * x + decOne) div (2 * decOne)" and "r = (2 * x + decOne) mod (2 * decOne)"
    have "q * (2 * decOne) + r = 2 * x + decOne" unfolding q_def r_def by (rule div_mult_mod_eq)
    moreover have "0 \<le> r" "r < 2 * decOne" by (simp_all add: r_def)
    ultimately show ?thesis unfolding q_def [symmetric] by (simp add: decOne_def abs_le_iff)
  qed
  then show ?thesis by (simp add: dec_contract_def decExact_def)
qed

section \<open>The base fee\<close>

lemma CalcGasBaseFee_reference:
  assumes D: "dec_contract D" and fee: "0 \<le> baseFee" and "gasTarget \<noteq> 0" "denominator \<noteq> 0"
  shows "CalcGasBaseFee D gasUsed gasTarget denominator baseFee unit floorPrice =
    eip1559BaseFee (uint gasUsed) (uint gasTarget) (uint denominator) baseFee unit floorPrice"
proof -
  have pos: "0 < uint gasTarget" "0 < uint denominator"
    using assms(3,4) by (simp_all add: less_le uint_0_iff eq_commute [of 0])
  have quo: "Dec_QuoInt D d n = d div n" if "0 \<le> d" "0 < n" for d n
    using D that by (simp add: dec_contract_def)
  have q: "Dec_QuoInt D (Dec_QuoInt D (Dec_Mul D (Dec_FromInt D n) baseFee) (uint gasTarget)) (uint denominator)
      = baseFee * n div (uint gasTarget * uint denominator)" if "0 \<le> n" for n
    using fee pos that
    by (simp add: Dec_Mul_int [OF D] quo zdiv_zmult2_eq pos_imp_zdiv_nonneg_iff mult.commute [of baseFee])
  show ?thesis
    using assms(3) q [of "\<bar>uint gasUsed - uint gasTarget\<bar>"]
    by (auto simp: CalcGasBaseFee_def eip1559BaseFee_def Let_def word_less_def word_uint_eq_iff [of gasUsed])
qed


section \<open>Blocks\<close>

lemma Params_Validate_iff:
  "fm_Params_Validate p = Ret () \<longleftrightarrow> BaseFeeChangeDenominator p \<noteq> 0 \<and> (\<exists>f. fm_BaseFee p = Some f \<and> 0 \<le> f) \<and>
    0 \<le> EnableHeight p \<and> ElasticityMultiplier p \<noteq> 0 \<and>
    (\<exists>m. MinGasMultiplier p = Some m \<and> 0 \<le> m \<and> m \<le> decOne) \<and> (\<exists>g. MinGasPrice p = Some g \<and> 0 \<le> g)"
  by (auto simp: fm_Params_Validate_def validateMinGasMultiplier_def validateMinGasPrice_def not_less split: option.split)

lemma CalcGasBaseFee_nonneg:
  assumes "dec_contract D" "0 \<le> baseFee" "denominator \<noteq> 0" "0 \<le> floorPrice" "0 \<le> unit"
  shows "0 \<le> CalcGasBaseFee D gasUsed gasTarget denominator baseFee unit floorPrice"
proof (cases "gasTarget = 0")
  case True
  then show ?thesis using assms(2) by (simp add: CalcGasBaseFee_def)
next
  case False
  then show ?thesis using assms(2-5)
    by (simp add: CalcGasBaseFee_reference [OF assms(1,2) False assms(3)] eip1559BaseFee_def le_max_iff_disj)
qed

lemma ucast_neq_0: "(w :: u32) \<noteq> 0 \<Longrightarrow> (ucast w :: u64) \<noteq> 0"
  using uint_up_ucast [of w, where 'b = 64] by (auto simp: is_up word_uint_eq_iff)

lemma CalculateBaseFee_total:
  assumes D: "dec_contract (fmDec K)" and f: "0 < fmFactor K" and v: "fm_Params_Validate (fm_GetParams s) = Ret ()"
  shows "\<exists>r. CalculateBaseFee K b s = Ret r \<and> (\<forall>fee. r = Some fee \<longrightarrow> 0 \<le> fee)"
proof -
  let ?p = "fm_GetParams s"
  obtain fee m g where p: "fm_BaseFee ?p = Some fee" "0 \<le> fee" "MinGasMultiplier ?p = Some m" "MinGasPrice ?p = Some g" "0 \<le> g"
      "BaseFeeChangeDenominator ?p \<noteq> 0" "ElasticityMultiplier ?p \<noteq> 0"
    using v by (auto simp: Params_Validate_iff)
  have unit: "0 \<le> Dec_QuoInt (fmDec K) decOne (fmFactor K)"
    using D f by (simp add: dec_contract_def pos_imp_zdiv_nonneg_iff less_imp_le)
  show ?thesis
    using p CalcGasBaseFee_nonneg [OF D p(2) ucast_neq_0 [OF p(6)] p(5) unit]
    by (auto simp: CalculateBaseFee_def Let_def)
qed

lemma SetBaseFee_params: "fm_GetParams (SetBaseFee fee s) = (fm_GetParams s)\<lparr>fm_BaseFee := fee\<rparr>"
  by (simp add: SetBaseFee_def fm_GetParams_def fm_SetParams_def)

lemma reach_valid:
  assumes D: "dec_contract (fmDec K)" and f: "0 < fmFactor K"
  shows "fm_reach K s \<Longrightarrow> fm_Params_Validate (fm_GetParams s) = Ret ()"
proof (induction rule: fm_reach.induct)
  case (begin_block s b s')
  obtain r where r: "CalculateBaseFee K b s = Ret r" "\<forall>fee. r = Some fee \<longrightarrow> 0 \<le> fee"
    using CalculateBaseFee_total [OF D f begin_block.IH] by blast
  then show ?case using begin_block.hyps begin_block.IH
    by (cases r) (auto simp: fm_BeginBlock_def SetBaseFee_params Params_Validate_iff)
next
  case (end_block s b s')
  then show ?case
    by (auto simp: fm_EndBlock_def Let_def SetBlockGasWanted_def fm_GetParams_def split: option.splits if_splits)
qed (auto simp: fm_InitGenesis_def SetBlockGasWanted_def fm_GetParams_def fm_SetParams_def AddTransientGasWanted_def
    SetTransientBlockGasWanted_def fm_UpdateParams_def Let_def split: if_splits)



lemma EndBlock_records:
  assumes D: "dec_contract (fmDec K)" and m: "MinGasMultiplier (fm_GetParams s) = Some m" "0 \<le> m" "m \<le> decOne"
    and b: "blockGasConsumedToLimit b = Some used" "uint used < 2 ^ 63"
    and wanted: "uint (GetTransientGasWanted s) < 2 ^ 63"
  defines "w \<equiv> uint (GetTransientGasWanted s)"
  shows "\<exists>g. fm_EndBlock K b s = (Ret (), SetBlockGasWanted g s) \<and> uint g = max (w * m div decOne) (uint used) \<and>
    uint g \<le> max w (uint used)"
proof -
  have w0: "0 \<le> w" by (simp add: w_def)
  have wm: "w * m div decOne \<le> w" "0 \<le> w * m div decOne"
  proof -
    have "w * m \<le> w * decOne" using w0 m by (intro mult_left_mono) simp_all
    then show "w * m div decOne \<le> w" using zdiv_mono1 [of "w * m" "w * decOne" decOne] by simp
    show "0 \<le> w * m div decOne" using w0 m by (simp add: pos_imp_zdiv_nonneg_iff)
  qed
  have mono: "mono (\<lambda>x. x div decOne)" by (intro monoI zdiv_mono1) simp_all
  have "Dec_TruncateInt (fmDec K) (max (Dec_Mul (fmDec K) (Dec_FromInt (fmDec K) w) m) (Dec_FromInt (fmDec K) (uint used)))
      = max (w * m) (uint used * decOne) div decOne"
    unfolding Dec_Mul_int [OF D] using D w0 m by (simp add: dec_contract_def le_max_iff_disj)
  also have "\<dots> = max (w * m div decOne) (uint used)"
    using max_of_mono [OF mono, of "w * m" "uint used * decOne"] by simp
  finally have tr: "Dec_TruncateInt (fmDec K) (max (Dec_Mul (fmDec K) (Dec_FromInt (fmDec K) w) m) (Dec_FromInt (fmDec K) (uint used)))
      = max (w * m div decOne) (uint used)" .
  have lt: "max (w * m div decOne) (uint used) < 2 ^ 64" "0 \<le> max (w * m div decOne) (uint used)"
    using wm wanted b(2) by (simp_all add: w_def le_max_iff_disj)
  then have "uint (word_of_int (max (w * m div decOne) (uint used)) :: u64) = max (w * m div decOne) (uint used)"
    by (simp add: uint_word_of_int)
  then show ?thesis
    using b wanted m(1) lt wm(1) unfolding fm_EndBlock_def w_def [symmetric]
    by (auto simp: Let_def tr simp del: max_less_iff_conj)
qed

section \<open>Properties\<close>

text \<open>
  C11.  The base fee of \<open>CalcGasBaseFee\<close>, computed with decimal products and two successive
  truncating quotients, equals the EIP-1559 recurrence with a single division, for every gas
  used, target and change denominator.
\<close>

theorem CalcGasBaseFee_eip1559:
  assumes "dec_contract D" "0 \<le> baseFee" "gasTarget \<noteq> 0" "denominator \<noteq> 0"
  shows "CalcGasBaseFee D gasUsed gasTarget denominator baseFee unit floorPrice =
    eip1559BaseFee (uint gasUsed) (uint gasTarget) (uint denominator) baseFee unit floorPrice"
  by (rule CalcGasBaseFee_reference [OF assms])

theorem CalcGasBaseFee_eip1559_witness:
  "CalcGasBaseFee decExact 150 100 8 1000 1 7 = 1062 \<and> CalcGasBaseFee decExact 40 100 8 1000 1 7 = 925"
  using CalcGasBaseFee_eip1559 [OF decExact_contract, of 1000 100 8 150 1 7]
    CalcGasBaseFee_eip1559 [OF decExact_contract, of 1000 100 8 40 1 7]
  by (simp add: eip1559BaseFee_def)



text \<open>
  C13.  From any validated genesis, through any sequence of blocks, transactions and validated
  parameter updates, the parameters stay valid, the stored base fee is never negative, and the
  begin blocker of every later block returns without panic.
\<close>

theorem feemarket_always_valid:
  assumes "dec_contract (fmDec K)" "0 < fmFactor K" "fm_reach K s"
  shows "fm_Params_Validate (fm_GetParams s) = Ret () \<and> (\<exists>s'. fm_BeginBlock K b s = (Ret (), s'))"
proof -
  note v = reach_valid [OF assms]
  obtain r where "CalculateBaseFee K b s = Ret r" using CalculateBaseFee_total [OF assms(1,2) v] by blast
  then have "\<exists>s'. fm_BeginBlock K b s = (Ret (), s')" by (cases r) (simp_all add: fm_BeginBlock_def)
  with v show ?thesis by blast
qed

theorem feemarket_always_valid_witness:
  "\<exists>s'. fm_BeginBlock fmExample \<lparr>BlockHeight = 9, consMaxGas = None, blockGasConsumedToLimit = None\<rparr>
     (fm_InitGenesis \<lparr>gs_Params = fm_DefaultParams, gs_BlockGas = 7\<rparr>
       \<lparr>fmParams = None, fmBlockGasWanted = None, fmTransientGasWanted = None\<rparr>) = (Ret (), s')"
proof -
  have "fm_reach fmExample (fm_InitGenesis \<lparr>gs_Params = fm_DefaultParams, gs_BlockGas = 7\<rparr>
      \<lparr>fmParams = None, fmBlockGasWanted = None, fmTransientGasWanted = None\<rparr>)"
    by (rule fm_reach.genesis) (simp add: Params_Validate_iff fm_DefaultParams_def, simp add: decOne_def)
  from feemarket_always_valid [OF _ _ this] show ?thesis by (simp add: fmExample_def decExact_contract)
qed

text \<open>
  C14.  The end blocker records the larger of the gas used and the gas wanted scaled by the minimum
  gas multiplier, rounded down, and changes nothing else; the recorded gas lies between the gas
  used and the gas wanted.  Both must fit a signed 64-bit integer.
\<close>

theorem EndBlock_gas_wanted:
  assumes "dec_contract (fmDec K)" "MinGasMultiplier (fm_GetParams s) = Some m" "0 \<le> m" "m \<le> decOne"
    and "blockGasConsumedToLimit b = Some used" "uint used < 2 ^ 63" "uint (GetTransientGasWanted s) < 2 ^ 63"
  shows "\<exists>g. fm_EndBlock K b s = (Ret (), SetBlockGasWanted g s) \<and>
    uint g = max (uint (GetTransientGasWanted s) * m div decOne) (uint used) \<and>
    uint g \<le> max (uint (GetTransientGasWanted s)) (uint used)"
  by (rule EndBlock_records [OF assms])

theorem EndBlock_gas_wanted_witness:
  "\<exists>g. fm_EndBlock fmExample \<lparr>BlockHeight = 5, consMaxGas = None, blockGasConsumedToLimit = Some 30\<rparr>
      \<lparr>fmParams = None, fmBlockGasWanted = None, fmTransientGasWanted = Some 101\<rparr> =
      (Ret (), \<lparr>fmParams = None, fmBlockGasWanted = Some g, fmTransientGasWanted = Some 101\<rparr>) \<and> uint g = 50"
  using EndBlock_gas_wanted [of fmExample "\<lparr>fmParams = None, fmBlockGasWanted = None, fmTransientGasWanted = Some 101\<rparr>"
      "decOne div 2" "\<lparr>BlockHeight = 5, consMaxGas = None, blockGasConsumedToLimit = Some 30\<rparr>" 30]
  by (simp add: fmExample_def decExact_contract fm_GetParams_def fm_DefaultParams_def GetTransientGasWanted_def SetBlockGasWanted_def)
    (auto simp: decOne_def)

end
