(* ===== verification/VmCommit.thy ===== *)
theory VmCommit
  imports StateDBCommit VmKeeper FeeMarketProps
begin

text \<open>
  The keeper of the EVM module, over \<open>x/precisebank\<close> and x/auth, keeps the contract that the
  state database relies on; so what a transaction leaves in the state database is what the next
  transaction reads.
\<close>

section \<open>What is relied on of x/auth\<close>

text \<open>
  The account keeper is a store of accounts by address next to the balances of x/bank: it does
  not change balances, and x/bank creates at most the account of a recipient.
\<close>

definition auth_contract :: "'b pb_keeper \<Rightarrow> ('b, 'a) auth_keeper \<Rightarrow> bool" where
  "auth_contract P A \<longleftrightarrow>
    (\<forall>b a x. au_GetAccount A b a = Some x \<longrightarrow> au_Address A x = a) \<and>
    (\<forall>b x. au_GetAccount A (au_SetAccount A x b) = (au_GetAccount A b)(au_Address A x := Some x)) \<and>
    (\<forall>b x. au_GetAccount A (au_RemoveAccount A x b) = (au_GetAccount A b)(au_Address A x := None)) \<and>
    (\<forall>b a. au_Address A (fst (au_NewAccountWithAddress A a b)) = a \<and>
       au_GetAccount A (snd (au_NewAccountWithAddress A a b)) = au_GetAccount A b) \<and>
    (\<forall>n x. \<exists>x'. au_SetSequence A n x = Inr x' \<and> au_Sequence A x' = n \<and> au_Address A x' = au_Address A x) \<and>
    (\<forall>a pk n sq. au_Address A (au_NewBaseAccount A a pk n sq) = a) \<and>
    (\<forall>b x. bk_GetBalance (bk P) (au_SetAccount A x b) = bk_GetBalance (bk P) b) \<and>
    (\<forall>b x. bk_GetBalance (bk P) (au_RemoveAccount A x b) = bk_GetBalance (bk P) b) \<and>
    (\<forall>b a. bk_GetBalance (bk P) (snd (au_NewAccountWithAddress A a b)) = bk_GetBalance (bk P) b)"

definition bank_keeps_accounts :: "'b pb_keeper \<Rightarrow> ('b, 'a) auth_keeper \<Rightarrow> bool" where
  "bank_keeps_accounts P A \<longleftrightarrow>
    (\<forall>a v f t cs. a \<noteq> t \<or> v \<noteq> None \<longrightarrow> go_keeps (\<lambda>b. au_GetAccount A b a = v) (bk_SendCoins (bk P) f t cs)) \<and>
    (\<forall>a v f n cs. a \<noteq> ak_GetModuleAddress (ak P) n \<or> v \<noteq> None \<longrightarrow>
       go_keeps (\<lambda>b. au_GetAccount A b a = v) (bk_SendCoinsFromAccountToModule (bk P) f n cs)) \<and>
    (\<forall>a v m n cs. a \<noteq> ak_GetModuleAddress (ak P) n \<or> v \<noteq> None \<longrightarrow>
       go_keeps (\<lambda>b. au_GetAccount A b a = v) (bk_SendCoinsFromModuleToModule (bk P) m n cs)) \<and>
    (\<forall>a v n cs. a \<noteq> ak_GetModuleAddress (ak P) n \<or> v \<noteq> None \<longrightarrow>
       go_keeps (\<lambda>b. au_GetAccount A b a = v) (bk_MintCoins (bk P) n cs)) \<and>
    (\<forall>a v n cs. a \<noteq> ak_GetModuleAddress (ak P) n \<or> v \<noteq> None \<longrightarrow>
       go_keeps (\<lambda>b. au_GetAccount A b a = v) (bk_BurnCoins (bk P) n cs))"

text \<open>The account keeper of the application, on the state that \<open>x/precisebank\<close> extends.\<close>

definition liftAuth :: "('b, 'a) auth_keeper \<Rightarrow> ('b pb_ctx, 'a) auth_keeper" where
  "liftAuth A = \<lparr>
     au_GetAccount = (\<lambda>s. au_GetAccount A (bankState s)),
     au_NewAccountWithAddress = (\<lambda>a s. (fst (au_NewAccountWithAddress A a (bankState s)),
        s\<lparr>bankState := snd (au_NewAccountWithAddress A a (bankState s))\<rparr>)),
     au_SetAccount = (\<lambda>x s. s\<lparr>bankState := au_SetAccount A x (bankState s)\<rparr>),
     au_RemoveAccount = (\<lambda>x s. s\<lparr>bankState := au_RemoveAccount A x (bankState s)\<rparr>),
     au_Address = au_Address A, au_Sequence = au_Sequence A, au_SetSequence = au_SetSequence A, au_PubKey = au_PubKey A,
     au_AccountNumber = au_AccountNumber A, au_NewBaseAccount = au_NewBaseAccount A\<rparr>"

lemma liftAuth_sel [simp]:
  "au_GetAccount (liftAuth A) s = au_GetAccount A (bankState s)"
  "au_NewAccountWithAddress (liftAuth A) a s = (fst (au_NewAccountWithAddress A a (bankState s)),
     s\<lparr>bankState := snd (au_NewAccountWithAddress A a (bankState s))\<rparr>)"
  "au_SetAccount (liftAuth A) x s = s\<lparr>bankState := au_SetAccount A x (bankState s)\<rparr>"
  "au_RemoveAccount (liftAuth A) x s = s\<lparr>bankState := au_RemoveAccount A x (bankState s)\<rparr>"
  "au_Sequence (liftAuth A) = au_Sequence A" "au_SetSequence (liftAuth A) = au_SetSequence A"
  "au_PubKey (liftAuth A) = au_PubKey A" "au_AccountNumber (liftAuth A) = au_AccountNumber A"
  "au_NewBaseAccount (liftAuth A) = au_NewBaseAccount A"
  by (simp_all add: liftAuth_def)

section \<open>The module keeps accounts\<close>

text \<open>
  No operation of \<open>x/precisebank\<close> changes an account of x/auth other than by creating the
  receiver, the reserve or the minting module.
\<close>

abbreviation hasAccount :: "('b, 'a) auth_keeper \<Rightarrow> AccAddress \<Rightarrow> 'a option \<Rightarrow> 'b pb_ctx \<Rightarrow> bool" where
  "hasAccount A a v \<equiv> (\<lambda>s. au_GetAccount A (bankState s) a = v)"

lemma onBank_keeps: "go_keeps (\<lambda>b. au_GetAccount A b a = v) m \<Longrightarrow> go_keeps (hasAccount A a v) (onBank m)"
  unfolding onBank_def by (rule go_keeps_zoom) auto

lemma bank_keeps:
  assumes "bank_keeps_accounts P A"
  shows "a \<noteq> t \<or> v \<noteq> None \<Longrightarrow> go_keeps (hasAccount A a v) (onBank (bk_SendCoins (bk P) f t cs))"
    "a \<noteq> ak_GetModuleAddress (ak P) n \<or> v \<noteq> None \<Longrightarrow> go_keeps (hasAccount A a v) (onBank (bk_SendCoinsFromAccountToModule (bk P) f n cs))"
    "a \<noteq> ak_GetModuleAddress (ak P) n \<or> v \<noteq> None \<Longrightarrow> go_keeps (hasAccount A a v) (onBank (bk_SendCoinsFromModuleToModule (bk P) m n cs))"
    "a \<noteq> ak_GetModuleAddress (ak P) n \<or> v \<noteq> None \<Longrightarrow> go_keeps (hasAccount A a v) (onBank (bk_MintCoins (bk P) n cs))"
    "a \<noteq> ak_GetModuleAddress (ak P) n \<or> v \<noteq> None \<Longrightarrow> go_keeps (hasAccount A a v) (onBank (bk_BurnCoins (bk P) n cs))"
  by (rule onBank_keeps, use assms in \<open>simp only: bank_keeps_accounts_def\<close>)+

lemma store_keeps [intro!]:
  "go_keeps (hasAccount A a v) (SetFractionalBalance K b x)" "go_keeps (hasAccount A a v) (SetRemainderAmount K x)"
  "go_keeps (hasAccount A a v) (EmitEventFractionalBalanceChange b y z)"
  "go_keeps (hasAccount A a v) (subFromFractionalBalance K y z)" "go_keeps (hasAccount A a v) (addToFractionalBalance K y z)"
  by (auto simp: SetFractionalBalance_def SetRemainderAmount_def EmitEventFractionalBalanceChange_def DeleteFractionalBalance_def
      DeleteRemainderAmount_def subFromFractionalBalance_def addToFractionalBalance_def Let_def intro!: go_keeps_modify split: option.split)

lemma SendCoins_keeps:
  assumes "bank_keeps_accounts P A" "v \<noteq> None \<or> a \<noteq> to \<and> a \<noteq> reserveAddr P"
  shows "go_keeps (hasAccount A a v) (SendCoins P from to cs)"
proof -
  have 1: "a \<noteq> to \<or> v \<noteq> None" "a \<noteq> ak_GetModuleAddress (ak P) ModuleName \<or> v \<noteq> None" using assms(2) by (auto simp: reserveAddr_def)
  note k = bank_keeps(1) [OF assms(1) 1(1)] bank_keeps(1,2) [OF assms(1) 1(2)]
  have "go_keeps (hasAccount A a v) (sendExtendedCoins P from to x)" for x
    unfolding sendExtendedCoins_def Let_def by (auto intro!: k split: prod.split)
  then show ?thesis unfolding SendCoins_def Let_def by (auto intro!: k)
qed

lemma MintBurn_keeps:
  assumes "bank_keeps_accounts P A" "v \<noteq> None \<or> a \<noteq> ak_GetModuleAddress (ak P) n \<and> a \<noteq> reserveAddr P"
  shows "go_keeps (hasAccount A a v) (MintCoins P n cs)" "go_keeps (hasAccount A a v) (BurnCoins P n cs)"
proof -
  have 1: "a \<noteq> ak_GetModuleAddress (ak P) n \<or> v \<noteq> None" "a \<noteq> ak_GetModuleAddress (ak P) ModuleName \<or> v \<noteq> None"
    using assms(2) by (auto simp: reserveAddr_def)
  note k = bank_keeps(3-5) [OF assms(1) 1(1)] bank_keeps(3-5) [OF assms(1) 1(2)]
  have "go_keeps (hasAccount A a v) (mintExtendedCoin P n x)" "go_keeps (hasAccount A a v) (burnExtendedCoin P n x)" for x
    unfolding mintExtendedCoin_def burnExtendedCoin_def Let_def by (auto intro!: k)
  then show "go_keeps (hasAccount A a v) (MintCoins P n cs)" "go_keeps (hasAccount A a v) (BurnCoins P n cs)"
    unfolding MintCoins_def BurnCoins_def Let_def by (auto intro!: k split: option.split)
qed

lemma SetBalance_keeps:
  assumes b: "bank_keeps_accounts P A" "bank_contract P" and w: "bw_bank w = pbBank P"
    and a: "v \<noteq> None \<or> a \<noteq> addr \<and> a \<noteq> evmModuleAddr P \<and> a \<noteq> reserveAddr P"
  shows "go_keeps (hasAccount A a v) (SetBalance w addr amt)"
proof -
  have m: "ma_Address acc = evmModuleAddr P" if "ak_GetModuleAccount (ak P) EvmModuleName = Some acc" for acc
    using that b(2) by (simp add: bank_contract_def evmModuleAddr_def)
  have s: "go_keeps (hasAccount A a v) (SendCoinsFromAccountToModule P x EvmModuleName cs)"
    "go_keeps (hasAccount A a v) (SendCoinsFromModuleToAccount P EvmModuleName addr cs)" for x cs
    using a m by (auto simp: SendCoinsFromAccountToModule_def SendCoinsFromModuleToAccount_def Let_def
        intro!: SendCoins_keeps [OF b(1)] split: option.split)
  have mb: "go_keeps (hasAccount A a v) (MintCoins P EvmModuleName cs)" "go_keeps (hasAccount A a v) (BurnCoins P EvmModuleName cs)" for cs
    using a MintBurn_keeps [OF b(1), of v a EvmModuleName cs] by (auto simp: evmModuleAddr_def)
  have "go_keeps (hasAccount A a v) (MintAmountToAccount w addr n)" "go_keeps (hasAccount A a v) (BurnAmountFromAccount w addr n)" for n
    unfolding MintAmountToAccount_def BurnAmountFromAccount_def Let_def w
    using s mb by (auto simp: pbBank_def split: sum.split)
  then show ?thesis by (auto simp: SetBalance_def bw_SpendableCoin_def Let_def split: option.split)
qed

section \<open>Accounts of the keeper\<close>

definition balance256 :: "int \<Rightarrow> u256" where
  "balance256 i = (case Uint256FromBigInt i of Inl _ \<Rightarrow> 0 | Inr v \<Rightarrow> v)"

lemma balance256_uint [simp]: "balance256 (uint v) = v"
proof -
  have "uint v < 2 ^ 256" using uint_lt2p [of v] by simp
  then show ?thesis by (simp add: balance256_def Uint256FromBigInt_def)
qed

lemma sdbGetAccount_eq:
  "sdbGetAccount V c a =
    (case au_GetAccount (vkAuth V) (sdkState c) (AddressBytes a) of
       None \<Rightarrow> None
     | Some x \<Rightarrow> Some \<lparr>Nonce = au_Sequence (vkAuth V) x,
         Balance = balance256 (Amount (eb_SpendableCoin (bw_bank (vkBank V)) (AddressBytes a) (eci_ExtendedDenom (bw_info (vkBank V))) (sdkState c))),
         CodeHash = vk_GetCodeHash V c a\<rparr>)"
  by (auto simp: sdbGetAccount_def vk_GetAccount_def GetAccountWithoutBalance_def vk_SpendableCoin_def bw_SpendableCoin_def
      onSdk_def go_defs balance256_def split: option.split sum.split)

lemma vmSdb_sel [simp]:
  "k_GetAccount (vmSdb V) = sdbGetAccount V" "k_GetState (vmSdb V) = vk_GetState" "k_GetCode (vmSdb V) = vk_GetCode"
  "k_SetAccount (vmSdb V) a acc = go_convErr errString (vk_SetAccount V a acc)"
  "k_SetState (vmSdb V) = vk_SetState" "k_SetCode (vmSdb V) = vk_SetCode" "k_DeleteCode (vmSdb V) = vk_DeleteCode"
  "k_DeleteAccount (vmSdb V) a = go_convErr errString (vk_DeleteAccount V a)" "k_Keccak256Hash (vmSdb V) = vkKeccak256 V"
  "EmptyCodeHash (vmSdb V) = vkEmptyCodeHash V"
  by (simp_all add: vmSdb_def EmptyCodeHash_def vkEmptyCodeHash_def)

text \<open>The wiring of the three keepers in the application.\<close>

record ('b, 'a) vm_app =
  appPb :: "'b pb_keeper"
  appAuth :: "('b, 'a) auth_keeper"
  appVm :: "('b pb_ctx, 'a) vm_keeper"

definition app_good :: "('b, 'a) vm_app \<Rightarrow> bool" where
  "app_good W \<longleftrightarrow> pb_good (appPb W) \<and> auth_contract (appPb W) (appAuth W) \<and> bank_keeps_accounts (appPb W) (appAuth W) \<and>
    bw_bank (vkBank (appVm W)) = pbBank (appPb W) \<and> bw_info (vkBank (appVm W)) = coinInfo (appPb W) \<and>
    vkAuth (appVm W) = liftAuth (appAuth W)"

definition app_inv :: "('b, 'a) vm_app \<Rightarrow> 'b pb_ctx vm_ctx \<Rightarrow> bool" where
  "app_inv W c \<longleftrightarrow> pb_inv (appPb W) (sdkState c)"

definition app_holder :: "('b, 'a) vm_app \<Rightarrow> Address \<Rightarrow> bool" where
  "app_holder W a \<longleftrightarrow> pb_holder (appPb W) (AddressBytes a)"

definition app_keeper :: "('b, 'a) vm_app \<Rightarrow> 'b pb_ctx vm_ctx sdb_keeper" where
  "app_keeper W = vmSdb (appVm W)"

lemma pb_bank_cong:
  assumes "bk_GetBalance (bk P) b' = bk_GetBalance (bk P) (bankState s)"
  shows "pb_inv P (s\<lparr>bankState := b'\<rparr>) = pb_inv P s" "extBalance P (s\<lparr>bankState := b'\<rparr>) = extBalance P s"
  using assms by (simp_all add: pb_inv_def GetTotalSumFractionalBalances_def IterateFractionalBalances_def GetRemainderAmount_def
      extBalance_def GetBalance_def GetFractionalBalance_def fun_eq_iff)

lemma app_account:
  assumes "app_good W" "app_inv W c" "app_holder W a"
  shows "sdbGetAccount (appVm W) c a =
    (case au_GetAccount (appAuth W) (bankState (sdkState c)) (AddressBytes a) of
       None \<Rightarrow> None
     | Some x \<Rightarrow> Some \<lparr>Nonce = au_Sequence (appAuth W) x,
         Balance = balance256 (extBalance (appPb W) (sdkState c) (AddressBytes a)), CodeHash = vk_GetCodeHash (appVm W) c a\<rparr>)"
  using assms pb.spendable [of "appPb W" "sdkState c" "AddressBytes a"]
  by (simp add: sdbGetAccount_eq app_good_def app_inv_def app_holder_def cong: option.case_cong)

lemma sdbGetAccount_cong:
  "sdkState c' = sdkState c \<Longrightarrow> codeHashStore c' = codeHashStore c \<Longrightarrow> sdbGetAccount V c' = sdbGetAccount V c"
  by (simp add: sdbGetAccount_eq vk_GetCodeHash_def fun_eq_iff cong: option.case_cong)

text \<open>Balances are set through the module account; accounts stay.\<close>

lemma app_SetBalance:
  assumes "app_good W" "app_inv W c" "app_holder W a"
  shows "\<exists>p. vk_SetBalance (appVm W) a (Some v) c = (Ret (), c\<lparr>sdkState := p\<rparr>) \<and> pb_inv (appPb W) p \<and>
    extBalance (appPb W) p = (extBalance (appPb W) (sdkState c))(AddressBytes a := uint v) \<and>
    (\<forall>x. au_GetAccount (appAuth W) (bankState (sdkState c)) (AddressBytes a) = Some x \<longrightarrow>
      au_GetAccount (appAuth W) (bankState p) (AddressBytes a) = Some x) \<and>
    (\<forall>b. app_holder W b \<longrightarrow> b \<noteq> a \<longrightarrow>
      au_GetAccount (appAuth W) (bankState p) (AddressBytes b) = au_GetAccount (appAuth W) (bankState (sdkState c)) (AddressBytes b))"
proof -
  have g: "pb_good (appPb W)" "pb_inv (appPb W) (sdkState c)" "pb_holder (appPb W) (AddressBytes a)"
    "bw_bank (vkBank (appVm W)) = pbBank (appPb W)" "bw_info (vkBank (appVm W)) = coinInfo (appPb W)"
    "bank_keeps_accounts (appPb W) (appAuth W)" "bank_contract (appPb W)"
    using assms by (simp_all add: app_good_def app_inv_def app_holder_def pb_good_def)
  obtain p where p: "SetBalance (vkBank (appVm W)) (AddressBytes a) (Some v) (sdkState c) = (Ret (), p)" "pb_inv (appPb W) p"
      "extBalance (appPb W) p = (extBalance (appPb W) (sdkState c))(AddressBytes a := uint v)"
    using pb.SetBalance_sets [OF g(1-5)] by blast
  have k: "au_GetAccount (appAuth W) (bankState p) b = au_GetAccount (appAuth W) (bankState (sdkState c)) b"
    if "au_GetAccount (appAuth W) (bankState (sdkState c)) b \<noteq> None \<or> b \<noteq> AddressBytes a \<and> b \<noteq> evmModuleAddr (appPb W) \<and> b \<noteq> reserveAddr (appPb W)" for b
    using go_keepsD [OF SetBalance_keeps [OF g(6,7,4) that] _ p(1)] by simp
  have "vk_SetBalance (appVm W) a (Some v) c = (Ret (), c\<lparr>sdkState := p\<rparr>)"
    using p(1) by (simp add: vk_SetBalance_def onSdk_def go_zoom_app)
  then show ?thesis using p(2,3) k by (intro exI [of _ p]) (auto simp: app_holder_def pb_holder_def)
qed

lemma app_SetAccount:
  assumes g: "app_good W" "app_inv W c" "app_holder W a"
  shows "\<exists>c'. vk_SetAccount (appVm W) a acc c = (Ret (), c') \<and> app_inv W c' \<and> sdbGetAccount (appVm W) c' a = Some acc \<and>
    (\<forall>b. app_holder W b \<longrightarrow> b \<noteq> a \<longrightarrow> sdbGetAccount (appVm W) c' b = sdbGetAccount (appVm W) c b) \<and>
    storageStore c' = storageStore c \<and> codeStore c' = codeStore c"
proof -
  let ?P = "appPb W" and ?A = "appAuth W" and ?V = "appVm W" and ?a = "AddressBytes a"
  have w: "vkAuth ?V = liftAuth ?A" and ac: "auth_contract ?P ?A" using g(1) by (simp_all add: app_good_def)
  define x p1 where "x = (case au_GetAccount ?A (bankState (sdkState c)) ?a of
      None \<Rightarrow> fst (au_NewAccountWithAddress ?A ?a (bankState (sdkState c))) | Some y \<Rightarrow> y)"
    and "p1 = (case au_GetAccount ?A (bankState (sdkState c)) ?a of
      None \<Rightarrow> snd (au_NewAccountWithAddress ?A ?a (bankState (sdkState c))) | Some y \<Rightarrow> bankState (sdkState c))"
  have x: "au_Address ?A x = ?a" using ac by (auto simp: x_def auth_contract_def split: option.split)
  have p1: "au_GetAccount ?A p1 = au_GetAccount ?A (bankState (sdkState c))" "bk_GetBalance (bk ?P) p1 = bk_GetBalance (bk ?P) (bankState (sdkState c))"
    using ac by (auto simp: p1_def auth_contract_def split: option.split)
  obtain x' where x': "au_SetSequence ?A (Nonce acc) x = Inr x'" "au_Sequence ?A x' = Nonce acc" "au_Address ?A x' = ?a"
    using ac x unfolding auth_contract_def by metis
  define c2 where "c2 = (if IsEmptyCodeHash ?V (CodeHash acc) then DeleteCodeHash a else vk_SetCodeHash a (CodeHash acc)) (c\<lparr>sdkState := (sdkState c)\<lparr>bankState := p1\<rparr>\<rparr>)"
  define c3 where "c3 = c2\<lparr>sdkState := (sdkState c2)\<lparr>bankState := au_SetAccount ?A x' p1\<rparr>\<rparr>"
  have b2: "sdkState c2 = (sdkState c)\<lparr>bankState := p1\<rparr>" "storageStore c2 = storageStore c" "codeStore c2 = codeStore c"
    "vk_GetCodeHash ?V c2 a = CodeHash acc" "\<And>b. b \<noteq> a \<Longrightarrow> vk_GetCodeHash ?V c2 b = vk_GetCodeHash ?V c b"
    by (auto simp: c2_def DeleteCodeHash_def vk_SetCodeHash_def vk_GetCodeHash_def IsEmptyCodeHash_def)
  have b3: "bankState (sdkState c3) = au_SetAccount ?A x' p1" by (simp add: c3_def)
  have a3: "au_GetAccount ?A (bankState (sdkState c3)) = (au_GetAccount ?A (bankState (sdkState c)))(?a := Some x')"
    using ac p1(1) x'(3) by (simp add: b3 auth_contract_def)
  have bal: "bk_GetBalance (bk ?P) (au_SetAccount ?A x' p1) = bk_GetBalance (bk ?P) (bankState (sdkState c))"
    using ac p1(2) by (simp add: auth_contract_def)
  have s3: "sdkState c3 = (sdkState c)\<lparr>bankState := au_SetAccount ?A x' p1\<rparr>" by (simp add: c3_def b2(1))
  have i3: "app_inv W c3" "extBalance ?P (sdkState c3) = extBalance ?P (sdkState c)"
    using g(2) pb_bank_cong [of ?P _ "sdkState c", OF bal] by (simp_all add: app_inv_def s3)
  obtain p where p: "vk_SetBalance ?V a (Some (Balance acc)) c3 = (Ret (), c3\<lparr>sdkState := p\<rparr>)" "pb_inv ?P p"
      "extBalance ?P p = (extBalance ?P (sdkState c))(?a := uint (Balance acc))"
      "au_GetAccount ?A (bankState p) ?a = Some x'"
      "\<And>b. app_holder W b \<Longrightarrow> b \<noteq> a \<Longrightarrow> au_GetAccount ?A (bankState p) (AddressBytes b) = au_GetAccount ?A (bankState (sdkState c)) (AddressBytes b)"
    using app_SetBalance [OF g(1) i3(1) g(3), of "Balance acc"] by (auto simp: a3 i3(2))
  let ?c' = "c3\<lparr>sdkState := p\<rparr>"
  have pair: "(case au_GetAccount (liftAuth ?A) (sdkState c) ?a of None \<Rightarrow> au_NewAccountWithAddress (liftAuth ?A) ?a (sdkState c)
      | Some acct \<Rightarrow> (acct, sdkState c)) = (x, (sdkState c)\<lparr>bankState := p1\<rparr>)"
    by (simp add: x_def p1_def split: option.split)
  have c3: "c2\<lparr>sdkState := (sdkState c)\<lparr>bankState := au_SetAccount ?A x' p1\<rparr>\<rparr> = c3" by (simp add: c3_def b2(1))
  have run: "vk_SetAccount ?V a acc c = (Ret (), ?c')"
    using p(1) unfolding vk_SetAccount_def w pair
    by (simp add: x'(1) c2_def [symmetric] c3 b2(1))
  have i': "app_inv W ?c'" using p(2) by (simp add: app_inv_def)
  have ch: "vk_GetCodeHash ?V ?c' b = vk_GetCodeHash ?V c2 b" for b by (simp add: vk_GetCodeHash_def c3_def)
  have "sdbGetAccount ?V ?c' a = Some acc"
    by (simp add: app_account [OF g(1) i' g(3)] p(3,4) x'(2) ch b2(4))
  moreover have "sdbGetAccount ?V ?c' b = sdbGetAccount ?V c b" if "app_holder W b" "b \<noteq> a" for b
    using that p(3,5) by (simp add: app_account [OF g(1) i' that(1)] app_account [OF g(1,2) that(1)] ch b2(5) cong: option.case_cong)
  ultimately show ?thesis using run i' by (intro exI [of _ ?c']) (simp add: c3_def b2)
qed

lemma app_DeleteAccount:
  assumes g: "app_good W" "app_inv W c" "app_holder W a" and acc: "sdbGetAccount (appVm W) c a = Some acc"
    and ne: "CodeHash acc \<noteq> vkEmptyCodeHash (appVm W)"
  shows "\<exists>c'. vk_DeleteAccount (appVm W) a c = (Ret (), c') \<and> app_inv W c' \<and> sdbGetAccount (appVm W) c' a = None \<and>
    (\<forall>b. app_holder W b \<longrightarrow> b \<noteq> a \<longrightarrow> sdbGetAccount (appVm W) c' b = sdbGetAccount (appVm W) c b) \<and>
    (\<forall>b. b \<noteq> a \<longrightarrow> vk_GetState c' b = vk_GetState c b) \<and> codeStore c' = codeStore c"
proof -
  let ?P = "appPb W" and ?A = "appAuth W" and ?V = "appVm W" and ?a = "AddressBytes a"
  have w: "vkAuth ?V = liftAuth ?A" and ac: "auth_contract ?P ?A" using g(1) by (simp_all add: app_good_def)
  obtain x where x: "au_GetAccount ?A (bankState (sdkState c)) ?a = Some x" "CodeHash acc = vk_GetCodeHash ?V c a"
    using acc by (auto simp: app_account [OF g] split: option.splits)
  have con: "vk_IsContract c a" using ne x(2) by (auto simp: vk_GetCodeHash_def vk_IsContract_def split: option.splits)
  define y where "y = au_NewBaseAccount ?A ?a (au_PubKey ?A x) (au_AccountNumber ?A x) (au_Sequence ?A x)"
  define c1 where "c1 = c\<lparr>sdkState := (sdkState c)\<lparr>bankState := au_SetAccount ?A y (bankState (sdkState c))\<rparr>\<rparr>"
  have bal: "bk_GetBalance (bk ?P) (au_SetAccount ?A y (bankState (sdkState c))) = bk_GetBalance (bk ?P) (bankState (sdkState c))"
    "bk_GetBalance (bk ?P) (au_RemoveAccount ?A x q) = bk_GetBalance (bk ?P) q" for q
    using ac by (simp_all add: auth_contract_def)
  have a1: "au_GetAccount ?A (bankState (sdkState c1)) = (au_GetAccount ?A (bankState (sdkState c)))(?a := Some y)"
    "au_GetAccount ?A (au_RemoveAccount ?A x q) = (au_GetAccount ?A q)(?a := None)" for q
    using ac x(1) by (auto simp: c1_def y_def auth_contract_def)
  have i1: "app_inv W c1" "extBalance ?P (sdkState c1) = extBalance ?P (sdkState c)"
    using g(2) pb_bank_cong [of ?P _ "sdkState c", OF bal(1)] by (simp_all add: app_inv_def c1_def)
  obtain p where p: "vk_SetBalance ?V a (Some 0) c1 = (Ret (), c1\<lparr>sdkState := p\<rparr>)" "pb_inv ?P p"
      "extBalance ?P p = (extBalance ?P (sdkState c))(?a := 0)"
      "\<And>b. app_holder W b \<Longrightarrow> b \<noteq> a \<Longrightarrow> au_GetAccount ?A (bankState p) (AddressBytes b) = au_GetAccount ?A (bankState (sdkState c)) (AddressBytes b)"
    using app_SetBalance [OF g(1) i1(1) g(3), of 0] by (auto simp: a1 i1(2))
  let ?ks = "vk_ForEachStorage (c1\<lparr>sdkState := p\<rparr>) a (\<lambda>key _ keys. (True, keys @ [key])) []"
  have del: "\<exists>st. go_for ks (\<lambda>key. go_modify (vk_DeleteState a key)) d = (Ret () :: (sdk_error, unit) outcome, d\<lparr>storageStore := st\<rparr>) \<and>
      (\<forall>b k. b \<noteq> a \<longrightarrow> fmlookup st (b, k) = fmlookup (storageStore d) (b, k))" for ks and d :: "'a pb_ctx vm_ctx"
  proof (induction ks arbitrary: d)
    case (Cons k ks)
    show ?case using Cons.IH [of "vk_DeleteState a k d"] by (auto simp: vk_DeleteState_def)
  next
    case Nil
    show ?case by (rule exI [of _ "storageStore d"]) simp
  qed
  obtain st where st: "go_for ?ks (\<lambda>key. go_modify (vk_DeleteState a key)) (c1\<lparr>sdkState := p\<rparr>) = (Ret () :: (sdk_error, unit) outcome, c1\<lparr>sdkState := p, storageStore := st\<rparr>)"
      "\<And>b k. b \<noteq> a \<Longrightarrow> fmlookup st (b, k) = fmlookup (storageStore c) (b, k)"
    using del [of ?ks "c1\<lparr>sdkState := p\<rparr>"] by (auto simp: c1_def)
  define c' where "c' = c1\<lparr>sdkState := p\<lparr>bankState := au_RemoveAccount ?A x (bankState p)\<rparr>, storageStore := st,
      codeHashStore := fmdrop a (codeHashStore c)\<rparr>"
  have run: "vk_DeleteAccount ?V a c = (Ret (), c')"
    using p(1) st(1) x(1) con unfolding vk_DeleteAccount_def w
    by (simp add: y_def [symmetric] c1_def [symmetric] DeleteCodeHash_def c'_def) (simp add: c1_def)
  have i': "app_inv W c'" "extBalance ?P (sdkState c') = (extBalance ?P (sdkState c))(?a := 0)"
    using p(2,3) pb_bank_cong [of ?P _ p, OF bal(2)] by (simp_all add: app_inv_def c'_def)
  have gone: "au_GetAccount ?A (bankState (sdkState c')) ?a = None" by (simp add: c'_def a1(2))
  have "sdbGetAccount ?V c' a = None" by (simp add: app_account [OF g(1) i'(1) g(3)] gone)
  moreover have "sdbGetAccount ?V c' b = sdbGetAccount ?V c b" if "app_holder W b" "b \<noteq> a" for b
  proof -
    have "au_GetAccount ?A (bankState (sdkState c')) (AddressBytes b) = au_GetAccount ?A (bankState (sdkState c)) (AddressBytes b)"
      "vk_GetCodeHash ?V c' b = vk_GetCodeHash ?V c b" "extBalance ?P (sdkState c') (AddressBytes b) = extBalance ?P (sdkState c) (AddressBytes b)"
      using that p(4) [OF that] by (simp_all only: i'(2)) (simp_all add: c'_def c1_def a1(2) vk_GetCodeHash_def)
    then show ?thesis unfolding app_account [OF g(1) i'(1) that(1)] app_account [OF g(1,2) that(1)] by (simp split: option.split)
  qed
  ultimately show ?thesis using run i'(1) st(2) by (intro exI [of _ c']) (auto simp: c'_def c1_def vk_GetState_def fun_eq_iff)
qed

lemmas stores_def = app_keeper_def app_inv_def vk_SetState_def vk_SetCode_def vk_DeleteCode_def vk_GetState_def vk_GetCode_def

lemma sdbGetAccount_stores [simp]:
  "sdbGetAccount V (c\<lparr>storageStore := st\<rparr>) = sdbGetAccount V c" "sdbGetAccount V (c\<lparr>codeStore := cs\<rparr>) = sdbGetAccount V c"
  by (rule sdbGetAccount_cong; simp)+

interpretation app: statedb_keeper app_good app_inv app_keeper app_holder
proof (unfold_locales, goal_cases)
  case (1 W c a acc)
  obtain c' where c': "vk_SetAccount (appVm W) a acc c = (Ret (), c')" "app_inv W c'" "sdbGetAccount (appVm W) c' a = Some acc"
      "\<forall>b. app_holder W b \<longrightarrow> b \<noteq> a \<longrightarrow> sdbGetAccount (appVm W) c' b = sdbGetAccount (appVm W) c b"
      "storageStore c' = storageStore c" "codeStore c' = codeStore c"
    using app_SetAccount [OF 1, of acc] by blast
  then show ?case by (intro exI [of _ c']) (simp add: app_keeper_def vk_GetState_def vk_GetCode_def fun_eq_iff)
next
  case (2 W c a k v)
  then show ?case by (simp add: stores_def fun_eq_iff)
next
  case (3 W c h cd)
  then show ?case by (simp add: stores_def fun_eq_iff)
next
  case (4 W c h)
  then show ?case by (simp add: stores_def fun_eq_iff)
next
  case (5 W c a)
  then show ?case by (auto simp: app_keeper_def sdbGetAccount_eq vk_DeleteAccount_def split: option.splits)
next
  case (6 W c a acc)
  then obtain c' where c': "vk_DeleteAccount (appVm W) a c = (Ret (), c')" "app_inv W c'" "sdbGetAccount (appVm W) c' a = None"
      "\<forall>b. app_holder W b \<longrightarrow> b \<noteq> a \<longrightarrow> sdbGetAccount (appVm W) c' b = sdbGetAccount (appVm W) c b"
      "\<forall>b. b \<noteq> a \<longrightarrow> vk_GetState c' b = vk_GetState c b" "codeStore c' = codeStore c"
    using app_DeleteAccount [OF 6(1-3), of acc] by (auto simp: app_keeper_def)
  then show ?case by (intro exI [of _ c']) (simp add: app_keeper_def vk_GetCode_def fun_eq_iff)
qed

section \<open>Accounts without code\<close>

text \<open>The account \<open>x\<close> is stored under an address that has no code hash.\<close>

definition plainAccount :: "('b, 'a) vm_app \<Rightarrow> Address \<Rightarrow> 'a \<Rightarrow> 'b pb_ctx vm_ctx \<Rightarrow> bool" where
  "plainAccount W a x c \<longleftrightarrow> hasAccount (appAuth W) (AddressBytes a) (Some x) (sdkState c) \<and> \<not> vk_IsContract c a"

lemma SetBalance_plain:
  assumes "app_good W"
  shows "go_keeps (plainAccount W a x) (vk_SetBalance (appVm W) b v)"
  unfolding vk_SetBalance_def onSdk_def
proof (rule go_keeps_zoom)
  show "go_keeps (hasAccount (appAuth W) (AddressBytes a) (Some x)) (SetBalance (vkBank (appVm W)) (AddressBytes b) v)"
    by (rule SetBalance_keeps [of "appPb W"]) (use assms in \<open>simp_all add: app_good_def pb_good_def\<close>)
qed (simp_all add: plainAccount_def vk_IsContract_def)

lemma SetAccount_plain:
  assumes g: "app_good W" and ne: "b \<noteq> a"
  shows "go_keeps (plainAccount W a x) (vk_SetAccount (appVm W) b acc)"
proof -
  let ?A = "appAuth W" and ?V = "appVm W"
  have w: "vkAuth ?V = liftAuth ?A" and ac: "auth_contract (appPb W) ?A" using g by (simp_all add: app_good_def)
  have hash: "go_keeps (plainAccount W a x) (go_modify (if e then DeleteCodeHash b else vk_SetCodeHash b h))" for e h
    using ne by (auto simp: plainAccount_def DeleteCodeHash_def vk_SetCodeHash_def vk_IsContract_def)
  have set: "go_keeps (plainAccount W a x) (go_modify (\<lambda>c. c\<lparr>sdkState := au_SetAccount (vkAuth ?V) y (sdkState c)\<rparr>))"
    if "au_Address ?A y = AddressBytes b" for y
    using that ac ne by (auto simp: plainAccount_def vk_IsContract_def w auth_contract_def)
  have "plainAccount W a x (snd (vk_SetAccount ?V b acc c))" if p: "plainAccount W a x c" for c
  proof -
    obtain y q where y: "(case au_GetAccount (vkAuth ?V) (sdkState c) (AddressBytes b) of
        None \<Rightarrow> au_NewAccountWithAddress (vkAuth ?V) (AddressBytes b) (sdkState c) | Some acct \<Rightarrow> (acct, sdkState c)) = (y, q)" by fastforce
    have q: "au_Address ?A y = AddressBytes b" "plainAccount W a x (c\<lparr>sdkState := q\<rparr>)"
      using y p ac by (auto simp: w plainAccount_def vk_IsContract_def auth_contract_def split: option.splits)
    obtain y' where y': "au_SetSequence ?A (Nonce acc) y = Inr y'" "au_Address ?A y' = AddressBytes b"
      using ac q(1) unfolding auth_contract_def by metis
    have "go_keeps (plainAccount W a x) (go_seq (go_modify (if e then DeleteCodeHash b else vk_SetCodeHash b h))
        (go_seq (go_modify (\<lambda>c. c\<lparr>sdkState := au_SetAccount (vkAuth ?V) y' (sdkState c)\<rparr>)) (vk_SetBalance ?V b v)))" for e h v
      by (intro go_keeps_seq hash set [OF y'(2)] SetBalance_plain [OF g])
    from this [unfolded go_keeps_def, rule_format, OF q(2)] show ?thesis
      unfolding vk_SetAccount_def y by (simp add: y'(1) w)
  qed
  then show ?thesis by (simp add: go_keeps_def)
qed

lemma DeleteAccount_plain:
  assumes g: "app_good W" and ne: "b \<noteq> a"
  shows "go_keeps (plainAccount W a x) (vk_DeleteAccount (appVm W) b)"
proof -
  let ?A = "appAuth W" and ?V = "appVm W"
  have w: "vkAuth ?V = liftAuth ?A" and ac: "auth_contract (appPb W) ?A" using g by (simp_all add: app_good_def)
  have set: "go_keeps (plainAccount W a x) (go_modify (\<lambda>c. c\<lparr>sdkState := au_SetAccount (vkAuth ?V) (au_NewBaseAccount (vkAuth ?V) (AddressBytes b) k n q) (sdkState c)\<rparr>))" for k n q
    using ac ne by (auto simp: plainAccount_def vk_IsContract_def w auth_contract_def)
  have del: "go_keeps (plainAccount W a x) (go_modify (vk_DeleteState b k))" "go_keeps (plainAccount W a x) (go_modify (DeleteCodeHash b))" for k
    using ne by (auto simp: plainAccount_def vk_DeleteState_def DeleteCodeHash_def vk_IsContract_def)
  have rmv: "go_keeps (plainAccount W a x) (go_modify (\<lambda>c. c\<lparr>sdkState := au_RemoveAccount (vkAuth ?V) y (sdkState c)\<rparr>))"
    if "au_Address ?A y = AddressBytes b" for y
    using that ac ne by (auto simp: plainAccount_def vk_IsContract_def w auth_contract_def)
  have "plainAccount W a x (snd (vk_DeleteAccount ?V b c))" if p: "plainAccount W a x c" for c
  proof (cases "au_GetAccount (vkAuth ?V) (sdkState c) (AddressBytes b)")
    case (Some y)
    then have y: "au_Address ?A y = AddressBytes b" using ac by (auto simp: w auth_contract_def)
    have "go_keeps (plainAccount W a x) (go_seq (go_modify (\<lambda>c. c\<lparr>sdkState := au_SetAccount (vkAuth ?V)
             (au_NewBaseAccount (vkAuth ?V) (AddressBytes b) (au_PubKey (vkAuth ?V) y)
               (au_AccountNumber (vkAuth ?V) y) (au_Sequence (vkAuth ?V) y)) (sdkState c)\<rparr>))
        (go_seq (vk_SetBalance ?V b (Some 0))
        (go_bind (go_gets (\<lambda>c. vk_ForEachStorage c b (\<lambda>key _ keys. (True, keys @ [key])) [])) (\<lambda>keys.
         go_seq (go_for keys (\<lambda>key. go_modify (vk_DeleteState b key)))
        (go_seq (go_modify (DeleteCodeHash b))
           (go_modify (\<lambda>c. c\<lparr>sdkState := au_RemoveAccount (vkAuth ?V) y (sdkState c)\<rparr>)))))))"
      by (intro go_keeps_seq go_keeps_bind go_keeps_base go_keeps_for set del rmv [OF y] SetBalance_plain [OF g])
    from this [unfolded go_keeps_def, rule_format, OF p] show ?thesis
      using p unfolding vk_DeleteAccount_def Some by simp
  qed (use p in \<open>simp add: vk_DeleteAccount_def\<close>)
  then show ?thesis by (simp add: go_keeps_def)
qed

lemma commitObject_plain:
  assumes g: "app_good W" and ne: "address ob \<noteq> a"
  shows "go_keeps (plainAccount W a x) (commitObject (vmSdb (appVm W)) ob)"
proof -
  have "go_keeps (plainAccount W a x) (commitStorage (vmSdb (appVm W)) ob)"
    by (auto simp: commitStorage_def vmSdb_def vk_SetState_def vk_DeleteState_def plainAccount_def vk_IsContract_def Let_def)
  then show ?thesis
    by (auto simp: commitObject_def vk_DeleteCode_def vk_SetCode_def plainAccount_def vk_IsContract_def
        intro!: SetAccount_plain [OF g ne] DeleteAccount_plain [OF g ne])
qed

lemma commitObject_stuck:
  assumes "app_good W" "plainAccount W (address ob) x c" "selfDestructed ob"
  shows "commitObject (vmSdb (appVm W)) ob c = (Err ''only smart contracts can be self-destructed'', c)"
  using assms by (simp add: commitObject_def vk_DeleteAccount_def go_convErr_def errString_def plainAccount_def app_good_def)

text \<open>A loop with a step that fails, whatever the steps before it did.\<close>

lemma go_for_stuck:
  assumes "a \<in> set xs" "P s" "\<And>x. x \<noteq> a \<Longrightarrow> go_keeps P (f x)" "\<And>s. P s \<Longrightarrow> fst (f a s) \<noteq> Ret ()"
  shows "fst (go_for xs f s) \<noteq> Ret ()"
  using assms(1,2)
proof (induction xs arbitrary: s)
  case (Cons y ys)
  show ?case
  proof (cases "fst (f y s) = Ret ()")
    case True
    then have "y \<noteq> a" using assms(4) [OF Cons.prems(2)] by auto
    then have "P (snd (f y s))" using assms(3) Cons.prems(2) by (simp add: go_keeps_def)
    then show ?thesis using Cons.IH [of "snd (f y s)"] Cons.prems(1) True \<open>y \<noteq> a\<close> by (simp add: go_bind_def prod.case_eq_if)
  next
    case False
    then show ?thesis by (cases "fst (f y s)") (simp_all add: go_bind_def prod.case_eq_if)
  qed
qed simp

section \<open>An example\<close>

text \<open>Accounts of x/auth next to the balances of the ledger, and a transaction on an empty chain.\<close>

definition lgAuth :: "(ledger, AccAddress \<times> u64) auth_keeper" where
  "lgAuth = \<lparr>au_GetAccount = (\<lambda>b a. map_option (Pair a) (fmlookup (lg_acc b) a)),
     au_NewAccountWithAddress = (\<lambda>a b. ((a, 0), b)), au_SetAccount = (\<lambda>x b. b\<lparr>lg_acc := fmupd (fst x) (snd x) (lg_acc b)\<rparr>),
     au_RemoveAccount = (\<lambda>x b. b\<lparr>lg_acc := fmdrop (fst x) (lg_acc b)\<rparr>), au_Address = fst, au_Sequence = snd,
     au_SetSequence = (\<lambda>n x. Inr (fst x, n)), au_PubKey = (\<lambda>_. None), au_AccountNumber = (\<lambda>_. 0),
     au_NewBaseAccount = (\<lambda>a _ _ sq. (a, sq))\<rparr>"

definition lgApp :: "(ledger, AccAddress \<times> u64) vm_app" where
  "lgApp = \<lparr>appPb = lgKeeper, appAuth = lgAuth, appVm = \<lparr>vkBank = pbWrapper lgKeeper (\<lambda>cs. cs) (\<lambda>cs. cs = []), vkAuth = liftAuth lgAuth,
     vkFee = fmExample, vkApi = hexApi, vkKeccak256 = (\<lambda>bs. of_nat (length bs)), vkHistoryStorageAddress = 0, vkAuthority = []\<rparr>\<rparr>"

definition lgChain :: "ledger pb_ctx vm_ctx" where
  "lgChain = \<lparr>sdkState = lgState, storageStore = fmempty, codeHashStore = fmempty, codeStore = fmempty, paramsStore = None,
     feeStore = \<lparr>fmParams = None, fmBlockGasWanted = None, fmTransientGasWanted = None\<rparr>, bloomTransient = fmempty, txIndexTransient = None, logSizeTransient = None, gasUsedTransient = None\<rparr>"

abbreviation noMulti :: "(ledger pb_ctx vm_ctx, unit, unit) cache_api" where
  "noMulti \<equiv> noCalls lgChain"

definition lgTx :: "(ledger pb_ctx vm_ctx, unit, unit) StateDB" where
  "lgTx = sdb_run (app_keeper lgApp) noMulti [OpAddBalance 1 5, OpSetNonce 1 3, OpSetState 1 2 9, OpSetCode 1 (Some [6])]
     (snd (Prepare \<lparr>IsEIP2929 = True, IsEIP4762 = False, IsShanghai = True\<rparr> 1 0 (Some 3) [] []
       (StateDB_New lgChain \<lparr>BlockHash = 0, TxHash = 0, TxIndex = 0, LogIndex = 0\<rparr>)))"

lemma lg_auth: "auth_contract lgKeeper lgAuth" "bank_keeps_accounts lgKeeper lgAuth"
  by (auto simp: auth_contract_def bank_keeps_accounts_def lgAuth_def go_keeps_def lgSend_def lgGive_def lgTake_def lgSupply_def fun_eq_iff)

lemma lg_good: "app_good lgApp" "app_inv lgApp lgChain" "app_holder lgApp a"
proof -
  have "pb_good lgKeeper"
    by (simp add: pb_good_def ledger_contract ledger_wired ledger_denoms_differ EvmModuleName_def ledger_evm_module)
  then show "app_good lgApp" using lg_auth by (simp add: app_good_def lgApp_def pbWrapper_def)
  show "app_inv lgApp lgChain" by (simp add: app_inv_def lgApp_def lgChain_def ledger_inv)
  have "length (AddressBytes a) = 20" by (simp add: AddressBytes_def)
  then have "AddressBytes a \<noteq> [x]" for x by auto
  then show "app_holder lgApp a"
    by (simp add: app_holder_def lgApp_def pb_holder_def evmModuleAddr_def EvmModuleName_def ledger_evm_module lgBank_def)
qed

lemma lg_no_account: "k_GetAccount (app_keeper lgApp) lgChain a = None"
  by (simp add: app_keeper_def sdbGetAccount_eq lgApp_def lgAuth_def lgChain_def lgState_def)

lemma lg_reads:
  "k_GetState (app_keeper lgApp) lgChain a k = 0" "k_Keccak256Hash (app_keeper lgApp) cd = of_nat (length cd)"
  by (simp_all add: app_keeper_def vk_GetState_def lgApp_def lgChain_def)

lemma lgTx_state:
  "stateObjects lgTx = fmupd 1 \<lparr>account = \<lparr>Nonce = 3, Balance = 5, CodeHash = 1\<rparr>, code = Some [6],
     originStorage = fmupd 2 0 fmempty, dirtyStorage = fmupd 2 9 fmempty, address = 1, dirtyCode = True, selfDestructed = False, newContract = False\<rparr> fmempty"
  "ctx lgTx = lgChain" "fmdom (dirties lgTx) = {|1|}"
  by (simp_all add: lgTx_def sdb_run_def AddBalance_def SetNonce_def SetState_def SetCode_def getOrNewStateObject_def getStateObject_def
      createObject_def Let_def so_AddBalance_def so_SetBalance_def setStateObject_def journal_append_def Prepare_def StateDB_New_def lg_no_account
      newObject_def so_setBalance_def so_setNonce_def so_Code_def so_setCode_def so_GetState_def so_GetCommittedState_def lg_reads EmptyCodeHash_def
      sliceBytes_def NewEmptyAccount_def so_setState_def)

text \<open>Address 1 has an account already, but no code; a contract is created there and destroyed, after a payment to address 0.\<close>

definition lgFunded :: "ledger pb_ctx vm_ctx" where
  "lgFunded = lgChain\<lparr>sdkState := lgState\<lparr>bankState := (bankState lgState)\<lparr>lg_acc := fmupd (AddressBytes 1) 0 fmempty\<rparr>\<rparr>\<rparr>"

definition lgDestroyed :: "(ledger pb_ctx vm_ctx, unit, unit) StateDB" where
  "lgDestroyed = sdb_run (app_keeper lgApp) noMulti [OpAddBalance 0 5, OpCreateContract 1, OpSelfDestruct6780 1]
     (StateDB_New lgFunded \<lparr>BlockHash = 0, TxHash = 0, TxIndex = 0, LogIndex = 0\<rparr>)"

lemma lgFunded_account: "\<exists>acc. k_GetAccount (app_keeper lgApp) lgFunded 1 = Some acc" "\<not> vk_IsContract lgFunded 1"
  by (simp_all add: app_keeper_def sdbGetAccount_eq lgApp_def lgAuth_def lgFunded_def lgChain_def vk_IsContract_def)

lemma lgDestroyed_state:
  "set (sortedDirties lgDestroyed) = {0, 1}" "hd (sortedDirties lgDestroyed) = 0"
  "\<exists>ob. fmlookup (stateObjects lgDestroyed) 1 = Some ob \<and> address ob = 1 \<and> selfDestructed ob"
  "\<forall>b ob. fmlookup (stateObjects lgDestroyed) b = Some ob \<longrightarrow> address ob = b"
proof -
  obtain acc where acc: "k_GetAccount (app_keeper lgApp) lgFunded 1 = Some acc" using lgFunded_account(1) by blast
  have no: "k_GetAccount (app_keeper lgApp) lgFunded 0 = None"
    by (simp add: app_keeper_def sdbGetAccount_eq lgApp_def lgAuth_def lgFunded_def lgChain_def)
  note run = lgDestroyed_def sdb_run_def AddBalance_def getOrNewStateObject_def createObject_def so_AddBalance_def so_SetBalance_def
    so_setBalance_def CreateContract_def SelfDestruct6780_def SelfDestruct_def getStateObject_def Let_def setStateObject_def
    journal_append_def StateDB_New_def acc no newObject_def
  have d: "dirties lgDestroyed = fmupd 1 1 (fmupd 0 2 fmempty)" by (simp add: run fm_get0_def)
  show "set (sortedDirties lgDestroyed) = {0, 1}" "hd (sortedDirties lgDestroyed) = 0"
    by (auto simp: sortedDirties_def d sorted_list_of_fset.rep_eq)
  show "\<exists>ob. fmlookup (stateObjects lgDestroyed) 1 = Some ob \<and> address ob = 1 \<and> selfDestructed ob"
    "\<forall>b ob. fmlookup (stateObjects lgDestroyed) b = Some ob \<longrightarrow> address ob = b"
    by (simp_all add: run)
qed

section \<open>Properties\<close>

text \<open>
  C23.  \<open>Commit\<close> over the keeper, \<open>x/precisebank\<close> and x/auth is faithful.  Take any finished
  transaction, snapshots and reverts included, that dirtied ordinary accounts only, destroyed
  only accounts that are contracts in the store or new, and in whose code keccak does not
  collide.  Then the commit succeeds, the reserve still backs the fractional balances exactly,
  and a state database opened on the result reads of every ordinary account the existence,
  balance, nonce, code and storage that the transaction left; destroyed accounts are gone.
\<close>

theorem Commit_faithful:
  fixes s :: "('b pb_ctx vm_ctx, 'm, 'v) StateDB"
  assumes "app_good W" "app_inv W c" "codeStored (vmSdb (appVm W)) c" "txFinished (vmSdb (appVm W)) rm c s"
    and "inj_on (vkKeccak256 (appVm W)) (codesOf (vmSdb (appVm W)) s)"
    and "\<forall>a\<in>set (sortedDirties s). app_holder W a"
    and "\<forall>a ob. fmlookup (stateObjects s) a = Some ob \<longrightarrow> destroyable (vmSdb (appVm W)) c ob"
  shows "\<exists>c'. commitWithCtx (vmSdb (appVm W)) s c = (Ret (), c') \<and> app_inv W c' \<and>
    (\<forall>a. app_holder W a \<longrightarrow> committedReads (vmSdb (appVm W)) s c' a)"
  using app.commit_faithful [of W c rm s] assms by (simp add: app_keeper_def)

theorem Commit_faithful_witness:
  "\<exists>c'. commitWithCtx (vmSdb (appVm lgApp)) lgTx lgChain = (Ret (), c') \<and> app_inv lgApp c' \<and>
     committedReads (vmSdb (appVm lgApp)) lgTx c' 1"
proof -
  let ?K = "vmSdb (appVm lgApp)"
  have K: "app_keeper lgApp = ?K" by (simp add: app_keeper_def)
  have cs: "codeStored ?K lgChain" using lg_no_account by (simp add: codeStored_def K)
  have tx: "txFinished ?K noMulti lgChain lgTx"
    unfolding txFinished_def lgTx_def K by (rule exI)+ (rule conjI, rule_tac [2] refl, simp)
  have obj: "objOf ?K lgTx a = (if a = 1 then fmlookup (stateObjects lgTx) 1 else None)" for a
    using lg_no_account [of a] by (simp add: objOf_def lgTx_state K)
  have codes: "codesOf ?K lgTx = {[], [6]}"
    by (auto simp: codesOf_def obj lgTx_state code_read)
  have inj: "inj_on (vkKeccak256 (appVm lgApp)) (codesOf ?K lgTx)" unfolding codes by (simp add: lgApp_def)
  have dest: "\<forall>a ob. fmlookup (stateObjects lgTx) a = Some ob \<longrightarrow> destroyable ?K lgChain ob"
    by (auto simp: lgTx_state destroyable_def split: if_splits)
  show ?thesis using Commit_faithful [OF lg_good(1,2) cs tx inj _ dest] lg_good(3) by blast
qed

text \<open>
  C28.  A contract that is created at an address with an account, for example one that has
  received coins before, and destroyed in the same transaction makes \<open>Commit\<close> fail, whatever
  else the transaction did: \<open>DeleteAccount\<close> looks for a code hash in the store, which the new
  contract does not have yet, and the accounts that are committed before it leave its account and
  its missing code hash alone.  The error is that of \<open>DeleteAccount\<close>, with nothing written, when
  the address is the first of the dirty ones.  The keeper is the one of the EVM module over
  \<open>x/precisebank\<close> and x/auth, in any state.
\<close>

theorem Commit_prefunded_selfdestruct:
  assumes "app_good W" and "k_GetAccount (vmSdb (appVm W)) c a \<noteq> None" "\<not> vk_IsContract c a"
    and "a \<in> set (sortedDirties s)" "fmlookup (stateObjects s) a = Some ob" "selfDestructed ob"
    and "\<forall>b ob. fmlookup (stateObjects s) b = Some ob \<longrightarrow> address ob = b"
  shows "fst (commitWithCtx (vmSdb (appVm W)) s c) \<noteq> Ret () \<and>
    (hd (sortedDirties s) = a \<longrightarrow>
      commitWithCtx (vmSdb (appVm W)) s c = (Err ''only smart contracts can be self-destructed'', c))"
proof -
  obtain x where x: "plainAccount W a x c"
    using assms(1-3) by (auto simp: plainAccount_def sdbGetAccount_eq app_good_def split: option.splits)
  have ob: "address ob = a" using assms(5,7) by blast
  note stuck = commitObject_stuck [OF assms(1) _ assms(6), unfolded ob]
  let ?f = "\<lambda>addr. case fmlookup (stateObjects s) addr of
      None \<Rightarrow> go_panic ''nil pointer dereference'' | Some obj \<Rightarrow> commitObject (vmSdb (appVm W)) obj"
  have "go_keeps (plainAccount W a x) (?f b)" if "b \<noteq> a" for b
    using that assms(7) by (auto intro!: commitObject_plain [OF assms(1)] split: option.split)
  moreover have "fst (?f a d) \<noteq> Ret ()" if "plainAccount W a x d" for d
    using stuck [OF that] assms(5) by simp
  ultimately have "fst (commitWithCtx (vmSdb (appVm W)) s c) \<noteq> Ret ()"
    unfolding commitWithCtx_def by (rule go_for_stuck [OF assms(4), of "plainAccount W a x", OF x])
  moreover have "commitWithCtx (vmSdb (appVm W)) s c = (Err ''only smart contracts can be self-destructed'', c)"
    if "hd (sortedDirties s) = a"
    using that assms(4,5) stuck [OF x] by (cases "sortedDirties s") (simp_all add: commitWithCtx_def go_bind_def)
  ultimately show ?thesis by blast
qed

theorem Commit_prefunded_selfdestruct_witness:
  "fst (commitWithCtx (vmSdb (appVm lgApp)) lgDestroyed lgFunded) \<noteq> Ret () \<and> hd (sortedDirties lgDestroyed) = 0"
proof -
  obtain ob where ob: "fmlookup (stateObjects lgDestroyed) 1 = Some ob" "selfDestructed ob"
    using lgDestroyed_state(3) by blast
  have a: "k_GetAccount (vmSdb (appVm lgApp)) lgFunded 1 \<noteq> None" using lgFunded_account(1) by (simp add: app_keeper_def)
  have m: "1 \<in> set (sortedDirties lgDestroyed)" by (simp add: lgDestroyed_state(1))
  from Commit_prefunded_selfdestruct [OF lg_good(1) a lgFunded_account(2) m ob lgDestroyed_state(4)]
  show ?thesis using lgDestroyed_state(2) by blast
qed

end
