(* ===== verification/VmTransitionLaws.thy ===== *)
theory VmTransitionLaws
  imports VmTransition VmCommit
begin

text \<open>
  Lemmas on the state transition: what is relied on of the interpreter, the gas that is charged,
  what a commit and a refund leave alone, the ways a message and a transaction can end, and
  that an execution is a sequence of operations of the state database.
\<close>

section \<open>What is relied on of the EVM\<close>

text \<open>The interpreter never returns more gas than it got.\<close>

definition evm_gas_contract :: "('c, 'm, 'v, 'tx) eth_api \<Rightarrow> bool" where
  "evm_gas_contract E \<longleftrightarrow>
    (\<forall>env a d g v s r s'. eth_Create E env a d g v s = (Ret r, s') \<longrightarrow> er_LeftoverGas r \<le> g) \<and>
    (\<forall>env a b d g v s r s'. eth_Call E env a b d g v s = (Ret r, s') \<longrightarrow> er_LeftoverGas r \<le> g)"

text \<open>The interpreter changes the state database by its operations only, without stateful precompiles.\<close>

definition opsRun :: "'c sdb_keeper \<Rightarrow> ('c, 'm, 'v) cache_api \<Rightarrow> ('c, 'm, 'v) StateDB \<Rightarrow> ('c, 'm, 'v) StateDB \<Rightarrow> bool" where
  "opsRun K rm s s' \<longleftrightarrow> (\<exists>ops. admissible K rm ops s \<and> s' = sdb_run K rm ops s)"

definition go_runs :: "'c sdb_keeper \<Rightarrow> ('c, 'm, 'v) cache_api \<Rightarrow> ('c, 'm, 'v, 'x) sdb_go \<Rightarrow> bool" where
  "go_runs K rm m \<longleftrightarrow> (\<forall>s. opsRun K rm s (snd (m s)))"

definition evm_ops_contract :: "'c sdb_keeper \<Rightarrow> ('c, 'm, 'v) cache_api \<Rightarrow> ('c, 'm, 'v, 'tx) eth_api \<Rightarrow> bool" where
  "evm_ops_contract K rm E \<longleftrightarrow>
    (\<forall>env a d g v. go_runs K rm (eth_Create E env a d g v)) \<and> (\<forall>env a b d g v. go_runs K rm (eth_Call E env a b d g v))"

section \<open>Gas\<close>

lemma sint_small:
  assumes "unat (w :: u64) < 2 ^ 63"
  shows "sint w = int (unat w)"
proof -
  have u: "uint w < 2 ^ 63" using assms unfolding uint_nat by (simp only: of_nat_less_numeral_power_cancel_iff)
  have p: "- (2 ^ (LENGTH(64) - Suc 0)) \<le> uint w" by (rule order_trans [OF _ unsigned_greater_eq]) simp
  have "sint w = uint w" unfolding sint_uint by (rule signed_take_bit_int_eq_self [OF p]) (use u in simp)
  then show ?thesis unfolding uint_nat .
qed

lemma div_max: "0 < c \<Longrightarrow> max a b div c = max (a div c) (b div (c :: int))"
  by (cases "a \<le> b") (simp_all add: max_absorb1 max_absorb2 zdiv_mono1)

text \<open>The charge: what the EVM used after the refund, but at least the minimum fraction of the limit.\<close>

definition gasCharge :: "int \<Rightarrow> nat \<Rightarrow> nat \<Rightarrow> bool \<Rightarrow> nat" where
  "gasCharge m lim used internal = (if internal then used else max used (nat (int lim * m div decOne)))"

lemma gasCharge_bounds:
  assumes "0 \<le> m" "m \<le> decOne" "used \<le> lim"
  shows "gasCharge m lim used internal \<le> lim" "used \<le> gasCharge m lim used internal"
proof -
  have "int lim * m \<le> int lim * decOne" by (rule mult_left_mono [OF assms(2)]) simp
  then have "int lim * m div decOne \<le> int lim * decOne div decOne" by (rule zdiv_mono1 [OF _ decOne_pos(1)])
  then have "int lim * m div decOne \<le> int lim"
    unfolding nonzero_mult_div_cancel_right [OF less_imp_neq [OF decOne_pos(1), symmetric]] .
  then have "nat (int lim * m div decOne) \<le> lim" unfolding nat_le_iff .
  then show "gasCharge m lim used internal \<le> lim" using assms(3) unfolding gasCharge_def by (cases internal) simp_all
  show "used \<le> gasCharge m lim used internal" unfolding gasCharge_def by (cases internal) simp_all
qed

lemma chargeGas_exact:
  assumes D: "dec_contract (fmDec (vkFee K))" and m: "GetMinGasMultiplier K c = Some m" "0 \<le> m" "m \<le> decOne"
    and l: "unat lim < 2 ^ 63" "used \<le> lim" "leftover \<le> lim"
  shows "chargeGas K lim used leftover internal c = (Ret (of_nat (gasCharge m (unat lim) (unat used) internal)), c)"
proof -
  let ?D = "fmDec (vkFee K)"
  define L U where "L = int (unat lim)" and "U = int (unat used)"
  have ul: "unat used \<le> unat lim" using l(2) by (simp add: word_le_nat_alt)
  have su: "sint used = U" unfolding U_def by (rule sint_small) (use ul l(1) in linarith)
  have "L < 2 ^ 63" using l(1) unfolding L_def by (simp only: of_nat_less_numeral_power_cancel_iff)
  then have l64: "L < 2 ^ 64" by simp
  have lim: "uint lim = L" by (simp add: L_def)
  have min: "Dec_Mul ?D (Dec_FromInt ?D L) m = L * m" by (rule Dec_Mul_int [OF D])
  have tr: "Dec_TruncateInt ?D x = x div decOne" if "0 \<le> x" for x using D that decOne_pos(1) by (simp add: dec_contract_def Quo_nonneg)
  have fi: "Dec_FromInt ?D n = n * decOne" for n using D by (simp add: dec_contract_def)
  have dn: "decOne \<noteq> 0" "0 \<le> decOne" using decOne_pos(1) by linarith+
  have nn1: "0 \<le> L * m" by (rule mult_nonneg_nonneg [OF _ m(2)]) (simp add: L_def)
  have nn2: "0 \<le> U * decOne" by (rule mult_nonneg_nonneg [OF _ dn(2)]) (simp add: U_def)
  have q1: "0 \<le> L * m div decOne" by (rule iffD2 [OF pos_imp_zdiv_nonneg_iff [OF decOne_pos(1)] nn1])
  have q2: "U * decOne div decOne = U" by (rule nonzero_mult_div_cancel_right [OF dn(1)])
  have ch: "int (gasCharge m (unat lim) (unat used) internal) = (if internal then U else max U (L * m div decOne))"
    using q1 unfolding gasCharge_def L_def U_def by (cases internal) (simp_all only: of_nat_max nat_0_le if_True if_False)
  have le: "gasCharge m (unat lim) (unat used) i \<le> unat lim" for i by (rule gasCharge_bounds(1) [OF m(2,3) ul])
  have nn3: "0 \<le> max (U * decOne) (L * m)" using nn1 by linarith
  have t1: "Dec_TruncateInt ?D (if internal then U * decOne else max (U * decOne) (L * m)) = int (gasCharge m (unat lim) (unat used) internal)"
    unfolding ch by (cases internal) (simp_all only: if_True if_False tr [OF nn2] tr [OF nn3] div_max [OF decOne_pos(1)] q2)
  have i1: "isUint64 (int (gasCharge m (unat lim) (unat used) internal))"
    using le [of internal] l64 unfolding isUint64_def L_def by (intro conjI) linarith+
  have "nat (L * m div decOne) \<le> unat lim" using le [of False] unfolding gasCharge_def L_def by (simp only: if_False max.bounded_iff)
  then have "L * m div decOne \<le> L" unfolding L_def nat_le_iff .
  then have i2: "isUint64 (Dec_TruncateInt ?D (L * m))"
    using q1 l64 unfolding tr [OF nn1] isUint64_def by (intro conjI) linarith+
  have "\<not> lim < leftover" using l(3) by simp
  then show ?thesis
    using t1 i1 i2 m(1) unfolding chargeGas_def Let_def by (cases internal) (simp_all add: lim min [unfolded fi] su fi)
qed

section \<open>What the commit leaves alone\<close>

text \<open>The parameters, the store of the fee market and the transient values of the block.\<close>

definition blockValues ::
    "'p vm_ctx \<Rightarrow> vm_Params option \<times> fm_ctx \<times> (int, bytes) fmap \<times> u64 option \<times> u64 option \<times> u64 option" where
  "blockValues c = (paramsStore c, feeStore c, bloomTransient c, txIndexTransient c, logSizeTransient c, gasUsedTransient c)"

text \<open>The state of contracts.\<close>

definition evmStores :: "'p vm_ctx \<Rightarrow> (Address \<times> Hash, bytes) fmap \<times> (Address, bytes) fmap \<times> (Hash, bytes) fmap" where
  "evmStores c = (storageStore c, codeHashStore c, codeStore c)"

lemma onSdk_keeps [intro!, simp]:
  "go_keeps (\<lambda>c. blockValues c = v) (onSdk m)" "go_keeps (\<lambda>c. evmStores c = w) (onSdk m)"
  unfolding onSdk_def by (rule go_keeps_zoom [where Q = "\<lambda>_. True"]; simp add: go_keeps_def blockValues_def evmStores_def)+

lemma blockValues_stores [simp]:
  "blockValues (c\<lparr>sdkState := p\<rparr>) = blockValues c" "blockValues (vk_SetState a k b c) = blockValues c"
  "blockValues (vk_DeleteState a k c) = blockValues c" "blockValues (vk_SetCodeHash a h c) = blockValues c"
  "blockValues (DeleteCodeHash a c) = blockValues c" "blockValues (vk_SetCode h b c) = blockValues c"
  "blockValues (vk_DeleteCode h c) = blockValues c"
  by (simp_all add: blockValues_def vk_SetState_def vk_DeleteState_def vk_SetCodeHash_def DeleteCodeHash_def vk_SetCode_def vk_DeleteCode_def)

lemma SetAccount_keeps: "go_keeps (\<lambda>c. blockValues c = v) (vk_SetAccount K a acc)"
proof (rule go_keepsI)
  fix c
  have step: "blockValues (snd (go_seq (go_modify f)
      (go_seq (go_modify (\<lambda>c. c\<lparr>sdkState := au_SetAccount (vkAuth K) x (sdkState c)\<rparr>)) (vk_SetBalance K a y)) c)) = blockValues c"
    if "\<And>c. blockValues (f c) = blockValues c" for f x y c
    unfolding vk_SetBalance_def using that
    by (intro go_keeps_eq go_keeps_seq go_keeps_modify onSdk_keeps) simp_all
  show "blockValues (snd (vk_SetAccount K a acc c)) = blockValues c"
    unfolding vk_SetAccount_def by (simp add: step del: go_seq_app split: prod.split sum.split)
qed

lemma DeleteAccount_keeps: "go_keeps (\<lambda>c. blockValues c = v) (vk_DeleteAccount K a)"
proof (rule go_keepsI)
  fix c
  have step: "blockValues (snd (go_seq (go_modify (\<lambda>c. c\<lparr>sdkState := au_SetAccount (vkAuth K) x (sdkState c)\<rparr>))
        (go_seq (vk_SetBalance K a y)
        (go_bind (go_gets f) (\<lambda>keys.
         go_seq (go_for keys (\<lambda>key. go_modify (vk_DeleteState a key)))
        (go_seq (go_modify (DeleteCodeHash a))
           (go_modify (\<lambda>c. c\<lparr>sdkState := au_RemoveAccount (vkAuth K) z (sdkState c)\<rparr>)))))) c)) = blockValues c" for x y f z
    unfolding vk_SetBalance_def
    by (intro go_keeps_eq go_keeps_seq go_keeps_modify onSdk_keeps go_keeps_bind go_keeps_for go_keeps_base) simp_all
  show "blockValues (snd (vk_DeleteAccount K a c)) = blockValues c"
    unfolding vk_DeleteAccount_def by (simp add: step del: go_seq_app split: option.split)
qed

lemma commit_keeps: "go_keeps (\<lambda>c. blockValues c = v) (commitWithCtx (vmSdb K) s)"
proof -
  have "go_keeps (\<lambda>c. blockValues c = v) (commitObject (vmSdb K) ob)" for ob
    unfolding commitObject_def commitStorage_def vmSdb_sel Let_def
    by (intro go_keeps_if go_keeps_seq go_keeps_convErr SetAccount_keeps DeleteAccount_keeps go_keeps_for go_keeps_modify)
      (auto split: option.split)
  then show ?thesis unfolding commitWithCtx_def by (intro go_keeps_for) (simp split: option.split)
qed

text \<open>The write of the multistore cache goes to the stores of other modules.\<close>

definition stores_keep :: "('v option \<Rightarrow> 'm option \<Rightarrow> 'p vm_ctx \<Rightarrow> 'p vm_ctx) \<Rightarrow> bool" where
  "stores_keep writeStores \<longleftrightarrow> (\<forall>w m c. blockValues (writeStores w m c) = blockValues c)"

lemma StateDB_Commit_keeps: "stores_keep writeStores \<Longrightarrow> go_keeps (\<lambda>c. blockValues c = v) (StateDB_Commit (vmSdb K) writeStores s)"
  unfolding StateDB_Commit_def stores_keep_def by (intro go_keeps_seq commit_keeps) (auto split: option.split)

section \<open>Settling a message\<close>

lemma refundQuotient_values: "unat (refundQuotient isLondon internal) = (if internal then 1 else if isLondon then 5 else 2)"
  by (simp add: refundQuotient_def)

lemma multiplier_block: "blockValues c' = blockValues c \<Longrightarrow> GetMinGasMultiplier K c' = GetMinGasMultiplier K c"
  by (simp add: blockValues_def GetMinGasMultiplier_def)

lemma gas_arith:
  assumes "(left :: u64) \<le> lim" "unat rfnd \<le> unat (lim - left)"
  shows "lim - left - rfnd \<le> lim" "left + rfnd \<le> lim" "unat (lim - left - rfnd) = unat (lim - left) - unat rfnd"
proof -
  have u: "unat (lim - left) = unat lim - unat left" "unat left \<le> unat lim"
    using assms(1) by (simp_all add: unat_sub word_le_nat_alt)
  show d: "unat (lim - left - rfnd) = unat (lim - left) - unat rfnd" using assms(2) by (simp add: unat_sub word_le_nat_alt)
  show "lim - left - rfnd \<le> lim" unfolding word_le_nat_alt d using u by simp
  have "unat left + unat rfnd \<le> unat lim" using assms(2) u by linarith
  moreover have "unat (left + rfnd) = unat left + unat rfnd"
    by (rule unat_add_lem [THEN iffD1], rule le_less_trans [OF calculation unsigned_less])
  ultimately show "left + rfnd \<le> lim" unfolding word_le_nat_alt by simp
qed

lemma gas_left:
  assumes "(ig :: u64) \<le> lim" "left \<le> lim - ig"
  shows "left \<le> lim" "ig \<le> lim - left" "lim - left \<le> lim"
proof -
  have u: "unat left \<le> unat lim - unat ig" "unat ig \<le> unat lim" using assms by (simp_all add: word_le_nat_alt unat_sub)
  then show le: "left \<le> lim" by (simp add: word_le_nat_alt)
  have "unat (lim - left) = unat lim - unat left" using le by (simp add: unat_sub)
  then show "ig \<le> lim - left" "lim - left \<le> lim" unfolding word_le_nat_alt using u by linarith+
qed

definition gasRefund :: "bool \<Rightarrow> bool \<Rightarrow> ('c, 'm, 'v) StateDB \<Rightarrow> nat \<Rightarrow> nat" where
  "gasRefund isLondon internal s used = min (unat (refund s)) (used div unat (refundQuotient isLondon internal))"

text \<open>The refund: what the EVM has collected, up to the fraction of the gas used.\<close>

lemma GasToRefund_exact:
  "\<exists>r. GasToRefund (refund s) gas (refundQuotient isLondon internal) = Some r \<and> unat r = gasRefund isLondon internal s (unat gas)"
  by (auto simp: GasToRefund_def refundQuotient_def gasRefund_def Let_def min_def word_le_nat_alt word_less_nat_alt unat_div)

lemma settle_exact:
  assumes D: "dec_contract (fmDec (vkFee K))" "GetMinGasMultiplier K c = Some m" "0 \<le> m" "m \<le> decOne"
    and l: "unat lim < 2 ^ 63" "er_LeftoverGas res \<le> lim"
    and W: "go_keeps (\<lambda>x. blockValues x = blockValues c) (go_when commit (StateDB_Commit (vmSdb K) writeStores s))"
  shows "case go_when commit (StateDB_Commit (vmSdb K) writeStores s) c of
      (Ret _, c') \<Rightarrow> \<exists>r. settleMessage K writeStores lim isLondon internal commit txHash res s c = (Ret r, c') \<and>
        MaxUsedGas r = lim - er_LeftoverGas res \<and>
        unat (GasUsed r) = gasCharge m (unat lim) (unat (MaxUsedGas r) - gasRefund isLondon internal s (unat (MaxUsedGas r))) internal \<and>
        VmError r = (case er_Err res of None \<Rightarrow> [] | Some e \<Rightarrow> e) \<and> Logs r = logs s
    | (Err e, c') \<Rightarrow> settleMessage K writeStores lim isLondon internal commit txHash res s c = (Err (ErrCommit e), c')
    | (Panic p, c') \<Rightarrow> settleMessage K writeStores lim isLondon internal commit txHash res s c = (Panic p, c')"
proof -
  define maxUsed where "maxUsed = lim - er_LeftoverGas res"
  obtain rfnd where rf: "GasToRefund (refund s) maxUsed (refundQuotient isLondon internal) = Some rfnd"
      "unat rfnd = gasRefund isLondon internal s (unat maxUsed)"
    using GasToRefund_exact by blast
  have "unat rfnd \<le> unat maxUsed" using GasToRefund_bounds(2) [OF rf(1)] by (meson div_le_dividend le_trans)
  note ar = gas_arith [OF l(2) this [unfolded maxUsed_def], folded maxUsed_def]
  have ml: "unat maxUsed \<le> unat lim" using l(2) by (simp add: maxUsed_def unat_sub)
  have ch: "chargeGas K lim (maxUsed - rfnd) (er_LeftoverGas res + rfnd) internal c' =
      (Ret (of_nat (gasCharge m (unat lim) (unat maxUsed - unat rfnd) internal)), c')" if "blockValues c' = blockValues c" for c'
    unfolding ar(3) [symmetric]
    by (rule chargeGas_exact [OF D(1) _ D(3,4) l(1) ar(1,2)]) (simp add: multiplier_block [OF that] D(2))
  have le: "gasCharge m (unat lim) (unat maxUsed - unat rfnd) internal \<le> unat lim"
    by (rule gasCharge_bounds [OF D(3,4)]) (use ml in simp)
  have un: "unat (of_nat (gasCharge m (unat lim) (unat maxUsed - unat rfnd) internal) :: u64) =
      gasCharge m (unat lim) (unat maxUsed - unat rfnd) internal"
    unfolding unat_of_nat by (rule mod_less, rule le_less_trans [OF le unsigned_less])
  define X Y where "X = go_when commit (StateDB_Commit (vmSdb K) writeStores s)"
    and "Y = go_when commit (go_convErr ErrCommit (StateDB_Commit (vmSdb K) writeStores s))"
  obtain o1 c1 where cm: "X c = (o1, c1)" by fastforce
  have cm': "Y c = (case o1 of Ret u \<Rightarrow> (Ret u, c1) | Err e \<Rightarrow> (Err (ErrCommit e), c1) | Panic p \<Rightarrow> (Panic p, c1))"
    using cm unfolding X_def Y_def by (cases commit) (auto simp: go_when_def go_convErr_def split: outcome.split)
  have c1: "blockValues c1 = blockValues c" by (rule go_keepsD [OF W [folded X_def] refl cm])
  have n: "\<not> lim < er_LeftoverGas res" using l(2) by simp
  show ?thesis
    using un ch [OF c1] unfolding settleMessage_def maxUsed_def [symmetric] X_def [symmetric] Y_def [symmetric]
    by (cases o1) (simp_all add: n Let_def rf(1) rf(2) [symmetric] cm cm' go_bind_def)
qed

lemma settle_commits:
  assumes D: "dec_contract (fmDec (vkFee K))" "GetMinGasMultiplier K c = Some m" "0 \<le> m" "m \<le> decOne"
    and l: "unat lim < 2 ^ 63" "er_LeftoverGas res \<le> lim" and w: "writeCache s = None"
    and c: "commitWithCtx (vmSdb K) s c = (Ret (), c')"
  shows "\<exists>r. settleMessage K writeStores lim isLondon internal True txHash res s c = (Ret r, c') \<and>
    VmError r = (case er_Err res of None \<Rightarrow> [] | Some e \<Rightarrow> e) \<and> Logs r = logs s"
proof -
  have "StateDB_Commit (vmSdb K) writeStores s d = commitWithCtx (vmSdb K) s d" for d by (simp add: StateDB_Commit_def w)
  then have k: "go_when True (StateDB_Commit (vmSdb K) writeStores s) = commitWithCtx (vmSdb K) s" by (simp add: go_when_def fun_eq_iff)
  show ?thesis
    using settle_exact [OF D l, of True writeStores s isLondon internal txHash, unfolded k, OF commit_keeps] c by auto
qed

text \<open>The message passes the checks and the interpreter returns \<open>res\<close> with the state database \<open>s\<close>.\<close>

definition messageRuns ::
    "('p, 'a) vm_keeper \<Rightarrow> ('p vm_ctx, 'm, 'v, 'tx) eth_api \<Rightarrow> chain_config \<Rightarrow> vm_header \<Rightarrow> bytes option \<Rightarrow> u64 \<Rightarrow> core_msg \<Rightarrow>
     EVMConfig \<Rightarrow> TxConfig \<Rightarrow> 'p vm_ctx \<Rightarrow> evm_result \<Rightarrow> ('p vm_ctx, 'm, 'v) StateDB \<Rightarrow> bool" where
  "messageRuns K E CC h recompute blockGas msg cfg txConf c res s \<longleftrightarrow>
    (let env = NewEVM K CC h recompute blockGas msg cfg c
     in \<exists>ig v s1. GetEthIntrinsicGas E CC h msg (m_To msg = None) = Inr ig \<and> ig \<le> m_GasLimit msg \<and>
       checkFloorDataGas E (cc_IsPrague CC (vhBlockHeight h) (vhTime h)) msg = None \<and> Uint256FromBigInt (m_Value msg) = Inr v \<and>
       Prepare (cc_Rules CC (vhBlockHeight h) (vhTime h)) (m_From msg) 0 (m_To msg) (eth_ActivePrecompiles E env)
         (m_AccessList msg) (StateDB_New c txConf) = (Ret (), s1) \<and>
       executeMessage (vmSdb K) E CC env msg (m_GasLimit msg - ig) v s1 = (Ret res, s))"

text \<open>A message is refused without a trace, panics, or has run on the state database and is settled.\<close>

lemma applyMessage_cases:
  fixes E :: "('p vm_ctx, 'm, 'v, 'tx) eth_api"
  obtains (refused) e where "ApplyMessageWithConfig K E CC writeStores h recompute blockGas msg commit cfg txConf internal c = (Err e, c)"
      "e \<noteq> ErrGasOverflow"
  | (panics) p where "ApplyMessageWithConfig K E CC writeStores h recompute blockGas msg commit cfg txConf internal c = (Panic p, c)"
  | (runs) ig v s1 res s2 where
      "ApplyMessageWithConfig K E CC writeStores h recompute blockGas msg commit cfg txConf internal c =
        settleMessage K writeStores (m_GasLimit msg) (cc_IsLondon CC (vhBlockHeight h)) internal commit (TxHash txConf) res s2 c"
      "GetEthIntrinsicGas E CC h msg (m_To msg = None) = Inr ig" "ig \<le> m_GasLimit msg"
      "Uint256FromBigInt (m_Value msg) = Inr v"
      "s1 = snd (Prepare (cc_Rules CC (vhBlockHeight h) (vhTime h)) (m_From msg) 0 (m_To msg)
         (eth_ActivePrecompiles E (NewEVM K CC h recompute blockGas msg cfg c)) (m_AccessList msg) (StateDB_New c txConf))"
      "executeMessage (vmSdb K) E CC (NewEVM K CC h recompute blockGas msg cfg c) msg (m_GasLimit msg - ig) v s1 = (Ret res, s2)"
      "messageRuns K E CC h recompute blockGas msg cfg txConf c res s2"
proof -
  let ?A = "ApplyMessageWithConfig K E CC writeStores h recompute blockGas msg commit cfg txConf internal c"
  let ?env = "NewEVM K CC h recompute blockGas msg cfg c"
  let ?P = "Prepare (cc_Rules CC (vhBlockHeight h) (vhTime h)) (m_From msg) 0 (m_To msg)
     (eth_ActivePrecompiles E ?env) (m_AccessList msg) (StateDB_New c txConf :: ('p vm_ctx, 'm, 'v) StateDB)"
  note A = ApplyMessageWithConfig_def Let_def
  consider (e1) x where "GetEthIntrinsicGas E CC h msg (m_To msg = None) = Inl x"
    | (e2) ig where "GetEthIntrinsicGas E CC h msg (m_To msg = None) = Inr ig" "m_GasLimit msg < ig"
    | (e3) ig where "GetEthIntrinsicGas E CC h msg (m_To msg = None) = Inr ig" "\<not> m_GasLimit msg < ig"
    by (cases "GetEthIntrinsicGas E CC h msg (m_To msg = None)") auto
  then show ?thesis
  proof cases
    case (e3 ig)
    show ?thesis
    proof (cases "checkFloorDataGas E (cc_IsPrague CC (vhBlockHeight h) (vhTime h)) msg")
      case (Some e)
      moreover from this have "e \<noteq> ErrGasOverflow" by (auto simp: checkFloorDataGas_def split: if_splits sum.splits)
      ultimately show ?thesis using e3 by (intro refused [of e]) (simp_all add: A)
    next
      case None
      obtain o1 s1 where P: "?P = (o1, s1)" by fastforce
      define X where "X v = executeMessage (vmSdb K) E CC ?env msg (m_GasLimit msg - ig) v s1" for v
      define o2 s2 where "o2 v = fst (X v)" and "s2 v = snd (X v)" for v
      have X: "executeMessage (vmSdb K) E CC ?env msg (m_GasLimit msg - ig) v s1 = (o2 v, s2 v)" for v
        by (simp add: X_def o2_def s2_def)
      have v: "?A = (case o1 of Panic p \<Rightarrow> (Panic p, c) | Err e \<Rightarrow> (Err (ErrApply e), c)
          | Ret _ \<Rightarrow> (case Uint256FromBigInt (m_Value msg) of Inl e \<Rightarrow> (Err (ErrApply e), c)
            | Inr v \<Rightarrow> (case o2 v of Panic p \<Rightarrow> (Panic p, c) | Err e \<Rightarrow> (Err (ErrApply e), c)
              | Ret res \<Rightarrow> settleMessage K writeStores (m_GasLimit msg) (cc_IsLondon CC (vhBlockHeight h)) internal commit (TxHash txConf) res (s2 v) c)))"
        using e3 None P by (simp add: A X split: outcome.split sum.split)
      have ig: "ig \<le> m_GasLimit msg" using e3(2) by simp
      show ?thesis
      proof (cases "\<exists>u w res. o1 = Ret u \<and> Uint256FromBigInt (m_Value msg) = Inr w \<and> o2 w = Ret res")
        case True
        then obtain u w res where r: "o1 = Ret u" "Uint256FromBigInt (m_Value msg) = Inr w" "o2 w = Ret res" by blast
        show ?thesis by (rule runs [OF _ e3(1) ig r(2), of res "s2 w" s1]) (use v r X [of w] P None e3(1) ig in \<open>simp_all add: messageRuns_def Let_def\<close>)
      next
        case False
        then show ?thesis
          using v refused panics by (auto split: outcome.splits sum.splits)
      qed
    qed
  qed (auto simp: A intro: refused)
qed

lemma execute_leftover:
  assumes "evm_gas_contract E" "executeMessage K E CC env msg g v s = (Ret res, s')"
  shows "er_LeftoverGas res \<le> g"
proof (cases "m_To msg")
  case None
  then obtain s1 s2 where "eth_Create E env (m_From msg) (m_Data msg) g v s1 = (Ret res, s2)"
    using assms(2) by (auto simp: executeMessage_def go_bind_def split: prod.splits outcome.splits)
  then show ?thesis using assms(1) unfolding evm_gas_contract_def by blast
next
  case (Some to)
  then obtain s1 s2 where "eth_Call E env (m_From msg) to (m_Data msg) g v s1 = (Ret res, s2)"
    using assms(2) by (auto simp: executeMessage_def go_bind_def split: prod.splits outcome.splits)
  then show ?thesis using assms(1) unfolding evm_gas_contract_def by blast
qed

lemma chargeGas_reads: "snd (chargeGas K lim used leftover internal c) = c"
  by (simp add: chargeGas_def Let_def split: option.split)

lemma settle_no_commit: "snd (settleMessage K writeStores lim isLondon internal False txHash res s c) = c"
  by (simp add: settleMessage_def Let_def snd_bind_return chargeGas_reads split: option.split)

lemma settle_block:
  assumes "stores_keep writeStores"
  shows "blockValues (snd (settleMessage K writeStores lim isLondon internal commit txHash res s c)) = blockValues c"
proof -
  have "go_keeps (\<lambda>c. blockValues c = v) (chargeGas K a b d e)" for v a b d e
    by (rule go_keepsI) (simp add: chargeGas_reads)
  then show ?thesis unfolding settleMessage_def Let_def
    by (intro go_keeps_eq go_keeps_if go_keeps_option go_keeps_seq go_keeps_bind go_keeps_wrap go_keeps_convErr go_keeps_base
        StateDB_Commit_keeps [OF assms])
qed

lemma applyMessage_block:
  assumes "stores_keep writeStores"
    and "ApplyMessageWithConfig K E CC writeStores h recompute blockGas msg commit cfg txConf internal c = (Ret res, c')"
  shows "blockValues c' = blockValues c"
proof (cases rule: applyMessage_cases [of K E CC writeStores h recompute blockGas msg commit cfg txConf internal c])
  case (runs ig v s1 res' s2)
  have "blockValues (snd (ApplyMessageWithConfig K E CC writeStores h recompute blockGas msg commit cfg txConf internal c)) = blockValues c"
    unfolding runs(1) by (rule settle_block [OF assms(1)])
  then show ?thesis by (simp add: assms(2))
qed (use assms(2) in auto)

section \<open>Transactions\<close>

lemma resetMeter_sets: "\<exists>g'. resetMeter n t = (Ret (), t\<lparr>txMeter := g'\<rparr>) \<and> GasConsumed g' = n"
proof -
  obtain g' where "ResetGasMeterAndConsumeGas GasConsumed RefundGas ConsumeGas n (txMeter t) = (Ret (), g')" "GasConsumed g' = n"
    using igm.reset_sets [where g = "txMeter t" and n = n] by auto
  then show ?thesis by (intro exI [of _ g']) (simp add: resetMeter_def onMeter_def go_zoom_def)
qed

lemma applyTransaction_Ret:
  assumes "ApplyTransaction K E CC writeStores hooks h recompute blockGas coinbase tx t = (Ret r, t')"
  obtains cfg msg res c1 signer c2 c3 total where
    "vk_EVMConfig K CC h coinbase (txVm t) = Inr cfg" "eth_TransactionToMessage E tx (cfg_BaseFee cfg) = Inr msg"
    "ApplyMessageWithConfig K E CC writeStores h recompute blockGas msg True cfg (vk_TxConfig h (eth_TxHash E tx) (txVm t)) False (txVm t) = (Ret res, c1)"
    "eth_Sender E tx = Inr signer"
    "postProcess hooks signer msg (newReceipt E h (vk_TxConfig h (eth_TxHash E tx) (txVm t)) msg res t) res (txVm t) c1 = (Ret r, c2)"
    "vk_RefundGas K msg (if m_GasLimit msg > GasUsed r then m_GasLimit msg - GasUsed r else 0) (eci_Denom (bw_info (vkBank K))) c2 = (Ret (), c3)"
    "recordTx E h (vk_TxConfig h (eth_TxHash E tx) (txVm t)) r (initializeBloomFromLogs E h (Logs r) c2) c3 = (Ret total, txVm t')"
    "GasConsumed (txMeter t') = total"
proof -
  obtain cfg where a: "vk_EVMConfig K CC h coinbase (txVm t) = Inr cfg"
    using assms by (auto simp: ApplyTransaction_def split: sum.splits)
  obtain msg where b: "eth_TransactionToMessage E tx (cfg_BaseFee cfg) = Inr msg"
    using assms a by (auto simp: ApplyTransaction_def Let_def split: sum.splits)
  let ?tc = "vk_TxConfig h (eth_TxHash E tx) (txVm t)"
  obtain o1 c1 where A: "ApplyMessageWithConfig K E CC writeStores h recompute blockGas msg True cfg ?tc False (txVm t) = (o1, c1)"
    by fastforce
  obtain gl where gl: "resetMeter (Limit (txMeter t)) t = (Ret (), t\<lparr>txMeter := gl\<rparr>)" using resetMeter_sets by blast
  obtain res where res: "o1 = Ret res"
    using assms by (cases o1) (auto simp: ApplyTransaction_def a b A gl Let_def)
  obtain signer where sg: "eth_Sender E tx = Inr signer"
    using assms by (cases "eth_Sender E tx") (auto simp: ApplyTransaction_def a b A res Let_def)
  obtain o2 c2 where P: "postProcess hooks signer msg (newReceipt E h ?tc msg res t) res (txVm t) c1 = (o2, c2)" by fastforce
  obtain r' where r': "o2 = Ret r'"
    using assms by (cases o2) (auto simp: ApplyTransaction_def a b A res sg P Let_def)
  let ?rem = "if m_GasLimit msg > GasUsed r' then m_GasLimit msg - GasUsed r' else 0"
  obtain o3 c3 where R: "vk_RefundGas K msg ?rem (eci_Denom (bw_info (vkBank K))) c2 = (o3, c3)" by fastforce
  obtain o4 c4 where T: "recordTx E h ?tc r' (initializeBloomFromLogs E h (Logs r') c2) c3 = (o4, c4)" by fastforce
  have "ApplyTransaction K E CC writeStores hooks h recompute blockGas coinbase tx t =
      go_seq (onVm (vk_RefundGas K msg ?rem (eci_Denom (bw_info (vkBank K)))))
        (go_bind (onVm (recordTx E h ?tc r' (initializeBloomFromLogs E h (Logs r') c2))) (\<lambda>total.
           go_seq (resetMeter total) (go_return r'))) (t\<lparr>txVm := c2\<rparr>)"
    by (simp add: ApplyTransaction_def a b A res sg P r' Let_def del: go_seq_app)
  note run = this [unfolded assms]
  have o3: "o3 = Ret ()" using run by (cases o3) (auto simp: onVm_def go_zoom_def go_bind_def R)
  obtain total where o4: "o4 = Ret total" using run by (cases o4) (auto simp: onVm_def go_zoom_def go_bind_def R T o3)
  obtain g where g: "resetMeter total (t\<lparr>txVm := c4\<rparr>) = (Ret (), t\<lparr>txVm := c4, txMeter := g\<rparr>)" "GasConsumed g = total"
    using resetMeter_sets by blast
  have e: "r' = r" "t' = t\<lparr>txVm := c4, txMeter := g\<rparr>"
    using run by (auto simp: onVm_def go_zoom_def go_bind_def R T o3 o4 g(1))
  show ?thesis
    by (rule that [OF a b A [unfolded res] sg P [unfolded r' e(1)] R [unfolded o3 e(1)], of total])
      (use T g(2) in \<open>simp_all add: o4 e\<close>)
qed

lemma recordTx_Ret:
  assumes "recordTx E h txConf r bloom c = (Ret tot, c')"
  shows "tot = GetTransientGasUsed c + GasUsed r" "GasUsed r \<le> tot" "GetTransientGasUsed c' = tot"
    "GetTxIndexTransient c' = TxIndex txConf + 1" "evmStores c' = evmStores c"
    "GetLogSizeTransient c' = (if bloom = None then GetLogSizeTransient c else LogIndex txConf + of_nat (length (Logs r)))"
  using assms
  by (auto simp: recordTx_def go_convErr_def AddTransientGasUsed_def Let_def GetTransientGasUsed_def SetTransientGasUsed_def SetTxIndexTransient_def
      GetTxIndexTransient_def SetBlockBloomTransient_def SetLogSizeTransient_def GetLogSizeTransient_def evmStores_def
      split: option.splits if_splits)

lemma RefundGas_keeps:
  "go_keeps (\<lambda>c. blockValues c = v) (vk_RefundGas K msg g d)" "go_keeps (\<lambda>c. evmStores c = w) (vk_RefundGas K msg g d)"
  unfolding vk_RefundGas_def Let_def by (intro go_keeps_if go_keeps_convErr onSdk_keeps go_keeps_base)+

text \<open>Hooks that leave the stores of the EVM module alone.\<close>

definition hooks_keep :: "('p vm_ctx \<Rightarrow> 'x) \<Rightarrow> 'p tx_hook option \<Rightarrow> bool" where
  "hooks_keep f hooks \<longleftrightarrow> (\<forall>hook a m r c. hooks = Some hook \<longrightarrow> f (snd (hook a m r c)) = f c)"

lemma postProcess_Ret:
  assumes "postProcess hooks signer msg receipt res c c1 = (Ret r, c2)"
  shows "hooks_keep f hooks \<Longrightarrow> f c1 = f c \<Longrightarrow> f c2 = f c" "hooks_keep f hooks \<Longrightarrow> Failed r \<Longrightarrow> f c2 = f c"
    "GasUsed r = GasUsed res" "MaxUsedGas r = MaxUsedGas res"
  using assms unfolding postProcess_def Let_def hooks_keep_def
  by (auto simp: Failed_def split: option.splits outcome.splits prod.splits if_splits) (metis snd_conv)+

section \<open>What the interpreter wrote\<close>

lemma opsRun_refl [simp]: "opsRun K rm s s"
  unfolding opsRun_def by (rule exI [of _ "[]"]) (simp add: sdb_run_def)

lemma admissible_append: "admissible K rm (xs @ ys) s \<longleftrightarrow> admissible K rm xs s \<and> admissible K rm ys (sdb_run K rm xs s)"
  by (induction xs arbitrary: s) (simp_all add: sdb_run_def)

lemma opsRun_trans: "opsRun K rm s t \<Longrightarrow> opsRun K rm t u \<Longrightarrow> opsRun K rm s u"
  unfolding opsRun_def by (elim exE, rule_tac x = "ops @ opsa" in exI) (simp add: admissible_append sdb_run_def)

lemma opsRun_step: "(\<And>a. op \<noteq> OpCreateAccount a) \<Longrightarrow> \<not> callsPrecompile op \<Longrightarrow> opsRun K rm s (sdb_step K rm op s)"
  unfolding opsRun_def by (rule exI [of _ "[op]"]) (simp add: sdb_run_def)

lemma go_runs_base [intro!, simp]: "go_runs K rm (go_return x)" "go_runs K rm (go_err e)" "go_runs K rm (go_panic p)"
  by (simp_all add: go_runs_def)

lemma go_runs_bind [intro!]: "go_runs K rm m \<Longrightarrow> (\<And>x. go_runs K rm (f x)) \<Longrightarrow> go_runs K rm (go_bind m f)"
  unfolding go_runs_def go_bind_def by (simp split: prod.split outcome.split) (metis opsRun_trans snd_conv)

lemma go_runs_seq [intro!]: "go_runs K rm m \<Longrightarrow> go_runs K rm n \<Longrightarrow> go_runs K rm (go_seq m n)"
  unfolding go_seq_def by (rule go_runs_bind)

lemma go_runs_skipErr [intro!]: "go_runs K rm m \<Longrightarrow> go_runs K rm (skipErr m)"
  unfolding go_runs_def skipErr_def by (simp split: prod.split outcome.split) (metis snd_conv)

lemma go_runs_when [intro!]: "go_runs K rm m \<Longrightarrow> go_runs K rm (go_when b m)"
  by (cases b) (simp_all add: go_when_def)

lemma go_runs_for [intro!]: "(\<And>x. go_runs K rm (f x)) \<Longrightarrow> go_runs K rm (go_for xs f)"
  by (induction xs) auto

lemma go_runs_op: "(\<And>s. snd (m s) = sdb_step K rm op s) \<Longrightarrow> (\<And>a. op \<noteq> OpCreateAccount a) \<Longrightarrow> \<not> callsPrecompile op \<Longrightarrow> go_runs K rm m"
  by (simp add: go_runs_def opsRun_step)

lemma go_runs_ops [intro!, simp]:
  "go_runs K rm (SetNonce K a n)" "go_runs K rm (SetCode K a cd)" "go_runs K rm (AddRefund g)" "go_runs K rm (AddAddressToAccessList a)"
  "go_runs K rm (sdbDo (GetCode K a))" "go_runs K rm (sdbDo (GetNonce K a))" "go_runs K rm (sdbDo (Exist K a))"
proof -
  show "go_runs K rm (SetNonce K a n)" by (rule go_runs_op [of _ _ _ "OpSetNonce a n"]) simp_all
  show "go_runs K rm (SetCode K a cd)" by (rule go_runs_op [of _ _ _ "OpSetCode a cd"]) simp_all
  show "go_runs K rm (AddRefund g)" by (rule go_runs_op [of _ _ _ "OpAddRefund g"]) simp_all
  show "go_runs K rm (AddAddressToAccessList a)" by (rule go_runs_op [of _ _ _ "OpAddAddressToAccessList a"]) simp_all
  show "go_runs K rm (sdbDo (GetCode K a))" by (rule go_runs_op [of _ _ _ "OpGetCode a"]) (simp_all add: sdbDo_def split_def)
  show "go_runs K rm (sdbDo (GetNonce K a))" by (rule go_runs_op [of _ _ _ "OpGetNonce a"]) (simp_all add: sdbDo_def split_def)
  show "go_runs K rm (sdbDo (Exist K a))" by (rule go_runs_op [of _ _ _ "OpExist a"]) (simp_all add: sdbDo_def split_def)
qed

lemma execute_runs:
  assumes "evm_ops_contract K rm E"
  shows "go_runs K rm (executeMessage K E CC env msg g v)"
proof -
  have c: "go_runs K rm (eth_Create E env a d g v)" "go_runs K rm (eth_Call E env a b d g v)" for a b d
    using assms by (simp_all add: evm_ops_contract_def)
  have a: "go_runs K rm (applyAuthorization K E auth n)" for auth n
    unfolding applyAuthorization_def validateAuthorization_def by (auto split: sum.split)
  show ?thesis unfolding executeMessage_def by (auto intro!: c a split: option.split)
qed

lemma messageRuns_settles:
  assumes "messageRuns K E CC h recompute blockGas msg cfg txConf c res s"
  shows "ApplyMessageWithConfig K E CC writeStores h recompute blockGas msg commit cfg txConf internal c =
    settleMessage K writeStores (m_GasLimit msg) (cc_IsLondon CC (vhBlockHeight h)) internal commit (TxHash txConf) res s c"
  using assms by (auto simp: messageRuns_def Let_def ApplyMessageWithConfig_def not_less [symmetric])

lemma messageRuns_leftover:
  assumes "messageRuns K E CC h recompute blockGas msg cfg txConf c res s" "evm_gas_contract E"
  shows "er_LeftoverGas res \<le> m_GasLimit msg"
proof -
  obtain ig v s1 where "ig \<le> m_GasLimit msg"
    "executeMessage (vmSdb K) E CC (NewEVM K CC h recompute blockGas msg cfg c) msg (m_GasLimit msg - ig) v s1 = (Ret res, s)"
    using assms(1) by (auto simp: messageRuns_def Let_def)
  then show ?thesis using execute_leftover [OF assms(2)] by (meson order_trans word_sub_le)
qed

text \<open>How a message that has run is settled.\<close>

lemma message_gas:
  assumes "dec_contract (fmDec (vkFee K))" "GetMinGasMultiplier K c = Some m" "0 \<le> m" "m \<le> decOne"
    and "unat (m_GasLimit msg) < 2 ^ 63" "evm_gas_contract E" "stores_keep writeStores"
    and run: "messageRuns K E CC h recompute blockGas msg cfg txConf c res s"
  shows "case go_when commit (StateDB_Commit (vmSdb K) writeStores s) c of
         (Ret _, c') \<Rightarrow> \<exists>r ig.
           ApplyMessageWithConfig K E CC writeStores h recompute blockGas msg commit cfg txConf internal c = (Ret r, c') \<and>
           GetEthIntrinsicGas E CC h msg (m_To msg = None) = Inr ig \<and> ig \<le> MaxUsedGas r \<and>
           MaxUsedGas r = m_GasLimit msg - er_LeftoverGas res \<and> MaxUsedGas r \<le> m_GasLimit msg \<and> GasUsed r \<le> m_GasLimit msg \<and>
           unat (GasUsed r) = gasCharge m (unat (m_GasLimit msg))
             (unat (MaxUsedGas r) - min (unat (refund s))
               (unat (MaxUsedGas r) div unat (refundQuotient (cc_IsLondon CC (vhBlockHeight h)) internal))) internal
       | (Err e, c') \<Rightarrow>
           ApplyMessageWithConfig K E CC writeStores h recompute blockGas msg commit cfg txConf internal c = (Err (ErrCommit e), c')
       | (Panic p, c') \<Rightarrow>
           ApplyMessageWithConfig K E CC writeStores h recompute blockGas msg commit cfg txConf internal c = (Panic p, c')"
proof -
  obtain ig where ig: "GetEthIntrinsicGas E CC h msg (m_To msg = None) = Inr ig" "ig \<le> m_GasLimit msg" "er_LeftoverGas res \<le> m_GasLimit msg - ig"
    using run execute_leftover [OF assms(6)] unfolding messageRuns_def Let_def by blast
  note b = gas_left [OF ig(2,3)]
  have W: "go_keeps (\<lambda>x. blockValues x = blockValues c) (go_when commit (StateDB_Commit (vmSdb K) writeStores s))"
    by (intro go_keeps_wrap StateDB_Commit_keeps [OF assms(7)])
  have gb: "gasCharge m (unat (m_GasLimit msg)) (unat (m_GasLimit msg - er_LeftoverGas res) - x) internal \<le> unat (m_GasLimit msg)" for x
    by (rule gasCharge_bounds [OF assms(3,4)]) (use b(3) in \<open>simp add: word_le_nat_alt\<close>)
  show ?thesis
    using settle_exact [OF assms(1-5) b(1) W, of "cc_IsLondon CC (vhBlockHeight h)" internal "TxHash txConf"] ig(1) b(2,3) gb
    unfolding messageRuns_settles [OF run] gasRefund_def
    by (auto simp: word_le_nat_alt split: prod.splits outcome.splits)
qed

lemma messageRuns_finished:
  assumes "messageRuns K E CC h recompute blockGas msg cfg txConf c res s" "evm_ops_contract (vmSdb K) rm E"
  shows "txFinished (vmSdb K) rm c s"
proof -
  let ?env = "NewEVM K CC h recompute blockGas msg cfg c"
  obtain ig v s1 where p: "Prepare (cc_Rules CC (vhBlockHeight h) (vhTime h)) (m_From msg) 0 (m_To msg) (eth_ActivePrecompiles E ?env)
      (m_AccessList msg) (StateDB_New c txConf) = (Ret (), s1)"
    and x: "executeMessage (vmSdb K) E CC ?env msg (m_GasLimit msg - ig) v s1 = (Ret res, s)"
    using assms(1) by (auto simp: messageRuns_def Let_def)
  obtain ops where "admissible (vmSdb K) rm ops s1" "s = sdb_run (vmSdb K) rm ops s1"
    using execute_runs [OF assms(2)] x unfolding go_runs_def opsRun_def by (metis snd_conv)
  then show ?thesis unfolding txFinished_def using arg_cong [OF p, of snd] by (metis snd_conv)
qed

end
