(* ===== verification/VmTransitionProps.thy ===== *)
theory VmTransitionProps
  imports VmTransitionLaws
begin

text \<open>
  What a state transition guarantees: that what the EVM wrote is what the store holds, bounds on
  the gas charged, that a call without commit and a failed transaction leave no trace, the
  accounts of a block, and the exact refund.
\<close>

section \<open>An example\<close>

text \<open>
  An interpreter that uses half of the gas, writes one storage slot when it is given data, and
  ends with the error \<open>err\<close>; a chain with the access list fork; a message from account 1 to account 3.
\<close>

definition exEth :: "string option \<Rightarrow> (ledger pb_ctx vm_ctx, unit, unit, core_msg) eth_api" where
  "exEth err = \<lparr>eth_IntrinsicGas = (\<lambda>_ _ _ _ _ _ _. Inr 21000), eth_FloorDataGas = (\<lambda>_. Inr 0), eth_ActivePrecompiles = (\<lambda>_. []),
     eth_Create = (\<lambda>_ _ _ g _. go_return \<lparr>er_Ret = [], er_LeftoverGas = g, er_Err = err, er_ReturnData = []\<rparr>),
     eth_Call = (\<lambda>_ _ b d g _. go_bind (if d = [] then go_return 0 else SetState (app_keeper lgApp) b 1 7)
        (\<lambda>_. go_return \<lparr>er_Ret = [], er_LeftoverGas = g div 2, er_Err = err, er_ReturnData = []\<rparr>)),
     eth_ParseDelegation = (\<lambda>_. None), eth_AddressToDelegation = AddressBytes, eth_Authority = (\<lambda>_. Inl ''none''),
     eth_CreateBloom = length, eth_CreateAddress = (\<lambda>a n. a + ucast n), eth_TransactionToMessage = (\<lambda>tx _. Inr tx),
     eth_Sender = (\<lambda>tx. Inr (m_From tx)), eth_TxHash = (\<lambda>_. 0)\<rparr>"

definition exCC :: chain_config where
  "exCC = \<lparr>cc_ChainID = 1, cc_IsHomestead = (\<lambda>_. True), cc_IsIstanbul = (\<lambda>_. True), cc_IsLondon = (\<lambda>_. True),
     cc_IsShanghai = (\<lambda>_ _. True), cc_IsPrague = (\<lambda>_ _. True), cc_Rules = (\<lambda>_ _. \<lparr>IsEIP2929 = True, IsEIP4762 = False, IsShanghai = True\<rparr>)\<rparr>"

definition exMsg :: "bytes \<Rightarrow> core_msg" where
  "exMsg data = \<lparr>m_From = 1, m_To = Some 3, m_Nonce = 0, m_Value = 0, m_GasLimit = 100000, m_GasPrice = 0, m_Data = data,
     m_AccessList = [], m_SetCodeAuthorizations = []\<rparr>"

definition exHeader :: vm_header where
  "exHeader = \<lparr>vhBlockHeight = 5, vhHeaderHash = [], vhTime = 60\<rparr>"

definition exCfg :: EVMConfig where
  "exCfg = \<lparr>cfg_Params = vm_GetParams None, cfg_CoinBase = 9, cfg_BaseFee = vk_GetBaseFee (appVm lgApp) True lgChain\<rparr>"

definition exRun :: "bytes \<Rightarrow> (ledger pb_ctx vm_ctx, unit, unit) StateDB" where
  "exRun data = sdb_run (app_keeper lgApp) noMulti (OpGetCode 3 # (if data = [] then [] else [OpSetState 3 1 7]))
     (snd (Prepare \<lparr>IsEIP2929 = True, IsEIP4762 = False, IsShanghai = True\<rparr> 1 0 (Some 3) [] []
       (StateDB_New lgChain \<lparr>BlockHash = 0, TxHash = 0, TxIndex = 0, LogIndex = 0\<rparr>)))"

abbreviation exTx :: TxConfig where
  "exTx \<equiv> \<lparr>BlockHash = 0, TxHash = 0, TxIndex = 0, LogIndex = 0\<rparr>"

lemma ex_contracts: "evm_gas_contract (exEth err)" "evm_ops_contract (app_keeper lgApp) rm (exEth err)" "stores_keep (\<lambda>_ _ c. c)" "hooks_keep f None"
proof -
  have "g div 2 \<le> g" for g :: u64 by (simp add: word_le_nat_alt unat_div)
  then show "evm_gas_contract (exEth err)"
    by (auto simp: evm_gas_contract_def exEth_def go_bind_def split: prod.splits outcome.splits)
  have "go_runs (app_keeper lgApp) rm (SetState (app_keeper lgApp) b k v :: (_, _, unit, _) sdb_go)" for b k v by (rule go_runs_op [of _ _ _ "OpSetState b k v"]) simp_all
  then show "evm_ops_contract (app_keeper lgApp) rm (exEth err)" by (auto simp: evm_ops_contract_def exEth_def)
qed (simp_all add: stores_keep_def hooks_keep_def)

lemma ex_multiplier:
  "dec_contract (fmDec (vkFee (appVm lgApp)))" "GetMinGasMultiplier (appVm lgApp) lgChain = Some (decOne div 2)"
  "0 \<le> decOne div 2" "decOne div 2 \<le> decOne" "unat (m_GasLimit (exMsg d)) < 2 ^ 63"
  by (simp_all add: lgApp_def fmExample_def decExact_contract GetMinGasMultiplier_def fw_GetParams_def fm_GetParams_def lgChain_def
      fm_DefaultParams_def Let_def decOne_def exMsg_def)

lemma exRun_state:
  "stateObjects (exRun []) = fmempty" "fmdom (dirties (exRun [])) = {||}" "writeCache (exRun d) = None" "logs (exRun d) = []"
  "d \<noteq> [] \<Longrightarrow> stateObjects (exRun d) = fmupd 3 \<lparr>account = \<lparr>Nonce = 0, Balance = 0, CodeHash = 0\<rparr>, code = None,
     originStorage = fmupd 1 0 fmempty, dirtyStorage = fmupd 1 7 fmempty, address = 3, dirtyCode = False, selfDestructed = False, newContract = False\<rparr> fmempty"
  "d \<noteq> [] \<Longrightarrow> fmdom (dirties (exRun d)) = {|3|}" "ctx (exRun d) = lgChain"
  by (simp_all add: exRun_def sdb_run_def GetCode_def SetState_def getOrNewStateObject_def getStateObject_def
      createObject_def Let_def setStateObject_def journal_append_def Prepare_def StateDB_New_def lg_no_account
      newObject_def so_GetState_def so_GetCommittedState_def lg_reads EmptyCodeHash_def
      sliceBytes_def NewEmptyAccount_def so_setState_def)

abbreviation exResult :: "string option \<Rightarrow> evm_result" where
  "exResult err \<equiv> \<lparr>er_Ret = [], er_LeftoverGas = 39500, er_Err = err, er_ReturnData = []\<rparr>"

lemma exRun_runs:
  "messageRuns (appVm lgApp) (exEth err) exCC exHeader None 0 (exMsg d) exCfg exTx lgChain (exResult err) (exRun d)"
proof -
  let ?K = "app_keeper lgApp"
  let ?s1 = "snd (Prepare \<lparr>IsEIP2929 = True, IsEIP4762 = False, IsShanghai = True\<rparr> 1 0 (Some 3) [] [] (StateDB_New lgChain exTx))
    :: (ledger pb_ctx vm_ctx, unit, unit) StateDB"
  have K: "vmSdb (appVm lgApp) = ?K" by (simp add: app_keeper_def)
  have g: "((100000 :: u64) - 21000) div 2 = 39500" by (simp add: word_unat_eq_iff unat_div)
  have "executeMessage ?K (exEth err) exCC env (exMsg d) (100000 - 21000) 0 ?s1 = (Ret (exResult err), exRun d)" for env
    unfolding exRun_def
    by (simp add: executeMessage_def exMsg_def exEth_def sdbDo_def split_def sdb_run_def g go_bind_def SetState_def Let_def)
  moreover have "Prepare \<lparr>IsEIP2929 = True, IsEIP4762 = False, IsShanghai = True\<rparr> 1 0 (Some 3) [] [] (StateDB_New lgChain exTx) = (Ret (), ?s1)"
    by (simp add: Prepare_def Let_def)
  ultimately show ?thesis
    unfolding messageRuns_def K Let_def
    by (intro exI [of _ 21000] exI [of _ 0] exI [of _ ?s1])
      (simp add: exMsg_def exCC_def exHeader_def exEth_def GetEthIntrinsicGas_def checkFloorDataGas_def Uint256FromBigInt_def)
qed

lemma ex_applies:
  "\<exists>r. ApplyMessageWithConfig (appVm lgApp) (exEth err) exCC (\<lambda>_ _ c. c) exHeader None 0 (exMsg []) True exCfg exTx False lgChain =
     (Ret r, lgChain) \<and> VmError r = (case err of None \<Rightarrow> [] | Some e \<Rightarrow> e) \<and> Logs r = []"
proof -
  have "sortedDirties (exRun []) = []" by (simp add: sortedDirties_def exRun_state sorted_list_of_fset.rep_eq)
  then have c: "commitWithCtx (vmSdb (appVm lgApp)) (exRun []) lgChain = (Ret (), lgChain)" by (simp add: commitWithCtx_def)
  have le: "er_LeftoverGas (exResult err) \<le> m_GasLimit (exMsg [])" by (simp add: exMsg_def word_le_nat_alt)
  show ?thesis
    unfolding messageRuns_settles [OF exRun_runs]
    using settle_commits [OF ex_multiplier le exRun_state(3) c] unfolding exRun_state(4) by simp
qed

lemma ex_transaction:
  "\<exists>r t'. ApplyTransaction (appVm lgApp) (exEth err) exCC (\<lambda>_ _ c. c) None exHeader None 0 (Inr 9) (exMsg [])
       \<lparr>txVm = lgChain, txMeter = \<lparr>consumed = 0, limit = 100000\<rparr>\<rparr> = (Ret r, t') \<and> VmError r = (case err of None \<Rightarrow> [] | Some e \<Rightarrow> e)"
proof -
  let ?t = "\<lparr>txVm = lgChain, txMeter = \<lparr>consumed = 0, limit = 100000\<rparr>\<rparr>"
  obtain r where r: "ApplyMessageWithConfig (appVm lgApp) (exEth err) exCC (\<lambda>_ _ c. c) exHeader None 0 (exMsg []) True exCfg exTx False lgChain =
     (Ret r, lgChain)" "VmError r = (case err of None \<Rightarrow> [] | Some e \<Rightarrow> e)" "Logs r = []" using ex_applies by blast
  have cfg: "vk_EVMConfig (appVm lgApp) exCC exHeader (Inr 9) lgChain = Inr exCfg"
    by (simp add: vk_EVMConfig_def exCfg_def exCC_def lgChain_def)
  have tc: "vk_TxConfig exHeader 0 lgChain = exTx"
    by (simp add: vk_TxConfig_def exHeader_def lgChain_def GetTxIndexTransient_def GetLogSizeTransient_def BytesToHash_def fromBytes_def)
  have e: "eth_TxHash (exEth err) tx = 0" "eth_TransactionToMessage (exEth err) tx b = Inr tx" "eth_Sender (exEth err) tx = Inr (m_From tx)"
    for tx b by (simp_all add: exEth_def)
  have pp: "postProcess None a m rc r lgChain lgChain = (Ret r, lgChain)" for a m rc by (simp add: postProcess_def)
  have rf: "vk_RefundGas K (exMsg []) g d c = (Ret (), c)" for K :: "(ledger pb_ctx, AccAddress \<times> u64) vm_keeper" and g d c
    by (simp add: vk_RefundGas_def exMsg_def Let_def)
  have "\<exists>c'. recordTx (exEth err) exHeader exTx r (initializeBloomFromLogs (exEth err) exHeader [] lgChain) lgChain = (Ret (GasUsed r), c')"
    by (simp add: recordTx_def initializeBloomFromLogs_def AddTransientGasUsed_def SetTxIndexTransient_def GetTransientGasUsed_def lgChain_def go_convErr_def Let_def)
  then obtain c' where rec: "recordTx (exEth err) exHeader exTx r (initializeBloomFromLogs (exEth err) exHeader [] lgChain) lgChain = (Ret (GasUsed r), c')" ..
  obtain g where g: "resetMeter (GasUsed r) (?t\<lparr>txVm := c'\<rparr>) = (Ret (), ?t\<lparr>txVm := c', txMeter := g\<rparr>)" using resetMeter_sets by blast
  show ?thesis
    using r(2) g by (simp add: ApplyTransaction_def cfg e tc r(1,3) pp rf rec onVm_def go_zoom_def go_bind_def Let_def)
qed

section \<open>Properties\<close>



text \<open>
  C25.  The gas of a message, for a gas limit that fits an \<open>int64\<close>, a minimum gas multiplier that is
  a fraction, an interpreter that returns no more gas than it got, and a write of the precompiles'
  stores that leaves the parameters and the values of the block alone.  A message that passes the
  checks and whose interpreter returns is applied exactly when its commit succeeds (or is not
  asked for); otherwise the error or panic of the commit is returned.  The gas the EVM used is the
  limit less the leftover, between the intrinsic gas and the limit.  The charge is the larger of
  that gas less the refund and the minimum fraction of the limit (of internal calls only the
  former), which is within the limit; the refund is the collected refund, up to the gas used
  divided by the refund quotient.  Every other message is refused or panics with the state
  unchanged, and never with the overflow error.
\<close>

theorem ApplyMessage_gas:
  assumes "dec_contract (fmDec (vkFee K))" "GetMinGasMultiplier K c = Some m" "0 \<le> m" "m \<le> decOne"
    and "unat (m_GasLimit msg) < 2 ^ 63" "evm_gas_contract E" "stores_keep writeStores"
  shows "(\<forall>res s. messageRuns K E CC h recompute blockGas msg cfg txConf c res s \<longrightarrow>
      (case go_when commit (StateDB_Commit (vmSdb K) writeStores s) c of
         (Ret _, c') \<Rightarrow> \<exists>r ig.
           ApplyMessageWithConfig K E CC writeStores h recompute blockGas msg commit cfg txConf internal c = (Ret r, c') \<and>
           GetEthIntrinsicGas E CC h msg (m_To msg = None) = Inr ig \<and> ig \<le> MaxUsedGas r \<and>
           MaxUsedGas r = m_GasLimit msg - er_LeftoverGas res \<and> MaxUsedGas r \<le> m_GasLimit msg \<and> GasUsed r \<le> m_GasLimit msg \<and>
           unat (GasUsed r) = gasCharge m (unat (m_GasLimit msg))
             (unat (MaxUsedGas r) - min (unat (refund s))
               (unat (MaxUsedGas r) div unat (refundQuotient (cc_IsLondon CC (vhBlockHeight h)) internal))) internal
       | (Err e, c') \<Rightarrow>
           ApplyMessageWithConfig K E CC writeStores h recompute blockGas msg commit cfg txConf internal c = (Err (ErrCommit e), c')
       | (Panic p, c') \<Rightarrow>
           ApplyMessageWithConfig K E CC writeStores h recompute blockGas msg commit cfg txConf internal c = (Panic p, c'))) \<and>
    ((\<nexists>res s. messageRuns K E CC h recompute blockGas msg cfg txConf c res s) \<longrightarrow>
      (\<exists>x. ApplyMessageWithConfig K E CC writeStores h recompute blockGas msg commit cfg txConf internal c = (x, c) \<and>
        (\<nexists>r. x = Ret r) \<and> x \<noteq> Err ErrGasOverflow))"
proof (intro conjI allI impI)
  assume "\<nexists>res s. messageRuns K E CC h recompute blockGas msg cfg txConf c res s"
  then show "\<exists>x. ApplyMessageWithConfig K E CC writeStores h recompute blockGas msg commit cfg txConf internal c = (x, c) \<and>
      (\<nexists>r. x = Ret r) \<and> x \<noteq> Err ErrGasOverflow"
    by (cases rule: applyMessage_cases [of K E CC writeStores h recompute blockGas msg commit cfg txConf internal c]) auto
qed (rule message_gas [OF assms])

theorem ApplyMessage_gas_witness:
  "\<exists>r. ApplyMessageWithConfig (appVm lgApp) (exEth None) exCC (\<lambda>_ _ c. c) exHeader None 0 (exMsg []) True exCfg exTx False lgChain =
     (Ret r, lgChain) \<and> 21000 \<le> MaxUsedGas r \<and> GasUsed r \<le> 100000"
proof -
  have "sortedDirties (exRun []) = []" by (simp add: sortedDirties_def exRun_state sorted_list_of_fset.rep_eq)
  then have c: "go_when True (StateDB_Commit (vmSdb (appVm lgApp)) (\<lambda>_ _ c. c) (exRun [])) lgChain = (Ret (), lgChain)"
    by (simp add: go_when_def StateDB_Commit_def exRun_state(3) commitWithCtx_def)
  have "GetEthIntrinsicGas (exEth None) exCC exHeader (exMsg []) b = Inr 21000" for b
    by (simp add: GetEthIntrinsicGas_def exEth_def)
  moreover have "m_GasLimit (exMsg []) = 100000" by (simp add: exMsg_def)
  ultimately show ?thesis
    using ApplyMessage_gas [where E = "exEth None" and msg = "exMsg []", OF ex_multiplier ex_contracts(1,3), where h = exHeader and CC = exCC
        and recompute = None and blockGas = 0 and commit = True and cfg = exCfg and txConf = exTx and internal = False,
        THEN conjunct1, rule_format, OF exRun_runs, unfolded c prod.case outcome.case] by auto
qed

text \<open>
  A message that is applied without commit, as the queries do, leaves the stores exactly as
  they were, whatever the interpreter does.
\<close>

theorem ApplyMessage_no_commit:
  "snd (ApplyMessageWithConfig K E CC writeStores h recompute blockGas msg False cfg txConf internal c) = c"
  by (cases rule: applyMessage_cases [of K E CC writeStores h recompute blockGas msg False cfg txConf internal c])
    (simp_all add: settle_no_commit)

text \<open>
  C26.  A transaction that fails, in the EVM or in a hook, leaves contract storage, code hashes and
  code exactly as they were; and one whose message is refused leaves every store as it was and
  consumes the whole gas limit.
\<close>

theorem ApplyTransaction_failure:
  assumes "hooks_keep evmStores hooks"
  shows "case ApplyTransaction K E CC writeStores hooks h recompute blockGas coinbase tx t of
      (Ret r, t') \<Rightarrow> Failed r \<longrightarrow> evmStores (txVm t') = evmStores (txVm t)
    | (Err e, t') \<Rightarrow> (\<forall>cfg msg c1. vk_EVMConfig K CC h coinbase (txVm t) = Inr cfg \<longrightarrow>
        eth_TransactionToMessage E tx (cfg_BaseFee cfg) = Inr msg \<longrightarrow>
        ApplyMessageWithConfig K E CC writeStores h recompute blockGas msg True cfg (vk_TxConfig h (eth_TxHash E tx) (txVm t)) False (txVm t) = (Err e, c1) \<longrightarrow>
        txVm t' = txVm t \<and> GasConsumed (txMeter t') = Limit (txMeter t))
    | (Panic p, _) \<Rightarrow> True"
proof -
  obtain o1 t' where run: "ApplyTransaction K E CC writeStores hooks h recompute blockGas coinbase tx t = (o1, t')" by fastforce
  show ?thesis
  proof (cases o1)
    case (Ret r)
    show ?thesis
    proof (cases rule: applyTransaction_Ret [OF run [unfolded Ret]])
      case (1 cfg msg res c1 signer c2 c3 tot)
      have "evmStores c2 = evmStores (txVm t)" if "Failed r" by (rule postProcess_Ret(2) [OF 1(5) assms that])
      then show ?thesis
        using recordTx_Ret(5) [OF 1(7)] go_keepsD [OF RefundGas_keeps(2) refl 1(6)] by (simp add: run Ret)
    qed
  next
    case (Err e)
    obtain gl where gl: "resetMeter (Limit (txMeter t)) t = (Ret (), t\<lparr>txMeter := gl\<rparr>)" "GasConsumed gl = Limit (txMeter t)"
      using resetMeter_sets by blast
    have "txVm t' = txVm t \<and> GasConsumed (txMeter t') = Limit (txMeter t)"
      if "vk_EVMConfig K CC h coinbase (txVm t) = Inr cfg" "eth_TransactionToMessage E tx (cfg_BaseFee cfg) = Inr msg"
        "ApplyMessageWithConfig K E CC writeStores h recompute blockGas msg True cfg (vk_TxConfig h (eth_TxHash E tx) (txVm t)) False (txVm t) = (Err e, c1)"
      for cfg msg c1
      using run gl(2) by (auto simp: ApplyTransaction_def Let_def gl(1) that)
    then show ?thesis by (simp only: run Err prod.case outcome.case) blast
  qed (simp add: run)
qed

theorem ApplyTransaction_failure_witness:
  "\<exists>r t'. ApplyTransaction (appVm lgApp) (exEth (Some ''out of gas'')) exCC (\<lambda>_ _ c. c) None exHeader None 0 (Inr 9) (exMsg [])
       \<lparr>txVm = lgChain, txMeter = \<lparr>consumed = 0, limit = 100000\<rparr>\<rparr> = (Ret r, t') \<and> Failed r \<and> evmStores (txVm t') = evmStores lgChain"
proof -
  let ?A = "ApplyTransaction (appVm lgApp) (exEth (Some ''out of gas'')) exCC (\<lambda>_ _ c. c) None exHeader None 0 (Inr 9) (exMsg [])
       \<lparr>txVm = lgChain, txMeter = \<lparr>consumed = 0, limit = 100000\<rparr>\<rparr>"
  obtain r t' where r: "?A = (Ret r, t')" "Failed r" using ex_transaction [of "Some ''out of gas''"] by (auto simp: Failed_def)
  have "hooks_keep evmStores (None :: ledger pb_ctx tx_hook option)" by (rule ex_contracts(4))
  from ApplyTransaction_failure [OF this, where K = "appVm lgApp" and E = "exEth (Some ''out of gas'')" and CC = exCC and writeStores = "\<lambda>_ _ c. c"
      and h = exHeader and recompute = None and blockGas = 0 and coinbase = "Inr 9" and tx = "exMsg []"
      and t = "\<lparr>txVm = lgChain, txMeter = \<lparr>consumed = 0, limit = 100000\<rparr>\<rparr>"] r
  show ?thesis by auto
qed

text \<open>
  C27.  The accounts of a block: a transaction that returns adds exactly its gas to the transient
  gas counter, without wrapping, sets the gas meter to that total, advances the transaction
  index by one and the log index by the number of its logs.
\<close>

theorem ApplyTransaction_accounting:
  assumes "stores_keep writeStores" "hooks_keep blockValues hooks"
    and "ApplyTransaction K E CC writeStores hooks h recompute blockGas coinbase tx t = (Ret r, t')"
  shows "unat (GetTransientGasUsed (txVm t')) = unat (GetTransientGasUsed (txVm t)) + unat (GasUsed r) \<and>
    GasConsumed (txMeter t') = GetTransientGasUsed (txVm t') \<and>
    GetTxIndexTransient (txVm t') = GetTxIndexTransient (txVm t) + 1 \<and>
    GetLogSizeTransient (txVm t') = GetLogSizeTransient (txVm t) + of_nat (length (Logs r))"
proof (cases rule: applyTransaction_Ret [OF assms(3)])
  case (1 cfg msg res c1 signer c2 c3 tot)
  have "blockValues c1 = blockValues (txVm t)" by (rule applyMessage_block [OF assms(1) 1(3)])
  then have "blockValues c2 = blockValues (txVm t)" by (rule postProcess_Ret(1) [OF 1(5) assms(2)])
  then have b: "blockValues c3 = blockValues (txVm t)" using go_keepsD [OF RefundGas_keeps(1) refl 1(6)] by simp
  note rec = recordTx_Ret [OF 1(7)]
  have g: "GetTransientGasUsed c3 = GetTransientGasUsed (txVm t)" "GetLogSizeTransient c3 = GetLogSizeTransient (txVm t)"
    using b by (simp_all add: blockValues_def GetTransientGasUsed_def GetLogSizeTransient_def)
  have "unat tot = unat (GetTransientGasUsed (txVm t)) + unat (GasUsed r)"
    using rec(2) iffD1 [OF unat_plus_simple, of "GasUsed r" "GetTransientGasUsed (txVm t)"] unfolding rec(1) g(1) by (simp add: add.commute)
  moreover have "initializeBloomFromLogs E h (Logs r) c2 = None \<longleftrightarrow> Logs r = []" by (simp add: initializeBloomFromLogs_def)
  ultimately show ?thesis using rec(3,4,6) 1(8) g(2) by (auto simp: vk_TxConfig_def)
qed

theorem ApplyTransaction_accounting_witness:
  "\<exists>r t'. ApplyTransaction (appVm lgApp) (exEth None) exCC (\<lambda>_ _ c. c) None exHeader None 0 (Inr 9) (exMsg [])
       \<lparr>txVm = lgChain, txMeter = \<lparr>consumed = 0, limit = 100000\<rparr>\<rparr> = (Ret r, t') \<and>
     GetTransientGasUsed (txVm t') = GasUsed r \<and> GasConsumed (txMeter t') = GasUsed r \<and> GetTxIndexTransient (txVm t') = 1"
proof -
  obtain r t' where r: "ApplyTransaction (appVm lgApp) (exEth None) exCC (\<lambda>_ _ c. c) None exHeader None 0 (Inr 9) (exMsg [])
       \<lparr>txVm = lgChain, txMeter = \<lparr>consumed = 0, limit = 100000\<rparr>\<rparr> = (Ret r, t')" using ex_transaction [of None] by auto
  have "GetTransientGasUsed lgChain = 0" "GetTxIndexTransient lgChain = 0"
    by (simp_all add: lgChain_def GetTransientGasUsed_def GetTxIndexTransient_def)
  with ApplyTransaction_accounting [OF ex_contracts(3,4) r] have "GetTransientGasUsed (txVm t') = GasUsed r" "GetTxIndexTransient (txVm t') = 1" "GasConsumed (txMeter t') = GasUsed r"
    by (simp_all add: word_unat_eq_iff)
  then show ?thesis using r by blast
qed

end
