(* ===== verification/VmFees.thy ===== *)
theory VmFees
  imports VmTransitionLaws
begin

text \<open>
  Fees of a transaction on \<open>x/precisebank\<close>: \<open>DeductTxCostsFromUserBalance\<close> of
  \<open>x/vm/keeper/fees.go\<close> takes the price of the whole gas limit before the execution, \<open>RefundGas\<close> of
  \<open>x/vm/keeper/gas.go\<close> returns the price of the gas left over.

  \<open>GetSignerAcc\<close> and \<open>DeductFees\<close> of x/auth/ante are parameters; the latter gets the bank wrapper's
  \<open>SendCoinsFromAccountToModule\<close>.
\<close>

section \<open>Definitions\<close>

definition DeductTxCostsFromUserBalance ::
    "(AccAddress \<Rightarrow> 'p \<Rightarrow> string + 'acc) \<Rightarrow>
     ((AccAddress \<Rightarrow> string \<Rightarrow> coins \<Rightarrow> ('p, sdk_error, unit) go) \<Rightarrow> 'acc \<Rightarrow> coins \<Rightarrow> ('p, sdk_error, unit) go) \<Rightarrow>
     ('p, 'a) vm_keeper \<Rightarrow> coins \<Rightarrow> Address \<Rightarrow> ('p vm_ctx, apply_error, unit) go" where
  "DeductTxCostsFromUserBalance getSignerAcc deductFees K fees from =
    go_bind (go_gets (\<lambda>c. getSignerAcc (AddressBytes from) (sdkState c))) (\<lambda>r.
      case r of
        Inl _ \<Rightarrow> go_err (ErrApply ''account not found for sender'')
      | Inr signerAcc \<Rightarrow>
          go_convErr (\<lambda>_. ErrApply ''failed to deduct full gas cost from the user balance'')
            (onSdk (deductFees (bw_SendCoinsFromAccountToModule (vkBank K)) signerAcc fees)))"

section \<open>What is relied on\<close>

text \<open>\<open>DeductFees\<close> sends positive fees from the account to the fee collector.\<close>

definition deducts_fees ::
    "((AccAddress \<Rightarrow> string \<Rightarrow> coins \<Rightarrow> ('p, sdk_error, unit) go) \<Rightarrow> 'acc \<Rightarrow> coins \<Rightarrow> ('p, sdk_error, unit) go) \<Rightarrow> ('acc \<Rightarrow> AccAddress) \<Rightarrow> bool" where
  "deducts_fees deductFees addrOf \<longleftrightarrow>
    (\<forall>send acc d n s s'. 0 < n \<longrightarrow> send (addrOf acc) FeeCollectorName [NewCoin d n] s = (Ret (), s') \<longrightarrow>
       deductFees send acc [NewCoin d n] s = (Ret (), s'))"

definition feeCollector :: "'b pb_keeper \<Rightarrow> AccAddress" where
  "feeCollector P = ak_GetModuleAddress (ak P) FeeCollectorName"

text \<open>The keeper uses \<open>x/precisebank\<close> through the wrapper; sorting one coin does nothing, and a positive coin is not zero.\<close>

definition fees_wired :: "'b pb_keeper \<Rightarrow> ('b pb_ctx, 'a) vm_keeper \<Rightarrow> bool" where
  "fees_wired P K \<longleftrightarrow> bw_bank (vkBank K) = pbBank P \<and> bw_info (vkBank K) = coinInfo P \<and>
    (\<forall>c. bw_Sort (vkBank K) [c] = [c]) \<and> (\<forall>c. 0 < Amount c \<longrightarrow> \<not> bw_IsZero (vkBank K) [c]) \<and>
    isModule P FeeCollectorName \<and> FeeCollectorName \<noteq> ModuleName \<and> feeCollector P \<noteq> reserveAddr P"

section \<open>Payments\<close>

lemma pay_ok:
  assumes g: "pb_good P" "pb_inv P s" and p: "plain_pair P f t" and n: "0 < n" "n \<le> extSpendable P s f"
  shows "\<exists>s'. SendCoins P f t [NewCoin (eci_ExtendedDenom (coinInfo P)) n] s = (Ret (), s') \<and> pb_inv P s' \<and>
    extBalance P s' = ledgerTransfer f t n (extBalance P s)"
proof -
  have b: "bank_contract P" "pb_wired P" "\<not> IsExtendedDenomSameAsIntegerDenom P" using g(1) by (simp_all add: pb_good_def)
  note c = extended_coin_amounts [OF b(1) n(1) b(3)]
  from SendCoins_ok [OF b(1,2) g(2) p c(1) b(3) pb_payable [OF g(1) n]] show ?thesis
    by (auto simp: c(2) ExtendedCoinDenom_def [symmetric] simp del: SumExtendedCoin_amount)
qed

lemma fee_collector:
  assumes "pb_good P" "fees_wired P K"
  shows "\<exists>acc. ak_GetModuleAccount (ak P) FeeCollectorName = Some acc \<and> ma_Address acc = feeCollector P"
    "feeCollector P \<noteq> []" "extSpendable P s (feeCollector P) = extBalance P s (feeCollector P)"
proof -
  obtain acc where acc: "ak_GetModuleAccount (ak P) FeeCollectorName = Some acc"
    using assms(2) by (auto simp: fees_wired_def isModule_def)
  have "bank_contract P" using assms(1) by (simp add: pb_good_def)
  then have a: "ma_Address acc = feeCollector P" "feeCollector P \<noteq> []"
      "bk_SpendableCoin (bk P) b (feeCollector P) d = bk_GetBalance (bk P) b (feeCollector P) d" for b d
    using acc by (auto simp: bank_contract_def feeCollector_def)
  show "\<exists>acc. ak_GetModuleAccount (ak P) FeeCollectorName = Some acc \<and> ma_Address acc = feeCollector P" using acc a(1) by blast
  show "feeCollector P \<noteq> []" by (rule a(2))
  show "extSpendable P s (feeCollector P) = extBalance P s (feeCollector P)"
    by (simp add: extSpendable_def extBalance_def SpendableCoin_def PreciseBankBase.GetBalance_def a(3) Let_def)
qed

lemma converted:
  assumes "fees_wired P K"
  shows "ConvertCoinsDenomToExtendedDenom (bw_Sort (vkBank K)) (bw_info (vkBank K)) [NewCoin (eci_Denom (bw_info (vkBank K))) n] =
    [NewCoin (eci_ExtendedDenom (coinInfo P)) n]"
  using assms by (simp add: fees_wired_def ConvertCoinsDenomToExtendedDenom_def ConvertEvmCoinDenomToExtendedDenom_def)

lemma collect_ok:
  assumes g: "pb_good P" "fees_wired P K" "pb_inv P s" "pb_holder P a" "a \<noteq> feeCollector P" and n: "0 < n" "n \<le> extBalance P s a"
  shows "\<exists>s'. bw_SendCoinsFromAccountToModule (vkBank K) a FeeCollectorName [NewCoin (eci_Denom (bw_info (vkBank K))) n] s = (Ret (), s') \<and>
    pb_inv P s' \<and> extBalance P s' = ledgerTransfer a (feeCollector P) n (extBalance P s)"
proof -
  note f = fee_collector [OF g(1,2)]
  have p: "plain_pair P a (feeCollector P)" using g(2,4,5) f(2) by (simp add: plain_pair_def pb_holder_def fees_wired_def)
  have w: "bw_bank (vkBank K) = pbBank P" "\<not> bw_IsZero (vkBank K) [NewCoin (eci_ExtendedDenom (coinInfo P)) n]" "FeeCollectorName \<noteq> ModuleName"
    using g(2) n(1) by (simp_all add: fees_wired_def)
  from pay_ok [OF g(1,3) p n(1)] n(2) pb_holder_spendable [OF g(4)] f(1) show ?thesis
    unfolding bw_SendCoinsFromAccountToModule_def converted [OF g(2)] by (auto simp: w pbBank_def SendCoinsFromAccountToModule_def)
qed

lemma refund_ok:
  assumes g: "pb_good P" "fees_wired P K" "pb_inv P s" "pb_holder P a" "a \<noteq> feeCollector P"
    and n: "0 < n" "n \<le> extBalance P s (feeCollector P)"
  shows "\<exists>s'. bw_SendCoinsFromModuleToAccount (vkBank K) FeeCollectorName a [NewCoin (eci_Denom (bw_info (vkBank K))) n] s = (Ret (), s') \<and>
    pb_inv P s' \<and> extBalance P s' = ledgerTransfer (feeCollector P) a n (extBalance P s)"
proof -
  note f = fee_collector [OF g(1,2)]
  have p: "plain_pair P (feeCollector P) a" using g(2,4,5) f(2) by (auto simp: plain_pair_def pb_holder_def fees_wired_def)
  have w: "bw_bank (vkBank K) = pbBank P" "\<not> bw_IsZero (vkBank K) [NewCoin (eci_ExtendedDenom (coinInfo P)) n]" "FeeCollectorName \<noteq> ModuleName"
      "\<not> bk_BlockedAddr (bk P) a"
    using g(2,4) n(1) by (simp_all add: fees_wired_def pb_holder_def)
  from pay_ok [OF g(1,3) p n(1)] n(2) f(2,3) show ?thesis
    unfolding bw_SendCoinsFromModuleToAccount_def converted [OF g(2)]
    by (auto simp: w pbBank_def SendCoinsFromModuleToAccount_def Let_def feeCollector_def [symmetric])
qed

lemma onSdk_Ret: "m (sdkState c) = (Ret x, p) \<Longrightarrow> onSdk m c = (Ret x, c\<lparr>sdkState := p\<rparr>)"
  by (simp add: onSdk_def go_zoom_def)

lemma ledgerTransfer_back:
  "f \<noteq> t \<Longrightarrow> ledgerTransfer t f y (ledgerTransfer f t x L) = ledgerTransfer f t (x - y) L"
  by (auto simp: ledgerTransfer_def fun_eq_iff)

section \<open>Properties\<close>

text \<open>
  C24.  Fees are exact.  A sender that can pay for the whole gas limit is charged for it; the fee
  collector can then always refund the gas that was not used.  Together the sender has paid the
  fee collector exactly the gas used times the price, in extended units, no other balance has
  changed, and the reserve still backs the fractional balances.
\<close>

theorem gas_fees_exact:
  assumes "pb_good P" "fees_wired P K" "pb_inv P (sdkState c)" "pb_holder P (AddressBytes (m_From msg))"
    and "AddressBytes (m_From msg) \<noteq> feeCollector P" "deducts_fees deductFees addrOf"
    and "getSignerAcc (AddressBytes (m_From msg)) (sdkState c) = Inr acc" "addrOf acc = AddressBytes (m_From msg)"
    and "0 < m_GasPrice msg" "uint (m_GasLimit msg) * m_GasPrice msg < 2 ^ 256" "0 < used" "used \<le> m_GasLimit msg"
    and "uint (m_GasLimit msg) * m_GasPrice msg \<le> extBalance P (sdkState c) (AddressBytes (m_From msg))"
  defines "d \<equiv> eci_Denom (bw_info (vkBank K))"
  shows "\<exists>c1 c2. DeductTxCostsFromUserBalance getSignerAcc deductFees K [NewCoin d (uint (m_GasLimit msg) * m_GasPrice msg)] (m_From msg) c = (Ret (), c1) \<and>
    vk_RefundGas K msg (m_GasLimit msg - used) d c1 = (Ret (), c2) \<and>
    extBalance P (sdkState c2) = ledgerTransfer (AddressBytes (m_From msg)) (feeCollector P) (uint used * m_GasPrice msg) (extBalance P (sdkState c)) \<and>
    pb_inv P (sdkState c2) \<and> evmStores c2 = evmStores c"
proof -
  let ?a = "AddressBytes (m_From msg)" and ?n = "uint (m_GasLimit msg) * m_GasPrice msg"
  have u: "uint (m_GasLimit msg - used) = uint (m_GasLimit msg) - uint used" "uint used \<le> uint (m_GasLimit msg)" "0 < uint used"
    using assms(11,12) by (simp_all add: uint_sub_lem word_le_def word_less_def)
  have n: "0 < ?n" using u assms(9) by (simp add: zero_less_mult_iff)
  define x where "x = uint (m_GasLimit msg - used) * m_GasPrice msg"
  have x: "x = ?n - uint used * m_GasPrice msg" "0 \<le> x" "x < ?n"
    using assms(9) u by (simp_all add: x_def u(1) left_diff_distrib)
  obtain p1 where p1: "bw_SendCoinsFromAccountToModule (vkBank K) ?a FeeCollectorName [NewCoin d ?n] (sdkState c) = (Ret (), p1)"
      "pb_inv P p1" "extBalance P p1 = ledgerTransfer ?a (feeCollector P) ?n (extBalance P (sdkState c))"
    using collect_ok [OF assms(1-5) n assms(13)] unfolding d_def by blast
  have "deductFees (bw_SendCoinsFromAccountToModule (vkBank K)) acc [NewCoin d ?n] (sdkState c) = (Ret (), p1)"
    using assms(6) n p1(1) assms(8) unfolding deducts_fees_def by (metis (no_types, lifting))
  then have D: "DeductTxCostsFromUserBalance getSignerAcc deductFees K [NewCoin d ?n] (m_From msg) c = (Ret (), c\<lparr>sdkState := p1\<rparr>)"
    by (simp add: DeductTxCostsFromUserBalance_def assms(7) go_convErr_def onSdk_Ret)
  show ?thesis
  proof (cases "x = 0")
    case True
    then have "vk_RefundGas K msg (m_GasLimit msg - used) d (c\<lparr>sdkState := p1\<rparr>) = (Ret (), c\<lparr>sdkState := p1\<rparr>)"
      by (simp add: vk_RefundGas_def x_def [symmetric] Let_def)
    moreover have "?n = uint used * m_GasPrice msg" using True x(1) by linarith
    then have "extBalance P p1 = ledgerTransfer ?a (feeCollector P) (uint used * m_GasPrice msg) (extBalance P (sdkState c))"
      using p1(3) by (simp only:)
    ultimately show ?thesis using D p1(2)
      by (intro exI [of _ "c\<lparr>sdkState := p1\<rparr>"]) (simp add: evmStores_def)
  next
    case False
    have fc: "x \<le> extBalance P p1 (feeCollector P)"
      using x(3) assms(5) pb.ledger_nonneg [OF assms(1,3), of "feeCollector P"] by (simp add: p1(3) ledgerTransfer_def)
    obtain p2 where p2: "bw_SendCoinsFromModuleToAccount (vkBank K) FeeCollectorName ?a [NewCoin d x] p1 = (Ret (), p2)"
        "pb_inv P p2" "extBalance P p2 = ledgerTransfer (feeCollector P) ?a x (extBalance P p1)"
      using refund_ok [OF assms(1,2) p1(2) assms(4,5) _ fc] False x(2) unfolding d_def by force
    have "vk_RefundGas K msg (m_GasLimit msg - used) d (c\<lparr>sdkState := p1\<rparr>) = (Ret (), c\<lparr>sdkState := p2\<rparr>)"
      using False x(2,3) assms(10) p2(1)
      by (simp add: vk_RefundGas_def x_def [symmetric] Let_def IsValidInt256_def go_convErr_def onSdk_Ret)
    moreover have "extBalance P p2 = ledgerTransfer ?a (feeCollector P) (uint used * m_GasPrice msg) (extBalance P (sdkState c))"
      unfolding p2(3) p1(3) ledgerTransfer_back [OF assms(5)] by (simp add: x(1))
    ultimately show ?thesis using D p2(2)
      by (intro exI [of _ "c\<lparr>sdkState := p1\<rparr>"] exI [of _ "c\<lparr>sdkState := p2\<rparr>"]) (simp add: evmStores_def)
  qed
qed

definition feeMsg :: core_msg where
  "feeMsg = \<lparr>m_From = 1, m_To = Some 2, m_Nonce = 0, m_Value = 0, m_GasLimit = 5, m_GasPrice = 2, m_Data = [], m_AccessList = [],
     m_SetCodeAuthorizations = []\<rparr>"

theorem gas_fees_exact_witness:
  "\<exists>c c1 c2. extBalance lgKeeper (sdkState c) (AddressBytes 1) = 100 \<and>
     DeductTxCostsFromUserBalance (\<lambda>a _. Inr a) (\<lambda>send a. send a FeeCollectorName) (appVm lgApp) [NewCoin ''utest'' 10] 1 c = (Ret (), c1) \<and>
     vk_RefundGas (appVm lgApp) feeMsg 2 ''utest'' c1 = (Ret (), c2) \<and>
     extBalance lgKeeper (sdkState c2) (AddressBytes 1) = 94 \<and> extBalance lgKeeper (sdkState c2) [8] = 6"
proof -
  have len: "length (AddressBytes 1) = 20" by (simp add: AddressBytes_def)
  then have na: "AddressBytes 1 \<noteq> [x]" for x by auto
  have g: "pb_good lgKeeper" using lg_good(1) by (simp add: app_good_def lgApp_def)
  have h: "pb_holder lgKeeper (AddressBytes 1)" using lg_good(3) [of 1] by (simp add: app_holder_def lgApp_def)
  have fcn: "FeeCollectorName = ''fee_collector''" by (simp add: FeeCollectorName_def)
  have fc: "feeCollector lgKeeper = [8]" by (simp add: feeCollector_def fcn lgAddress_def lgModules_def ModuleName_def)
  have w: "fees_wired lgKeeper (appVm lgApp)"
    using fc by (simp add: fees_wired_def lgApp_def pbWrapper_def isModule_def fcn lgModules_def ModuleName_def reserveAddr_def lgAddress_def)
  obtain p where p: "pb_inv lgKeeper p" "extBalance lgKeeper p = (extBalance lgKeeper lgState)(AddressBytes 1 := uint (100 :: u256))"
    using pb.SetBalance_sets [OF g ledger_inv h, of "pbWrapper lgKeeper (\<lambda>cs. cs) (\<lambda>cs. cs = [])" 100] by (auto simp: pbWrapper_def)
  let ?c = "lgChain\<lparr>sdkState := p\<rparr>"
  have d: "deducts_fees (\<lambda>send a. send a FeeCollectorName) (\<lambda>a. a)" by (simp add: deducts_fees_def)
  have z: "extBalance lgKeeper lgState [8] = 0" by (simp add: extBalance_eq lgState_def fm_get0_def)
  have dn: "eci_Denom (bw_info (vkBank (appVm lgApp))) = ''utest''" by (simp add: lgApp_def pbWrapper_def lgKeeper_def)
  have m: "m_From feeMsg = 1" "m_GasPrice feeMsg = 2" "m_GasLimit feeMsg = 5" "uint (m_GasLimit feeMsg) * m_GasPrice feeMsg = 10"
    by (simp_all add: feeMsg_def)
  have i: "pb_inv lgKeeper (sdkState ?c)" using p(1) by simp
  have e: "uint (m_GasLimit feeMsg) * m_GasPrice feeMsg \<le> extBalance lgKeeper (sdkState ?c) (AddressBytes (m_From feeMsg))"
    unfolding m using p(2) by simp
  have nf: "AddressBytes 1 \<noteq> feeCollector lgKeeper" unfolding fc by (rule na)
  note inst = gas_fees_exact [where getSignerAcc = "\<lambda>a _. Inr a" and used = 3,
      OF g w i h [folded m(1)] nf [folded m(1)] d refl refl _ _ _ _ e, unfolded dn m fc]
  obtain c1 c2 where
    "DeductTxCostsFromUserBalance (\<lambda>a _. Inr a) (\<lambda>send a. send a FeeCollectorName) (appVm lgApp) [NewCoin ''utest'' 10] 1 ?c = (Ret (), c1)"
    "vk_RefundGas (appVm lgApp) feeMsg (5 - 3) ''utest'' c1 = (Ret (), c2)"
    "extBalance lgKeeper (sdkState c2) = ledgerTransfer (AddressBytes 1) [8] (uint (3 :: u64) * 2) (extBalance lgKeeper (sdkState ?c))"
    using inst by auto
  then show ?thesis using p(2) z na [of 8] by (intro exI [of _ ?c] exI [of _ c1] exI [of _ c2]) (simp add: ledgerTransfer_def)
qed

end
