(* ===== verification/VmBlock.thy ===== *)
theory VmBlock
  imports VmTransitionLaws
begin

text \<open>
  Blocks, messages and genesis of the EVM module: \<open>x/vm/keeper/abci.go\<close>, \<open>x/vm/keeper/hooks.go\<close>,
  \<open>x/vm/keeper/preinstalls.go\<close>, \<open>EthereumTx\<close> and \<open>RegisterPreinstalls\<close> of \<open>x/vm/keeper/msg_server.go\<close>,
  \<open>x/vm/genesis.go\<close>, \<open>x/vm/types/genesis.go\<close>, \<open>x/vm/types/storage.go\<close> and \<open>Validate\<close> of
  \<open>x/vm/types/preinstall.go\<close>.

  Hex conversions are functions of go-ethereum, the record \<open>hex_api\<close>.  Telemetry and the
  notification of the mempool are left out; the events of a block and of a transaction are values
  that the functions return.
\<close>

section \<open>Blocks and transactions\<close>

text \<open>The event of \<open>BeginBlock\<close> carries the base fee; that of \<open>EndBlock\<close> the bloom filter of the block.\<close>

definition vm_BaseFee :: "('p, 'a) vm_keeper \<Rightarrow> chain_config \<Rightarrow> vm_header \<Rightarrow> 'p vm_ctx \<Rightarrow> int option" where
  "vm_BaseFee K CC h c = vk_GetBaseFee K (cc_IsLondon CC (vhBlockHeight h)) c"

definition vm_BeginBlock :: "('p, 'a) vm_keeper \<Rightarrow> chain_config \<Rightarrow> vm_header \<Rightarrow> 'p vm_ctx \<Rightarrow> int option \<times> 'p vm_ctx" where
  "vm_BeginBlock K CC h c = (vm_BaseFee K CC h c, SetHeaderHash K h c)"

definition vm_EndBlock :: "vm_header \<Rightarrow> 'p vm_ctx \<Rightarrow> nat" where
  "vm_EndBlock h c = GetBlockBloomTransient h c"

text \<open>The hooks run in order and pass the receipt, which is a pointer in Go, on.\<close>

fun MultiEvmHooks_PostTxProcessing :: "'p tx_hook list \<Rightarrow> 'p tx_hook" where
  "MultiEvmHooks_PostTxProcessing [] sender msg receipt = go_return receipt"
| "MultiEvmHooks_PostTxProcessing (hk # mh) sender msg receipt =
    go_bind (go_convErr (\<lambda>e. ''EVM hook failed: '' @ e) (hk sender msg receipt)) (\<lambda>receipt'.
      MultiEvmHooks_PostTxProcessing mh sender msg receipt')"

record tx_event =
  te_Amount :: int
  te_Hash :: Hash
  te_TxIndex :: u64
  te_GasUsed :: u64
  te_Recipient :: "Address option"
  te_Failed :: "string option"
  te_Logs :: "string list"

text \<open>\<open>marshalLog\<close> is the JSON encoding of a log.\<close>

fun encodeLogs :: "(Log \<Rightarrow> string + string) \<Rightarrow> Log list \<Rightarrow> string + string list" where
  "encodeLogs marshalLog [] = Inr []"
| "encodeLogs marshalLog (l # ls) =
    (case marshalLog l of
       Inl e \<Rightarrow> Inl e
     | Inr s \<Rightarrow> (case encodeLogs marshalLog ls of Inl e \<Rightarrow> Inl e | Inr ss \<Rightarrow> Inr (s # ss)))"

definition EthereumTx ::
    "('p, 'a) vm_keeper \<Rightarrow> ('p vm_ctx, 'm, 'v, 'tx) eth_api \<Rightarrow> chain_config \<Rightarrow> ('v option \<Rightarrow> 'm option \<Rightarrow> 'p vm_ctx \<Rightarrow> 'p vm_ctx) \<Rightarrow>
     'p tx_hook option \<Rightarrow> vm_header \<Rightarrow> bytes option \<Rightarrow> u64 \<Rightarrow> string + Address \<Rightarrow> (Log \<Rightarrow> string + string) \<Rightarrow> ('tx \<Rightarrow> int) \<Rightarrow> ('tx \<Rightarrow> Address option) \<Rightarrow>
     'tx \<Rightarrow> ('p tx_ctx, apply_error, MsgEthereumTxResponse \<times> tx_event) go" where
  "EthereumTx K E CC writeStores hooks h recompute blockGas coinbase marshalLog txValue txTo tx =
    go_bind (go_gets (\<lambda>t. GetTxIndexTransient (txVm t))) (\<lambda>txIndex.
    go_bind (ApplyTransaction K E CC writeStores hooks h recompute blockGas coinbase tx) (\<lambda>response.
      case encodeLogs marshalLog (Logs response) of
        Inl _ \<Rightarrow> go_err (ErrApply ''failed to encode log'')
      | Inr logAttrs \<Rightarrow> go_return (response,
          \<lparr>te_Amount = txValue tx, te_Hash = RespHash response, te_TxIndex = txIndex, te_GasUsed = GasUsed response,
           te_Recipient = txTo tx, te_Failed = (if Failed response then Some (VmError response) else None), te_Logs = logAttrs\<rparr>)))"

section \<open>Preinstalled contracts\<close>

text \<open>\<open>FromHex\<close> drops an optional prefix, \<open>Hex2Bytes\<close> does not; both ignore bad digits at the end.\<close>

record hex_api =
  Bytes2Hex :: "bytes \<Rightarrow> string"
  Hex2Bytes :: "string \<Rightarrow> bytes"
  FromHex :: "string \<Rightarrow> bytes"
  HashString :: "Hash \<Rightarrow> string"
  HexToHash :: "string \<Rightarrow> Hash"
  hexDecodes :: "string \<Rightarrow> bool"
  TrimSpace :: "string \<Rightarrow> string"

record Preinstall =
  pi_Name :: string
  pi_Address :: string
  pi_Code :: string

definition Preinstall_Validate :: "('p, 'a) vm_keeper \<Rightarrow> hex_api \<Rightarrow> Preinstall \<Rightarrow> string option" where
  "Preinstall_Validate K H p =
    (let codeStr = (if take 2 (pi_Code p) = ''0x'' \<or> take 2 (pi_Code p) = ''0X'' then drop 2 (pi_Code p) else pi_Code p)
     in if pi_Address p = [] then Some ''preinstall address cannot be empty''
        else if \<not> IsHexAddress (vkApi K) (pi_Address p) then Some ''preinstall address is not a valid hex address''
        else if pi_Code p = [] then Some ''preinstall code cannot be empty''
        else if \<not> hexDecodes H codeStr then Some ''preinstall code is not a valid hex string''
        else if IsEmptyCodeHash K (vkKeccak256 K (FromHex H (pi_Code p))) then Some ''preinstall code has empty code hash''
        else None)"

definition addPreinstall :: "('p, 'a) vm_keeper \<Rightarrow> hex_api \<Rightarrow> Preinstall \<Rightarrow> ('p vm_ctx, string, unit) go" where
  "addPreinstall K H p = (\<lambda>c.
    let addr = HexToAddress (vkApi K) (pi_Address p);
        codeHash = vkKeccak256 K (FromHex H (pi_Code p))
    in if length (pi_Code p) = 0 then (Err ''preinstall has no code'', c)
       else if IsEmptyCodeHash K codeHash then (Err ''preinstall has empty code hash'', c)
       else if \<not> IsEmptyCodeHash K (vk_GetCodeHash K c addr) \<and> vk_GetCodeHash K c addr \<noteq> codeHash
       then (Err ''preinstall already has a code hash with a different code hash'', c)
       else case au_GetAccount (vkAuth K) (sdkState c) (AddressBytes addr) of
         Some _ \<Rightarrow> (Err ''preinstall already has an account in account keeper'', c)
       | None \<Rightarrow>
          (case au_NewAccountWithAddress (vkAuth K) (AddressBytes addr) (sdkState c) of
             (acct, q) \<Rightarrow>
               (Ret (), vk_SetCode codeHash (FromHex H (pi_Code p)) (vk_SetCodeHash addr codeHash
                  (c\<lparr>sdkState := au_SetAccount (vkAuth K) acct q\<rparr>)))))"

definition AddPreinstalls :: "('p, 'a) vm_keeper \<Rightarrow> hex_api \<Rightarrow> Preinstall list \<Rightarrow> ('p vm_ctx, string, unit) go" where
  "AddPreinstalls K H preinstalls = go_for preinstalls (addPreinstall K H)"

definition RegisterPreinstalls :: "('p, 'a) vm_keeper \<Rightarrow> hex_api \<Rightarrow> string \<Rightarrow> Preinstall list \<Rightarrow> ('p vm_ctx, string, unit) go" where
  "RegisterPreinstalls K H authority preinstalls =
    (if vkAuthority K \<noteq> authority then go_err ''invalid authority'' else AddPreinstalls K H preinstalls)"

section \<open>Genesis\<close>

record State =
  st_Key :: string
  st_Value :: string

record GenesisAccount =
  ga_Address :: string
  ga_Code :: string
  ga_Storage :: "State list"

record vm_GenesisState =
  vg_Accounts :: "GenesisAccount list"
  vg_Params :: vm_Params
  vg_Preinstalls :: "Preinstall list"

definition NewState :: "hex_api \<Rightarrow> Hash \<Rightarrow> Hash \<Rightarrow> State" where
  "NewState H key v = \<lparr>st_Key = HashString H key, st_Value = HashString H v\<rparr>"

definition State_Validate :: "hex_api \<Rightarrow> State \<Rightarrow> string option" where
  "State_Validate H s = (if TrimSpace H (st_Key s) = [] then Some ''state key hash cannot be blank'' else None)"

fun Storage_Validate :: "hex_api \<Rightarrow> string list \<Rightarrow> State list \<Rightarrow> string option" where
  "Storage_Validate H seenStorage [] = None"
| "Storage_Validate H seenStorage (state # rest) =
    (if st_Key state \<in> set seenStorage then Some ''duplicate state key''
     else case State_Validate H state of
       Some e \<Rightarrow> Some e
     | None \<Rightarrow> Storage_Validate H (st_Key state # seenStorage) rest)"

definition ValidateAddress :: "vm_api \<Rightarrow> string \<Rightarrow> string option" where
  "ValidateAddress A addr = (if \<not> IsHexAddress A addr then Some ''address is not a valid ethereum hex address'' else None)"

definition GenesisAccount_Validate :: "vm_api \<Rightarrow> hex_api \<Rightarrow> GenesisAccount \<Rightarrow> string option" where
  "GenesisAccount_Validate A H ga =
    (case ValidateAddress A (ga_Address ga) of Some e \<Rightarrow> Some e | None \<Rightarrow> Storage_Validate H [] (ga_Storage ga))"

fun validateAccounts :: "vm_api \<Rightarrow> hex_api \<Rightarrow> string list \<Rightarrow> GenesisAccount list \<Rightarrow> string + string list" where
  "validateAccounts A H seenAccounts [] = Inr seenAccounts"
| "validateAccounts A H seenAccounts (acc # rest) =
    (if ga_Address acc \<in> set seenAccounts then Inl ''duplicated genesis account''
     else case GenesisAccount_Validate A H acc of
       Some e \<Rightarrow> Inl e
     | None \<Rightarrow> validateAccounts A H (ga_Address acc # seenAccounts) rest)"

fun validatePreinstalls :: "('p, 'a) vm_keeper \<Rightarrow> hex_api \<Rightarrow> string list \<Rightarrow> string list \<Rightarrow> Preinstall list \<Rightarrow> string option" where
  "validatePreinstalls K H seenAccounts seenPreinstalls [] = None"
| "validatePreinstalls K H seenAccounts seenPreinstalls (p # rest) =
    (if pi_Address p \<in> set seenPreinstalls then Some ''duplicated preinstall address''
     else case Preinstall_Validate K H p of
       Some e \<Rightarrow> Some e
     | None \<Rightarrow>
        if pi_Address p \<in> set seenAccounts then Some ''preinstall address conflicts with genesis account''
        else validatePreinstalls K H seenAccounts (pi_Address p # seenPreinstalls) rest)"

definition vm_Genesis_Validate :: "('p, 'a) vm_keeper \<Rightarrow> hex_api \<Rightarrow> vm_GenesisState \<Rightarrow> string option" where
  "vm_Genesis_Validate K H gs =
    (case validateAccounts (vkApi K) H [] (vg_Accounts gs) of
       Inl e \<Rightarrow> Some e
     | Inr seenAccounts \<Rightarrow>
        (case validatePreinstalls K H seenAccounts [] (vg_Preinstalls gs) of
           Some e \<Rightarrow> Some e
         | None \<Rightarrow> vm_Params_Validate (vkApi K) (vg_Params gs)))"

definition vm_DefaultGenesisState :: vm_GenesisState where
  "vm_DefaultGenesisState = \<lparr>vg_Accounts = [], vg_Params = vm_DefaultParams, vg_Preinstalls = []\<rparr>"

definition initAccount :: "('p, 'a) vm_keeper \<Rightarrow> hex_api \<Rightarrow> GenesisAccount \<Rightarrow> ('p vm_ctx, string, unit) go" where
  "initAccount K H ga =
    (let addr = HexToAddress (vkApi K) (ga_Address ga);
         cd = Hex2Bytes H (ga_Code ga);
         codeHash = vkKeccak256 K cd
     in go_bind (go_gets (\<lambda>c. au_GetAccount (vkAuth K) (sdkState c) (AddressBytes addr))) (\<lambda>acc.
          if acc = None then go_panic ''account not found''
          else
            go_seq (go_when (\<not> IsEmptyCodeHash K codeHash) (go_modify (vk_SetCodeHash addr codeHash)))
           (go_seq (go_when (length cd \<noteq> 0) (go_modify (vk_SetCode codeHash cd)))
             (go_for (ga_Storage ga) (\<lambda>s. go_modify (vk_SetState addr (HexToHash H (st_Key s)) (HashBytes (HexToHash H (st_Value s)))))))))"

text \<open>\<open>moduleAddr\<close> is the address of the EVM module account in x/auth.\<close>

definition vm_InitGenesis :: "('p, 'a) vm_keeper \<Rightarrow> hex_api \<Rightarrow> AccAddress \<Rightarrow> vm_GenesisState \<Rightarrow> ('p vm_ctx, string, unit) go" where
  "vm_InitGenesis K H moduleAddr gs =
    go_seq (go_must ''error setting params'' (go_zoom paramsStore (\<lambda>q c. c\<lparr>paramsStore := q\<rparr>) (vm_SetParams (vkApi K) (vg_Params gs))))
      (if moduleAddr = [] then go_panic ''the EVM module account has not been set''
       else go_seq (go_for (vg_Accounts gs) (initAccount K H)) (go_must ''error adding preinstalls'' (AddPreinstalls K H (vg_Preinstalls gs))))"

definition vm_ExportGenesis :: "('p, 'a) vm_keeper \<Rightarrow> hex_api \<Rightarrow> 'p vm_ctx \<Rightarrow> vm_GenesisState" where
  "vm_ExportGenesis K H c =
    \<lparr>vg_Accounts = IterateContracts c (\<lambda>addr codeHash accounts. (False, accounts @
       [\<lparr>ga_Address = AddressString (vkApi K) addr,
         ga_Code = Bytes2Hex H (case vk_GetCode c codeHash of None \<Rightarrow> [] | Some cd \<Rightarrow> cd),
         ga_Storage = map (\<lambda>(k, v). NewState H k v) (GetAccountStorage c addr)\<rparr>])) [],
     vg_Params = vm_GetParams (paramsStore c), vg_Preinstalls = []\<rparr>"

end
