(* ===== verification/VmBlockProps.thy ===== *)
theory VmBlockProps
  imports VmBlock
begin

text \<open>
  The ring buffer of block hashes serves exactly the last \<open>HistoryServeWindow\<close> blocks.
\<close>

section \<open>Block hashes\<close>

text \<open>The window is \<open>w\<close> and the history contract is installed.\<close>

definition historyReady :: "('p, 'a) vm_keeper \<Rightarrow> u64 \<Rightarrow> 'p vm_ctx \<Rightarrow> bool" where
  "historyReady K w c \<longleftrightarrow> historyWindow c = w \<and>
    (\<exists>acct. fst (vk_GetAccount K (vkHistoryStorageAddress K) c) = Ret (Some acct) \<and> ka_CodeHash acct \<noteq> vkEmptyCodeHash K)"

text \<open>Block \<open>n\<close> has begun, from block \<open>n0\<close> on; \<open>H\<close> gives the header hashes.  Transactions do not write the history contract's storage.\<close>

inductive chainBlocks :: "('p, 'a) vm_keeper \<Rightarrow> chain_config \<Rightarrow> u64 \<Rightarrow> (int \<Rightarrow> bytes) \<Rightarrow> int \<Rightarrow> int \<Rightarrow> 'p vm_ctx \<Rightarrow> bool"
  for K CC w H n0 where
  start: "chainBlocks K CC w H n0 (n0 - 1) c"
| block: "chainBlocks K CC w H n0 n c \<Longrightarrow> historyReady K w c2 \<Longrightarrow>
    (\<And>k. vk_GetState c2 (vkHistoryStorageAddress K) k = vk_GetState c (vkHistoryStorageAddress K) k) \<Longrightarrow>
    chainBlocks K CC w H n0 (n + 1) (snd (vm_BeginBlock K CC \<lparr>vhBlockHeight = n + 1, vhHeaderHash = H (n + 1), vhTime = t\<rparr> c2))"

lemma ringKey_eq: "ringKey a = ringKey b \<longleftrightarrow> a = b"
proof
  assume "ringKey a = ringKey b"
  then have "uint (ringKey a) = uint (ringKey b)" by simp
  moreover have "uint (ringKey x) = uint x" for x :: u64
  proof -
    have "uint x < 2 ^ 64" using unsigned_less [of x] by simp
    then have "take_bit 256 (uint x) = uint x" by (intro take_bit_int_eq_self) simp_all
    then show ?thesis by (simp add: ringKey_def unsigned_ucast_eq)
  qed
  ultimately show "a = b" by (simp add: word_uint_eq_iff)
qed simp

lemma word_mod_int: "0 \<le> m \<Longrightarrow> m < 2 ^ 64 \<Longrightarrow> uint (word_of_int m mod (w :: u64)) = m mod uint w"
  by (simp add: uint_mod uint_word_of_int_eq take_bit_int_eq_self)

lemma ring_slot_eq:
  assumes "0 \<le> a" "a < 2 ^ 64" "0 \<le> b" "b < 2 ^ 64"
  shows "ringKey (word_of_int a mod w) = ringKey (word_of_int b mod w) \<longleftrightarrow> (a - b) mod uint w = 0"
  unfolding ringKey_eq by (simp add: word_uint_eq_iff word_mod_int [OF assms(1,2)] word_mod_int [OF assms(3,4)] mod_eq_dvd_iff mod_0_imp_dvd dvd_eq_mod_eq_0)

lemma SetHeaderHash_slot:
  assumes "historyReady K w c"
  shows "vk_GetState (SetHeaderHash K h c) (vkHistoryStorageAddress K) k =
    (if k = ringKey (word_of_int (vhBlockHeight h) mod w) then BytesToHash (vhHeaderHash h) else vk_GetState c (vkHistoryStorageAddress K) k)"
  using assms by (auto simp: historyReady_def SetHeaderHash_def Let_def vk_GetState_def vk_SetState_def BytesToHash_def fromBytes_def)

lemma mod_step:
  assumes "0 < (w :: int)" "(x + 1) mod w \<noteq> 0"
  shows "(x + 1) mod w = x mod w + 1"
  using assms by (smt (verit) mod_add_left_eq mod_pos_pos_trivial pos_mod_bound pos_mod_sign mod_self)

lemma header_ring:
  assumes "chainBlocks K CC w H n0 n c" "0 < w" "0 \<le> n0" "n0 \<le> m" "m \<le> n" "n < 2 ^ 63"
  shows "vk_GetState c (vkHistoryStorageAddress K) (ringKey (word_of_int m mod w)) = BytesToHash (H (n - (n - m) mod uint w))"
  using assms(1,4-6)
proof (induction arbitrary: m rule: chainBlocks.induct)
  case (start c)
  then show ?case by simp
next
  case (block n c c2 t)
  have w: "0 < uint w" using assms(2) by (simp add: word_less_def)
  let ?h = "\<lparr>vhBlockHeight = n + 1, vhHeaderHash = H (n + 1), vhTime = t\<rparr>"
  have slot: "ringKey (word_of_int m mod w) = ringKey (word_of_int (n + 1) mod w) \<longleftrightarrow> (n + 1 - m) mod uint w = 0"
    using ring_slot_eq [of "n + 1" m w] block.prems assms(3) by auto
  have get: "vk_GetState (snd (vm_BeginBlock K CC ?h c2)) (vkHistoryStorageAddress K) k =
      (if k = ringKey (word_of_int (n + 1) mod w) then BytesToHash (H (n + 1)) else vk_GetState c (vkHistoryStorageAddress K) k)" for k
    by (simp add: vm_BeginBlock_def SetHeaderHash_slot [OF block.hyps(2)] block.hyps(3))
  show ?case
  proof (cases "(n + 1 - m) mod uint w = 0")
    case True
    then show ?thesis unfolding get slot by simp
  next
    case False
    then have "m \<noteq> n + 1" by auto
    then have "m \<le> n" using block.prems by linarith
    moreover have "(n + 1 - m) mod uint w = (n - m) mod uint w + 1"
      using mod_step [OF w, of "n - m"] False by (simp add: algebra_simps)
    ultimately show ?thesis using False block.IH [of m] block.prems unfolding get slot by simp
  qed
qed

section \<open>An example\<close>

text \<open>A chain with the history contract at address 0 and a window of two blocks.\<close>

definition ringChain :: "ledger pb_ctx vm_ctx" where
  "ringChain = lgChain\<lparr>sdkState := lgState\<lparr>bankState := (bankState lgState)\<lparr>lg_acc := fmupd (AddressBytes 0) 0 fmempty\<rparr>\<rparr>,
     codeHashStore := fmupd 0 (HashBytes 5) fmempty, paramsStore := Some (vm_DefaultParams\<lparr>vp_HistoryServeWindow := 2\<rparr>)\<rparr>"

definition ringCC :: chain_config where
  "ringCC = \<lparr>cc_ChainID = 1, cc_IsHomestead = (\<lambda>_. True), cc_IsIstanbul = (\<lambda>_. True), cc_IsLondon = (\<lambda>_. True),
     cc_IsShanghai = (\<lambda>_ _. True), cc_IsPrague = (\<lambda>_ _. True), cc_Rules = (\<lambda>_ _. \<lparr>IsEIP2929 = True, IsEIP4762 = False, IsShanghai = True\<rparr>)\<rparr>"

definition ringBlock :: "chain_config \<Rightarrow> int \<Rightarrow> ledger pb_ctx vm_ctx \<Rightarrow> ledger pb_ctx vm_ctx" where
  "ringBlock CC n c = snd (vm_BeginBlock (appVm lgApp) CC \<lparr>vhBlockHeight = n, vhHeaderHash = [of_int n], vhTime = 0\<rparr> c)"

lemma ringReady: "historyReady (appVm lgApp) 2 c" if "sdkState c = sdkState ringChain" "codeHashStore c = codeHashStore ringChain" "paramsStore c = paramsStore ringChain"
proof -
  have k: "vkHistoryStorageAddress (appVm lgApp) = 0" "vkEmptyCodeHash (appVm lgApp) = 0" by (simp_all add: lgApp_def vkEmptyCodeHash_def)
  have a: "GetAccountWithoutBalance (appVm lgApp) c 0 = Some \<lparr>ka_Nonce = 0, ka_Balance = None, ka_CodeHash = 5\<rparr>"
    using that by (simp add: GetAccountWithoutBalance_def ringChain_def lgApp_def lgAuth_def vk_GetCodeHash_def)
  have "\<exists>b. vk_SpendableCoin (appVm lgApp) 0 c = (Ret b, c)"
    by (simp add: vk_SpendableCoin_def lgApp_def bw_SpendableCoin_def onSdk_def go_zoom_def)
  then have "\<exists>b. fst (vk_GetAccount (appVm lgApp) 0 c) = Ret (Some \<lparr>ka_Nonce = 0, ka_Balance = b, ka_CodeHash = 5\<rparr>)"
    by (auto simp: vk_GetAccount_def a go_bind_def)
  moreover have "historyWindow c = 2" using that(3) by (simp add: historyWindow_def ringChain_def Let_def vm_GetParams_def)
  ultimately show ?thesis by (auto simp: historyReady_def k)
qed

lemma ringBlock_keeps: "sdkState (ringBlock CC n c) = sdkState c" "codeHashStore (ringBlock CC n c) = codeHashStore c" "paramsStore (ringBlock CC n c) = paramsStore c"
  by (simp_all add: ringBlock_def vm_BeginBlock_def SetHeaderHash_def Let_def vk_SetState_def split: outcome.split option.split)

section \<open>Properties\<close>

text \<open>
  C30.  Block hashes.  During block \<open>n\<close>, the hash function of the EVM gives for every earlier height
  since the history contract was installed the hash of the last block whose height is congruent
  modulo the window.  That is the hash of the block itself for the last \<open>window - 1\<close> heights, and the
  hash of a later block for all others.
\<close>

theorem block_hashes:
  assumes "chainBlocks K CC w H n0 n c" "0 < w" "0 \<le> n0" "n0 \<le> m" "m < n" "n < 2 ^ 63"
    and "vhBlockHeight h = n" "historyWindow c' = w"
    and "\<forall>k. vk_GetState c' (vkHistoryStorageAddress K) k = vk_GetState c (vkHistoryStorageAddress K) k"
  shows "GetHashFn K h recompute c' (word_of_int m) = BytesToHash (H (n - (n - m) mod uint w)) \<and>
    (if n - m < uint w then n - (n - m) mod uint w = m else m < n - (n - m) mod uint w)"
proof -
  have w: "0 < uint w" using assms(2) by (simp add: word_less_def)
  have u: "uint (word_of_int m :: u64) = m" using assms(3-6) by (simp add: uint_word_of_int_eq take_bit_int_eq_self)
  have "GetHashFn K h recompute c' (word_of_int m) = GetHeaderHash K c' (word_of_int m)"
    using assms(3-7) u by (auto simp: GetHashFn_def SafeInt64_def Let_def word_less_def split: option.split)
  also have "\<dots> = BytesToHash (H (n - (n - m) mod uint w))"
    using header_ring [OF assms(1-4) _ assms(6)] assms(5,8,9) by (simp add: GetHeaderHash_def)
  finally have "GetHashFn K h recompute c' (word_of_int m) = BytesToHash (H (n - (n - m) mod uint w))" .
  moreover have "(n - m) mod uint w < n - m" if "\<not> n - m < uint w" using that w by (smt (verit) pos_mod_bound)
  ultimately show ?thesis using assms(5) w by (auto simp: mod_pos_pos_trivial)
qed

theorem block_hashes_witness:
  "GetHashFn (appVm lgApp) \<lparr>vhBlockHeight = 3, vhHeaderHash = [3], vhTime = 0\<rparr> None (ringBlock ringCC 3 (ringBlock ringCC 2 (ringBlock ringCC 1 ringChain))) 2 = BytesToHash [2] \<and>
   GetHashFn (appVm lgApp) \<lparr>vhBlockHeight = 3, vhHeaderHash = [3], vhTime = 0\<rparr> None (ringBlock ringCC 3 (ringBlock ringCC 2 (ringBlock ringCC 1 ringChain))) 1 = BytesToHash [3]"
proof -
  let ?K = "appVm lgApp" and ?H = "\<lambda>n. [of_int n :: 8 word]" and ?c = "ringBlock ringCC 3 (ringBlock ringCC 2 (ringBlock ringCC 1 ringChain))"
  have step: "chainBlocks ?K ringCC 2 ?H 1 (n + 1) (ringBlock ringCC (n + 1) c)"
    if "chainBlocks ?K ringCC 2 ?H 1 n c" "historyReady ?K 2 c" for n c
    unfolding ringBlock_def by (rule chainBlocks.block [OF that]) simp
  have "chainBlocks ?K ringCC 2 ?H 1 0 ringChain" using chainBlocks.start [of ?K ringCC 2 ?H 1 ringChain] by simp
  then have "chainBlocks ?K ringCC 2 ?H 1 1 (ringBlock ringCC 1 ringChain)" using step [of 0 ringChain] ringReady by simp
  then have "chainBlocks ?K ringCC 2 ?H 1 2 (ringBlock ringCC 2 (ringBlock ringCC 1 ringChain))"
    using step [of 1 "ringBlock ringCC 1 ringChain"] ringReady by (simp add: ringBlock_keeps)
  then have c: "chainBlocks ?K ringCC 2 ?H 1 3 ?c"
    using step [of 2 "ringBlock ringCC 2 (ringBlock ringCC 1 ringChain)"] ringReady by (simp add: ringBlock_keeps)
  have w: "historyWindow ?c = 2" by (simp add: historyWindow_def ringBlock_keeps ringChain_def vm_GetParams_def Let_def)
  note b = block_hashes [OF c, of _ "\<lparr>vhBlockHeight = 3, vhHeaderHash = [3], vhTime = 0\<rparr>" ?c None]
  show ?thesis using b [of 2] b [of 1] w by simp
qed

end
