(* ===== verification/VmGenesis.thy ===== *)
theory VmGenesis
  imports VmBlock
begin

text \<open>
  The exported genesis of the EVM module restores its stores: \<open>InitGenesis\<close> after \<open>ExportGenesis\<close>,
  \<open>x/vm/genesis.go\<close>.
\<close>

section \<open>Bytes\<close>

lemma toBytes_fromBytes: "toBytes (length bs) (fromBytes bs) = bs"
proof (induction bs rule: rev_induct)
  case (snoc b bs)
  have "unat b < 256" using unsigned_less [of b] by simp
  then show ?case using snoc by simp
qed (simp add: fromBytes_def)

lemma fromBytes_less: "fromBytes bs < 256 ^ length bs"
proof (induction bs rule: rev_induct)
  case (snoc b bs)
  have "unat b < 256" using unsigned_less [of b] by simp
  then show ?case using snoc by simp
qed (simp add: fromBytes_def)

lemma HashBytes_BytesToHash: "length bs = 32 \<Longrightarrow> HashBytes (BytesToHash bs) = bs"
  using fromBytes_less [of bs] toBytes_fromBytes [of bs]
  by (simp add: HashBytes_def BytesToHash_def unat_of_nat take_bit_nat_eq_self)

lemma length_HashBytes: "length (HashBytes h) = 32"
  by (simp add: HashBytes_def)

section \<open>The exported accounts\<close>

lemma forEach_snoc: "forEach (\<lambda>k v acc. (True, acc @ [(k, v)])) kvs acc = acc @ kvs"
  by (induction kvs arbitrary: acc) auto

lemma GetAccountStorage_eq: "GetAccountStorage c addr = storageEntries c addr"
  by (simp add: GetAccountStorage_def vk_ForEachStorage_def forEach_snoc)

lemma iterContracts_snoc: "iterContracts (\<lambda>a h acc. (False, acc @ [f a h])) ahs acc = acc @ map (\<lambda>(a, h). f a h) ahs"
  by (induction ahs arbitrary: acc) auto

definition exportAccount :: "('p, 'a) vm_keeper \<Rightarrow> hex_api \<Rightarrow> 'p vm_ctx \<Rightarrow> Address \<Rightarrow> GenesisAccount" where
  "exportAccount K H c addr =
    \<lparr>ga_Address = AddressString (vkApi K) addr,
     ga_Code = Bytes2Hex H (case vk_GetCode c (BytesToHash (the (fmlookup (codeHashStore c) addr))) of None \<Rightarrow> [] | Some cd \<Rightarrow> cd),
     ga_Storage = map (\<lambda>(k, v). NewState H k v) (storageEntries c addr)\<rparr>"

lemma vm_ExportGenesis_eq:
  "vm_ExportGenesis K H c = \<lparr>vg_Accounts = map (exportAccount K H c) (sorted_list_of_fset (fmdom (codeHashStore c))),
    vg_Params = vm_GetParams (paramsStore c), vg_Preinstalls = []\<rparr>"
  by (simp add: vm_ExportGenesis_def IterateContracts_def iterContracts_snoc GetAccountStorage_eq exportAccount_def comp_def)

lemma storageKeys_set: "set (storageKeys c addr) = {k. fmlookup (storageStore c) (addr, k) \<noteq> None}"
  by (force simp: storageKeys_def fmlookup_dom_iff sorted_list_of_fset.rep_eq image_iff)

section \<open>Contracts\<close>

text \<open>The conversions to and from hexadecimal of go-ethereum are inverse.\<close>

definition hex_contract :: "vm_api \<Rightarrow> hex_api \<Rightarrow> bool" where
  "hex_contract A H \<longleftrightarrow> (\<forall>b. Hex2Bytes H (Bytes2Hex H b) = b) \<and> (\<forall>h. HexToHash H (HashString H h) = h) \<and>
    (\<forall>a. HexToAddress A (AddressString A a) = a)"

text \<open>Every code hash is that of stored code, and every stored value is a word.\<close>

definition vm_consistent :: "('p, 'a) vm_keeper \<Rightarrow> 'p vm_ctx \<Rightarrow> bool" where
  "vm_consistent K c \<longleftrightarrow>
    (\<forall>addr bz. fmlookup (codeHashStore c) addr = Some bz \<longrightarrow>
      (\<exists>cd. cd \<noteq> [] \<and> vkKeccak256 K cd \<noteq> vkEmptyCodeHash K \<and> bz = HashBytes (vkKeccak256 K cd) \<and>
         fmlookup (codeStore c) (vkKeccak256 K cd) = Some cd)) \<and>
    (\<forall>ak v. fmlookup (storageStore c) ak = Some v \<longrightarrow> length v = 32)"

text \<open>What initialising the contracts \<open>as\<close> makes of the stores of \<open>c0\<close>.\<close>

definition restores :: "'p vm_ctx \<Rightarrow> Address set \<Rightarrow> 'p vm_ctx \<Rightarrow> 'p vm_ctx \<Rightarrow> bool" where
  "restores c as c0 c1 \<longleftrightarrow> sdkState c1 = sdkState c0 \<and> paramsStore c1 = paramsStore c0 \<and>
    (\<forall>a. fmlookup (codeHashStore c1) a = (if a \<in> as then fmlookup (codeHashStore c) a else fmlookup (codeHashStore c0) a)) \<and>
    (\<forall>a k. fmlookup (storageStore c1) (a, k) =
      (if a \<in> as \<and> fmlookup (storageStore c) (a, k) \<noteq> None then fmlookup (storageStore c) (a, k) else fmlookup (storageStore c0) (a, k))) \<and>
    (\<forall>h. fmlookup (codeStore c1) h =
      (if \<exists>a\<in>as. fmlookup (codeHashStore c) a = Some (HashBytes h) then fmlookup (codeStore c) h else fmlookup (codeStore c0) h))"

lemma restores_empty: "restores c {} c0 c0"
  by (simp add: restores_def)

lemma restores_union: "restores c as c0 c1 \<Longrightarrow> restores c bs c1 c2 \<Longrightarrow> restores c (as \<union> bs) c0 c2"
  unfolding restores_def by (auto; metis)

lemma HashBytes_inj [simp]: "HashBytes a = HashBytes b \<longleftrightarrow> a = b"
  by (metis BytesToHash_HashBytes)

lemma writeStorage_eq:
  "go_for (map (\<lambda>(k, v). NewState H k v) kvs) (\<lambda>s. go_modify (vk_SetState addr (HexToHash H (st_Key s)) (HashBytes (HexToHash H (st_Value s))))) c0
    = (Ret (), fold (\<lambda>(k, v). vk_SetState addr k (HashBytes v)) kvs c0)"
  if "\<forall>h. HexToHash H (HashString H h) = h"
  using that by (induction kvs arbitrary: c0) (auto simp: NewState_def)

lemma fold_SetState:
  "storageStore (fold (\<lambda>(k, v). vk_SetState addr k (HashBytes v)) kvs c0) = fold (\<lambda>(k, v). fmupd (addr, k) (HashBytes v)) kvs (storageStore c0)"
  "codeStore (fold (\<lambda>(k, v). vk_SetState addr k (HashBytes v)) kvs c0) = codeStore c0"
  "codeHashStore (fold (\<lambda>(k, v). vk_SetState addr k (HashBytes v)) kvs c0) = codeHashStore c0"
  "sdkState (fold (\<lambda>(k, v). vk_SetState addr k (HashBytes v)) kvs c0) = sdkState c0"
  "paramsStore (fold (\<lambda>(k, v). vk_SetState addr k (HashBytes v)) kvs c0) = paramsStore c0"
  by (induction kvs arbitrary: c0) (auto simp: vk_SetState_def)

lemma fold_fmupd_map:
  "fmlookup (fold (\<lambda>(k, v). fmupd (addr, k) (HashBytes v)) (map (\<lambda>k. (k, f k)) ks) m) (a, k) =
    (if a = addr \<and> k \<in> set ks then Some (HashBytes (f k)) else fmlookup m (a, k))"
  by (induction ks arbitrary: m) auto

lemma fold_storageEntries:
  assumes "vm_consistent K c"
  shows "fmlookup (fold (\<lambda>(k, v). fmupd (addr, k) (HashBytes v)) (storageEntries c addr) m) (a, k) =
    (if a = addr \<and> fmlookup (storageStore c) (a, k) \<noteq> None then fmlookup (storageStore c) (a, k) else fmlookup m (a, k))"
  using assms unfolding storageEntries_def fold_fmupd_map
  by (auto simp: storageKeys_set vm_consistent_def HashBytes_BytesToHash)

lemma initAccount_restores:
  assumes "hex_contract (vkApi K) H" "vm_consistent K c" "fmlookup (codeHashStore c) addr = Some bz"
    and acc: "au_GetAccount (vkAuth K) (sdkState c0) (AddressBytes addr) \<noteq> None"
  shows "\<exists>c1. initAccount K H (exportAccount K H c addr) c0 = (Ret (), c1) \<and> restores c {addr} c0 c1"
proof -
  obtain cd where cd: "cd \<noteq> []" "vkKeccak256 K cd \<noteq> vkEmptyCodeHash K" "bz = HashBytes (vkKeccak256 K cd)"
      "fmlookup (codeStore c) (vkKeccak256 K cd) = Some cd"
    using assms(2,3) unfolding vm_consistent_def by blast
  let ?c1 = "vk_SetCode (vkKeccak256 K cd) cd (vk_SetCodeHash addr (vkKeccak256 K cd) c0)"
  let ?c2 = "fold (\<lambda>(k, v). vk_SetState addr k (HashBytes v)) (storageEntries c addr) ?c1"
  have H: "HexToAddress (vkApi K) (AddressString (vkApi K) a) = a" "Hex2Bytes H (Bytes2Hex H b) = b" "\<forall>h. HexToHash H (HashString H h) = h" for a b
    using assms(1) by (simp_all add: hex_contract_def)
  have "vk_GetCode c (BytesToHash (the (fmlookup (codeHashStore c) addr))) = Some cd"
    using assms(3) cd by (simp add: vk_GetCode_def)
  then have "initAccount K H (exportAccount K H c addr) c0 = (Ret (), ?c2)"
    using acc cd H(1,2) writeStorage_eq [OF H(3), of "storageEntries c addr" addr ?c1]
    by (simp add: initAccount_def exportAccount_def IsEmptyCodeHash_def Let_def)
  moreover have "restores c {addr} c0 ?c2"
    unfolding restores_def fold_SetState fold_storageEntries [OF assms(2)]
    using assms(3) cd by (auto simp: vk_SetCode_def vk_SetCodeHash_def)
  ultimately show ?thesis by blast
qed

lemma initAccounts_restore:
  assumes "hex_contract (vkApi K) H" "vm_consistent K c"
    and "\<forall>a\<in>set as. fmlookup (codeHashStore c) a \<noteq> None \<and> au_GetAccount (vkAuth K) (sdkState c0) (AddressBytes a) \<noteq> None"
  shows "\<exists>c1. go_for (map (exportAccount K H c) as) (initAccount K H) c0 = (Ret (), c1) \<and> restores c (set as) c0 c1"
  using assms(3)
proof (induction as arbitrary: c0)
  case Nil
  then show ?case by (simp add: restores_empty)
next
  case (Cons a as)
  then obtain bz c1 where 1: "initAccount K H (exportAccount K H c a) c0 = (Ret (), c1)" "restores c {a} c0 c1"
    using initAccount_restores [OF assms(1,2)] by (metis list.set_intros(1) option.exhaust)
  have "\<forall>b\<in>set as. fmlookup (codeHashStore c) b \<noteq> None \<and> au_GetAccount (vkAuth K) (sdkState c1) (AddressBytes b) \<noteq> None"
    using Cons.prems 1(2) by (simp add: restores_def)
  then obtain c2 where 2: "go_for (map (exportAccount K H c) as) (initAccount K H) c1 = (Ret (), c2)" "restores c (set as) c1 c2"
    using Cons.IH by blast
  show ?case using 1(1) 2(1) restores_union [OF 1(2) 2(2)] by simp
qed

section \<open>An example\<close>

fun unhex :: "string \<Rightarrow> bytes" where
  "unhex (a # b # s) = of_nat (hexParse [a, b]) # unhex s"
| "unhex _ = []"

definition hexBytes :: hex_api where
  "hexBytes = \<lparr>Bytes2Hex = (\<lambda>b. concat (map (\<lambda>x. hexPrint 2 (unat x)) b)), Hex2Bytes = unhex,
     FromHex = (\<lambda>s. unhex (if take 2 s = ''0x'' then drop 2 s else s)), HashString = (\<lambda>h. ''0x'' @ hexPrint 64 (unat h)),
     HexToHash = (\<lambda>s. of_nat (hexParse (drop 2 s))), hexDecodes = (\<lambda>s. even (length s) \<and> set s \<subseteq> set hexDigits), TrimSpace = filter (\<lambda>x. x \<noteq> CHR '' '')\<rparr>"

lemma unhex_bytes: "unhex (concat (map (\<lambda>x. hexPrint 2 (unat x)) b)) = b"
proof (induction b)
  case (Cons x b)
  obtain u v where uv: "hexPrint 2 (unat x) = [u, v]"
    using hexPrint_props(1) [of 2 "unat x"] by (auto simp: numeral_2_eq_2 length_Suc_conv)
  have "unat x < 256" using unsigned_less [of x] by simp
  then have "hexParse [u, v] = unat x" using hexParse_hexPrint [of 2 "unat x"] uv by simp
  then show ?case using Cons uv by simp
qed simp

lemma hexBytes_contract: "hex_contract hexApi hexBytes"
proof -
  have "of_nat (hexParse (hexPrint 64 (unat h))) = h" for h :: Hash
    using unsigned_less [of h, where 'a = nat] by (simp add: hexParse_hexPrint)
  moreover have "of_nat (hexParse (hexPrint 40 (unat a))) = a" for a :: Address
    using unsigned_less [of a, where 'a = nat] by (simp add: hexParse_hexPrint)
  ultimately show ?thesis by (simp add: hex_contract_def hexBytes_def hexApi_def unhex_bytes)
qed

text \<open>A chain with a contract at address 1, and storage left at address 2.\<close>

definition exportedChain :: "ledger pb_ctx vm_ctx" where
  "exportedChain = lgChain\<lparr>sdkState := lgState\<lparr>bankState := (bankState lgState)\<lparr>lg_acc := fmupd (AddressBytes 1) 0 fmempty\<rparr>\<rparr>,
     codeHashStore := fmupd 1 (HashBytes 1) fmempty, codeStore := fmupd 1 [6] fmempty,
     storageStore := fmupd (1, 7) (HashBytes 8) (fmupd (2, 7) (HashBytes 9) fmempty)\<rparr>"

section \<open>Round trip\<close>

text \<open>
  C31. Exporting the EVM module and initialising it again over empty stores and the same accounts
  succeeds and restores the parameters, every code hash, the code of every contract and the storage
  of every contract.  Code that no account refers to and the storage of accounts without code are
  dropped; the latter exists after an account has delegated to a contract and withdrawn the
  delegation.
\<close>

theorem vm_genesis_roundtrip:
  assumes "hex_contract (vkApi K) H" "vm_consistent K c"
    and "vm_Params_Validate (vkApi K) (vm_GetParams (paramsStore c)) = None" "sorted (vp_ActiveStaticPrecompiles (vm_GetParams (paramsStore c)))"
    and "\<forall>a\<in>fset (fmdom (codeHashStore c)). au_GetAccount (vkAuth K) (sdkState c) (AddressBytes a) \<noteq> None"
    and "sdkState c0 = sdkState c" "codeHashStore c0 = fmempty" "codeStore c0 = fmempty" "storageStore c0 = fmempty"
    and "moduleAddr \<noteq> []"
  shows "\<exists>c1. vm_InitGenesis K H moduleAddr (vm_ExportGenesis K H c) c0 = (Ret (), c1) \<and>
    vm_GetParams (paramsStore c1) = vm_GetParams (paramsStore c) \<and> codeHashStore c1 = codeHashStore c \<and>
    (\<forall>a h. fmlookup (codeHashStore c) a = Some (HashBytes h) \<longrightarrow> vk_GetCode c1 h = vk_GetCode c h) \<and>
    (\<forall>a k. fmlookup (storageStore c1) (a, k) = (if vk_IsContract c a then fmlookup (storageStore c) (a, k) else None))"
proof -
  let ?P = "vm_GetParams (paramsStore c)" and ?as = "sorted_list_of_fset (fmdom (codeHashStore c))"
  have set: "set ?as = {a. fmlookup (codeHashStore c) a \<noteq> None}" by (auto simp: fmlookup_dom_iff sorted_list_of_fset.rep_eq)
  have p: "vm_SetParams (vkApi K) ?P (paramsStore c0) = (Ret (), Some ?P)"
    using assms(3,4) by (cases rule: vm_SetParams_cases [of "vkApi K" ?P "paramsStore c0"]) (auto simp: vm_SetParams_def Let_def sorted_sort_id)
  let ?c = "c0\<lparr>paramsStore := Some ?P\<rparr>"
  have "\<forall>a\<in>set ?as. fmlookup (codeHashStore c) a \<noteq> None \<and> au_GetAccount (vkAuth K) (sdkState ?c) (AddressBytes a) \<noteq> None"
    using assms(5,6) by (auto simp: fmlookup_dom_iff sorted_list_of_fset.rep_eq)
  from initAccounts_restore [OF assms(1,2) this] obtain c1
    where c1: "go_for (map (exportAccount K H c) ?as) (initAccount K H) ?c = (Ret (), c1)" "restores c (set ?as) ?c c1" by blast
  have "vm_InitGenesis K H moduleAddr (vm_ExportGenesis K H c) c0 = (Ret (), c1)"
    using assms(10) p c1(1) by (simp add: vm_InitGenesis_def vm_ExportGenesis_eq go_must_def go_zoom_def go_bind_def AddPreinstalls_def)
  moreover have "codeHashStore c1 = codeHashStore c"
    using c1(2) set assms(7) by (intro fmap_ext) (auto simp: restores_def)
  moreover have "vk_GetCode c1 h = vk_GetCode c h" if "fmlookup (codeHashStore c) a = Some (HashBytes h)" for a h
    using c1(2) set that by (force simp: restores_def vk_GetCode_def)
  moreover have "fmlookup (storageStore c1) (a, k) = (if vk_IsContract c a then fmlookup (storageStore c) (a, k) else None)" for a k
    using c1(2) set assms(9) by (simp add: restores_def vk_IsContract_def)
  moreover have "vm_GetParams (paramsStore c1) = ?P" using c1(2) by (simp add: restores_def vm_GetParams_def)
  ultimately show ?thesis by blast
qed

theorem vm_genesis_roundtrip_witness:
  "\<exists>c1. vm_InitGenesis (appVm lgApp) hexBytes [1] (vm_ExportGenesis (appVm lgApp) hexBytes exportedChain)
      (exportedChain\<lparr>codeHashStore := fmempty, codeStore := fmempty, storageStore := fmempty, paramsStore := None\<rparr>) = (Ret (), c1) \<and>
    vk_GetCode c1 1 = Some [6] \<and> fmlookup (storageStore c1) (1, 7) = Some (HashBytes 8) \<and> fmlookup (storageStore c1) (2, 7) = None"
proof -
  let ?K = "appVm lgApp"
  have K: "vkApi ?K = hexApi" "vkKeccak256 ?K = (\<lambda>cd. of_nat (length cd))" by (simp_all add: lgApp_def)
  have "vm_consistent ?K exportedChain"
    by (auto simp: vm_consistent_def exportedChain_def K vkEmptyCodeHash_def length_HashBytes split: if_splits intro!: exI [of _ "[6]"])
  moreover have "vm_Params_Validate (vkApi ?K) (vm_GetParams (paramsStore exportedChain)) = None"
      "vp_ActiveStaticPrecompiles (vm_GetParams (paramsStore exportedChain)) = []"
    by (simp_all add: K exportedChain_def lgChain_def vm_GetParams_def ZeroParams_valid) (simp add: vm_ZeroParams_def vm_DefaultParams_def)
  moreover have "au_GetAccount (vkAuth ?K) (sdkState exportedChain) (AddressBytes 1) \<noteq> None" "fset (fmdom (codeHashStore exportedChain)) = {1}"
    by (simp_all add: exportedChain_def lgApp_def lgAuth_def)
  ultimately show ?thesis
    using vm_genesis_roundtrip [of ?K hexBytes exportedChain "exportedChain\<lparr>codeHashStore := fmempty, codeStore := fmempty, storageStore := fmempty, paramsStore := None\<rparr>" "[1]"]
    by (auto simp: K hexBytes_contract exportedChain_def vk_GetCode_def vk_IsContract_def)
qed

end
