(* ===== verification/Erc20Store.thy ===== *)
theory Erc20Store
  imports VmBlock
begin

text \<open>
  The stores of the ERC-20 module: token pairs with their two indices, allowances, parameters and
  the registered precompiles.  \<open>x/erc20/keeper/{token_pairs,allowance,params,precompiles}.go\<close>,
  \<open>x/erc20/types/{token_pair,allowance,keys,params,utils}.go\<close>.

  The keeper reaches x/bank, x/auth, x/staking and x/vm through interfaces
  (\<open>x/erc20/types/interfaces.go\<close>); they are the fields of the record \<open>erc20_keeper\<close>, which work on a
  state of type \<open>'c\<close> that holds the stores of these modules; a call of the EVM works on the whole context.  SHA-256, the ABI codec, address and denom
  formats belong to libraries and are fields of the same record.
\<close>

section \<open>Data\<close>

datatype Owner = OWNER_UNSPECIFIED | OWNER_MODULE | OWNER_EXTERNAL

record TokenPair =
  tp_Erc20Address :: string
  tp_Denom :: denom
  tp_Enabled :: bool
  tp_ContractOwner :: Owner

record Allowance =
  al_Erc20Address :: string
  al_Owner :: string
  al_Spender :: string
  al_Value :: int

record erc20_Params =
  EnableErc20 :: bool
  PermissionlessRegistration :: bool

record DenomUnit =
  du_Denom :: denom
  du_Exponent :: u32

record Metadata =
  md_Description :: string
  md_Base :: denom
  md_DenomUnits :: "DenomUnit list"
  md_Name :: string
  md_Symbol :: string
  md_Display :: denom

datatype erc20_error = ErrERC20Disabled | ErrInternalTokenPair | ErrTokenPairNotFound | ErrTokenPairAlreadyExists
  | ErrUndefinedOwner | ErrBalanceInvariance | ErrUnexpectedEvent | ErrExpectedEvent | ErrABIPack | ErrABIUnpack | ErrEVMCall
  | ErrERC20TokenPairDisabled | ErrNativeConversionDisabled | ErrInvalidAllowance | ErrNegativeToken | ErrInvalidSigner
  | ErrSdk sdk_error | ErrEvm apply_error | ErrErcOther string

datatype erc20_event =
  EvConvertERC20 string string int denom string
| EvRegisterERC20 denom string
| EvToggleTokenConversion denom string
| EvRegisterERC20Extension string string denom
| EvCallbackFailure denom AccAddress
| EvFailedConvertERC20 denom string

text \<open>The store of the module; the keys of the precompile stores are hex strings.\<close>

record erc20_store =
  tokenPairStore :: "(bytes, TokenPair) fmap"
  erc20Map :: "(bytes, bytes) fmap"
  denomMap :: "(denom, bytes) fmap"
  allowanceStore :: "(bytes, Allowance) fmap"
  nativePrecompiles :: "string fset"
  dynamicPrecompiles :: "string fset"
  enableErc20 :: bool
  permissionless :: bool

record 'c erc_ctx =
  ercStore :: erc20_store
  ercEvents :: "erc20_event list"
  ercRest :: 'c

type_synonym ('c, 'x) erc_go = "('c erc_ctx, erc20_error, 'x) go"

text \<open>The calls that the keeper makes on a token contract.\<close>

datatype erc20_call = ERC20_name | ERC20_symbol | ERC20_decimals | ERC20_balanceOf Address | ERC20_transfer Address int

text \<open>Formats and codecs.\<close>

record erc20_lib =
  el_Api :: vm_api
  el_Sum :: "string \<Rightarrow> bytes"
  el_ValidateDenom :: "denom \<Rightarrow> bool"
  el_AccAddressFromBech32 :: "string \<Rightarrow> AccAddress option"
  el_StringToBytes :: "string \<Rightarrow> AccAddress option"
  el_ParseHexHash :: "string \<Rightarrow> bytes option"
  el_TrimSpace :: "string \<Rightarrow> string"
  el_Pack :: "erc20_call \<Rightarrow> string + bytes"
  el_UnpackString :: "bytes \<Rightarrow> string option"
  el_UnpackUint8 :: "bytes \<Rightarrow> u8 option"
  el_UnpackBool :: "bytes \<Rightarrow> bool option"
  el_UnpackBalance :: "bytes \<Rightarrow> int option"
  el_ValidateMetadata :: "Metadata \<Rightarrow> string option"
  el_Keccak256 :: "bytes \<Rightarrow> Hash"

text \<open>The bank keeper.\<close>

record 'c erc20_bank =
  eb20_GetBalance :: "'c \<Rightarrow> AccAddress \<Rightarrow> denom \<Rightarrow> int"
  eb20_BlockedAddr :: "AccAddress \<Rightarrow> bool"
  eb20_IsSendEnabledCoin :: "'c \<Rightarrow> denom \<Rightarrow> bool"
  eb20_MintCoins :: "string \<Rightarrow> coins \<Rightarrow> ('c, sdk_error, unit) go"
  eb20_BurnCoins :: "string \<Rightarrow> coins \<Rightarrow> ('c, sdk_error, unit) go"
  eb20_SendCoinsFromModuleToAccount :: "string \<Rightarrow> AccAddress \<Rightarrow> coins \<Rightarrow> ('c, sdk_error, unit) go"
  eb20_SendCoinsFromAccountToModule :: "AccAddress \<Rightarrow> string \<Rightarrow> coins \<Rightarrow> ('c, sdk_error, unit) go"
  eb20_GetDenomMetaData :: "'c \<Rightarrow> denom \<Rightarrow> Metadata option"
  eb20_SetDenomMetaData :: "Metadata \<Rightarrow> 'c \<Rightarrow> 'c"

text \<open>The EVM keeper.  A call may reach the store of this module through the token precompiles.\<close>

record 'c erc20_evm =
  ee_GetAccountWithoutBalance :: "'c \<Rightarrow> Address \<Rightarrow> keeperAccount option"
  ee_GetAccount :: "Address \<Rightarrow> ('c, sdk_error, keeperAccount option) go"
  ee_SetAccount :: "Address \<Rightarrow> keeperAccount \<Rightarrow> ('c, sdk_error, unit) go"
  ee_GetCode :: "'c \<Rightarrow> Hash \<Rightarrow> bytes option"
  ee_SetCode :: "Hash \<Rightarrow> bytes \<Rightarrow> 'c \<Rightarrow> 'c"
  ee_CallEVMWithData :: "Address \<Rightarrow> Address option \<Rightarrow> bytes \<Rightarrow> bool \<Rightarrow> ('c erc_ctx, apply_error, MsgEthereumTxResponse) go"

record 'c erc20_keeper =
  ek_Lib :: erc20_lib
  ek_Bank :: "'c erc20_bank"
  ek_Evm :: "'c erc20_evm"
  ek_Authority :: string
  ek_ModuleAddress :: Address
  ek_TransferSig :: Hash
  ek_EmptyCodeHash :: Hash
  ek_Erc20Bytecode :: bytes
  ek_IsModuleAccount :: "'c \<Rightarrow> AccAddress \<Rightarrow> bool"
  ek_BondDenom :: "'c \<Rightarrow> string + denom"

abbreviation "ek_Api K \<equiv> el_Api (ek_Lib K)"
abbreviation "ek_Sum K \<equiv> el_Sum (ek_Lib K)"
abbreviation "ek_ValidateDenom K \<equiv> el_ValidateDenom (ek_Lib K)"
abbreviation "ek_AccAddressFromBech32 K \<equiv> el_AccAddressFromBech32 (ek_Lib K)"
abbreviation "ek_StringToBytes K \<equiv> el_StringToBytes (ek_Lib K)"
abbreviation "ek_ParseHexHash K \<equiv> el_ParseHexHash (ek_Lib K)"
abbreviation "ek_TrimSpace K \<equiv> el_TrimSpace (ek_Lib K)"
abbreviation "ek_Pack K \<equiv> el_Pack (ek_Lib K)"
abbreviation "ek_UnpackString K \<equiv> el_UnpackString (ek_Lib K)"
abbreviation "ek_UnpackUint8 K \<equiv> el_UnpackUint8 (ek_Lib K)"
abbreviation "ek_UnpackBool K \<equiv> el_UnpackBool (ek_Lib K)"
abbreviation "ek_UnpackBalance K \<equiv> el_UnpackBalance (ek_Lib K)"
abbreviation "ek_ValidateMetadata K \<equiv> el_ValidateMetadata (ek_Lib K)"
abbreviation "ek_Keccak256 K \<equiv> el_Keccak256 (ek_Lib K)"
abbreviation "ek_GetBalance K \<equiv> eb20_GetBalance (ek_Bank K)"
abbreviation "ek_BlockedAddr K \<equiv> eb20_BlockedAddr (ek_Bank K)"
abbreviation "ek_IsSendEnabledCoin K \<equiv> eb20_IsSendEnabledCoin (ek_Bank K)"
abbreviation "ek_MintCoins K \<equiv> eb20_MintCoins (ek_Bank K)"
abbreviation "ek_BurnCoins K \<equiv> eb20_BurnCoins (ek_Bank K)"
abbreviation "ek_SendCoinsFromModuleToAccount K \<equiv> eb20_SendCoinsFromModuleToAccount (ek_Bank K)"
abbreviation "ek_SendCoinsFromAccountToModule K \<equiv> eb20_SendCoinsFromAccountToModule (ek_Bank K)"
abbreviation "ek_GetDenomMetaData K \<equiv> eb20_GetDenomMetaData (ek_Bank K)"
abbreviation "ek_SetDenomMetaData K \<equiv> eb20_SetDenomMetaData (ek_Bank K)"
abbreviation "ek_GetAccountWithoutBalance K \<equiv> ee_GetAccountWithoutBalance (ek_Evm K)"
abbreviation "ek_GetAccount K \<equiv> ee_GetAccount (ek_Evm K)"
abbreviation "ek_SetAccount K \<equiv> ee_SetAccount (ek_Evm K)"
abbreviation "ek_GetCode K \<equiv> ee_GetCode (ek_Evm K)"
abbreviation "ek_SetCode K \<equiv> ee_SetCode (ek_Evm K)"
abbreviation "ek_CallEVMWithData K \<equiv> ee_CallEVMWithData (ek_Evm K)"

definition onStore :: "(erc20_store \<Rightarrow> erc20_store) \<Rightarrow> ('c, unit) erc_go" where
  "onStore f = go_modify (\<lambda>c. c\<lparr>ercStore := f (ercStore c)\<rparr>)"

definition onRest :: "('c, 'e, 'x) go \<Rightarrow> ('c erc_ctx, 'e, 'x) go" where
  "onRest m = go_zoom ercRest (\<lambda>r c. c\<lparr>ercRest := r\<rparr>) m"

definition onBankKeeper :: "('c, sdk_error, 'x) go \<Rightarrow> ('c, 'x) erc_go" where
  "onBankKeeper m = go_convErr ErrSdk (onRest m)"

definition emitErc :: "erc20_event \<Rightarrow> ('c, unit) erc_go" where
  "emitErc ev = go_modify (\<lambda>c. c\<lparr>ercEvents := ercEvents c @ [ev]\<rparr>)"

section \<open>Token pairs\<close>

definition GetIBCDenomAddress :: "'c erc20_keeper \<Rightarrow> denom \<Rightarrow> string + Address" where
  "GetIBCDenomAddress K denom =
    (if take 4 denom \<noteq> ''ibc/'' then Inl ''coin does not have 'ibc/' prefix''
     else if length denom < 5 \<or> ek_TrimSpace K (drop 4 denom) = [] then Inl ''coin is not a valid IBC voucher hash''
     else case ek_ParseHexHash K (drop 4 denom) of
       None \<Rightarrow> Inl ''invalid denom for cross-chain transfer''
     | Some bz \<Rightarrow> Inr (BytesToAddress bz))"

definition NewTokenPairSTRv2 :: "'c erc20_keeper \<Rightarrow> denom \<Rightarrow> string + TokenPair" where
  "NewTokenPairSTRv2 K denom =
    (case GetIBCDenomAddress K denom of
       Inl e \<Rightarrow> Inl e
     | Inr addr \<Rightarrow> Inr \<lparr>tp_Erc20Address = AddressString (ek_Api K) addr, tp_Denom = denom, tp_Enabled = True,
                        tp_ContractOwner = OWNER_MODULE\<rparr>)"

definition NewTokenPair :: "'c erc20_keeper \<Rightarrow> Address \<Rightarrow> denom \<Rightarrow> Owner \<Rightarrow> TokenPair" where
  "NewTokenPair K erc20Address denom contractOwner =
    \<lparr>tp_Erc20Address = AddressString (ek_Api K) erc20Address, tp_Denom = denom, tp_Enabled = True, tp_ContractOwner = contractOwner\<rparr>"

definition GetID :: "'c erc20_keeper \<Rightarrow> TokenPair \<Rightarrow> bytes" where
  "GetID K tp = ek_Sum K (tp_Erc20Address tp @ ''|'' @ tp_Denom tp)"

definition GetERC20Contract :: "'c erc20_keeper \<Rightarrow> TokenPair \<Rightarrow> Address" where
  "GetERC20Contract K tp = HexToAddress (ek_Api K) (tp_Erc20Address tp)"

definition TokenPair_Validate :: "'c erc20_keeper \<Rightarrow> TokenPair \<Rightarrow> string option" where
  "TokenPair_Validate K tp =
    (if \<not> ek_ValidateDenom K (tp_Denom tp) then Some ''invalid denom'' else ValidateAddress (ek_Api K) (tp_Erc20Address tp))"

definition IsNativeCoin :: "TokenPair \<Rightarrow> bool" where
  "IsNativeCoin tp \<longleftrightarrow> tp_ContractOwner tp = OWNER_MODULE"

definition IsNativeERC20 :: "TokenPair \<Rightarrow> bool" where
  "IsNativeERC20 tp \<longleftrightarrow> tp_ContractOwner tp = OWNER_EXTERNAL"

definition GetERC20Map :: "erc20_store \<Rightarrow> Address \<Rightarrow> bytes option" where
  "GetERC20Map s erc20 = fmlookup (erc20Map s) (AddressBytes erc20)"

definition GetDenomMap :: "erc20_store \<Rightarrow> denom \<Rightarrow> bytes option" where
  "GetDenomMap s denom = fmlookup (denomMap s) denom"

definition GetTokenPairID :: "'c erc20_keeper \<Rightarrow> erc20_store \<Rightarrow> string \<Rightarrow> bytes option" where
  "GetTokenPairID K s token =
    (if IsHexAddress (ek_Api K) token then GetERC20Map s (HexToAddress (ek_Api K) token) else GetDenomMap s token)"

text \<open>A nil identifier finds nothing.\<close>

definition GetTokenPair :: "erc20_store \<Rightarrow> bytes option \<Rightarrow> TokenPair option" where
  "GetTokenPair s i = (case i of None \<Rightarrow> None | Some k \<Rightarrow> fmlookup (tokenPairStore s) k)"

definition SetTokenPair :: "'c erc20_keeper \<Rightarrow> TokenPair \<Rightarrow> erc20_store \<Rightarrow> erc20_store" where
  "SetTokenPair K tp s = s\<lparr>tokenPairStore := fmupd (GetID K tp) tp (tokenPairStore s)\<rparr>"

definition SetERC20Map :: "Address \<Rightarrow> bytes \<Rightarrow> erc20_store \<Rightarrow> erc20_store" where
  "SetERC20Map erc20 i s = s\<lparr>erc20Map := fmupd (AddressBytes erc20) i (erc20Map s)\<rparr>"

definition SetDenomMap :: "denom \<Rightarrow> bytes \<Rightarrow> erc20_store \<Rightarrow> erc20_store" where
  "SetDenomMap denom i s = s\<lparr>denomMap := fmupd denom i (denomMap s)\<rparr>"

definition deleteTokenPair :: "bytes \<Rightarrow> erc20_store \<Rightarrow> erc20_store" where
  "deleteTokenPair i s = s\<lparr>tokenPairStore := fmdrop i (tokenPairStore s)\<rparr>"

definition deleteERC20Map :: "Address \<Rightarrow> erc20_store \<Rightarrow> erc20_store" where
  "deleteERC20Map erc20 s = s\<lparr>erc20Map := fmdrop (AddressBytes erc20) (erc20Map s)\<rparr>"

definition deleteDenomMap :: "denom \<Rightarrow> erc20_store \<Rightarrow> erc20_store" where
  "deleteDenomMap denom s = s\<lparr>denomMap := fmdrop denom (denomMap s)\<rparr>"

definition IsTokenPairRegistered :: "erc20_store \<Rightarrow> bytes \<Rightarrow> bool" where
  "IsTokenPairRegistered s i \<longleftrightarrow> fmlookup (tokenPairStore s) i \<noteq> None"

definition IsERC20Registered :: "erc20_store \<Rightarrow> Address \<Rightarrow> bool" where
  "IsERC20Registered s erc20 \<longleftrightarrow> fmlookup (erc20Map s) (AddressBytes erc20) \<noteq> None"

definition IsDenomRegistered :: "erc20_store \<Rightarrow> denom \<Rightarrow> bool" where
  "IsDenomRegistered s denom \<longleftrightarrow> fmlookup (denomMap s) denom \<noteq> None"

definition SetToken :: "'c erc20_keeper \<Rightarrow> TokenPair \<Rightarrow> erc20_store \<Rightarrow> erc20_error + erc20_store" where
  "SetToken K pair s =
    (if IsDenomRegistered s (tp_Denom pair) then Inl ErrTokenPairAlreadyExists
     else if IsERC20Registered s (GetERC20Contract K pair) then Inl ErrTokenPairAlreadyExists
     else Inr (SetERC20Map (GetERC20Contract K pair) (GetID K pair)
            (SetDenomMap (tp_Denom pair) (GetID K pair) (SetTokenPair K pair s))))"

fun iterPairs :: "(TokenPair \<Rightarrow> 'acc \<Rightarrow> bool \<times> 'acc) \<Rightarrow> TokenPair list \<Rightarrow> 'acc \<Rightarrow> 'acc" where
  "iterPairs cb [] acc = acc"
| "iterPairs cb (p # ps) acc = (case cb p acc of (stop, acc') \<Rightarrow> if stop then acc' else iterPairs cb ps acc')"

definition IterateTokenPairs :: "erc20_store \<Rightarrow> (TokenPair \<Rightarrow> 'acc \<Rightarrow> bool \<times> 'acc) \<Rightarrow> 'acc \<Rightarrow> 'acc" where
  "IterateTokenPairs s cb acc =
    iterPairs cb (map (\<lambda>i. the (fmlookup (tokenPairStore s) i)) (sorted_list_of_fset (fmdom (tokenPairStore s)))) acc"

definition GetTokenPairs :: "erc20_store \<Rightarrow> TokenPair list" where
  "GetTokenPairs s = IterateTokenPairs s (\<lambda>tp acc. (False, acc @ [tp])) []"

definition GetCoinAddress :: "'c erc20_keeper \<Rightarrow> erc20_store \<Rightarrow> denom \<Rightarrow> erc20_error + Address" where
  "GetCoinAddress K s denom =
    (case GetDenomMap s denom of
       None \<Rightarrow> (case GetIBCDenomAddress K denom of Inl e \<Rightarrow> Inl (ErrErcOther e) | Inr a \<Rightarrow> Inr a)
     | Some i \<Rightarrow>
        if i = [] then (case GetIBCDenomAddress K denom of Inl e \<Rightarrow> Inl (ErrErcOther e) | Inr a \<Rightarrow> Inr a)
        else case GetTokenPair s (Some i) of
          None \<Rightarrow> Inl ErrTokenPairNotFound
        | Some tp \<Rightarrow> Inr (GetERC20Contract K tp))"

definition GetTokenDenom :: "erc20_store \<Rightarrow> Address \<Rightarrow> erc20_error + denom" where
  "GetTokenDenom s tokenAddress =
    (case GetERC20Map s tokenAddress of
       None \<Rightarrow> Inl ErrTokenPairNotFound
     | Some i \<Rightarrow>
        if i = [] then Inl ErrTokenPairNotFound
        else case GetTokenPair s (Some i) of None \<Rightarrow> Inl ErrTokenPairNotFound | Some tp \<Rightarrow> Inr (tp_Denom tp))"

section \<open>Allowances\<close>

definition NewAllowance :: "'c erc20_keeper \<Rightarrow> Address \<Rightarrow> Address \<Rightarrow> Address \<Rightarrow> int \<Rightarrow> Allowance" where
  "NewAllowance K erc20 owner spender v =
    \<lparr>al_Erc20Address = AddressString (ek_Api K) erc20, al_Owner = AddressString (ek_Api K) owner,
     al_Spender = AddressString (ek_Api K) spender, al_Value = v\<rparr>"

definition Allowance_Validate :: "'c erc20_keeper \<Rightarrow> Allowance \<Rightarrow> string option" where
  "Allowance_Validate K a =
    (if \<not> IsHexAddress (ek_Api K) (al_Erc20Address a) then Some ''invalid erc20 hex address''
     else if \<not> IsHexAddress (ek_Api K) (al_Owner a) then Some ''invalid owner hex address''
     else if \<not> IsHexAddress (ek_Api K) (al_Spender a) then Some ''invalid sender hex address''
     else if \<not> 0 < al_Value a then Some ''invalid allowance value''
     else None)"

definition AllowanceKey :: "Address \<Rightarrow> Address \<Rightarrow> Address \<Rightarrow> bytes" where
  "AllowanceKey erc20 owner spender = AddressBytes erc20 @ AddressBytes owner @ AddressBytes spender"

definition GetAllowance :: "erc20_store \<Rightarrow> Address \<Rightarrow> Address \<Rightarrow> Address \<Rightarrow> int" where
  "GetAllowance s erc20 owner spender =
    (case fmlookup (allowanceStore s) (AllowanceKey erc20 owner spender) of None \<Rightarrow> 0 | Some a \<Rightarrow> al_Value a)"

text \<open>The value may be nil.\<close>

definition setAllowance ::
    "'c erc20_keeper \<Rightarrow> Address \<Rightarrow> Address \<Rightarrow> Address \<Rightarrow> int option \<Rightarrow> bool \<Rightarrow> erc20_store \<Rightarrow> erc20_error + erc20_store" where
  "setAllowance K erc20 owner spender v allowDisabledTokenPair s =
    (case GetTokenPair s (GetERC20Map s erc20) of
       None \<Rightarrow> Inl ErrTokenPairNotFound
     | Some tokenPair \<Rightarrow>
        if \<not> allowDisabledTokenPair \<and> \<not> tp_Enabled tokenPair then Inl ErrERC20TokenPairDisabled
        else if owner = 0 then Inl (ErrSdk ErrInvalidAddress)
        else if spender = 0 then Inl (ErrSdk ErrInvalidAddress)
        else case v of
          None \<Rightarrow> Inl ErrInvalidAllowance
        | Some x \<Rightarrow>
           if x < 0 then Inl ErrInvalidAllowance
           else if x \<ge> 2 ^ 256 then Inl ErrInvalidAllowance
           else if x = 0
           then Inr (s\<lparr>allowanceStore := fmdrop (AllowanceKey erc20 owner spender) (allowanceStore s)\<rparr>)
           else Inr (s\<lparr>allowanceStore := fmupd (AllowanceKey erc20 owner spender) (NewAllowance K erc20 owner spender x) (allowanceStore s)\<rparr>))"

definition SetAllowance :: "'c erc20_keeper \<Rightarrow> Address \<Rightarrow> Address \<Rightarrow> Address \<Rightarrow> int option \<Rightarrow> erc20_store \<Rightarrow> erc20_error + erc20_store" where
  "SetAllowance K erc20 owner spender v = setAllowance K erc20 owner spender v False"

definition DeleteAllowance :: "'c erc20_keeper \<Rightarrow> Address \<Rightarrow> Address \<Rightarrow> Address \<Rightarrow> erc20_store \<Rightarrow> erc20_error + erc20_store" where
  "DeleteAllowance K erc20 owner spender = setAllowance K erc20 owner spender (Some 0) False"

definition UnsafeSetAllowance :: "'c erc20_keeper \<Rightarrow> Address \<Rightarrow> Address \<Rightarrow> Address \<Rightarrow> int option \<Rightarrow> erc20_store \<Rightarrow> erc20_error + erc20_store" where
  "UnsafeSetAllowance K erc20 owner spender v = setAllowance K erc20 owner spender v True"

fun iterAllowances :: "(Allowance \<Rightarrow> 'acc \<Rightarrow> bool \<times> 'acc) \<Rightarrow> Allowance list \<Rightarrow> 'acc \<Rightarrow> 'acc" where
  "iterAllowances cb [] acc = acc"
| "iterAllowances cb (a # as) acc = (case cb a acc of (stop, acc') \<Rightarrow> if stop then acc' else iterAllowances cb as acc')"

definition IterateAllowances :: "erc20_store \<Rightarrow> (Allowance \<Rightarrow> 'acc \<Rightarrow> bool \<times> 'acc) \<Rightarrow> 'acc \<Rightarrow> 'acc" where
  "IterateAllowances s cb acc =
    iterAllowances cb (map (\<lambda>k. the (fmlookup (allowanceStore s) k)) (sorted_list_of_fset (fmdom (allowanceStore s)))) acc"

definition GetAllowances :: "erc20_store \<Rightarrow> Allowance list" where
  "GetAllowances s = IterateAllowances s (\<lambda>a acc. (False, acc @ [a])) []"

text \<open>The keys with the bytes of the token as prefix are deleted.\<close>

definition deleteAllowances :: "Address \<Rightarrow> erc20_store \<Rightarrow> erc20_store" where
  "deleteAllowances erc20 s = s\<lparr>allowanceStore := fmfilter (\<lambda>k. take 20 k \<noteq> AddressBytes erc20) (allowanceStore s)\<rparr>"

definition DeleteTokenPair :: "'c erc20_keeper \<Rightarrow> TokenPair \<Rightarrow> erc20_store \<Rightarrow> erc20_store" where
  "DeleteTokenPair K tp s =
    deleteAllowances (GetERC20Contract K tp) (deleteDenomMap (tp_Denom tp)
      (deleteERC20Map (GetERC20Contract K tp) (deleteTokenPair (GetID K tp) s)))"

section \<open>Parameters\<close>

definition erc20_DefaultParams :: erc20_Params where
  "erc20_DefaultParams = \<lparr>EnableErc20 = True, PermissionlessRegistration = True\<rparr>"

definition erc20_GetParams :: "erc20_store \<Rightarrow> erc20_Params" where
  "erc20_GetParams s = \<lparr>EnableErc20 = enableErc20 s, PermissionlessRegistration = permissionless s\<rparr>"

definition erc20_SetParams :: "erc20_Params \<Rightarrow> erc20_store \<Rightarrow> erc20_store" where
  "erc20_SetParams p s = s\<lparr>enableErc20 := EnableErc20 p, permissionless := PermissionlessRegistration p\<rparr>"

section \<open>Precompiles\<close>

datatype PrecompileType = PrecompileTypeNative | PrecompileTypeDynamic

definition IsNativePrecompileAvailable :: "'c erc20_keeper \<Rightarrow> erc20_store \<Rightarrow> Address \<Rightarrow> bool" where
  "IsNativePrecompileAvailable K s a \<longleftrightarrow> AddressString (ek_Api K) a |\<in>| nativePrecompiles s"

definition IsDynamicPrecompileAvailable :: "'c erc20_keeper \<Rightarrow> erc20_store \<Rightarrow> Address \<Rightarrow> bool" where
  "IsDynamicPrecompileAvailable K s a \<longleftrightarrow> AddressString (ek_Api K) a |\<in>| dynamicPrecompiles s"

definition SetNativePrecompile :: "'c erc20_keeper \<Rightarrow> Address \<Rightarrow> erc20_store \<Rightarrow> erc20_store" where
  "SetNativePrecompile K a s = s\<lparr>nativePrecompiles := finsert (AddressString (ek_Api K) a) (nativePrecompiles s)\<rparr>"

definition SetDynamicPrecompile :: "'c erc20_keeper \<Rightarrow> Address \<Rightarrow> erc20_store \<Rightarrow> erc20_store" where
  "SetDynamicPrecompile K a s = s\<lparr>dynamicPrecompiles := finsert (AddressString (ek_Api K) a) (dynamicPrecompiles s)\<rparr>"

definition DeleteNativePrecompile :: "'c erc20_keeper \<Rightarrow> Address \<Rightarrow> erc20_store \<Rightarrow> erc20_store" where
  "DeleteNativePrecompile K a s = s\<lparr>nativePrecompiles := nativePrecompiles s |-| {|AddressString (ek_Api K) a|}\<rparr>"

definition DeleteDynamicPrecompile :: "'c erc20_keeper \<Rightarrow> Address \<Rightarrow> erc20_store \<Rightarrow> erc20_store" where
  "DeleteDynamicPrecompile K a s = s\<lparr>dynamicPrecompiles := dynamicPrecompiles s |-| {|AddressString (ek_Api K) a|}\<rparr>"

definition GetNativePrecompiles :: "erc20_store \<Rightarrow> string list" where
  "GetNativePrecompiles s = sorted_list_of_fset (nativePrecompiles s)"

definition GetDynamicPrecompiles :: "erc20_store \<Rightarrow> string list" where
  "GetDynamicPrecompiles s = sorted_list_of_fset (dynamicPrecompiles s)"

end
