(* ===== verification/Erc20.thy ===== *)
theory Erc20
  imports Erc20Store
begin

text \<open>
  The operations of the ERC-20 module: precompile code hashes, registration of tokens, conversion
  between tokens and coins, messages, genesis and the callbacks of the IBC middleware.
  \<open>x/erc20/keeper/{dynamic_precompiles,precompiles,evm,mint,proposals,util,msg_server,ibc_callbacks}.go\<close>,
  \<open>x/erc20/types/{utils,genesis,msg,proposal}.go\<close>, \<open>x/erc20/genesis.go\<close>, \<open>ibc/utils.go\<close>.

  Logging and telemetry are left out.  The gas configuration that the IBC callbacks install belongs
  to the SDK context and is left out too.
\<close>

section \<open>Precompile registration\<close>

definition acc_IsContract :: "'c erc20_keeper \<Rightarrow> keeperAccount \<Rightarrow> bool" where
  "acc_IsContract K acc \<longleftrightarrow> ka_CodeHash acc \<noteq> ek_EmptyCodeHash K"

text \<open>Code hash and account of a token precompile.  Balance and nonce of an existing account are kept.\<close>

definition setCodeHashOf :: "'c erc20_keeper \<Rightarrow> Address \<Rightarrow> Hash \<Rightarrow> ('c, unit) erc_go" where
  "setCodeHashOf K erc20Addr codeHash =
    go_bind (onBankKeeper (ek_GetAccount K erc20Addr)) (\<lambda>acc.
      onBankKeeper (ek_SetAccount K erc20Addr
        (case acc of
           None \<Rightarrow> \<lparr>ka_Nonce = 0, ka_Balance = Some 0, ka_CodeHash = codeHash\<rparr>
         | Some a \<Rightarrow> \<lparr>ka_Nonce = ka_Nonce a, ka_Balance = ka_Balance a, ka_CodeHash = codeHash\<rparr>)))"

definition RegisterERC20CodeHash :: "'c erc20_keeper \<Rightarrow> Address \<Rightarrow> ('c, unit) erc_go" where
  "RegisterERC20CodeHash K erc20Addr =
    (let bytecode = ek_Erc20Bytecode K; codeHash = ek_Keccak256 K bytecode
     in go_bind (go_gets (\<lambda>c. ek_GetCode K (ercRest c) codeHash)) (\<lambda>cd.
        go_seq (go_when (cd = None \<or> cd = Some [])
            (go_modify (\<lambda>c. c\<lparr>ercRest := ek_SetCode K codeHash bytecode (ercRest c)\<rparr>)))
          (setCodeHashOf K erc20Addr codeHash)))"

definition UnRegisterERC20CodeHash :: "'c erc20_keeper \<Rightarrow> Address \<Rightarrow> ('c, unit) erc_go" where
  "UnRegisterERC20CodeHash K erc20Addr = setCodeHashOf K erc20Addr (ek_EmptyCodeHash K)"

definition RegisterCodeHash :: "'c erc20_keeper \<Rightarrow> Address \<Rightarrow> PrecompileType \<Rightarrow> ('c, unit) erc_go" where
  "RegisterCodeHash K addr pType =
    go_bind (go_gets (\<lambda>c. case pType of
        PrecompileTypeNative \<Rightarrow> \<not> IsNativePrecompileAvailable K (ercStore c) addr
      | PrecompileTypeDynamic \<Rightarrow> \<not> IsDynamicPrecompileAvailable K (ercStore c) addr)) (\<lambda>shouldRegister.
      go_when shouldRegister (RegisterERC20CodeHash K addr))"

definition EnableNativePrecompile :: "'c erc20_keeper \<Rightarrow> Address \<Rightarrow> ('c, unit) erc_go" where
  "EnableNativePrecompile K addr =
    go_seq (RegisterCodeHash K addr PrecompileTypeNative) (onStore (SetNativePrecompile K addr))"

definition EnableDynamicPrecompile :: "'c erc20_keeper \<Rightarrow> Address \<Rightarrow> ('c, unit) erc_go" where
  "EnableDynamicPrecompile K addr =
    go_seq (RegisterCodeHash K addr PrecompileTypeDynamic) (onStore (SetDynamicPrecompile K addr))"

text \<open>The instance is the token pair and whether it has the methods of a wrapped token.\<close>

definition InstantiateERC20Precompile :: "'c erc20_keeper \<Rightarrow> erc20_store \<Rightarrow> Address \<Rightarrow> bool \<Rightarrow> string + (TokenPair \<times> bool)" where
  "InstantiateERC20Precompile K s contractAddr hasWrappedMethods =
    (case GetTokenPairID K s (AddressString (ek_Api K) contractAddr) of
       None \<Rightarrow> Inl ''precompile id not found''
     | Some i \<Rightarrow>
        if i = [] then Inl ''precompile id not found''
        else case GetTokenPair s (Some i) of
          None \<Rightarrow> Inl ''token pair not found''
        | Some pair \<Rightarrow> Inr (pair, hasWrappedMethods))"

definition GetERC20PrecompileInstance :: "'c erc20_keeper \<Rightarrow> erc20_store \<Rightarrow> Address \<Rightarrow> string + (TokenPair \<times> bool) option" where
  "GetERC20PrecompileInstance K s addr =
    (if \<not> (IsNativePrecompileAvailable K s addr \<or> IsDynamicPrecompileAvailable K s addr) then Inr None
     else case InstantiateERC20Precompile K s addr (IsNativePrecompileAvailable K s addr) of
       Inl e \<Rightarrow> Inl e
     | Inr p \<Rightarrow> Inr (Some p))"

section \<open>Calls on token contracts\<close>

definition ek_CallEVM :: "'c erc20_keeper \<Rightarrow> Address \<Rightarrow> Address \<Rightarrow> bool \<Rightarrow> erc20_call \<Rightarrow> ('c erc_ctx, apply_error, MsgEthereumTxResponse) go" where
  "ek_CallEVM K from contract commit call =
    (case ek_Pack K call of
       Inl _ \<Rightarrow> go_err (ErrApply ''failed to create transaction data'')
     | Inr data \<Rightarrow> ek_CallEVMWithData K from (Some contract) data commit)"

definition onEvm :: "('c erc_ctx, apply_error, 'x) go \<Rightarrow> ('c, 'x) erc_go" where
  "onEvm m = go_convErr ErrEvm m"

text \<open>An error of the call or of the decoding gives nil.\<close>

definition BalanceOf :: "'c erc20_keeper \<Rightarrow> Address \<Rightarrow> Address \<Rightarrow> ('c, int option) erc_go" where
  "BalanceOf K contract acct = (\<lambda>c.
    case ek_CallEVM K (ek_ModuleAddress K) contract False (ERC20_balanceOf acct) c of
      (Err _, c') \<Rightarrow> (Ret None, c')
    | (Panic p, c') \<Rightarrow> (Panic p, c')
    | (Ret res, c') \<Rightarrow> (Ret (ek_UnpackBalance K (RespRet res)), c'))"

text \<open>A \<open>bytes32\<close> up to its first zero byte, as a string.\<close>

definition Bytes32ToString :: "bytes \<Rightarrow> string" where
  "Bytes32ToString bs = map (\<lambda>b. char_of (unat b)) (takeWhile (\<lambda>b. b \<noteq> 0) bs)"

definition queryERC20String :: "'c erc20_keeper \<Rightarrow> Address \<Rightarrow> erc20_call \<Rightarrow> ('c, string) erc_go" where
  "queryERC20String K contract method =
    go_bind (onEvm (ek_CallEVM K (ek_ModuleAddress K) contract False method)) (\<lambda>res.
      case ek_UnpackString K (RespRet res) of
        Some s \<Rightarrow> go_return s
      | None \<Rightarrow> if length (RespRet res) = 32 then go_return (Bytes32ToString (RespRet res)) else go_err ErrABIUnpack)"

record ERC20Data =
  ed_Name :: string
  ed_Symbol :: string
  ed_Decimals :: u8

definition QueryERC20 :: "'c erc20_keeper \<Rightarrow> Address \<Rightarrow> ('c, ERC20Data) erc_go" where
  "QueryERC20 K contract =
    go_bind (queryERC20String K contract ERC20_name) (\<lambda>nm.
    go_bind (queryERC20String K contract ERC20_symbol) (\<lambda>symbol.
    go_bind (onEvm (ek_CallEVM K (ek_ModuleAddress K) contract False ERC20_decimals)) (\<lambda>res.
      case ek_UnpackUint8 K (RespRet res) of
        None \<Rightarrow> go_err ErrABIUnpack
      | Some decimals \<Rightarrow> go_return \<lparr>ed_Name = nm, ed_Symbol = symbol, ed_Decimals = decimals\<rparr>)))"

text \<open>The compiled contract, the encoding of its constructor, the sequence of an account and the address of a new contract.\<close>

record 'c deploy_api =
  da_Bin :: bytes
  da_PackConstructor :: "string \<Rightarrow> string \<Rightarrow> u8 \<Rightarrow> string + bytes"
  da_GetSequence :: "'c \<Rightarrow> Address \<Rightarrow> sdk_error + u64"
  da_CreateAddress :: "Address \<Rightarrow> u64 \<Rightarrow> Address"

definition DeployERC20Contract :: "'c erc20_keeper \<Rightarrow> 'c deploy_api \<Rightarrow> Metadata \<Rightarrow> ('c, Address) erc_go" where
  "DeployERC20Contract K D coinMetadata = (\<lambda>c.
    let decimals = (if md_DenomUnits coinMetadata = [] then 0 else ucast (du_Exponent (last (md_DenomUnits coinMetadata)))) :: u8
    in case da_PackConstructor D (md_Name coinMetadata) (md_Symbol coinMetadata) decimals of
         Inl _ \<Rightarrow> (Err ErrABIPack, c)
       | Inr ctorArgs \<Rightarrow>
          (case da_GetSequence D (ercRest c) (ek_ModuleAddress K) of
             Inl e \<Rightarrow> (Err (ErrSdk e), c)
           | Inr nonce \<Rightarrow>
              go_bind (onEvm (ek_CallEVMWithData K (ek_ModuleAddress K) None (da_Bin D @ ctorArgs) True))
                (\<lambda>_. go_return (da_CreateAddress D (ek_ModuleAddress K) nonce)) c))"

text \<open>The first topic of a log without topics is out of range.\<close>

fun transferEvents :: "Hash \<Rightarrow> Address \<Rightarrow> bool \<Rightarrow> Log list \<Rightarrow> (erc20_error, bool) outcome" where
  "transferEvents sig token found [] = Ret found"
| "transferEvents sig token found (l # ls) =
    (case log_Topics l of
       [] \<Rightarrow> Panic ''index out of range''
     | t # _ \<Rightarrow>
        if t = sig
        then (if log_Address l \<noteq> token then Err ErrUnexpectedEvent
              else if found then Err ErrUnexpectedEvent
              else transferEvents sig token True ls)
        else transferEvents sig token found ls)"

definition validateTransferEventExists :: "Hash \<Rightarrow> Log list \<Rightarrow> Address \<Rightarrow> ('c, unit) erc_go" where
  "validateTransferEventExists sig ls token =
    (if ls = [] then go_err ErrExpectedEvent
     else case transferEvents sig token False ls of
       Panic p \<Rightarrow> go_panic p
     | Err e \<Rightarrow> go_err e
     | Ret found \<Rightarrow> if \<not> found then go_err ErrExpectedEvent else go_return ())"

text \<open>The check of the response of a transfer, the same in both conversions.\<close>

definition checkTransfer :: "'c erc20_keeper \<Rightarrow> Address \<Rightarrow> MsgEthereumTxResponse \<Rightarrow> ('c, unit) erc_go" where
  "checkTransfer K contract res =
    (if length (RespRet res) = 0 then validateTransferEventExists (ek_TransferSig K) (Logs res) contract
     else case ek_UnpackBool K (RespRet res) of
       None \<Rightarrow> go_err (ErrErcOther ''abi'')
     | Some False \<Rightarrow> go_err (ErrErcOther ''failed to execute transfer'')
     | Some True \<Rightarrow> go_return ())"

section \<open>Registration\<close>

definition CreateDenom :: "string \<Rightarrow> denom" where
  "CreateDenom addr = ''erc20:'' @ addr"

definition CreateDenomDescription :: "string \<Rightarrow> string" where
  "CreateDenomDescription addr = ''Cosmos coin token representation of '' @ addr"

definition ValidateErc20Denom :: "'c erc20_keeper \<Rightarrow> denom \<Rightarrow> string option" where
  "ValidateErc20Denom K denom =
    (if take 6 denom = ''erc20:''
     then (if drop 6 denom = [] then Some ''missing address after prefix'' else ValidateAddress (ek_Api K) (drop 6 denom))
     else Some ''denomination should be prefixed'')"

definition isDigit :: "char \<Rightarrow> bool" where
  "isDigit ch \<longleftrightarrow> ch \<in> set ''0123456789''"

definition isLetter :: "char \<Rightarrow> bool" where
  "isLetter ch \<longleftrightarrow> ch \<in> set ''ABCDEFGHIJKLMNOPQRSTUVWXYZabcdefghijklmnopqrstuvwxyz''"

text \<open>The digits at the start of every line; the flag says whether the scan is at such a position.\<close>

fun dropLineNumbers :: "bool \<Rightarrow> string \<Rightarrow> string" where
  "dropLineNumbers start [] = []"
| "dropLineNumbers start (ch # s) =
    (if start \<and> isDigit ch then dropLineNumbers True s
     else ch # dropLineNumbers (ch = CHR 0x0A) s)"

definition removeLeadingNumbers :: "string \<Rightarrow> string" where
  "removeLeadingNumbers s = dropLineNumbers True s"

definition removeSpecialChars :: "string \<Rightarrow> string" where
  "removeSpecialChars s =
    filter (\<lambda>ch. isLetter ch \<or> isDigit ch \<or> ch \<in> set ''/:-'') (case s of [] \<Rightarrow> [] | ch # r \<Rightarrow> if isLetter ch then ch # r else r)"

function removeInvalidPrefixes :: "string \<Rightarrow> string" where
  "removeInvalidPrefixes s =
    (if take 4 s = ''ibc/'' then removeInvalidPrefixes (drop 4 s)
     else if take 6 s = ''erc20/'' then removeInvalidPrefixes (drop 6 s)
     else if take 6 s = ''erc20:'' then removeInvalidPrefixes (drop 6 s)
     else s)"
  by pat_completeness auto
termination by (relation "measure length") (auto simp: neq_Nil_conv dest!: arg_cong [where f = length] split: if_splits)

declare removeInvalidPrefixes.simps [simp del]

definition SanitizeERC20Name :: "string \<Rightarrow> string" where
  "SanitizeERC20Name nm = removeInvalidPrefixes (take 128 (removeSpecialChars (removeLeadingNumbers nm)))"

definition CreateCoinMetadata :: "'c erc20_keeper \<Rightarrow> Address \<Rightarrow> ('c, Metadata) erc_go" where
  "CreateCoinMetadata K contract =
    (let strContract = AddressString (ek_Api K) contract; base = CreateDenom strContract
     in go_bind (QueryERC20 K contract) (\<lambda>erc20Data.
        go_bind (go_gets (\<lambda>c. ek_GetDenomMetaData K (ercRest c) base)) (\<lambda>found.
        if found \<noteq> None then go_err ErrInternalTokenPair
        else go_bind (go_gets (\<lambda>c. IsDenomRegistered (ercStore c) base)) (\<lambda>registered.
          if registered then go_err ErrInternalTokenPair
          else
            let metadata = \<lparr>md_Description = CreateDenomDescription strContract, md_Base = base,
                  md_DenomUnits = \<lparr>du_Denom = base, du_Exponent = 0\<rparr> #
                    (if ed_Decimals erc20Data > 0
                     then [\<lparr>du_Denom = SanitizeERC20Name (ed_Name erc20Data), du_Exponent = ucast (ed_Decimals erc20Data)\<rparr>] else []),
                  md_Name = base, md_Symbol = ed_Symbol erc20Data,
                  md_Display = (if ed_Decimals erc20Data > 0 then SanitizeERC20Name (ed_Name erc20Data) else base)\<rparr>
            in case ek_ValidateMetadata K metadata of
                 Some e \<Rightarrow> go_err (ErrErcOther e)
               | None \<Rightarrow> go_seq (go_modify (\<lambda>c. c\<lparr>ercRest := ek_SetDenomMetaData K metadata (ercRest c)\<rparr>)) (go_return metadata)))))"

definition setTokenGo :: "'c erc20_keeper \<Rightarrow> TokenPair \<Rightarrow> ('c, unit) erc_go" where
  "setTokenGo K pair = (\<lambda>c.
    case SetToken K pair (ercStore c) of Inl e \<Rightarrow> (Err e, c) | Inr s \<Rightarrow> (Ret (), c\<lparr>ercStore := s\<rparr>))"

definition registerERC20 :: "'c erc20_keeper \<Rightarrow> Address \<Rightarrow> ('c, TokenPair) erc_go" where
  "registerERC20 K contract =
    go_bind (go_gets (\<lambda>c. IsERC20Registered (ercStore c) contract)) (\<lambda>registered.
      if registered then go_err ErrTokenPairAlreadyExists
      else go_bind (CreateCoinMetadata K contract) (\<lambda>metadata.
        let pair = NewTokenPair K contract (md_Name metadata) OWNER_EXTERNAL
        in go_seq (setTokenGo K pair) (go_return pair)))"

definition CreateNewTokenPair :: "'c erc20_keeper \<Rightarrow> denom \<Rightarrow> ('c, TokenPair) erc_go" where
  "CreateNewTokenPair K denom =
    (case NewTokenPairSTRv2 K denom of
       Inl e \<Rightarrow> go_err (ErrErcOther e)
     | Inr pair \<Rightarrow>
        go_bind (onBankKeeper (ek_GetAccount K (GetERC20Contract K pair))) (\<lambda>acc.
          if (case acc of None \<Rightarrow> False | Some a \<Rightarrow> acc_IsContract K a) then go_err ErrTokenPairAlreadyExists
          else go_seq (setTokenGo K pair) (go_return pair)))"

definition RegisterERC20Extension :: "'c erc20_keeper \<Rightarrow> denom \<Rightarrow> ('c, TokenPair) erc_go" where
  "RegisterERC20Extension K denom =
    go_bind (CreateNewTokenPair K denom) (\<lambda>pair.
      go_seq (EnableDynamicPrecompile K (GetERC20Contract K pair)) (go_return pair))"

definition toggleConversion :: "'c erc20_keeper \<Rightarrow> string \<Rightarrow> ('c, TokenPair) erc_go" where
  "toggleConversion K token =
    go_bind (go_gets (\<lambda>c. (GetTokenPairID K (ercStore c) token, GetTokenPair (ercStore c) (GetTokenPairID K (ercStore c) token)))) (\<lambda>(i, found).
      if i = None \<or> i = Some [] then go_err ErrTokenPairNotFound
      else case found of
        None \<Rightarrow> go_err ErrTokenPairNotFound
      | Some pair \<Rightarrow>
         let pair' = pair\<lparr>tp_Enabled := \<not> tp_Enabled pair\<rparr>
         in go_seq (onStore (SetTokenPair K pair')) (go_return pair'))"

section \<open>Conversion\<close>

definition MintingEnabled :: "'c erc20_keeper \<Rightarrow> AccAddress \<Rightarrow> AccAddress \<Rightarrow> string \<Rightarrow> ('c, TokenPair) erc_go" where
  "MintingEnabled K sender receiver token = (\<lambda>c.
    let s = ercStore c; i = GetTokenPairID K s token
    in if \<not> enableErc20 s then (Err ErrERC20Disabled, c)
       else if i = None \<or> i = Some [] then (Err ErrTokenPairNotFound, c)
       else case GetTokenPair s i of
         None \<Rightarrow> (Err ErrTokenPairNotFound, c)
       | Some pair \<Rightarrow>
          if \<not> tp_Enabled pair then (Err ErrERC20TokenPairDisabled, c)
          else if ek_BlockedAddr K receiver then (Err (ErrSdk ErrUnauthorized), c)
          else if sender \<noteq> receiver \<and> \<not> ek_IsSendEnabledCoin K (ercRest c) (tp_Denom pair) then (Err (ErrSdk (ErrSendDisabled (tp_Denom pair))), c)
          else (Ret pair, c))"

record MsgConvertERC20 =
  ce_ContractAddress :: string
  ce_Amount :: int
  ce_Receiver :: string
  ce_Sender :: string

definition erc20Module :: string where
  "erc20Module = ''erc20''"

definition orErr :: "erc20_error \<Rightarrow> 'x option \<Rightarrow> ('c, 'x) erc_go" where
  "orErr e x = (case x of None \<Rightarrow> go_err e | Some v \<Rightarrow> go_return v)"

definition convertERC20IntoCoinsForNativeToken ::
    "'c erc20_keeper \<Rightarrow> TokenPair \<Rightarrow> MsgConvertERC20 \<Rightarrow> AccAddress \<Rightarrow> Address \<Rightarrow> ('c, unit) erc_go" where
  "convertERC20IntoCoinsForNativeToken K pair msg receiver sender =
    (let contract = GetERC20Contract K pair; coins = [NewCoin (tp_Denom pair) (ce_Amount msg)]
     in go_bind (go_gets (\<lambda>c. ek_GetBalance K (ercRest c) receiver (tp_Denom pair))) (\<lambda>balanceCoin.
        go_bind (BalanceOf K contract (ek_ModuleAddress K)) (\<lambda>bt.
        go_bind (orErr ErrEVMCall bt) (\<lambda>balanceToken.
        case ek_Pack K (ERC20_transfer (ek_ModuleAddress K) (ce_Amount msg)) of
          Inl e \<Rightarrow> go_err (ErrErcOther e)
        | Inr transferData \<Rightarrow>
        go_bind (onEvm (ek_CallEVMWithData K sender (Some contract) transferData True)) (\<lambda>res.
        go_seq (checkTransfer K contract res)
       (go_bind (BalanceOf K contract (ek_ModuleAddress K)) (\<lambda>bta.
        go_bind (orErr ErrEVMCall bta) (\<lambda>balanceTokenAfter.
        if balanceTokenAfter \<noteq> balanceToken + ce_Amount msg then go_err ErrBalanceInvariance
        else
          go_seq (onBankKeeper (ek_MintCoins K erc20Module coins))
         (go_seq (onBankKeeper (ek_SendCoinsFromModuleToAccount K erc20Module receiver coins))
         (go_bind (go_gets (\<lambda>c. ek_GetBalance K (ercRest c) receiver (tp_Denom pair))) (\<lambda>balanceCoinAfter.
          if balanceCoinAfter \<noteq> balanceCoin + ce_Amount msg then go_err ErrBalanceInvariance
          else emitErc (EvConvertERC20 (ce_Sender msg) (ce_Receiver msg) (ce_Amount msg) (tp_Denom pair) (ce_ContractAddress msg)))))))))))))"

definition ConvertCoinNativeERC20 :: "'c erc20_keeper \<Rightarrow> TokenPair \<Rightarrow> int \<Rightarrow> Address \<Rightarrow> AccAddress \<Rightarrow> ('c, unit) erc_go" where
  "ConvertCoinNativeERC20 K pair amount receiver sender =
    (if \<not> 0 < amount then go_err ErrNegativeToken
     else
       let contract = GetERC20Contract K pair; coins = [NewCoin (tp_Denom pair) amount]
       in go_bind (BalanceOf K contract receiver) (\<lambda>bt.
          go_bind (orErr ErrEVMCall bt) (\<lambda>balanceToken.
          go_seq (onBankKeeper (ek_SendCoinsFromAccountToModule K sender erc20Module coins))
         (go_bind (onEvm (ek_CallEVM K (ek_ModuleAddress K) contract True (ERC20_transfer receiver amount))) (\<lambda>res.
          go_seq (checkTransfer K contract res)
         (go_bind (BalanceOf K contract receiver) (\<lambda>bta.
          go_bind (orErr ErrEVMCall bta) (\<lambda>balanceTokenAfter.
          if balanceTokenAfter \<noteq> balanceToken + amount then go_err ErrBalanceInvariance
          else onBankKeeper (ek_BurnCoins K erc20Module coins)))))))))"

text \<open>The account of the contract is gone, or it has no code.\<close>

definition selfDestructedToken :: "'c erc20_keeper \<Rightarrow> TokenPair \<Rightarrow> 'c \<Rightarrow> bool" where
  "selfDestructedToken K pair r =
    (case ek_GetAccountWithoutBalance K r (GetERC20Contract K pair) of None \<Rightarrow> True | Some acc \<Rightarrow> \<not> acc_IsContract K acc)"

text \<open>The result says whether the tokens were converted or the pair was removed.\<close>

definition ConvertERC20 :: "'c erc20_keeper \<Rightarrow> MsgConvertERC20 \<Rightarrow> ('c, bool) erc_go" where
  "ConvertERC20 K msg =
    (case ek_AccAddressFromBech32 K (ce_Receiver msg) of
       None \<Rightarrow> go_panic ''invalid bech32 address''
     | Some receiver \<Rightarrow>
        let sender = HexToAddress (ek_Api K) (ce_Sender msg)
        in go_bind (MintingEnabled K (AddressBytes sender) receiver (ce_ContractAddress msg)) (\<lambda>pair.
           if IsNativeERC20 pair
           then go_bind (go_gets (\<lambda>c. selfDestructedToken K pair (ercRest c))) (\<lambda>gone.
             if gone then go_seq (onStore (DeleteTokenPair K pair)) (go_return False)
             else go_seq (convertERC20IntoCoinsForNativeToken K pair msg receiver sender) (go_return True))
           else if IsNativeCoin pair then go_err ErrNativeConversionDisabled
           else go_err ErrUndefinedOwner))"

record MsgConvertCoin =
  cc_Coin :: coin
  cc_Receiver :: string
  cc_Sender :: string

definition ConvertCoin :: "'c erc20_keeper \<Rightarrow> MsgConvertCoin \<Rightarrow> ('c, bool) erc_go" where
  "ConvertCoin K msg =
    (case ek_AccAddressFromBech32 K (cc_Sender msg) of
       None \<Rightarrow> go_panic ''invalid bech32 address''
     | Some sender \<Rightarrow>
        let receiver = HexToAddress (ek_Api K) (cc_Receiver msg)
        in go_bind (MintingEnabled K sender (AddressBytes receiver) (Denom (cc_Coin msg))) (\<lambda>pair.
           if IsNativeERC20 pair
           then go_bind (go_gets (\<lambda>c. selfDestructedToken K pair (ercRest c))) (\<lambda>gone.
             if gone then go_seq (onStore (DeleteTokenPair K pair)) (go_return False)
             else go_seq (ConvertCoinNativeERC20 K pair (Amount (cc_Coin msg)) receiver sender) (go_return True))
           else if IsNativeCoin pair then go_err ErrNativeConversionDisabled
           else go_err ErrUndefinedOwner))"

section \<open>Messages\<close>

definition ConvertERC20_ValidateBasic :: "'c erc20_keeper \<Rightarrow> MsgConvertERC20 \<Rightarrow> string option" where
  "ConvertERC20_ValidateBasic K msg =
    (if \<not> IsHexAddress (ek_Api K) (ce_ContractAddress msg) then Some ''invalid contract hex address''
     else if \<not> 0 < ce_Amount msg then Some ''cannot mint a non-positive amount''
     else if ek_AccAddressFromBech32 K (ce_Receiver msg) = None then Some ''invalid receiver address''
     else if \<not> IsHexAddress (ek_Api K) (ce_Sender msg) then Some ''invalid sender hex address''
     else None)"

definition ConvertCoin_ValidateBasic :: "'c erc20_keeper \<Rightarrow> MsgConvertCoin \<Rightarrow> string option" where
  "ConvertCoin_ValidateBasic K msg =
    (if length (Denom (cc_Coin msg)) = 0 then Some ''denom cannot be empty''
     else if \<not> 0 < Amount (cc_Coin msg) then Some ''cannot mint a non-positive amount''
     else if ek_AccAddressFromBech32 K (cc_Sender msg) = None then Some ''invalid sender address''
     else if \<not> IsHexAddress (ek_Api K) (cc_Receiver msg) then Some ''invalid receiver hex address''
     else None)"

definition RegisterERC20_ValidateBasic :: "'c erc20_keeper \<Rightarrow> string \<Rightarrow> string list \<Rightarrow> string option" where
  "RegisterERC20_ValidateBasic K signer erc20Addresses =
    (if ek_AccAddressFromBech32 K signer = None then Some ''invalid signer address''
     else if list_ex (\<lambda>addr. \<not> IsHexAddress (ek_Api K) addr) erc20Addresses then Some ''invalid ERC20 contract address''
     else None)"

definition erc20_UpdateParams :: "'c erc20_keeper \<Rightarrow> string \<Rightarrow> erc20_Params \<Rightarrow> ('c, unit) erc_go" where
  "erc20_UpdateParams K authority params =
    (if ek_Authority K \<noteq> authority then go_err ErrInvalidSigner else onStore (erc20_SetParams params))"

definition validateAuthority :: "'c erc20_keeper \<Rightarrow> string \<Rightarrow> erc20_error option" where
  "validateAuthority K authority =
    (if ek_StringToBytes K authority = None then Some (ErrSdk ErrInvalidAddress)
     else if ek_Authority K \<noteq> authority then Some ErrInvalidSigner
     else None)"

definition RegisterERC20 :: "'c erc20_keeper \<Rightarrow> string \<Rightarrow> string list \<Rightarrow> ('c, unit) erc_go" where
  "RegisterERC20 K signer erc20Addresses =
    go_bind (go_gets (\<lambda>c. erc20_GetParams (ercStore c))) (\<lambda>params.
      case (if PermissionlessRegistration params then None else validateAuthority K signer) of
        Some e \<Rightarrow> go_err e
      | None \<Rightarrow>
         if \<not> EnableErc20 params then go_err ErrERC20Disabled
         else go_for erc20Addresses (\<lambda>addr.
           if \<not> IsHexAddress (ek_Api K) addr then go_err (ErrSdk ErrInvalidAddress)
           else go_bind (registerERC20 K (HexToAddress (ek_Api K) addr)) (\<lambda>pair.
             emitErc (EvRegisterERC20 (tp_Denom pair) (tp_Erc20Address pair)))))"

definition ToggleConversion :: "'c erc20_keeper \<Rightarrow> string \<Rightarrow> string \<Rightarrow> ('c, unit) erc_go" where
  "ToggleConversion K authority token =
    go_bind (go_gets (\<lambda>c. enableErc20 (ercStore c))) (\<lambda>enabled.
      if \<not> enabled then go_err ErrERC20Disabled
      else case validateAuthority K authority of
        Some e \<Rightarrow> go_err e
      | None \<Rightarrow> go_bind (toggleConversion K token) (\<lambda>pair. emitErc (EvToggleTokenConversion (tp_Denom pair) (tp_Erc20Address pair))))"

text \<open>The query of one pair.\<close>

definition TokenPairQuery :: "'c erc20_keeper \<Rightarrow> erc20_store \<Rightarrow> string \<Rightarrow> string + TokenPair" where
  "TokenPairQuery K s token =
    (if ValidateAddress (ek_Api K) token \<noteq> None \<and> \<not> ek_ValidateDenom K token then Inl ''invalid format for token''
     else case GetTokenPairID K s token of
       None \<Rightarrow> Inl ''token pair not found''
     | Some i \<Rightarrow>
        if i = [] then Inl ''token pair not found''
        else case GetTokenPair s (Some i) of None \<Rightarrow> Inl ''token pair not found'' | Some pair \<Rightarrow> Inr pair)"

section \<open>Genesis\<close>

record erc20_GenesisState =
  eg_Params :: erc20_Params
  eg_TokenPairs :: "TokenPair list"
  eg_Allowances :: "Allowance list"
  eg_NativePrecompiles :: "string list"
  eg_DynamicPrecompiles :: "string list"

definition erc20_DefaultGenesisState :: erc20_GenesisState where
  "erc20_DefaultGenesisState = \<lparr>eg_Params = erc20_DefaultParams, eg_TokenPairs = [], eg_Allowances = [],
     eg_NativePrecompiles = [], eg_DynamicPrecompiles = []\<rparr>"

fun validatePairs :: "'c erc20_keeper \<Rightarrow> string list \<Rightarrow> denom list \<Rightarrow> TokenPair list \<Rightarrow> string option" where
  "validatePairs K seenErc20 seenDenom [] = None"
| "validatePairs K seenErc20 seenDenom (b # bs) =
    (if tp_Erc20Address b \<in> set seenErc20 then Some ''token ERC20 contract duplicated on genesis''
     else if tp_Denom b \<in> set seenDenom then Some ''coin denomination duplicated on genesis''
     else case TokenPair_Validate K b of
       Some e \<Rightarrow> Some e
     | None \<Rightarrow> validatePairs K (tp_Erc20Address b # seenErc20) (tp_Denom b # seenDenom) bs)"

definition hasActiveTokenPair :: "TokenPair list \<Rightarrow> string \<Rightarrow> bool" where
  "hasActiveTokenPair pairs addr = list_ex (\<lambda>p. tp_Erc20Address p = addr \<and> tp_Enabled p) pairs"

definition validatePrecompiles :: "TokenPair list \<Rightarrow> string list \<Rightarrow> string option" where
  "validatePrecompiles tokenPairs precompiles =
    (if list_all (hasActiveTokenPair tokenPairs) precompiles then None else Some ''precompile address not found in token pairs'')"

fun validateAllowances :: "'c erc20_keeper \<Rightarrow> string list \<Rightarrow> string list \<Rightarrow> Allowance list \<Rightarrow> string option" where
  "validateAllowances K seenErc20 seenAllowance [] = None"
| "validateAllowances K seenErc20 seenAllowance (a # as) =
    (let key = al_Erc20Address a @ al_Owner a @ al_Spender a
     in if key \<in> set seenAllowance then Some ''duplicated allowance on genesis''
        else if al_Erc20Address a \<notin> set seenErc20 then Some ''allowance has no corresponding token pair on genesis''
        else case Allowance_Validate K a of
          Some e \<Rightarrow> Some e
        | None \<Rightarrow> validateAllowances K seenErc20 (key # seenAllowance) as)"

definition erc20_Genesis_Validate :: "'c erc20_keeper \<Rightarrow> erc20_GenesisState \<Rightarrow> string option" where
  "erc20_Genesis_Validate K gs =
    (case validatePairs K [] [] (eg_TokenPairs gs) of
       Some e \<Rightarrow> Some e
     | None \<Rightarrow>
        (case validatePrecompiles (eg_TokenPairs gs) (eg_DynamicPrecompiles gs) of
           Some e \<Rightarrow> Some e
         | None \<Rightarrow>
            (case validatePrecompiles (eg_TokenPairs gs) (eg_NativePrecompiles gs) of
               Some e \<Rightarrow> Some e
             | None \<Rightarrow> validateAllowances K (map tp_Erc20Address (eg_TokenPairs gs)) [] (eg_Allowances gs))))"

definition unsafeAllowanceGo :: "'c erc20_keeper \<Rightarrow> Allowance \<Rightarrow> ('c, unit) erc_go" where
  "unsafeAllowanceGo K a = (\<lambda>c.
    case UnsafeSetAllowance K (HexToAddress (ek_Api K) (al_Erc20Address a)) (HexToAddress (ek_Api K) (al_Owner a))
        (HexToAddress (ek_Api K) (al_Spender a)) (Some (al_Value a)) (ercStore c) of
      Inl e \<Rightarrow> (Err e, c)
    | Inr s \<Rightarrow> (Ret (), c\<lparr>ercStore := s\<rparr>))"

text \<open>An error of \<open>SetToken\<close> ends the function without a panic, and without the steps that follow.\<close>

definition erc20_InitGenesis :: "'c erc20_keeper \<Rightarrow> bool \<Rightarrow> erc20_GenesisState \<Rightarrow> ('c, unit) erc_go" where
  "erc20_InitGenesis K moduleAccountSet gs =
    go_seq (onStore (erc20_SetParams (eg_Params gs)))
      (if \<not> moduleAccountSet then go_panic ''the erc20 module account has not been set''
       else (\<lambda>c. case go_for (eg_TokenPairs gs) (setTokenGo K) c of
           (Err _, c') \<Rightarrow> (Ret (), c')
         | (Panic p, c') \<Rightarrow> (Panic p, c')
         | (Ret _, c') \<Rightarrow>
            go_seq (go_must ''error registering native precompiles''
                (go_for (eg_NativePrecompiles gs) (\<lambda>p. EnableNativePrecompile K (HexToAddress (ek_Api K) p))))
           (go_seq (go_must ''error registering dynamic precompiles''
                (go_for (eg_DynamicPrecompiles gs) (\<lambda>p. EnableDynamicPrecompile K (HexToAddress (ek_Api K) p))))
             (go_must ''error setting allowance'' (go_for (eg_Allowances gs) (unsafeAllowanceGo K)))) c'))"

definition erc20_ExportGenesis :: "erc20_store \<Rightarrow> erc20_GenesisState" where
  "erc20_ExportGenesis s =
    \<lparr>eg_Params = erc20_GetParams s, eg_TokenPairs = GetTokenPairs s, eg_Allowances = GetAllowances s,
     eg_NativePrecompiles = GetNativePrecompiles s, eg_DynamicPrecompiles = GetDynamicPrecompiles s\<rparr>"

section \<open>IBC callbacks\<close>

text \<open>
  Denominations with their trace, and their parsing and hashing, belong to ibc-go.  The packet data is
  already decoded; a decoding error is None.
\<close>

record ibc_denom =
  id_Trace :: "(string \<times> string) list"
  id_Base :: string

record ibc_api =
  ib_ExtractDenomFromPath :: "string \<Rightarrow> ibc_denom"
  ib_IBCDenom :: "ibc_denom \<Rightarrow> denom"
  ib_HasPrefix :: "ibc_denom \<Rightarrow> string \<Rightarrow> string \<Rightarrow> bool"
  ib_NewIntFromString :: "string \<Rightarrow> int option"
  ib_GetFromBech32 :: "string \<Rightarrow> string \<Rightarrow> bytes option"
  ib_VerifyAddressFormat :: "bytes \<Rightarrow> bool"

record FungibleTokenPacketData =
  fd_Denom :: string
  fd_Amount :: string
  fd_Sender :: string
  fd_Receiver :: string
  fd_Memo :: string

record ibc_packet =
  pk_Sequence :: u64
  pk_SourcePort :: string
  pk_SourceChannel :: string
  pk_DestinationPort :: string
  pk_DestinationChannel :: string
  pk_Data :: "FungibleTokenPacketData option"

text \<open>An acknowledgement: a result, or an error.\<close>

datatype ibc_ack = AckResult bytes | AckError erc20_error

definition GetAccAddressFromBech32 :: "ibc_api \<Rightarrow> string \<Rightarrow> AccAddress option" where
  "GetAccAddressFromBech32 I addr =
    (let bech32Prefix = takeWhile (\<lambda>ch. ch \<noteq> CHR ''1'') addr
     in if bech32Prefix = addr then None
        else case ib_GetFromBech32 I addr bech32Prefix of
          None \<Rightarrow> None
        | Some bz \<Rightarrow> if ib_VerifyAddressFormat I bz then Some bz else None)"

definition GetTransferSenderRecipient :: "ibc_api \<Rightarrow> FungibleTokenPacketData \<Rightarrow> string + (AccAddress \<times> AccAddress)" where
  "GetTransferSenderRecipient I data =
    (case GetAccAddressFromBech32 I (fd_Sender data) of
       None \<Rightarrow> Inl ''invalid sender''
     | Some sender \<Rightarrow>
        (case GetAccAddressFromBech32 I (fd_Receiver data) of
           None \<Rightarrow> Inl ''invalid recipient''
         | Some recipient \<Rightarrow> Inr (sender, recipient)))"

text \<open>The amount is nil when the string is not a number.\<close>

definition GetReceivedCoin :: "ibc_api \<Rightarrow> ibc_packet \<Rightarrow> ibc_denom \<Rightarrow> string \<Rightarrow> denom \<times> int option" where
  "GetReceivedCoin I packet dn amt =
    (let amountInt = ib_NewIntFromString I amt
     in if ib_HasPrefix I dn (pk_SourcePort packet) (pk_SourceChannel packet)
        then (ib_IBCDenom I (dn\<lparr>id_Trace := tl (id_Trace dn)\<rparr>), amountInt)
        else (ib_IBCDenom I (dn\<lparr>id_Trace := (pk_DestinationPort packet, pk_DestinationChannel packet) # id_Trace dn\<rparr>), amountInt))"

definition GetSentCoin :: "ibc_api \<Rightarrow> string \<Rightarrow> string \<Rightarrow> denom \<times> int option" where
  "GetSentCoin I rawDenom rawAmt = (ib_IBCDenom I (ib_ExtractDenomFromPath I rawDenom), ib_NewIntFromString I rawAmt)"

text \<open>A nil amount is dereferenced.\<close>

definition convertReceived :: "'c erc20_keeper \<Rightarrow> TokenPair \<Rightarrow> int option \<Rightarrow> AccAddress \<Rightarrow> ('c, unit) erc_go" where
  "convertReceived K pair amount acc =
    (case amount of
       None \<Rightarrow> go_panic ''nil pointer dereference''
     | Some amt \<Rightarrow> ConvertCoinNativeERC20 K pair amt (BytesToAddress acc) acc)"

definition ackErr :: "('c, ibc_ack) erc_go \<Rightarrow> ('c, ibc_ack) erc_go" where
  "ackErr m = (\<lambda>c. case m c of (Err e, c') \<Rightarrow> (Ret (AckError e), c') | (Ret a, c') \<Rightarrow> (Ret a, c') | (Panic p, c') \<Rightarrow> (Panic p, c'))"

definition OnRecvPacket :: "'c erc20_keeper \<Rightarrow> ibc_api \<Rightarrow> ibc_packet \<Rightarrow> ibc_ack \<Rightarrow> ('c, ibc_ack) erc_go" where
  "OnRecvPacket K I packet ack = ackErr (\<lambda>c.
    if \<not> enableErc20 (ercStore c) then (Ret ack, c)
    else case pk_Data packet of
      None \<Rightarrow> (Err (ErrErcOther ''cannot unmarshal ICS-20 transfer packet data''), c)
    | Some data \<Rightarrow>
       (case GetTransferSenderRecipient I data of
          Inl e \<Rightarrow> (Err (ErrErcOther e), c)
        | Inr (sender, recipient) \<Rightarrow>
           if ek_IsModuleAccount K (ercRest c) recipient then (Ret ack, c)
           else case GetReceivedCoin I packet (ib_ExtractDenomFromPath I (fd_Denom data)) (fd_Amount data) of
             (coinDenom, coinAmount) \<Rightarrow>
               if take 8 (fd_Denom data) = ''factory/'' then (Ret ack, c)
               else case ek_BondDenom K (ercRest c) of
                 Inl e \<Rightarrow> (Err (ErrErcOther e), c)
               | Inr bondDenom \<Rightarrow>
                  if coinDenom = bondDenom then (Ret ack, c)
                  else case GetTokenPair (ercStore c) (GetTokenPairID K (ercStore c) coinDenom) of
                    None \<Rightarrow>
                      if take 4 coinDenom = ''ibc/''
                      then go_bind (RegisterERC20Extension K coinDenom) (\<lambda>tokenPair.
                        go_seq (emitErc (EvRegisterERC20Extension (pk_SourceChannel packet) (tp_Erc20Address tokenPair) (tp_Denom tokenPair)))
                          (go_return ack)) c
                      else (Ret ack, c)
                  | Some pair \<Rightarrow>
                      if IsNativeERC20 pair
                      then (if \<not> tp_Enabled pair then (Ret ack, c)
                            else case MintingEnabled K sender recipient coinDenom c of
                              (Err e, c') \<Rightarrow> go_seq (emitErc (EvCallbackFailure coinDenom recipient)) (go_err e) c'
                            | (Panic p, c') \<Rightarrow> (Panic p, c')
                            | (Ret pair', c') \<Rightarrow> go_seq (convertReceived K pair' coinAmount recipient) (go_return ack) c')
                      else (Ret ack, c)))"

definition GetTransferAmount :: "ibc_api \<Rightarrow> ibc_packet \<Rightarrow> string + string" where
  "GetTransferAmount I packet =
    (case pk_Data packet of
       None \<Rightarrow> Inl ''cannot unmarshal ICS-20 transfer packet data''
     | Some data \<Rightarrow>
        if fd_Amount data = [] then Inl ''empty amount''
        else if ib_NewIntFromString I (fd_Amount data) = None then Inl ''invalid amount''
        else Inr (fd_Amount data))"

definition DeriveDecimalsFromDenom :: "string \<Rightarrow> string + u8" where
  "DeriveDecimalsFromDenom baseDenom =
    (case baseDenom of
       [] \<Rightarrow> Inl ''Base denom cannot be an empty string''
     | ch # _ \<Rightarrow> if ch = CHR ''u'' then Inr 6 else if ch = CHR ''a'' then Inr 18 else Inl ''Should be either micro or atto'')"

text \<open>
  A failed conversion is recorded in an event and not returned; what it wrote before it failed stays.
\<close>

definition ConvertCoinToERC20FromPacket :: "'c erc20_keeper \<Rightarrow> ibc_api \<Rightarrow> FungibleTokenPacketData \<Rightarrow> ('c, unit) erc_go" where
  "ConvertCoinToERC20FromPacket K I data = (\<lambda>c.
    case ek_AccAddressFromBech32 K (fd_Sender data) of
      None \<Rightarrow> (Err (ErrErcOther ''invalid bech32 address''), c)
    | Some sender \<Rightarrow>
       (case GetTokenPair (ercStore c) (GetTokenPairID K (ercStore c) (fd_Denom data)) of
          None \<Rightarrow> (Ret (), c)
        | Some pair \<Rightarrow>
           (case GetSentCoin I (fd_Denom data) (fd_Amount data) of
              (coinDenom, coinAmount) \<Rightarrow>
                if IsNativeCoin pair then (Ret (), c)
                else if IsNativeERC20 pair
                then (if \<not> EnableErc20 (erc20_GetParams (ercStore c)) \<or> \<not> IsDenomRegistered (ercStore c) coinDenom then (Ret (), c)
                      else if ek_IsModuleAccount K (ercRest c) sender then (Ret (), c)
                      else case convertReceived K pair coinAmount sender c of
                        (Err e, c') \<Rightarrow> emitErc (EvFailedConvertERC20 (tp_Denom pair) (tp_Erc20Address pair)) c'
                      | (Panic p, c') \<Rightarrow> (Panic p, c')
                      | (Ret _, c') \<Rightarrow> (Ret (), c'))
                else (Ret (), c))))"

definition OnAcknowledgementPacket :: "'c erc20_keeper \<Rightarrow> ibc_api \<Rightarrow> FungibleTokenPacketData \<Rightarrow> ibc_ack \<Rightarrow> ('c, unit) erc_go" where
  "OnAcknowledgementPacket K I data ack =
    (case ack of AckError _ \<Rightarrow> ConvertCoinToERC20FromPacket K I data | AckResult _ \<Rightarrow> go_return ())"

definition OnTimeoutPacket :: "'c erc20_keeper \<Rightarrow> ibc_api \<Rightarrow> FungibleTokenPacketData \<Rightarrow> ('c, unit) erc_go" where
  "OnTimeoutPacket K I data = ConvertCoinToERC20FromPacket K I data"

text \<open>The middleware: \<open>app\<close> is the ICS-20 application under it.\<close>

definition im_OnRecvPacket :: "'c erc20_keeper \<Rightarrow> ibc_api \<Rightarrow> (ibc_packet \<Rightarrow> ('c, ibc_ack) erc_go) \<Rightarrow> ibc_packet \<Rightarrow> ('c, ibc_ack) erc_go" where
  "im_OnRecvPacket K I app packet =
    go_bind (app packet) (\<lambda>ack. case ack of AckError _ \<Rightarrow> go_return ack | AckResult _ \<Rightarrow> OnRecvPacket K I packet ack)"

definition im_OnAcknowledgementPacket ::
    "'c erc20_keeper \<Rightarrow> ibc_api \<Rightarrow> (ibc_packet \<Rightarrow> ('c, unit) erc_go) \<Rightarrow> ibc_packet \<Rightarrow> ibc_ack option \<Rightarrow> ('c, unit) erc_go" where
  "im_OnAcknowledgementPacket K I app packet acknowledgement =
    (case acknowledgement of
       None \<Rightarrow> go_err (ErrErcOther ''cannot unmarshal ICS-20 transfer packet acknowledgement'')
     | Some ack \<Rightarrow>
        (case pk_Data packet of
           None \<Rightarrow> go_err (ErrErcOther ''cannot unmarshal ICS-20 transfer packet data'')
         | Some data \<Rightarrow> go_seq (app packet) (OnAcknowledgementPacket K I data ack)))"

definition im_OnTimeoutPacket ::
    "'c erc20_keeper \<Rightarrow> ibc_api \<Rightarrow> (ibc_packet \<Rightarrow> ('c, unit) erc_go) \<Rightarrow> ibc_packet \<Rightarrow> ('c, unit) erc_go" where
  "im_OnTimeoutPacket K I app packet =
    (case pk_Data packet of
       None \<Rightarrow> go_err (ErrErcOther ''cannot unmarshal ICS-20 transfer packet data'')
     | Some data \<Rightarrow> go_seq (app packet) (OnTimeoutPacket K I data))"

end
