(* ===== verification/Erc20Inv.thy ===== *)
theory Erc20Inv
  imports Erc20
begin

text \<open>
  The invariant of the stores of the ERC-20 module: the two indices and the token pairs describe the
  same one-to-one relation between denominations and contracts, and every allowance belongs to a
  registered token.  Every message, query callback and genesis step keeps it.
\<close>

section \<open>The libraries\<close>

text \<open>
  SHA-256 has no collisions, the checksummed form of an address parses back to it, and hexadecimal addresses have
  no separator in them.
\<close>

definition erc20_lib_contract :: "'c erc20_keeper \<Rightarrow> bool" where
  "erc20_lib_contract K \<longleftrightarrow> inj (ek_Sum K) \<and> address_contract (ek_Api K) \<and>
    (\<forall>s. IsHexAddress (ek_Api K) s \<longrightarrow> CHR ''|'' \<notin> set s)"

lemma append_sep_eq:
  assumes "x \<notin> set a" "x \<notin> set b" "a @ x # c = b @ x # d"
  shows "a = b \<and> c = d"
  using assms
proof (induction a arbitrary: b)
  case Nil
  then show ?case by (cases b) auto
next
  case (Cons y a)
  then show ?case by (cases b) auto
qed

lemma GetID_eq:
  assumes "erc20_lib_contract K" "IsHexAddress (ek_Api K) (tp_Erc20Address p)" "IsHexAddress (ek_Api K) (tp_Erc20Address q)"
  shows "GetID K p = GetID K q \<longleftrightarrow> tp_Erc20Address p = tp_Erc20Address q \<and> tp_Denom p = tp_Denom q"
  using assms append_sep_eq [of "CHR ''|''" "tp_Erc20Address p" "tp_Erc20Address q" "tp_Denom p" "tp_Denom q"]
  by (auto simp: erc20_lib_contract_def GetID_def dest: injD)

lemma AddressString_hex: "erc20_lib_contract K \<Longrightarrow> IsHexAddress (ek_Api K) (AddressString (ek_Api K) a)"
  by (simp add: erc20_lib_contract_def address_contract_def)

lemma AllowanceKey_eq [simp]: "AllowanceKey e1 o1 s1 = AllowanceKey e2 o2 s2 \<longleftrightarrow> e1 = e2 \<and> o1 = o2 \<and> s1 = s2"
  by (simp add: AllowanceKey_def append_eq_append_conv)

lemma take_AllowanceKey [simp]: "take 20 (AllowanceKey e o1 s) = AddressBytes e"
  by (simp add: AllowanceKey_def)

section \<open>The invariant\<close>

definition pairs_wf :: "'c erc20_keeper \<Rightarrow> erc20_store \<Rightarrow> bool" where
  "pairs_wf K s \<longleftrightarrow>
    (\<forall>i tp. fmlookup (tokenPairStore s) i = Some tp \<longrightarrow> i = GetID K tp \<and> IsHexAddress (ek_Api K) (tp_Erc20Address tp)) \<and>
    (\<forall>k i. fmlookup (erc20Map s) k = Some i \<longleftrightarrow>
       (\<exists>tp. fmlookup (tokenPairStore s) i = Some tp \<and> k = AddressBytes (GetERC20Contract K tp))) \<and>
    (\<forall>d i. fmlookup (denomMap s) d = Some i \<longleftrightarrow> (\<exists>tp. fmlookup (tokenPairStore s) i = Some tp \<and> d = tp_Denom tp))"

definition allowances_wf :: "'c erc20_keeper \<Rightarrow> erc20_store \<Rightarrow> bool" where
  "allowances_wf K s \<longleftrightarrow>
    (\<forall>k a. fmlookup (allowanceStore s) k = Some a \<longrightarrow>
       (\<exists>e own sp v. k = AllowanceKey e own sp \<and> a = NewAllowance K e own sp v \<and> own \<noteq> 0 \<and> sp \<noteq> 0 \<and> 0 < v \<and> v < 2 ^ 256 \<and>
          IsERC20Registered s e))"

definition erc20_wf :: "'c erc20_keeper \<Rightarrow> erc20_store \<Rightarrow> bool" where
  "erc20_wf K s \<longleftrightarrow> pairs_wf K s \<and> allowances_wf K s"

lemma pairs_wfD:
  assumes "pairs_wf K s" "fmlookup (tokenPairStore s) i = Some tp"
  shows "i = GetID K tp" "IsHexAddress (ek_Api K) (tp_Erc20Address tp)"
    "fmlookup (erc20Map s) (AddressBytes (GetERC20Contract K tp)) = Some i" "fmlookup (denomMap s) (tp_Denom tp) = Some i"
  using assms unfolding pairs_wf_def by blast+

lemma pairs_wf_inj:
  assumes "pairs_wf K s" "fmlookup (tokenPairStore s) i = Some p" "fmlookup (tokenPairStore s) j = Some q"
    and "GetERC20Contract K p = GetERC20Contract K q \<or> tp_Denom p = tp_Denom q"
  shows "i = j"
  using pairs_wfD [OF assms(1,2)] pairs_wfD [OF assms(1,3)] assms(4) by auto

lemma pairs_wf_SetToken:
  assumes "erc20_lib_contract K" "pairs_wf K s" "IsHexAddress (ek_Api K) (tp_Erc20Address p)" "SetToken K p s = Inr s'"
  shows "pairs_wf K s'"
proof -
  let ?i = "GetID K p"
  have new: "fmlookup (denomMap s) (tp_Denom p) = None" "fmlookup (erc20Map s) (AddressBytes (GetERC20Contract K p)) = None"
      and s': "tokenPairStore s' = fmupd ?i p (tokenPairStore s)" "denomMap s' = fmupd (tp_Denom p) ?i (denomMap s)"
        "erc20Map s' = fmupd (AddressBytes (GetERC20Contract K p)) ?i (erc20Map s)"
    using assms(4) by (auto simp: SetToken_def IsDenomRegistered_def IsERC20Registered_def SetERC20Map_def SetDenomMap_def SetTokenPair_def split: if_splits)
  have old: "tp_Denom tp \<noteq> tp_Denom p" "GetERC20Contract K tp \<noteq> GetERC20Contract K p" if "fmlookup (tokenPairStore s) i = Some tp" for i tp
    using pairs_wfD [OF assms(2) that] new by auto
  have fresh: "fmlookup (tokenPairStore s) ?i = None"
    using pairs_wfD(1,2) [OF assms(2)] old GetID_eq [OF assms(1,3)] by (metis option.exhaust)
  show ?thesis
    unfolding pairs_wf_def s' fmupd_lookup
  proof (intro conjI allI impI)
    fix k i
    show "((if AddressBytes (GetERC20Contract K p) = k then Some ?i else fmlookup (erc20Map s) k) = Some i) =
        (\<exists>tp. (if ?i = i then Some p else fmlookup (tokenPairStore s) i) = Some tp \<and> k = AddressBytes (GetERC20Contract K tp))"
      using assms(2) fresh new unfolding pairs_wf_def by (auto dest: old)
  next
    fix d i
    show "((if tp_Denom p = d then Some ?i else fmlookup (denomMap s) d) = Some i) =
        (\<exists>tp. (if ?i = i then Some p else fmlookup (tokenPairStore s) i) = Some tp \<and> d = tp_Denom tp)"
      using assms(2) fresh new unfolding pairs_wf_def by (auto dest: old)
  qed (use assms(2,3) pairs_wfD(1,2) in \<open>auto split: if_splits\<close>)
qed

lemma allowances_wf_mono:
  "allowances_wf K s \<Longrightarrow> allowanceStore s' = allowanceStore s \<Longrightarrow> (\<And>e. IsERC20Registered s e \<Longrightarrow> IsERC20Registered s' e) \<Longrightarrow> allowances_wf K s'"
  unfolding allowances_wf_def by metis

lemma erc20_wf_SetToken:
  assumes "erc20_lib_contract K" "erc20_wf K s" "IsHexAddress (ek_Api K) (tp_Erc20Address p)" "SetToken K p s = Inr s'"
  shows "erc20_wf K s'"
proof -
  have "allowanceStore s' = allowanceStore s" "\<And>e. IsERC20Registered s e \<Longrightarrow> IsERC20Registered s' e"
    using assms(4) by (auto simp: SetToken_def SetERC20Map_def SetDenomMap_def SetTokenPair_def IsERC20Registered_def split: if_splits)
  then show ?thesis using assms pairs_wf_SetToken allowances_wf_mono unfolding erc20_wf_def by blast
qed

lemma erc20_wf_toggle:
  assumes "erc20_wf K s" "fmlookup (tokenPairStore s) i = Some tp"
  shows "erc20_wf K (SetTokenPair K (tp\<lparr>tp_Enabled := b\<rparr>) s)"
proof -
  let ?p = "tp\<lparr>tp_Enabled := b\<rparr>"
  have p: "GetID K ?p = i" "GetERC20Contract K ?p = GetERC20Contract K tp" "tp_Denom ?p = tp_Denom tp" "tp_Erc20Address ?p = tp_Erc20Address tp"
    using pairs_wfD(1) [of K s i tp] assms by (simp_all add: erc20_wf_def GetID_def GetERC20Contract_def)
  have "pairs_wf K (SetTokenPair K ?p s)"
    using assms p unfolding erc20_wf_def pairs_wf_def SetTokenPair_def by auto
  then show ?thesis using assms(1) unfolding erc20_wf_def
    by (auto simp: SetTokenPair_def IsERC20Registered_def intro: allowances_wf_mono)
qed

lemma pairs_wf_Delete:
  assumes "pairs_wf K s" "fmlookup (tokenPairStore s) i = Some tp"
  shows "pairs_wf K (DeleteTokenPair K tp s)"
proof -
  have i: "GetID K tp = i" using pairs_wfD [OF assms] by simp
  have ne: "GetERC20Contract K q \<noteq> GetERC20Contract K tp" "tp_Denom q \<noteq> tp_Denom tp" if "fmlookup (tokenPairStore s) j = Some q" "j \<noteq> i" for j q
    using pairs_wf_inj [OF assms that(1)] that(2) by auto
  have del: "tokenPairStore (DeleteTokenPair K tp s) = fmdrop i (tokenPairStore s)" "denomMap (DeleteTokenPair K tp s) = fmdrop (tp_Denom tp) (denomMap s)"
      "erc20Map (DeleteTokenPair K tp s) = fmdrop (AddressBytes (GetERC20Contract K tp)) (erc20Map s)"
    by (simp_all add: DeleteTokenPair_def deleteAllowances_def deleteDenomMap_def deleteERC20Map_def deleteTokenPair_def i)
  show ?thesis
    unfolding pairs_wf_def del fmlookup_drop
  proof (intro conjI allI impI)
    fix k j
    show "((if k \<noteq> AddressBytes (GetERC20Contract K tp) then fmlookup (erc20Map s) k else None) = Some j) =
        (\<exists>q. (if j \<noteq> i then fmlookup (tokenPairStore s) j else None) = Some q \<and> k = AddressBytes (GetERC20Contract K q))"
      using assms unfolding pairs_wf_def by (auto dest: ne)
  next
    fix d j
    show "((if d \<noteq> tp_Denom tp then fmlookup (denomMap s) d else None) = Some j) =
        (\<exists>q. (if j \<noteq> i then fmlookup (tokenPairStore s) j else None) = Some q \<and> d = tp_Denom q)"
      using assms unfolding pairs_wf_def by (auto dest: ne)
  qed (use assms(1) pairs_wfD(1,2) in \<open>auto split: if_splits\<close>)
qed

lemma allowances_wf_Delete: "allowances_wf K s \<Longrightarrow> allowances_wf K (DeleteTokenPair K tp s)"
  unfolding allowances_wf_def
  by (fastforce simp: DeleteTokenPair_def deleteAllowances_def deleteDenomMap_def deleteERC20Map_def deleteTokenPair_def IsERC20Registered_def split: if_splits)

lemma erc20_wf_Delete: "erc20_wf K s \<Longrightarrow> fmlookup (tokenPairStore s) i = Some tp \<Longrightarrow> erc20_wf K (DeleteTokenPair K tp s)"
  using pairs_wf_Delete allowances_wf_Delete unfolding erc20_wf_def by blast

lemma erc20_wf_setAllowance:
  assumes "erc20_wf K s" "setAllowance K e own sp v dis s = Inr s'"
  shows "erc20_wf K s'"
proof -
  have reg: "IsERC20Registered s e"
    using assms(2) by (auto simp: setAllowance_def GetTokenPair_def IsERC20Registered_def GetERC20Map_def split: option.splits)
  have "pairs_wf K s'"
    using assms by (auto simp: setAllowance_def erc20_wf_def pairs_wf_def GetERC20Map_def GetDenomMap_def split: option.splits if_splits)
  moreover have "allowances_wf K s'"
    using assms reg unfolding erc20_wf_def allowances_wf_def
    by (fastforce simp: setAllowance_def IsERC20Registered_def split: option.splits if_splits)
  ultimately show ?thesis by (simp add: erc20_wf_def)
qed

lemma erc20_wf_other:
  assumes "erc20_wf K s" "tokenPairStore s' = tokenPairStore s" "erc20Map s' = erc20Map s" "denomMap s' = denomMap s" "allowanceStore s' = allowanceStore s"
  shows "erc20_wf K s'"
  using assms(1) unfolding erc20_wf_def pairs_wf_def allowances_wf_def IsERC20Registered_def assms(2-5) .

section \<open>Operations\<close>

abbreviation keeps_wf :: "'c erc20_keeper \<Rightarrow> ('c erc_ctx, 'e, 'x) go \<Rightarrow> bool" where
  "keeps_wf K m \<equiv> go_keeps (\<lambda>c. erc20_wf K (ercStore c)) m"

text \<open>The EVM reaches the store through the token precompiles only, which keep the invariant.\<close>

definition evm_keeps_wf :: "'c erc20_keeper \<Rightarrow> bool" where
  "evm_keeps_wf K \<longleftrightarrow> (\<forall>from to data commit. keeps_wf K (ek_CallEVMWithData K from to data commit))"

lemma go_keeps_sum [intro!]:
  "(\<And>e. go_keeps P (f e)) \<Longrightarrow> (\<And>v. go_keeps P (g v)) \<Longrightarrow> go_keeps P (case x of Inl e \<Rightarrow> f e | Inr v \<Rightarrow> g v)"
  by (cases x) simp_all

lemma keeps_rest [intro!]: "go_keeps (\<lambda>c. P (ercStore c)) (onRest m)"
  by (auto simp: onRest_def go_keeps_def go_zoom_def split: prod.split)

lemma keeps_rest_ops [intro!]:
  "go_keeps (\<lambda>c. P (ercStore c)) (onBankKeeper m')" "go_keeps (\<lambda>c. P (ercStore c)) (emitErc ev)"
  "go_keeps (\<lambda>c. P (ercStore c)) (go_modify (\<lambda>c. c\<lparr>ercRest := f (ercRest c)\<rparr>))" "go_keeps (\<lambda>c. P (ercStore c)) (orErr e x)"
  by (auto simp: onBankKeeper_def emitErc_def orErr_def)

lemma keeps_onStore: "(\<And>s. P s \<Longrightarrow> P (f s)) \<Longrightarrow> go_keeps (\<lambda>c. P (ercStore c)) (onStore f)"
  by (auto simp: onStore_def)

lemma keeps_checkTransfer [intro!]: "go_keeps (\<lambda>c. P (ercStore c)) (checkTransfer K contract res)"
  by (auto simp: checkTransfer_def validateTransferEventExists_def split: option.split bool.split outcome.split)

locale erc20_env =
  fixes K :: "'c erc20_keeper"
  assumes lib: "erc20_lib_contract K" and evm: "evm_keeps_wf K"
begin

lemma keeps_CallEVM [intro!]: "keeps_wf K (ek_CallEVM K from contract commit call)" "keeps_wf K (ek_CallEVMWithData K from to data commit)"
  using evm by (auto simp: ek_CallEVM_def evm_keeps_wf_def)

lemma keeps_onEvm [intro!]: "keeps_wf K m \<Longrightarrow> keeps_wf K (onEvm m)"
  by (auto simp: onEvm_def)

lemma keeps_BalanceOf [intro!]: "keeps_wf K (BalanceOf K contract acct)"
  using go_keepsD [OF keeps_CallEVM(1)] by (fastforce simp: BalanceOf_def go_keeps_def split: prod.split outcome.split)

lemma keeps_setTokenGo [intro]:
  "IsHexAddress (ek_Api K) (tp_Erc20Address p) \<Longrightarrow> keeps_wf K (setTokenGo K p)"
  using erc20_wf_SetToken [OF lib] by (auto simp: setTokenGo_def go_keeps_def split: sum.split)

lemma keeps_precompiles [intro!]: "keeps_wf K (EnableNativePrecompile K a)" "keeps_wf K (EnableDynamicPrecompile K a)"
  unfolding EnableNativePrecompile_def EnableDynamicPrecompile_def RegisterCodeHash_def RegisterERC20CodeHash_def setCodeHashOf_def Let_def
  by (auto simp: SetNativePrecompile_def SetDynamicPrecompile_def intro!: keeps_onStore intro: erc20_wf_other)

lemma keeps_QueryERC20 [intro!]: "keeps_wf K (QueryERC20 K contract)"
  unfolding QueryERC20_def queryERC20String_def by (auto split: option.split)

lemma keeps_CreateCoinMetadata [intro!]: "keeps_wf K (CreateCoinMetadata K contract)"
  unfolding CreateCoinMetadata_def Let_def by (auto split: option.split)

lemma keeps_registerERC20 [intro!]: "keeps_wf K (registerERC20 K contract)"
  unfolding registerERC20_def Let_def by (auto simp: NewTokenPair_def AddressString_hex [OF lib])

lemma keeps_CreateNewTokenPair [intro!]: "keeps_wf K (CreateNewTokenPair K denom)"
  unfolding CreateNewTokenPair_def by (auto simp: NewTokenPairSTRv2_def AddressString_hex [OF lib] split: sum.split)

lemma keeps_RegisterERC20Extension [intro!]: "keeps_wf K (RegisterERC20Extension K denom)"
  unfolding RegisterERC20Extension_def by auto

lemma keeps_toggleConversion [intro!]: "keeps_wf K (toggleConversion K token)"
proof -
  have "erc20_wf K (ercStore (snd (toggleConversion K token c)))" if "erc20_wf K (ercStore c)" for c
    using that erc20_wf_toggle [OF that]
    by (auto simp: toggleConversion_def Let_def onStore_def GetTokenPair_def split: option.split)
  then show ?thesis by (simp add: go_keeps_def)
qed

lemma keeps_convert [intro!]:
  "keeps_wf K (convertERC20IntoCoinsForNativeToken K pair msg receiver sender)" "keeps_wf K (ConvertCoinNativeERC20 K pair amount r s)"
  unfolding convertERC20IntoCoinsForNativeToken_def ConvertCoinNativeERC20_def Let_def by auto

lemma MintingEnabled_Ret: "MintingEnabled K sender receiver token c = (Ret pair, c') \<Longrightarrow>
    c' = c \<and> enableErc20 (ercStore c) \<and> tp_Enabled pair \<and> \<not> ek_BlockedAddr K receiver \<and>
    (\<exists>i. GetTokenPairID K (ercStore c) token = Some i \<and> fmlookup (tokenPairStore (ercStore c)) i = Some pair)"
  by (auto simp: MintingEnabled_def Let_def GetTokenPair_def split: if_splits option.splits)

lemma MintingEnabled_state: "snd (MintingEnabled K sender receiver token c) = c"
  by (auto simp: MintingEnabled_def Let_def split: option.splits)

lemma keeps_afterMinting:
  assumes "\<And>c i pair. erc20_wf K (ercStore c) \<Longrightarrow> fmlookup (tokenPairStore (ercStore c)) i = Some pair \<Longrightarrow> erc20_wf K (ercStore (snd (f pair c)))"
  shows "keeps_wf K (go_bind (MintingEnabled K sender receiver token) f)"
proof -
  have "erc20_wf K (ercStore (snd (go_bind (MintingEnabled K sender receiver token) f c)))" if "erc20_wf K (ercStore c)" for c
    using that assms MintingEnabled_Ret [of sender receiver token c] MintingEnabled_state [of sender receiver token c]
    by (fastforce simp: go_bind_def split: prod.split outcome.split)
  then show ?thesis by (simp add: go_keeps_def)
qed

lemma keeps_Convert [intro!]: "keeps_wf K (ConvertERC20 K msg)" "keeps_wf K (ConvertCoin K msg')"
proof -
  have wf: "erc20_wf K (ercStore (snd (go_seq (g :: ('c, unit) erc_go) (go_return True) c)))" if "erc20_wf K (ercStore c)" "keeps_wf K g" for g c
    using go_keeps_seq [OF that(2), of "go_return True"] that(1) by (simp add: go_keeps_def)
  show "keeps_wf K (ConvertERC20 K msg)"
    unfolding ConvertERC20_def Let_def
    by (auto intro!: keeps_afterMinting simp: onStore_def intro: wf [OF _ keeps_convert(1), simplified] erc20_wf_Delete)
  show "keeps_wf K (ConvertCoin K msg')"
    unfolding ConvertCoin_def Let_def
    by (auto intro!: keeps_afterMinting simp: onStore_def intro: wf [OF _ keeps_convert(2), simplified] erc20_wf_Delete)
qed

lemma keeps_messages [intro!]: "keeps_wf K (RegisterERC20 K signer addrs)" "keeps_wf K (ToggleConversion K authority token)"
    "keeps_wf K (erc20_UpdateParams K authority params)"
  unfolding RegisterERC20_def ToggleConversion_def erc20_UpdateParams_def
  by (auto intro!: keeps_onStore simp: erc20_SetParams_def intro: erc20_wf_other)

lemma keeps_DeployERC20Contract: "keeps_wf K (DeployERC20Contract K D md)"
proof -
  have "keeps_wf K (go_bind (onEvm (ek_CallEVMWithData K x y data True)) (\<lambda>_. go_return a))" for x y data and a :: Address
    by auto
  then show ?thesis by (auto simp: DeployERC20Contract_def Let_def go_keeps_def split: sum.split)
qed

lemma keeps_convertReceived [intro!]: "keeps_wf K (convertReceived K pair amount acc)"
  unfolding convertReceived_def by auto

lemma keeps_OnRecvPacket [intro!]: "keeps_wf K (OnRecvPacket K I packet ack)"
proof -
  have conv: "erc20_wf K (ercStore (snd (go_seq (convertReceived K p a r) (go_return ack) c)))" if "erc20_wf K (ercStore c)" for p a r c
    using go_keeps_seq [OF keeps_convertReceived, of "go_return ack"] that by (simp add: go_keeps_def)
  have "keeps_wf K (go_bind (RegisterERC20Extension K d) (\<lambda>t. go_seq (emitErc (ev t)) (go_return ack)))" for d ev
    by (intro go_keeps_bind keeps_RegisterERC20Extension go_keeps_seq keeps_rest_ops go_keeps_base)
  then have reg: "erc20_wf K (ercStore (snd (go_bind (RegisterERC20Extension K d) (\<lambda>t. go_seq (emitErc (ev t)) (go_return ack)) c)))"
    if "erc20_wf K (ercStore c)" for d ev c
    using that by (simp add: go_keeps_def del: go_seq_app)
  have ackErr: "ercStore (snd (ackErr m c)) = ercStore (snd (m c))" for m c
    by (auto simp: ackErr_def split: prod.split outcome.split)
  have mint: "erc20_wf K (ercStore (snd (case MintingEnabled K sender recipient d c of
        (Err e, c') \<Rightarrow> go_seq (emitErc (ev :: erc20_event)) (go_err e) c' | (Panic p, c') \<Rightarrow> (Panic p, c')
      | (Ret pair', c') \<Rightarrow> go_seq (convertReceived K pair' amt recipient) (go_return ack) c')))"
    if "erc20_wf K (ercStore c)" for sender recipient d c ev amt
    using that conv [OF that] MintingEnabled_state [of sender recipient d c]
    by (auto simp: emitErc_def simp del: go_seq_app split: prod.split outcome.split) (simp add: emitErc_def)
  have "erc20_wf K (ercStore (snd (OnRecvPacket K I packet ack c)))" if wf: "erc20_wf K (ercStore c)" for c
  proof (cases "pk_Data packet")
    case (Some data)
    obtain d a where "GetReceivedCoin I packet (ib_ExtractDenomFromPath I (fd_Denom data)) (fd_Amount data) = (d, a)" by force
    then show ?thesis unfolding OnRecvPacket_def ackErr using Some wf reg [OF wf] mint [OF wf]
      by (cases "GetTransferSenderRecipient I data") (auto simp del: go_seq_app split: option.split sum.split)
  qed (use wf in \<open>simp add: OnRecvPacket_def ackErr\<close>)
  then show ?thesis by (simp add: go_keeps_def)
qed

lemma keeps_ConvertFromPacket [intro!]: "keeps_wf K (ConvertCoinToERC20FromPacket K I data)"
  unfolding go_keeps_def ConvertCoinToERC20FromPacket_def
  using go_keepsD [OF keeps_convertReceived]
  by (fastforce simp: emitErc_def split: prod.split outcome.split option.split)

lemma keeps_packets [intro!]: "keeps_wf K (OnAcknowledgementPacket K I data ack)" "keeps_wf K (OnTimeoutPacket K I data)"
  unfolding OnAcknowledgementPacket_def OnTimeoutPacket_def by (auto split: ibc_ack.split)

end

end
