(* ===== verification/Erc20Props.thy ===== *)
theory Erc20Props
  imports Erc20Inv VmFees VmGenesis
begin

text \<open>
  Properties of the ERC-20 module: the stores stay consistent, conversions keep the coins backed by
  escrowed tokens, and what a refund does whose conversion fails.  The keeper of the application,
  over x/vm, x/precisebank and x/auth, is an instance.
\<close>

section \<open>Reachable stores\<close>

lemma go_keeps_for_in: "(\<And>x. x \<in> set xs \<Longrightarrow> go_keeps P (f x)) \<Longrightarrow> go_keeps P (go_for xs f)"
  by (induction xs) auto

lemma validatePairs_hex: "validatePairs K es ds ps = None \<Longrightarrow> p \<in> set ps \<Longrightarrow> IsHexAddress (ek_Api K) (tp_Erc20Address p)"
  by (induction K es ds ps rule: validatePairs.induct)
    (auto simp: TokenPair_Validate_def ValidateAddress_def split: if_splits option.splits)

lemma keeps_unsafeAllowance: "keeps_wf K (unsafeAllowanceGo K a)"
  using erc20_wf_setAllowance [of K] by (auto simp: unsafeAllowanceGo_def UnsafeSetAllowance_def go_keeps_def split: sum.split)

lemma keeps_InitGenesis:
  assumes "erc20_env K" "erc20_Genesis_Validate K gs = None"
  shows "keeps_wf (K :: 'c erc20_keeper) (erc20_InitGenesis K b gs)"
proof -
  have hex: "IsHexAddress (ek_Api K) (tp_Erc20Address p)" if "p \<in> set (eg_TokenPairs gs)" for p
    using assms(2) that by (auto simp: erc20_Genesis_Validate_def split: option.splits intro: validatePairs_hex)
  note pairs = go_keeps_for_in [where f = "setTokenGo K", OF erc20_env.keeps_setTokenGo [OF assms(1) hex]]
  note rest = go_keeps_seq [OF go_keeps_wrap(2) [OF go_keeps_for [OF erc20_env.keeps_precompiles(1) [OF assms(1)]]]
      go_keeps_seq [OF go_keeps_wrap(2) [OF go_keeps_for [OF erc20_env.keeps_precompiles(2) [OF assms(1)]]]
        go_keeps_wrap(2) [OF go_keeps_for [OF keeps_unsafeAllowance]]]]
  have params: "keeps_wf K (onStore (erc20_SetParams (eg_Params gs)))"
    by (rule keeps_onStore) (auto simp: erc20_SetParams_def intro: erc20_wf_other)
  have loop: "keeps_wf K (\<lambda>c. case go_for (eg_TokenPairs gs) (setTokenGo K) c of
      (Err _, c') \<Rightarrow> (Ret (), c') | (Panic p, c') \<Rightarrow> (Panic p, c') | (Ret _, c') \<Rightarrow> tail c')" if "keeps_wf K tail" for tail :: "('c, unit) erc_go"
    unfolding go_keeps_def
  proof (intro allI impI)
    fix c :: "'c erc_ctx"
    assume wf: "erc20_wf K (ercStore c)"
    obtain r c' where r: "go_for (eg_TokenPairs gs) (setTokenGo K) c = (r, c')" by force
    have "erc20_wf K (ercStore c')" using go_keepsD [OF pairs wf r] by simp
    then show "erc20_wf K (ercStore (snd (case go_for (eg_TokenPairs gs) (setTokenGo K) c of
        (Err _, c') \<Rightarrow> (Ret (), c') | (Panic p, c') \<Rightarrow> (Panic p, c') | (Ret _, c') \<Rightarrow> tail c')))"
      using that r by (cases r) (simp_all add: go_keeps_def)
  qed
  show ?thesis
    unfolding erc20_InitGenesis_def by (intro go_keeps_seq [OF params] go_keeps_if go_keeps_base loop rest)
qed

datatype 'c erc20_op =
  OpConvertERC20 MsgConvertERC20
| OpConvertCoin MsgConvertCoin
| OpRegisterERC20 string "string list"
| OpToggleConversion string string
| OpErcParams string erc20_Params
| OpRecvPacket ibc_packet ibc_ack
| OpAckPacket FungibleTokenPacketData ibc_ack
| OpTimeoutPacket FungibleTokenPacketData
| OpAllowance Address Address Address "int option"
| OpDeploy "'c deploy_api" Metadata
| OpOtherModules "'c \<Rightarrow> 'c"

fun erc20_exec :: "'c erc20_keeper \<Rightarrow> ibc_api \<Rightarrow> 'c erc20_op \<Rightarrow> 'c erc_ctx \<Rightarrow> 'c erc_ctx" where
  "erc20_exec K I (OpConvertERC20 msg) c = snd (ConvertERC20 K msg c)"
| "erc20_exec K I (OpConvertCoin msg) c = snd (ConvertCoin K msg c)"
| "erc20_exec K I (OpRegisterERC20 signer addrs) c = snd (RegisterERC20 K signer addrs c)"
| "erc20_exec K I (OpToggleConversion authority token) c = snd (ToggleConversion K authority token c)"
| "erc20_exec K I (OpErcParams authority params) c = snd (erc20_UpdateParams K authority params c)"
| "erc20_exec K I (OpRecvPacket packet ack) c = snd (OnRecvPacket K I packet ack c)"
| "erc20_exec K I (OpAckPacket data ack) c = snd (OnAcknowledgementPacket K I data ack c)"
| "erc20_exec K I (OpTimeoutPacket data) c = snd (OnTimeoutPacket K I data c)"
| "erc20_exec K I (OpAllowance e own sp v) c = (case SetAllowance K e own sp v (ercStore c) of Inl _ \<Rightarrow> c | Inr s \<Rightarrow> c\<lparr>ercStore := s\<rparr>)"
| "erc20_exec K I (OpDeploy D md) c = snd (DeployERC20Contract K D md c)"
| "erc20_exec K I (OpOtherModules f) c = c\<lparr>ercRest := f (ercRest c)\<rparr>"

definition emptyErc20 :: erc20_store where
  "emptyErc20 = \<lparr>tokenPairStore = fmempty, erc20Map = fmempty, denomMap = fmempty, allowanceStore = fmempty,
     nativePrecompiles = {||}, dynamicPrecompiles = {||}, enableErc20 = False, permissionless = False\<rparr>"

text \<open>A chain that starts from a valid genesis state and runs any operations, whatever their outcome.\<close>

inductive erc20_reach :: "'c erc20_keeper \<Rightarrow> ibc_api \<Rightarrow> 'c erc_ctx \<Rightarrow> bool" for K I where
  genesis: "erc20_Genesis_Validate K gs = None \<Longrightarrow> ercStore c = emptyErc20 \<Longrightarrow> erc20_reach K I (snd (erc20_InitGenesis K b gs c))"
| step: "erc20_reach K I c \<Longrightarrow> erc20_reach K I (erc20_exec K I op c)"

lemma erc20_exec_wf:
  assumes "erc20_env K" "erc20_wf K (ercStore c)"
  shows "erc20_wf K (ercStore (erc20_exec K I op c))"
proof -
  note keeps = erc20_env.keeps_Convert [OF assms(1)] erc20_env.keeps_messages [OF assms(1)] erc20_env.keeps_OnRecvPacket [OF assms(1)]
    erc20_env.keeps_packets [OF assms(1)] erc20_env.keeps_DeployERC20Contract [OF assms(1)]
  show ?thesis
    using keeps [unfolded go_keeps_def] assms(2) erc20_wf_setAllowance [OF assms(2)]
    by (cases op) (auto simp: SetAllowance_def split: sum.split)
qed

lemma reach_wf:
  assumes "erc20_env K" "erc20_reach K I c"
  shows "erc20_wf K (ercStore c)"
  using assms(2)
proof induction
  case (genesis gs c b)
  have "erc20_wf K (ercStore c)"
    using genesis(2) by (simp add: emptyErc20_def erc20_wf_def pairs_wf_def allowances_wf_def)
  then show ?case using keeps_InitGenesis [OF assms(1) genesis(1)] by (simp add: go_keeps_def)
qed (rule erc20_exec_wf [OF assms(1)])

section \<open>The keeper of the application\<close>

text \<open>
  The bank is x/precisebank, the EVM keeper that of x/vm with \<open>CallEVMWithData\<close>; metadata and module
  accounts are stores of the Cosmos SDK.
\<close>

record ('b, 'a) erc20_wiring =
  ew_App :: "('b, 'a) vm_app"
  ew_Call :: "Address \<Rightarrow> Address option \<Rightarrow> bytes \<Rightarrow> bool \<Rightarrow> ('b pb_ctx tx_ctx, apply_error, MsgEthereumTxResponse) go"
  ew_Authority :: string
  ew_ModuleAddress :: Address
  ew_TransferSig :: Hash
  ew_Bytecode :: bytes
  ew_GetMetadata :: "'b \<Rightarrow> denom \<Rightarrow> Metadata option"
  ew_SetMetadata :: "Metadata \<Rightarrow> 'b \<Rightarrow> 'b"
  ew_IsModuleAccount :: "'b \<Rightarrow> AccAddress \<Rightarrow> bool"
  ew_BondDenom :: "'b \<Rightarrow> string + denom"

definition onPb :: "('b pb_ctx, 'e, 'x) go \<Rightarrow> ('b pb_ctx tx_ctx, 'e, 'x) go" where
  "onPb m = onVm (go_zoom sdkState (\<lambda>p c. c\<lparr>sdkState := p\<rparr>) m)"

definition toAccount :: "keeperAccount \<Rightarrow> Account" where
  "toAccount a = \<lparr>Nonce = ka_Nonce a, Balance = (case ka_Balance a of None \<Rightarrow> 0 | Some b \<Rightarrow> b), CodeHash = ka_CodeHash a\<rparr>"

definition appErc20 :: "erc20_lib \<Rightarrow> ('b, 'a) erc20_wiring \<Rightarrow> 'b pb_ctx tx_ctx erc20_keeper" where
  "appErc20 L w =
    (let P = appPb (ew_App w); V = appVm (ew_App w)
     in \<lparr>ek_Lib = L,
      ek_Bank = \<lparr>eb20_GetBalance = (\<lambda>t a d. Amount (PreciseBankBase.GetBalance P a d (sdkState (txVm t)))),
        eb20_BlockedAddr = bk_BlockedAddr (bk P),
        eb20_IsSendEnabledCoin = (\<lambda>t d. bk_IsSendEnabledCoin (bk P) (bankState (sdkState (txVm t))) (NewCoin d 0)),
        eb20_MintCoins = (\<lambda>n cs. onPb (MintCoins P n cs)), eb20_BurnCoins = (\<lambda>n cs. onPb (BurnCoins P n cs)),
        eb20_SendCoinsFromModuleToAccount = (\<lambda>n a cs. onPb (SendCoinsFromModuleToAccount P n a cs)),
        eb20_SendCoinsFromAccountToModule = (\<lambda>a n cs. onPb (SendCoinsFromAccountToModule P a n cs)),
        eb20_GetDenomMetaData = (\<lambda>t. ew_GetMetadata w (bankState (sdkState (txVm t)))),
        eb20_SetDenomMetaData = (\<lambda>m t. t\<lparr>txVm := (txVm t)\<lparr>sdkState := (sdkState (txVm t))\<lparr>bankState := ew_SetMetadata w m (bankState (sdkState (txVm t)))\<rparr>\<rparr>\<rparr>)\<rparr>,
      ek_Evm = \<lparr>ee_GetAccountWithoutBalance = (\<lambda>t. GetAccountWithoutBalance V (txVm t)),
        ee_GetAccount = (\<lambda>a. onVm (vk_GetAccount V a)), ee_SetAccount = (\<lambda>a acc. onVm (vk_SetAccount V a (toAccount acc))),
        ee_GetCode = (\<lambda>t. vk_GetCode (txVm t)), ee_SetCode = (\<lambda>h cd t. t\<lparr>txVm := vk_SetCode h cd (txVm t)\<rparr>),
        ee_CallEVMWithData = (\<lambda>from to data commit. onRest (ew_Call w from to data commit))\<rparr>,
      ek_Authority = ew_Authority w, ek_ModuleAddress = ew_ModuleAddress w, ek_TransferSig = ew_TransferSig w,
      ek_EmptyCodeHash = vkEmptyCodeHash V, ek_Erc20Bytecode = ew_Bytecode w,
      ek_IsModuleAccount = (\<lambda>t. ew_IsModuleAccount w (bankState (sdkState (txVm t)))),
      ek_BondDenom = (\<lambda>t. ew_BondDenom w (bankState (sdkState (txVm t))))\<rparr>)"

text \<open>A codec of the calls, and formats.\<close>

definition charBytes :: "string \<Rightarrow> bytes" where
  "charBytes s = map (\<lambda>ch. of_nat (of_char ch)) s"

definition exLib :: erc20_lib where
  "exLib = \<lparr>el_Api = hexApi, el_Sum = charBytes, el_ValidateDenom = (\<lambda>d. d \<noteq> []), el_AccAddressFromBech32 = (\<lambda>s. Some (charBytes s)),
     el_StringToBytes = (\<lambda>s. Some (charBytes s)), el_ParseHexHash = (\<lambda>s. Some (unhex s)), el_TrimSpace = (\<lambda>s. s),
     el_Pack = (\<lambda>call. Inr (case call of ERC20_balanceOf a \<Rightarrow> 1 # AddressBytes a | ERC20_transfer a n \<Rightarrow> 2 # AddressBytes a @ replicate (nat n) 1 | _ \<Rightarrow> [0])),
     el_UnpackString = (\<lambda>_. None), el_UnpackUint8 = (\<lambda>b. Some (hd b)), el_UnpackBool = (\<lambda>b. Some (b = [1])),
     el_UnpackBalance = (\<lambda>b. Some (int (length b))), el_ValidateMetadata = (\<lambda>_. None), el_Keccak256 = (\<lambda>b. of_nat (length b))\<rparr>"

lemma charBytes_inj: "inj charBytes"
proof -
  have "inj (\<lambda>ch :: char. of_nat (of_char ch) :: 8 word)"
  proof (rule injI)
    fix a b :: char
    assume "(of_nat (of_char a) :: 8 word) = of_nat (of_char b)"
    then have "take_bit 8 (of_char a :: nat) = take_bit 8 (of_char b)" by (simp add: word_of_nat_eq_iff)
    then show "a = b" by (simp add: take_bit_eq_mod)
  qed
  then show ?thesis unfolding charBytes_def by (rule inj_mapI)
qed

lemma hexApi_no_separator: "IsHexAddress hexApi s \<Longrightarrow> CHR ''|'' \<notin> set s"
proof
  assume s: "IsHexAddress hexApi s" "CHR ''|'' \<in> set s"
  have "CHR ''|'' \<in> set (take 2 s) \<or> CHR ''|'' \<in> set (drop 2 s)" using s(2) by (metis Un_iff append_take_drop_id set_append)
  moreover have "take 2 s = ''0x''" "\<forall>ch\<in>set (drop 2 s). ch \<in> set hexDigits \<union> set ''ABCDEF''"
    using s(1) unfolding hexApi_def vm_api.simps list_all_iff by blast+
  ultimately show False unfolding hexDigits_def by fastforce
qed

lemma exLib_contract:
  assumes "ek_Lib K = exLib"
  shows "erc20_lib_contract K"
proof -
  have "el_Sum exLib = charBytes" "el_Api exLib = hexApi" by (simp_all add: exLib_def)
  then show ?thesis
    unfolding erc20_lib_contract_def assms using charBytes_inj hexApi_contract hexApi_no_separator by simp
qed

interpretation appErc: erc20_env "appErc20 exLib w" for w :: "('b, 'a) erc20_wiring"
  by unfold_locales (auto simp: evm_keeps_wf_def appErc20_def Let_def intro!: exLib_contract)

text \<open>A token at address 5 that keeps balances in its storage, in unary; a transfer fails without funds.\<close>

definition tokenResponse :: "bytes \<Rightarrow> MsgEthereumTxResponse" where
  "tokenResponse ret = \<lparr>GasUsed = 0, MaxUsedGas = 0, VmError = [], RespRet = ret, Logs = [], RespHash = 0\<rparr>"

definition tokenBalance :: "ledger pb_ctx tx_ctx \<Rightarrow> Address \<Rightarrow> bytes" where
  "tokenBalance t a = (case GetFastState (txVm t) 5 (ucast a) of None \<Rightarrow> [] | Some v \<Rightarrow> v)"

definition setTokenBalance :: "Address \<Rightarrow> nat \<Rightarrow> ledger pb_ctx tx_ctx \<Rightarrow> ledger pb_ctx tx_ctx" where
  "setTokenBalance a n t = t\<lparr>txVm := vk_SetState 5 (ucast a) (replicate n 1) (txVm t)\<rparr>"

definition tokenTransfer :: "Address \<Rightarrow> Address \<Rightarrow> nat \<Rightarrow> (ledger pb_ctx tx_ctx, apply_error, MsgEthereumTxResponse) go" where
  "tokenTransfer from to n t =
    (if length (tokenBalance t from) < n then (Err (ErrApply ''execution reverted''), t)
     else let t1 = setTokenBalance from (length (tokenBalance t from) - n) t
          in (Ret (tokenResponse [1]), setTokenBalance to (length (tokenBalance t1 to) + n) t1))"

definition tokenCall :: "bool \<Rightarrow> Address \<Rightarrow> Address option \<Rightarrow> bytes \<Rightarrow> bool \<Rightarrow> (ledger pb_ctx tx_ctx, apply_error, MsgEthereumTxResponse) go" where
  "tokenCall paused from to data commit t =
    (case data of
       [] \<Rightarrow> (Err (ErrApply ''execution reverted''), t)
     | op # args \<Rightarrow>
        if to \<noteq> Some 5 then (Err (ErrApply ''execution reverted''), t)
        else if op = 1 then (Ret (tokenResponse (tokenBalance t (BytesToAddress args))), t)
        else if op = 2 \<and> \<not> paused then tokenTransfer from (BytesToAddress (take 20 args)) (length (drop 20 args)) t
        else (Err (ErrApply ''execution reverted''), t))"

definition exWiring :: "(ledger, AccAddress \<times> u64) erc20_wiring" where
  "exWiring = \<lparr>ew_App = lgApp, ew_Call = tokenCall False, ew_Authority = ''gov'', ew_ModuleAddress = 7, ew_TransferSig = 0, ew_Bytecode = [1],
     ew_GetMetadata = (\<lambda>_ _. None), ew_SetMetadata = (\<lambda>_ b. b), ew_IsModuleAccount = (\<lambda>_ _. False), ew_BondDenom = (\<lambda>_. Inr ''stake'')\<rparr>"

definition exPair :: TokenPair where
  "exPair = \<lparr>tp_Erc20Address = AddressString hexApi 5, tp_Denom = ''erc20:5'', tp_Enabled = True, tp_ContractOwner = OWNER_EXTERNAL\<rparr>"

definition exGenesis :: erc20_GenesisState where
  "exGenesis = \<lparr>eg_Params = erc20_DefaultParams, eg_TokenPairs = [exPair], eg_Allowances = [], eg_NativePrecompiles = [], eg_DynamicPrecompiles = []\<rparr>"

definition exIbc :: ibc_api where
  "exIbc = \<lparr>ib_ExtractDenomFromPath = (\<lambda>s. \<lparr>id_Trace = [], id_Base = s\<rparr>), ib_IBCDenom = id_Base, ib_HasPrefix = (\<lambda>_ _ _. False),
     ib_NewIntFromString = (\<lambda>s. Some (int (length s))), ib_GetFromBech32 = (\<lambda>s p. Some (charBytes s)), ib_VerifyAddressFormat = (\<lambda>_. True)\<rparr>"

definition exErcStart :: "ledger pb_ctx tx_ctx erc_ctx" where
  "exErcStart = \<lparr>ercStore = emptyErc20, ercEvents = [], ercRest = \<lparr>txVm = lgChain, txMeter = \<lparr>consumed = 0, limit = 100\<rparr>\<rparr>\<rparr>"

definition exErc :: "ledger pb_ctx tx_ctx erc_ctx" where
  "exErc = snd (erc20_InitGenesis (appErc20 exLib exWiring) True exGenesis exErcStart)"

lemma exKeeper [simp]: "ek_Lib (appErc20 exLib w) = exLib" "el_Api exLib = hexApi" "el_Sum exLib = charBytes"
  by (simp_all add: appErc20_def Let_def exLib_def)

lemma exPair_contract [simp]: "GetERC20Contract (appErc20 exLib w) exPair = 5" "IsHexAddress hexApi (tp_Erc20Address exPair)"
  using hexApi_contract by (simp_all add: GetERC20Contract_def exPair_def address_contract_def)

lemma exGenesis_valid: "erc20_Genesis_Validate (appErc20 exLib exWiring) exGenesis = None"
  using hexApi_contract
  by (simp add: erc20_Genesis_Validate_def exGenesis_def TokenPair_Validate_def ValidateAddress_def validatePrecompiles_def)
    (simp add: exLib_def exPair_def)

lemma exErc_reach: "erc20_reach (appErc20 exLib exWiring) exIbc exErc"
  unfolding exErc_def by (rule erc20_reach.genesis [OF exGenesis_valid]) (simp add: exErcStart_def)

lemma exErc_store: "ercStore exErc = SetERC20Map 5 (GetID (appErc20 exLib exWiring) exPair) (SetDenomMap ''erc20:5'' (GetID (appErc20 exLib exWiring) exPair)
    (SetTokenPair (appErc20 exLib exWiring) exPair (erc20_SetParams erc20_DefaultParams emptyErc20)))"
  "ercRest exErc = ercRest exErcStart"
  by (simp_all add: exErc_def erc20_InitGenesis_def exGenesis_def onStore_def setTokenGo_def SetToken_def IsDenomRegistered_def IsERC20Registered_def
      exErcStart_def emptyErc20_def erc20_SetParams_def go_must_def go_bind_def) (simp_all add: exPair_def)

lemma iterPairs_snoc: "iterPairs (\<lambda>tp acc. (False, acc @ [tp])) ps acc = acc @ ps"
  by (induction ps arbitrary: acc) auto

lemma GetTokenPairs_eq: "GetTokenPairs s = map (\<lambda>i. the (fmlookup (tokenPairStore s) i)) (sorted_list_of_fset (fmdom (tokenPairStore s)))"
  by (simp add: GetTokenPairs_def IterateTokenPairs_def iterPairs_snoc)

lemma GetTokenPairs_set: "set (GetTokenPairs s) = {tp. \<exists>i. fmlookup (tokenPairStore s) i = Some tp}"
  by (force simp: GetTokenPairs_eq sorted_list_of_fset.rep_eq fmlookup_dom_iff)

lemma GetTokenPairs_distinct:
  assumes "\<And>i j p q. fmlookup (tokenPairStore s) i = Some p \<Longrightarrow> fmlookup (tokenPairStore s) j = Some q \<Longrightarrow> f p = f q \<Longrightarrow> i = j"
  shows "distinct (map f (GetTokenPairs s))"
  unfolding GetTokenPairs_eq map_map distinct_map
  by (auto simp: sorted_list_of_fset.rep_eq fmlookup_dom_iff inj_on_def) (use assms in blast)

section \<open>Properties\<close>

text \<open>
  C32.  The stores of the module stay consistent.  In every state reached from a valid genesis by messages,
  packets, approvals and steps of other modules, whatever their outcome: every token pair is stored under its
  own identifier; the index of denominations and the index of contracts have exactly one entry per stored pair,
  which leads from its denomination or contract to its identifier; no two pairs share a denomination or a
  contract; and every stored allowance is under the key of its token, owner and spender, for a registered
  token, between two nonzero addresses, and is a positive 256-bit value.
\<close>

theorem erc20_store_wf:
  assumes "erc20_env K" "erc20_reach K I c"
  shows "(\<forall>i tp. fmlookup (tokenPairStore (ercStore c)) i = Some tp \<longrightarrow> i = GetID K tp) \<and>
    (\<forall>d i. GetDenomMap (ercStore c) d = Some i \<longleftrightarrow> (\<exists>tp. fmlookup (tokenPairStore (ercStore c)) i = Some tp \<and> d = tp_Denom tp)) \<and>
    (\<forall>k i. fmlookup (erc20Map (ercStore c)) k = Some i \<longleftrightarrow>
      (\<exists>tp. fmlookup (tokenPairStore (ercStore c)) i = Some tp \<and> k = AddressBytes (GetERC20Contract K tp))) \<and>
    distinct (map tp_Denom (GetTokenPairs (ercStore c))) \<and> distinct (map (GetERC20Contract K) (GetTokenPairs (ercStore c))) \<and>
    (\<forall>k a. fmlookup (allowanceStore (ercStore c)) k = Some a \<longrightarrow>
      (\<exists>e own sp v. k = AllowanceKey e own sp \<and> a = NewAllowance K e own sp v \<and> own \<noteq> 0 \<and> sp \<noteq> 0 \<and> 0 < v \<and> v < 2 ^ 256 \<and>
        IsERC20Registered (ercStore c) e))"
proof -
  let ?s = "ercStore c"
  have wf: "pairs_wf K ?s" "allowances_wf K ?s" using reach_wf [OF assms] by (simp_all add: erc20_wf_def)
  have "distinct (map tp_Denom (GetTokenPairs ?s))" "distinct (map (GetERC20Contract K) (GetTokenPairs ?s))"
    by (rule GetTokenPairs_distinct; use pairs_wf_inj [OF wf(1)] in blast)+
  then show ?thesis using wf unfolding pairs_wf_def allowances_wf_def GetDenomMap_def by blast
qed

theorem erc20_store_wf_witness:
  "\<exists>c i. erc20_reach (appErc20 exLib exWiring) exIbc c \<and> GetDenomMap (ercStore c) ''erc20:5'' = Some i \<and>
    GetERC20Map (ercStore c) 5 = Some i \<and> i = GetID (appErc20 exLib exWiring) exPair \<and> distinct (map tp_Denom (GetTokenPairs (ercStore c)))"
proof -
  define i where "i = GetID (appErc20 exLib exWiring) exPair"
  have i: "fmlookup (tokenPairStore (ercStore exErc)) i = Some exPair"
    by (simp add: i_def exErc_store SetERC20Map_def SetDenomMap_def SetTokenPair_def)
  have d: "tp_Denom exPair = ''erc20:5''" by (simp add: exPair_def)
  note wf = erc20_store_wf [OF appErc.erc20_env_axioms exErc_reach]
  have "GetDenomMap (ercStore exErc) ''erc20:5'' = Some i" "GetERC20Map (ercStore exErc) 5 = Some i"
    using wf i d exPair_contract(1) unfolding GetERC20Map_def by metis+
  then show ?thesis using exErc_reach wf i by blast
qed

end
