(* ===== verification/Erc20Convert.thy ===== *)
theory Erc20Convert
  imports Erc20Props
begin

text \<open>
  Conversions between a token contract and its coin, in the application: x/erc20 over x/precisebank and
  the EVM.  The token is any contract whose balances and transfers follow the ERC-20 standard.
\<close>

section \<open>Other denominations in x/precisebank\<close>

text \<open>Coins that are neither the integer nor the extended coin pass through to x/bank.\<close>

lemma other_coin:
  assumes "bank_contract P" "ValidDenom (coinsApi P) d" "d \<noteq> ExtendedCoinDenom P" "0 < n"
  shows "IsValid (coinsApi P) [NewCoin d n]" "AmountOf (coinsApi P) [NewCoin d n] (ExtendedCoinDenom P) = 0"
    "IsAllPositive (coinsApi P) [NewCoin d n]" "\<not> EmptyCoins (coinsApi P) [NewCoin d n]"
    "AmountOf (coinsApi P) [NewCoin d n] d' = (if d' = d then n else 0)"
proof -
  have c: "coins_contract (coinsApi P)" using assms(1) by (simp add: bank_contract_def)
  show v: "IsValid (coinsApi P) [NewCoin d n]" "AmountOf (coinsApi P) [NewCoin d n] (ExtendedCoinDenom P) = 0"
    "AmountOf (coinsApi P) [NewCoin d n] d' = (if d' = d then n else 0)" for d'
    using c assms(2-4) unfolding coins_contract_def by auto
  have "AmountOf (coinsApi P) [NewCoin d n] d = n" using v(3) by simp
  then show "IsAllPositive (coinsApi P) [NewCoin d n]" "\<not> EmptyCoins (coinsApi P) [NewCoin d n]"
    using c v(1) assms(4) unfolding coins_contract_def by (metis less_irrefl)+
qed

definition d_bal :: "'b pb_keeper \<Rightarrow> denom \<Rightarrow> 'b pb_ctx \<Rightarrow> AccAddress \<Rightarrow> int" where
  "d_bal P d p a = bk_GetBalance (bk P) (bankState p) a d"

definition d_spend :: "'b pb_keeper \<Rightarrow> denom \<Rightarrow> 'b pb_ctx \<Rightarrow> AccAddress \<Rightarrow> int" where
  "d_spend P d p a = bk_SpendableCoin (bk P) (bankState p) a d"

definition d_sup :: "'b pb_keeper \<Rightarrow> denom \<Rightarrow> 'b pb_ctx \<Rightarrow> int" where
  "d_sup P d p = bk_GetSupply (bk P) (bankState p) d"

text \<open>The module account of x/erc20 exists, may mint and burn, and is not blocked as a sender.\<close>

definition erc20_module :: "'b pb_keeper \<Rightarrow> AccAddress \<Rightarrow> bool" where
  "erc20_module P m \<longleftrightarrow> (\<exists>acc. ak_GetModuleAccount (ak P) erc20Module = Some acc \<and> ma_Address acc = m \<and>
     HasPermission acc ''minter'' \<and> HasPermission acc ''burner'')"

lemma erc20Module_not_reserve [simp]: "erc20Module \<noteq> ModuleName"
  by (simp add: erc20Module_def ModuleName_def)

lemma SendCoins_other:
  assumes "bank_contract P" "ValidDenom (coinsApi P) d" "d \<noteq> ExtendedCoinDenom P" "0 < n"
  shows "if n \<le> d_spend P d p f
    then \<exists>p'. SendCoins P f t [NewCoin d n] p = (Ret (), p') \<and> d_bal P d p' = ledgerTransfer f t n (d_bal P d p) \<and> d_sup P d p' = d_sup P d p
    else \<exists>e. SendCoins P f t [NewCoin d n] p = (Err e, p)"
proof -
  note o = other_coin [OF assms]
  have "transfers P f t [NewCoin d n] (bk_SendCoins (bk P) f t [NewCoin d n])"
    using assms(1) o(1) by (simp add: bank_contract_def)
  note T = spec [OF this [unfolded transfers_def], of "bankState p"]
  have pays: "(\<forall>d'. AmountOf (coinsApi P) [NewCoin d n] d' \<le> bk_SpendableCoin (bk P) (bankState p) f d') \<longleftrightarrow> n \<le> d_spend P d p f"
    using assms(1) unfolding o(5) d_spend_def bank_contract_def by auto
  have s: "SendCoins P f t [NewCoin d n] p = onBank (bk_SendCoins (bk P) f t [NewCoin d n]) p"
    using o(1-3) by (simp add: SendCoins_def Let_def go_bind_def split: prod.split outcome.split)
  show ?thesis
  proof (cases "n \<le> d_spend P d p f")
    case True
    then obtain b' where b': "bk_SendCoins (bk P) f t [NewCoin d n] (bankState p) = (Ret (), b')"
        "\<forall>a. bk_GetBalance (bk P) b' a d = bk_GetBalance (bk P) (bankState p) a d - (if a = f then n else 0) + (if a = t then n else 0)"
        "bk_GetSupply (bk P) b' d = bk_GetSupply (bk P) (bankState p) d"
      using T [unfolded pays] unfolding o(5) by auto
    then have "SendCoins P f t [NewCoin d n] p = (Ret (), p\<lparr>bankState := b'\<rparr>)" unfolding s by (simp add: onBank_def go_zoom_def)
    then show ?thesis using True b'(2,3) by (simp add: d_bal_def d_sup_def ledgerTransfer_def fun_eq_iff)
  next
    case False
    then obtain cs' where "bk_SendCoins (bk P) f t [NewCoin d n] (bankState p) = (Err (ErrInsufficientFunds cs'), bankState p)"
      using T [unfolded pays] by auto
    then show ?thesis using False unfolding s by (simp add: onBank_def go_zoom_def)
  qed
qed

lemma mint_burn_other:
  assumes "bank_contract P" "ValidDenom (coinsApi P) d" "d \<noteq> ExtendedCoinDenom P" "0 < n" "erc20_module P m"
  shows "\<exists>p'. MintCoins P erc20Module [NewCoin d n] p = (Ret (), p') \<and> d_bal P d p' = ledgerAdd m n (d_bal P d p) \<and> d_sup P d p' = d_sup P d p + n"
    "n \<le> d_bal P d p m \<Longrightarrow>
     \<exists>p'. BurnCoins P erc20Module [NewCoin d n] p = (Ret (), p') \<and> d_bal P d p' = ledgerAdd m (- n) (d_bal P d p) \<and> d_sup P d p' = d_sup P d p - n"
proof -
  note o = other_coin [OF assms(1-4)]
  obtain acc where acc: "ak_GetModuleAccount (ak P) erc20Module = Some acc" "ma_Address acc = m" "HasPermission acc ''minter''" "HasPermission acc ''burner''"
    using assms(5) by (auto simp: erc20_module_def)
  have c: "mints P m [NewCoin d n] (bk_MintCoins (bk P) erc20Module [NewCoin d n])" "burns P m [NewCoin d n] (bk_BurnCoins (bk P) erc20Module [NewCoin d n])"
    using assms(1) o(1) acc unfolding bank_contract_def by blast+
  have mint: "MintCoins P erc20Module [NewCoin d n] p = onBank (bk_MintCoins (bk P) erc20Module [NewCoin d n]) p"
    using o acc by (simp add: MintCoins_def Let_def go_bind_def split: prod.split outcome.split)
  have burn: "BurnCoins P erc20Module [NewCoin d n] p = onBank (bk_BurnCoins (bk P) erc20Module [NewCoin d n]) p"
    using o acc by (simp add: BurnCoins_def Let_def go_bind_def split: prod.split outcome.split)
  obtain b' where "bk_MintCoins (bk P) erc20Module [NewCoin d n] (bankState p) = (Ret (), b')"
      "\<forall>a. bk_GetBalance (bk P) b' a d = bk_GetBalance (bk P) (bankState p) a d + (if a = m then n else 0)"
      "bk_GetSupply (bk P) b' d = bk_GetSupply (bk P) (bankState p) d + n"
    using spec [OF c(1) [unfolded mints_def], of "bankState p"] unfolding o(5) by auto
  then show "\<exists>p'. MintCoins P erc20Module [NewCoin d n] p = (Ret (), p') \<and> d_bal P d p' = ledgerAdd m n (d_bal P d p) \<and> d_sup P d p' = d_sup P d p + n"
    unfolding mint by (intro exI [of _ "p\<lparr>bankState := b'\<rparr>"]) (simp add: onBank_def go_zoom_def d_bal_def d_sup_def ledgerAdd_def fun_eq_iff)
  assume n: "n \<le> d_bal P d p m"
  have spd: "bk_SpendableCoin (bk P) (bankState p) m d' = bk_GetBalance (bk P) (bankState p) m d'"
      "0 \<le> bk_SpendableCoin (bk P) (bankState p) m d'" for d'
    using assms(1) acc(1,2) unfolding bank_contract_def by metis+
  have "\<forall>d'. AmountOf (coinsApi P) [NewCoin d n] d' \<le> bk_SpendableCoin (bk P) (bankState p) m d'"
    using n spd unfolding o(5) d_bal_def by auto
  then obtain b' where "bk_BurnCoins (bk P) erc20Module [NewCoin d n] (bankState p) = (Ret (), b')"
      "\<forall>a. bk_GetBalance (bk P) b' a d = bk_GetBalance (bk P) (bankState p) a d - (if a = m then n else 0)"
      "bk_GetSupply (bk P) b' d = bk_GetSupply (bk P) (bankState p) d - n"
    using spec [OF c(2) [unfolded burns_def], of "bankState p"] unfolding o(5) by auto
  then show "\<exists>p'. BurnCoins P erc20Module [NewCoin d n] p = (Ret (), p') \<and> d_bal P d p' = ledgerAdd m (- n) (d_bal P d p) \<and> d_sup P d p' = d_sup P d p - n"
    unfolding burn by (intro exI [of _ "p\<lparr>bankState := b'\<rparr>"]) (simp add: onBank_def go_zoom_def d_bal_def d_sup_def ledgerAdd_def fun_eq_iff)
qed

section \<open>The bank of the application\<close>

abbreviation pbOf :: "'b pb_ctx tx_ctx erc_ctx \<Rightarrow> 'b pb_ctx" where
  "pbOf c \<equiv> sdkState (txVm (ercRest c))"

definition putPb :: "'b pb_ctx \<Rightarrow> 'b pb_ctx tx_ctx erc_ctx \<Rightarrow> 'b pb_ctx tx_ctx erc_ctx" where
  "putPb p c = c\<lparr>ercRest := (ercRest c)\<lparr>txVm := (txVm (ercRest c))\<lparr>sdkState := p\<rparr>\<rparr>\<rparr>"

lemma putPb_simps [simp]: "pbOf (putPb p c) = p" "ercStore (putPb p c) = ercStore c"
    "txVm (ercRest (putPb p c)) = (txVm (ercRest c))\<lparr>sdkState := p\<rparr>"
  by (simp_all add: putPb_def)

lemma onBankKeeper_Pb:
  "m (pbOf c) = (Ret x, p) \<Longrightarrow> onBankKeeper (onPb m) c = (Ret x, putPb p c)"
  "m (pbOf c) = (Err e, p) \<Longrightarrow> onBankKeeper (onPb m) c = (Err (ErrSdk e), putPb p c)"
  by (simp_all add: onBankKeeper_def onRest_def onPb_def onVm_def go_zoom_def go_convErr_def putPb_def)

lemma appErc20_simps:
  "ek_Lib (appErc20 L w) = L" "ek_ModuleAddress (appErc20 L w) = ew_ModuleAddress w"
  "ek_MintCoins (appErc20 L w) n cs = onPb (MintCoins (appPb (ew_App w)) n cs)"
  "ek_BurnCoins (appErc20 L w) n cs = onPb (BurnCoins (appPb (ew_App w)) n cs)"
  "ek_SendCoinsFromModuleToAccount (appErc20 L w) n a cs = onPb (SendCoinsFromModuleToAccount (appPb (ew_App w)) n a cs)"
  "ek_SendCoinsFromAccountToModule (appErc20 L w) a n cs = onPb (SendCoinsFromAccountToModule (appPb (ew_App w)) a n cs)"
  "ek_CallEVMWithData (appErc20 L w) from to data commit = onRest (ew_Call w from to data commit)"
  "ek_BlockedAddr (appErc20 L w) = bk_BlockedAddr (bk (appPb (ew_App w)))"
  "ek_GetAccountWithoutBalance (appErc20 L w) t = GetAccountWithoutBalance (appVm (ew_App w)) (txVm t)"
  "ek_EmptyCodeHash (appErc20 L w) = vkEmptyCodeHash (appVm (ew_App w))"
  "ek_IsSendEnabledCoin (appErc20 L w) t d = bk_IsSendEnabledCoin (bk (appPb (ew_App w))) (bankState (sdkState (txVm t))) (NewCoin d 0)"
  "ek_IsModuleAccount (appErc20 L w) t = ew_IsModuleAccount w (bankState (sdkState (txVm t)))"
  by (simp_all add: appErc20_def Let_def)

lemma appErc20_balance:
  "d \<noteq> ExtendedCoinDenom (appPb (ew_App w)) \<Longrightarrow>
    ek_GetBalance (appErc20 L w) (ercRest c) a d = d_bal (appPb (ew_App w)) d (pbOf c) a"
  by (simp add: appErc20_def Let_def PreciseBankBase.GetBalance_def d_bal_def)

section \<open>Tokens\<close>

definition tokenMove :: "Address \<Rightarrow> Address \<Rightarrow> int \<Rightarrow> (Address \<Rightarrow> int) \<Rightarrow> Address \<Rightarrow> int" where
  "tokenMove from to n l = (\<lambda>a. l a - (if a = from then n else 0) + (if a = to then n else 0))"

definition same_bank :: "'b pb_keeper \<Rightarrow> denom \<Rightarrow> 'b pb_ctx \<Rightarrow> 'b pb_ctx \<Rightarrow> bool" where
  "same_bank P d p p' \<longleftrightarrow> d_bal P d p' = d_bal P d p \<and> d_spend P d p' = d_spend P d p \<and> d_sup P d p' = d_sup P d p"

text \<open>
  \<open>tok\<close> gives the balances of the contract \<open>C\<close>.  They do not depend on x/bank; \<open>balanceOf\<close> reads them and
  does not move coins of the denomination \<open>d\<close>.
\<close>

definition token_reads :: "erc20_lib \<Rightarrow> ('b, 'a) erc20_wiring \<Rightarrow> denom \<Rightarrow> Address \<Rightarrow> ('b pb_ctx tx_ctx \<Rightarrow> Address \<Rightarrow> int) \<Rightarrow> bool" where
  "token_reads L w d C tok \<longleftrightarrow>
    (\<forall>t p. tok (t\<lparr>txVm := (txVm t)\<lparr>sdkState := p\<rparr>\<rparr>) = tok t) \<and>
    (\<forall>a. \<exists>data. el_Pack L (ERC20_balanceOf a) = Inr data \<and>
       (\<forall>t. \<exists>res t'. ew_Call w (ew_ModuleAddress w) (Some C) data False t = (Ret res, t') \<and>
          el_UnpackBalance L (RespRet res) = Some (tok t a) \<and> tok t' = tok t \<and>
          same_bank (appPb (ew_App w)) d (sdkState (txVm t)) (sdkState (txVm t'))))"

text \<open>A transfer succeeds exactly when the sender has the tokens, and moves them.\<close>

definition token_transfers :: "erc20_lib \<Rightarrow> ('b, 'a) erc20_wiring \<Rightarrow> denom \<Rightarrow> Address \<Rightarrow> ('b pb_ctx tx_ctx \<Rightarrow> Address \<Rightarrow> int) \<Rightarrow> bool" where
  "token_transfers L w d C tok \<longleftrightarrow>
    (\<forall>from to n t. 0 < n \<longrightarrow> (\<exists>data. el_Pack L (ERC20_transfer to n) = Inr data \<and>
      (\<exists>r t'. ew_Call w from (Some C) data True t = (r, t') \<and> same_bank (appPb (ew_App w)) d (sdkState (txVm t)) (sdkState (txVm t')) \<and>
        (if n \<le> tok t from
         then (\<exists>res. r = Ret res \<and> RespRet res \<noteq> [] \<and> el_UnpackBool L (RespRet res) = Some True) \<and> tok t' = tokenMove from to n (tok t)
         else (\<exists>e. r = Err e) \<and> tok t' = tok t))))"

text \<open>A token whose transfers fail, for example because it is paused.\<close>

definition token_paused :: "erc20_lib \<Rightarrow> ('b, 'a) erc20_wiring \<Rightarrow> denom \<Rightarrow> Address \<Rightarrow> ('b pb_ctx tx_ctx \<Rightarrow> Address \<Rightarrow> int) \<Rightarrow> bool" where
  "token_paused L w d C tok \<longleftrightarrow>
    (\<forall>from to n t. 0 < n \<longrightarrow> (\<exists>data. el_Pack L (ERC20_transfer to n) = Inr data \<and>
      (\<exists>e t'. ew_Call w from (Some C) data True t = (Err e, t') \<and> same_bank (appPb (ew_App w)) d (sdkState (txVm t)) (sdkState (txVm t')) \<and>
         tok t' = tok t)))"

lemma BalanceOf_token:
  assumes "token_reads L w d C tok"
  shows "\<exists>c'. BalanceOf (appErc20 L w) C a c = (Ret (Some (tok (ercRest c) a)), c') \<and> ercStore c' = ercStore c \<and>
    tok (ercRest c') = tok (ercRest c) \<and> same_bank (appPb (ew_App w)) d (pbOf c) (pbOf c')"
proof -
  obtain data where pack: "el_Pack L (ERC20_balanceOf a) = Inr data"
      and reads: "\<forall>t. \<exists>res t'. ew_Call w (ew_ModuleAddress w) (Some C) data False t = (Ret res, t') \<and>
          el_UnpackBalance L (RespRet res) = Some (tok t a) \<and> tok t' = tok t \<and> same_bank (appPb (ew_App w)) d (sdkState (txVm t)) (sdkState (txVm t'))"
    using assms unfolding token_reads_def by blast
  from reads [rule_format, of "ercRest c"] obtain res t' where
    call: "ew_Call w (ew_ModuleAddress w) (Some C) data False (ercRest c) = (Ret res, t')"
      "el_UnpackBalance L (RespRet res) = Some (tok (ercRest c) a)" "tok t' = tok (ercRest c)"
      "same_bank (appPb (ew_App w)) d (pbOf c) (sdkState (txVm t'))" by blast
  then show ?thesis
    by (intro exI [of _ "c\<lparr>ercRest := t'\<rparr>"]) (simp add: BalanceOf_def ek_CallEVM_def appErc20_simps pack onRest_def go_zoom_def)
qed

lemma token_bank: "token_reads L w d C tok \<Longrightarrow> tok (ercRest (putPb p c)) = tok (ercRest c)"
  by (simp add: token_reads_def putPb_def)

lemma checkTransfer_True:
  "RespRet res \<noteq> [] \<Longrightarrow> ek_UnpackBool K (RespRet res) = Some True \<Longrightarrow> checkTransfer K C res c = (Ret (), c)"
  by (simp add: checkTransfer_def)

section \<open>Conversions\<close>

lemma go_bind_same: "m s = m' s' \<Longrightarrow> go_bind m f s = go_bind m' f s'"
  by (simp add: go_bind_def)

text \<open>The coin of the token is neither coin of x/precisebank, and the module account of x/erc20 exists.\<close>

definition token_app :: "('b, 'a) erc20_wiring \<Rightarrow> denom \<Rightarrow> bool" where
  "token_app w d \<longleftrightarrow> bank_contract (appPb (ew_App w)) \<and> ValidDenom (coinsApi (appPb (ew_App w))) d \<and>
    d \<noteq> ExtendedCoinDenom (appPb (ew_App w)) \<and> erc20_module (appPb (ew_App w)) (AddressBytes (ew_ModuleAddress w))"

lemma holding_bounds: "bank_contract P \<Longrightarrow> 0 \<le> d_spend P d p a \<and> d_spend P d p a \<le> d_bal P d p a"
  by (simp add: bank_contract_def d_spend_def d_bal_def)

lemma escrow_coins:
  assumes "token_app w d" "0 < n"
  shows "if n \<le> d_spend (appPb (ew_App w)) d (pbOf c) a
    then \<exists>p'. onBankKeeper (ek_SendCoinsFromAccountToModule (appErc20 L w) a erc20Module [NewCoin d n]) c = (Ret (), putPb p' c) \<and>
      d_bal (appPb (ew_App w)) d p' = ledgerTransfer a (AddressBytes (ew_ModuleAddress w)) n (d_bal (appPb (ew_App w)) d (pbOf c)) \<and>
      d_sup (appPb (ew_App w)) d p' = d_sup (appPb (ew_App w)) d (pbOf c)
    else \<exists>e. onBankKeeper (ek_SendCoinsFromAccountToModule (appErc20 L w) a erc20Module [NewCoin d n]) c = (Err e, putPb (pbOf c) c)"
proof -
  let ?P = "appPb (ew_App w)" and ?m = "AddressBytes (ew_ModuleAddress w)"
  have "SendCoinsFromAccountToModule ?P a erc20Module [NewCoin d n] p = SendCoins ?P a ?m [NewCoin d n] p" for p
    using assms(1) by (auto simp: token_app_def erc20_module_def SendCoinsFromAccountToModule_def)
  then show ?thesis
    using SendCoins_other [of ?P d n "pbOf c" a ?m] assms onBankKeeper_Pb [of "SendCoinsFromAccountToModule ?P a erc20Module [NewCoin d n]" c]
    by (auto simp: token_app_def appErc20_simps split: if_splits)
qed

lemma transfer_call:
  assumes "token_transfers L w d C tok" "0 < n"
  shows "\<exists>r c'. onEvm (ek_CallEVM (appErc20 L w) from C True (ERC20_transfer to n)) c = (r, c') \<and>
    ercStore c' = ercStore c \<and> same_bank (appPb (ew_App w)) d (pbOf c) (pbOf c') \<and>
    (if n \<le> tok (ercRest c) from
     then (\<exists>res. r = Ret res \<and> (\<forall>c. checkTransfer (appErc20 L w) C res c = (Ret (), c))) \<and> tok (ercRest c') = tokenMove from to n (tok (ercRest c))
     else (\<exists>e. r = Err e) \<and> tok (ercRest c') = tok (ercRest c))"
proof -
  obtain data r t' where "el_Pack L (ERC20_transfer to n) = Inr data" "ew_Call w from (Some C) data True (ercRest c) = (r, t')"
      "same_bank (appPb (ew_App w)) d (pbOf c) (sdkState (txVm t'))"
    and eff: "if n \<le> tok (ercRest c) from
         then (\<exists>res. r = Ret res \<and> RespRet res \<noteq> [] \<and> el_UnpackBool L (RespRet res) = Some True) \<and> tok t' = tokenMove from to n (tok (ercRest c))
         else (\<exists>e. r = Err e) \<and> tok t' = tok (ercRest c)"
    using assms unfolding token_transfers_def by blast
  then have "ek_CallEVM (appErc20 L w) from C True (ERC20_transfer to n) c = (r, c\<lparr>ercRest := t'\<rparr>)"
    by (simp add: ek_CallEVM_def appErc20_simps onRest_def go_zoom_def)
  moreover have "checkTransfer (appErc20 L w) C res c = (Ret (), c)" if "RespRet res \<noteq> []" "el_UnpackBool L (RespRet res) = Some True" for res c
    using that by (simp add: checkTransfer_True appErc20_simps)
  ultimately show ?thesis
    using eff \<open>same_bank (appPb (ew_App w)) d (pbOf c) (sdkState (txVm t'))\<close>
    by (intro exI [of _ "case r of Ret x \<Rightarrow> Ret x | Err e \<Rightarrow> Err (ErrEvm e) | Panic p \<Rightarrow> Panic p"] exI [of _ "c\<lparr>ercRest := t'\<rparr>"])
      (auto simp: onEvm_def go_convErr_def split: outcome.split if_splits)
qed

text \<open>
  The whole conversion of coins into tokens.  It succeeds exactly when the sender can spend the coins,
  the escrow has the tokens and the receiver is not the module; then the tokens move from the escrow to the receiver and
  the coins are burned.
\<close>

lemma ConvertCoinNative_token:
  assumes app: "token_app w d" and reads: "token_reads L w d C tok" and trans: "token_transfers L w d C tok" and n: "0 < n"
    and pair: "tp_Denom pair = d" "GetERC20Contract (appErc20 L w) pair = C"
  shows "if n \<le> d_spend (appPb (ew_App w)) d (pbOf c) sender \<and> n \<le> tok (ercRest c) (ew_ModuleAddress w) \<and> receiver \<noteq> ew_ModuleAddress w
    then \<exists>c'. ConvertCoinNativeERC20 (appErc20 L w) pair n receiver sender c = (Ret (), c') \<and> ercStore c' = ercStore c \<and>
      tok (ercRest c') = tokenMove (ew_ModuleAddress w) receiver n (tok (ercRest c)) \<and>
      d_bal (appPb (ew_App w)) d (pbOf c') = ledgerAdd sender (- n) (d_bal (appPb (ew_App w)) d (pbOf c)) \<and>
      d_sup (appPb (ew_App w)) d (pbOf c') = d_sup (appPb (ew_App w)) d (pbOf c) - n
    else \<exists>e c'. ConvertCoinNativeERC20 (appErc20 L w) pair n receiver sender c = (Err e, c') \<and> ercStore c' = ercStore c \<and>
      tok (ercRest c') = tok (ercRest c) \<and> d_sup (appPb (ew_App w)) d (pbOf c') = d_sup (appPb (ew_App w)) d (pbOf c)"
proof -
  let ?P = "appPb (ew_App w)" and ?K = "appErc20 L w" and ?M = "ew_ModuleAddress w"
  let ?m = "AddressBytes ?M"
  obtain c1 where c1: "BalanceOf ?K C receiver c = (Ret (Some (tok (ercRest c) receiver)), c1)" "ercStore c1 = ercStore c"
      "tok (ercRest c1) = tok (ercRest c)" "same_bank ?P d (pbOf c) (pbOf c1)"
    using BalanceOf_token [OF reads] by blast
  note bank1 = c1(4) [unfolded same_bank_def]
  show ?thesis
  proof (cases "n \<le> d_spend ?P d (pbOf c) sender")
    case False
    then obtain e where "onBankKeeper (ek_SendCoinsFromAccountToModule ?K sender erc20Module [NewCoin d n]) c1 = (Err e, putPb (pbOf c1) c1)"
      using escrow_coins [OF app n, of c1 sender L] bank1 by (auto split: if_splits)
    then have "ConvertCoinNativeERC20 ?K pair n receiver sender c = (Err e, putPb (pbOf c1) c1)"
      using n c1(1) pair by (simp add: ConvertCoinNativeERC20_def appErc20_simps(2) orErr_def Let_def)
    then show ?thesis using False c1 token_bank [OF reads] by (auto simp: same_bank_def)
  next
    case True
    then obtain p2 where p2: "onBankKeeper (ek_SendCoinsFromAccountToModule ?K sender erc20Module [NewCoin d n]) c1 = (Ret (), putPb p2 c1)"
        "d_bal ?P d p2 = ledgerTransfer sender ?m n (d_bal ?P d (pbOf c))" "d_sup ?P d p2 = d_sup ?P d (pbOf c)"
      using escrow_coins [OF app n, of c1 sender L] bank1 by (auto split: if_splits)
    obtain r c3 where c3: "onEvm (ek_CallEVM ?K ?M C True (ERC20_transfer receiver n)) (putPb p2 c1) = (r, c3)" "ercStore c3 = ercStore c"
        "same_bank ?P d p2 (pbOf c3)" and eff: "if n \<le> tok (ercRest c) ?M
         then (\<exists>res. r = Ret res \<and> (\<forall>c. checkTransfer ?K C res c = (Ret (), c))) \<and> tok (ercRest c3) = tokenMove ?M receiver n (tok (ercRest c))
         else (\<exists>e. r = Err e) \<and> tok (ercRest c3) = tok (ercRest c)"
      using transfer_call [OF trans n, of ?M receiver "putPb p2 c1"] c1(2,3) token_bank [OF reads] by auto
    have run: "ConvertCoinNativeERC20 ?K pair n receiver sender c =
        go_bind (\<lambda>_. (r, c3)) (\<lambda>res. go_seq (checkTransfer ?K C res) (go_bind (BalanceOf ?K C receiver) (\<lambda>bta. go_bind (orErr ErrEVMCall bta) (\<lambda>after.
          if after \<noteq> tok (ercRest c) receiver + n then go_err ErrBalanceInvariance else onBankKeeper (ek_BurnCoins ?K erc20Module [NewCoin d n]))))) c3"
      using n c1(1) p2(1) c3(1) pair
      by (simp add: ConvertCoinNativeERC20_def appErc20_simps(2) orErr_def Let_def) (rule go_bind_same, simp)
    show ?thesis
    proof (cases "n \<le> tok (ercRest c) ?M")
      case False
      then show ?thesis unfolding run using eff c3(2,3) p2(3) by (auto simp: go_bind_def same_bank_def)
    next
      case enough: True
      then obtain res where res: "r = Ret res" "\<And>c. checkTransfer ?K C res c = (Ret (), c)" and tok3: "tok (ercRest c3) = tokenMove ?M receiver n (tok (ercRest c))"
        using eff by auto
      obtain c4 where c4: "BalanceOf ?K C receiver c3 = (Ret (Some (tok (ercRest c3) receiver)), c4)" "ercStore c4 = ercStore c3"
          "tok (ercRest c4) = tok (ercRest c3)" "same_bank ?P d (pbOf c3) (pbOf c4)"
        using BalanceOf_token [OF reads] by blast
      have bal4: "d_bal ?P d (pbOf c4) = ledgerTransfer sender ?m n (d_bal ?P d (pbOf c))" "d_sup ?P d (pbOf c4) = d_sup ?P d (pbOf c)"
        using c4(4) c3(3) p2 by (simp_all add: same_bank_def)
      have "n \<le> d_bal ?P d (pbOf c4) ?m"
        using holding_bounds [of ?P d "pbOf c"] app \<open>n \<le> d_spend ?P d (pbOf c) sender\<close> unfolding bal4 token_app_def ledgerTransfer_def
        by (smt (verit))
      then obtain p5 where p5: "BurnCoins ?P erc20Module [NewCoin d n] (pbOf c4) = (Ret (), p5)" "d_bal ?P d p5 = ledgerAdd ?m (- n) (d_bal ?P d (pbOf c4))"
          "d_sup ?P d p5 = d_sup ?P d (pbOf c4) - n"
        using mint_burn_other(2) [of ?P d n ?m] app n unfolding token_app_def by blast
      have "ledgerAdd ?m (- n) (ledgerTransfer sender ?m n l) = ledgerAdd sender (- n) l" for l
        by (auto simp: ledgerAdd_def ledgerTransfer_def)
      then have eff5: "d_bal ?P d p5 = ledgerAdd sender (- n) (d_bal ?P d (pbOf c))" using p5(2) bal4 by simp
      have burn: "onBankKeeper (ek_BurnCoins ?K erc20Module [NewCoin d n]) c4 = (Ret (), putPb p5 c4)"
        unfolding appErc20_simps using p5(1) by (rule onBankKeeper_Pb(1))
      show ?thesis
      proof (cases "receiver = ?M")
        case True
        then have "tok (ercRest c3) = tok (ercRest c)" unfolding tok3 by (simp add: tokenMove_def)
        then show ?thesis unfolding run using True res c4 c3(2) bal4(2) n by (simp add: orErr_def)
      next
        case False
        then have "ConvertCoinNativeERC20 ?K pair n receiver sender c = (Ret (), putPb p5 c4)"
          unfolding run using res c4(1) burn by (simp add: tok3 tokenMove_def orErr_def)
        then show ?thesis
          using False enough \<open>n \<le> d_spend ?P d (pbOf c) sender\<close> eff5 p5(3) bal4(2) c4(2,3) c3(2) tok3 token_bank [OF reads] by simp
      qed
    qed
  qed
qed

lemma release_coins:
  assumes "token_app w d" "0 < n" "\<not> bk_BlockedAddr (bk (appPb (ew_App w))) a"
    and "n \<le> d_bal (appPb (ew_App w)) d p (AddressBytes (ew_ModuleAddress w))"
  shows "\<exists>p'. SendCoinsFromModuleToAccount (appPb (ew_App w)) erc20Module a [NewCoin d n] p = (Ret (), p') \<and>
    d_bal (appPb (ew_App w)) d p' = ledgerTransfer (AddressBytes (ew_ModuleAddress w)) a n (d_bal (appPb (ew_App w)) d p) \<and>
    d_sup (appPb (ew_App w)) d p' = d_sup (appPb (ew_App w)) d p"
proof -
  let ?P = "appPb (ew_App w)" and ?m = "AddressBytes (ew_ModuleAddress w)"
  obtain acc where acc: "ak_GetModuleAccount (ak ?P) erc20Module = Some acc" "ma_Address acc = ?m"
    using assms(1) by (auto simp: token_app_def erc20_module_def)
  have "ak_GetModuleAddress (ak ?P) erc20Module = ?m" "?m \<noteq> []" "d_spend ?P d p ?m = d_bal ?P d p ?m"
    using assms(1) acc unfolding token_app_def bank_contract_def d_spend_def d_bal_def by metis+
  then show ?thesis
    using SendCoins_other [of ?P d n p ?m a] assms by (simp add: token_app_def SendCoinsFromModuleToAccount_def)
qed

text \<open>
  The whole conversion of tokens into coins.  It succeeds exactly when the sender has the tokens and is not the
  module; then the tokens move to the escrow and the receiver gets new coins.
\<close>

lemma ConvertERC20Native_token:
  assumes app: "token_app w d" and reads: "token_reads L w d C tok" and trans: "token_transfers L w d C tok" and n: "0 < ce_Amount msg"
    and pair: "tp_Denom pair = d" "GetERC20Contract (appErc20 L w) pair = C" and blocked: "\<not> bk_BlockedAddr (bk (appPb (ew_App w))) receiver"
  shows "if ce_Amount msg \<le> tok (ercRest c) sender \<and> sender \<noteq> ew_ModuleAddress w
    then \<exists>c'. convertERC20IntoCoinsForNativeToken (appErc20 L w) pair msg receiver sender c = (Ret (), c') \<and> ercStore c' = ercStore c \<and>
      tok (ercRest c') = tokenMove sender (ew_ModuleAddress w) (ce_Amount msg) (tok (ercRest c)) \<and>
      d_bal (appPb (ew_App w)) d (pbOf c') = ledgerAdd receiver (ce_Amount msg) (d_bal (appPb (ew_App w)) d (pbOf c)) \<and>
      d_sup (appPb (ew_App w)) d (pbOf c') = d_sup (appPb (ew_App w)) d (pbOf c) + ce_Amount msg
    else \<exists>e c'. convertERC20IntoCoinsForNativeToken (appErc20 L w) pair msg receiver sender c = (Err e, c')"
proof -
  let ?P = "appPb (ew_App w)" and ?K = "appErc20 L w" and ?M = "ew_ModuleAddress w" and ?n = "ce_Amount msg"
  let ?m = "AddressBytes ?M"
  have ext: "d \<noteq> ExtendedCoinDenom ?P" using app by (simp add: token_app_def)
  obtain c1 where c1: "BalanceOf ?K C ?M c = (Ret (Some (tok (ercRest c) ?M)), c1)" "ercStore c1 = ercStore c"
      "tok (ercRest c1) = tok (ercRest c)" "same_bank ?P d (pbOf c) (pbOf c1)"
    using BalanceOf_token [OF reads] by blast
  obtain data where pack: "el_Pack L (ERC20_transfer ?M ?n) = Inr data" using trans n unfolding token_transfers_def by blast
  obtain r c2 where c2: "onEvm (ek_CallEVMWithData ?K sender (Some C) data True) c1 = (r, c2)" "ercStore c2 = ercStore c"
      "same_bank ?P d (pbOf c1) (pbOf c2)" and eff: "if ?n \<le> tok (ercRest c) sender
       then (\<exists>res. r = Ret res \<and> (\<forall>c. checkTransfer ?K C res c = (Ret (), c))) \<and> tok (ercRest c2) = tokenMove sender ?M ?n (tok (ercRest c))
       else (\<exists>e. r = Err e) \<and> tok (ercRest c2) = tok (ercRest c)"
    using transfer_call [OF trans n, of sender ?M c1] c1(2,3) pack by (auto simp: ek_CallEVM_def appErc20_simps(1))
  have run: "convertERC20IntoCoinsForNativeToken ?K pair msg receiver sender c =
      go_bind (\<lambda>_. (r, c2)) (\<lambda>res. go_seq (checkTransfer ?K C res) (go_bind (BalanceOf ?K C ?M) (\<lambda>bta. go_bind (orErr ErrEVMCall bta) (\<lambda>after.
        if after \<noteq> tok (ercRest c) ?M + ?n then go_err ErrBalanceInvariance
        else go_seq (onBankKeeper (ek_MintCoins ?K erc20Module [NewCoin d ?n]))
         (go_seq (onBankKeeper (ek_SendCoinsFromModuleToAccount ?K erc20Module receiver [NewCoin d ?n]))
         (go_bind (go_gets (\<lambda>c. ek_GetBalance ?K (ercRest c) receiver (tp_Denom pair))) (\<lambda>balanceCoinAfter.
          if balanceCoinAfter \<noteq> d_bal ?P d (pbOf c) receiver + ?n then go_err ErrBalanceInvariance
          else emitErc (EvConvertERC20 (ce_Sender msg) (ce_Receiver msg) ?n (tp_Denom pair) (ce_ContractAddress msg))))))))) c2"
    using c1(1) c2(1) pair pack
    by (simp add: convertERC20IntoCoinsForNativeToken_def appErc20_simps(1,2) appErc20_balance [OF ext] orErr_def Let_def) (rule go_bind_same, simp)
  show ?thesis
  proof (cases "?n \<le> tok (ercRest c) sender")
    case False
    then show ?thesis unfolding run using eff by (auto simp: go_bind_def)
  next
    case enough: True
    then obtain res where res: "r = Ret res" "\<And>c. checkTransfer ?K C res c = (Ret (), c)" and tok2: "tok (ercRest c2) = tokenMove sender ?M ?n (tok (ercRest c))"
      using eff by auto
    obtain c3 where c3: "BalanceOf ?K C ?M c2 = (Ret (Some (tok (ercRest c2) ?M)), c3)" "ercStore c3 = ercStore c2"
        "tok (ercRest c3) = tok (ercRest c2)" "same_bank ?P d (pbOf c2) (pbOf c3)"
      using BalanceOf_token [OF reads] by blast
    have bal3: "d_bal ?P d (pbOf c3) = d_bal ?P d (pbOf c)" "d_sup ?P d (pbOf c3) = d_sup ?P d (pbOf c)"
      using c3(4) c2(3) c1(4) by (simp_all add: same_bank_def)
    obtain p4 where p4: "MintCoins ?P erc20Module [NewCoin d ?n] (pbOf c3) = (Ret (), p4)" "d_bal ?P d p4 = ledgerAdd ?m ?n (d_bal ?P d (pbOf c))"
        "d_sup ?P d p4 = d_sup ?P d (pbOf c) + ?n"
      using mint_burn_other(1) [of ?P d ?n ?m "pbOf c3"] app n bal3 unfolding token_app_def by auto
    have "?n \<le> d_bal ?P d p4 ?m"
      using p4(2) holding_bounds [of ?P d "pbOf c" ?m] app by (simp add: token_app_def ledgerAdd_def)
    then obtain p5 where p5: "SendCoinsFromModuleToAccount ?P erc20Module receiver [NewCoin d ?n] p4 = (Ret (), p5)"
        "d_bal ?P d p5 = ledgerTransfer ?m receiver ?n (d_bal ?P d p4)" "d_sup ?P d p5 = d_sup ?P d p4"
      using release_coins [OF app n blocked] by blast
    have eff5: "d_bal ?P d p5 = ledgerAdd receiver ?n (d_bal ?P d (pbOf c))"
      using p5(2) p4(2) by (auto simp: ledgerAdd_def ledgerTransfer_def)
    have bank: "onBankKeeper (ek_MintCoins ?K erc20Module [NewCoin d ?n]) c3 = (Ret (), putPb p4 c3)"
        "onBankKeeper (ek_SendCoinsFromModuleToAccount ?K erc20Module receiver [NewCoin d ?n]) (putPb p4 c3) = (Ret (), putPb p5 (putPb p4 c3))"
      unfolding appErc20_simps using p4(1) p5(1) by (simp_all add: onBankKeeper_Pb(1))
    show ?thesis
    proof (cases "sender = ?M")
      case True
      then show ?thesis unfolding run using res c3(1) n by (simp add: tok2 tokenMove_def orErr_def)
    next
      case False
      then have "\<exists>c'. convertERC20IntoCoinsForNativeToken ?K pair msg receiver sender c = (Ret (), c') \<and> ercStore c' = ercStore c3 \<and> ercRest c' = ercRest (putPb p5 (putPb p4 c3))"
        unfolding run using res c3(1) bank eff5 pair(1) by (simp add: appErc20_balance [OF ext] tok2 tokenMove_def orErr_def ledgerAdd_def emitErc_def)
      then show ?thesis
        using False enough eff5 p5(3) p4(3) c3(2,3) c2(2) tok2 token_bank [OF reads] by force
    qed
  qed
qed

section \<open>Backing\<close>

text \<open>The token string of a message names the pair.\<close>

definition names_pair :: "'c erc20_keeper \<Rightarrow> string \<Rightarrow> TokenPair \<Rightarrow> 'c erc_ctx \<Rightarrow> bool" where
  "names_pair K token pair c \<longleftrightarrow> GetTokenPair (ercStore c) (GetTokenPairID K (ercStore c) token) = Some pair"

text \<open>
  A history of the token: successful conversions of the pair in both directions, refunds of failed packets, and steps of
  anybody else, which neither mint nor burn the coin and do not take tokens from the escrow.
\<close>

inductive conversions ::
    "erc20_lib \<Rightarrow> ('b, 'a) erc20_wiring \<Rightarrow> ibc_api \<Rightarrow> denom \<Rightarrow> Address \<Rightarrow> ('b pb_ctx tx_ctx \<Rightarrow> Address \<Rightarrow> int) \<Rightarrow>
     'b pb_ctx tx_ctx erc_ctx \<Rightarrow> 'b pb_ctx tx_ctx erc_ctx \<Rightarrow> bool"
  for L w I d C tok c0 where
  refl: "conversions L w I d C tok c0 c0"
| tokens: "conversions L w I d C tok c0 c \<Longrightarrow> names_pair (appErc20 L w) (ce_ContractAddress msg) pair c \<Longrightarrow>
    tp_Denom pair = d \<Longrightarrow> GetERC20Contract (appErc20 L w) pair = C \<Longrightarrow> ConvertERC20_ValidateBasic (appErc20 L w) msg = None \<Longrightarrow>
    ConvertERC20 (appErc20 L w) msg c = (Ret b, c') \<Longrightarrow> conversions L w I d C tok c0 c'"
| coins: "conversions L w I d C tok c0 c \<Longrightarrow> names_pair (appErc20 L w) (Denom (cc_Coin m)) pair c \<Longrightarrow>
    tp_Denom pair = d \<Longrightarrow> GetERC20Contract (appErc20 L w) pair = C \<Longrightarrow>
    ConvertCoin (appErc20 L w) m c = (Ret b, c') \<Longrightarrow> conversions L w I d C tok c0 c'"
| refund: "conversions L w I d C tok c0 c \<Longrightarrow> names_pair (appErc20 L w) (fd_Denom data) pair c \<Longrightarrow>
    tp_Denom pair = d \<Longrightarrow> GetERC20Contract (appErc20 L w) pair = C \<Longrightarrow>
    OnTimeoutPacket (appErc20 L w) I data c = (Ret (), c') \<Longrightarrow> conversions L w I d C tok c0 c'"
| others: "conversions L w I d C tok c0 c \<Longrightarrow> d_sup (appPb (ew_App w)) d (pbOf c') = d_sup (appPb (ew_App w)) d (pbOf c) \<Longrightarrow>
    tok (ercRest c) (ew_ModuleAddress w) \<le> tok (ercRest c') (ew_ModuleAddress w) \<Longrightarrow> conversions L w I d C tok c0 c'"

definition excess :: "('b, 'a) erc20_wiring \<Rightarrow> denom \<Rightarrow> ('b pb_ctx tx_ctx \<Rightarrow> Address \<Rightarrow> int) \<Rightarrow> 'b pb_ctx tx_ctx erc_ctx \<Rightarrow> int" where
  "excess w d tok c = tok (ercRest c) (ew_ModuleAddress w) - d_sup (appPb (ew_App w)) d (pbOf c)"

lemma excess_coin:
  assumes "token_app w d" "token_reads L w d C tok" "token_transfers L w d C tok" "tp_Denom pair = d" "GetERC20Contract (appErc20 L w) pair = C"
    and "ConvertCoinNativeERC20 (appErc20 L w) pair n receiver sender c = (r, c')"
  shows "excess w d tok c' = excess w d tok c \<and> (\<forall>p. r \<noteq> Panic p)"
proof (cases "0 < n")
  case True
  then show ?thesis
    using ConvertCoinNative_token [OF assms(1-3) True assms(4,5), of c sender receiver] assms(6)
    by (auto simp: excess_def tokenMove_def split: if_splits)
next
  case False
  then show ?thesis using assms(6) by (auto simp: ConvertCoinNativeERC20_def)
qed

lemma MintingEnabled_names:
  assumes "MintingEnabled K s r token c = (Ret q, c1)" "names_pair K token pair c"
  shows "q = pair \<and> c1 = c \<and> \<not> ek_BlockedAddr K r"
  using assms by (auto simp: MintingEnabled_def names_pair_def Let_def split: if_splits option.splits)

lemma excess_tokens:
  assumes "token_app w d" "token_reads L w d C tok" "token_transfers L w d C tok"
    and "names_pair (appErc20 L w) (ce_ContractAddress msg) pair c" "tp_Denom pair = d" "GetERC20Contract (appErc20 L w) pair = C"
    and "ConvertERC20_ValidateBasic (appErc20 L w) msg = None" "ConvertERC20 (appErc20 L w) msg c = (Ret b, c')"
  shows "excess w d tok c' = excess w d tok c"
proof -
  let ?K = "appErc20 L w"
  have n: "0 < ce_Amount msg" using assms(7) by (simp add: ConvertERC20_ValidateBasic_def split: if_splits)
  obtain receiver c1 q where mint: "MintingEnabled ?K (AddressBytes (HexToAddress (ek_Api ?K) (ce_Sender msg))) receiver (ce_ContractAddress msg) c = (Ret q, c1)"
      and rest: "(if IsNativeERC20 q
           then go_bind (go_gets (\<lambda>c. selfDestructedToken ?K q (ercRest c))) (\<lambda>gone.
             if gone then go_seq (onStore (DeleteTokenPair ?K q)) (go_return False)
             else go_seq (convertERC20IntoCoinsForNativeToken ?K q msg receiver (HexToAddress (ek_Api ?K) (ce_Sender msg))) (go_return True))
           else if IsNativeCoin q then go_err ErrNativeConversionDisabled
           else go_err ErrUndefinedOwner) c1 = (Ret b, c')"
    using assms(8) by (auto simp: ConvertERC20_def Let_def go_inv split: option.splits)
  have q: "q = pair" "c1 = c" "\<not> bk_BlockedAddr (bk (appPb (ew_App w))) receiver"
    using MintingEnabled_names [OF mint assms(4)] by (simp_all add: appErc20_simps)
  show ?thesis
  proof (cases "selfDestructedToken ?K pair (ercRest c)")
    case True
    then show ?thesis using rest by (auto simp: q excess_def onStore_def split: if_splits)
  next
    case False
    then have "convertERC20IntoCoinsForNativeToken ?K pair msg receiver (HexToAddress (ek_Api ?K) (ce_Sender msg)) c = (Ret (), c')"
      using rest by (auto simp: q go_inv split: if_splits)
    then show ?thesis
      using ConvertERC20Native_token [OF assms(1-3) n assms(5,6) q(3), of c "HexToAddress (ek_Api ?K) (ce_Sender msg)"]
      by (auto simp: excess_def tokenMove_def split: if_splits)
  qed
qed

lemma excess_coins:
  assumes "token_app w d" "token_reads L w d C tok" "token_transfers L w d C tok"
    and "names_pair (appErc20 L w) (Denom (cc_Coin m)) pair c" "tp_Denom pair = d" "GetERC20Contract (appErc20 L w) pair = C"
    and "ConvertCoin (appErc20 L w) m c = (Ret b, c')"
  shows "excess w d tok c' = excess w d tok c"
proof -
  let ?K = "appErc20 L w" and ?r = "HexToAddress (ek_Api (appErc20 L w)) (cc_Receiver m)"
  obtain sender c1 q where mint: "MintingEnabled ?K sender (AddressBytes ?r) (Denom (cc_Coin m)) c = (Ret q, c1)"
      and rest: "(if IsNativeERC20 q
           then go_bind (go_gets (\<lambda>c. selfDestructedToken ?K q (ercRest c))) (\<lambda>gone.
             if gone then go_seq (onStore (DeleteTokenPair ?K q)) (go_return False)
             else go_seq (ConvertCoinNativeERC20 ?K q (Amount (cc_Coin m)) ?r sender) (go_return True))
           else if IsNativeCoin q then go_err ErrNativeConversionDisabled
           else go_err ErrUndefinedOwner) c1 = (Ret b, c')"
    using assms(7) by (auto simp: ConvertCoin_def Let_def go_inv split: option.splits)
  have q: "q = pair" "c1 = c" using MintingEnabled_names [OF mint assms(4)] by simp_all
  show ?thesis
  proof (cases "selfDestructedToken ?K pair (ercRest c)")
    case True
    then show ?thesis using rest by (auto simp: q excess_def onStore_def split: if_splits)
  next
    case False
    then have "ConvertCoinNativeERC20 ?K pair (Amount (cc_Coin m)) ?r sender c = (Ret (), c')"
      using rest by (auto simp: q go_inv split: if_splits)
    then show ?thesis using excess_coin [OF assms(1-3,5,6)] by blast
  qed
qed

lemma excess_refund:
  assumes "token_app w d" "token_reads L w d C tok" "token_transfers L w d C tok"
    and "names_pair (appErc20 L w) (fd_Denom data) pair c" "tp_Denom pair = d" "GetERC20Contract (appErc20 L w) pair = C"
    and "OnTimeoutPacket (appErc20 L w) I data c = (Ret (), c')"
  shows "excess w d tok c' = excess w d tok c"
proof -
  let ?K = "appErc20 L w"
  have conv: "excess w d tok c1 = excess w d tok c" if "convertReceived ?K pair amt a c = (r, c1)" for amt a r c1
    using that excess_coin [OF assms(1-3,5,6)] by (cases amt) (auto simp: convertReceived_def)
  have "\<exists>amt a r c1. convertReceived ?K pair amt a c = (r, c1) \<and> ercRest c' = ercRest c1 \<or> c' = c"
    using assms(4,7)
    by (auto simp: OnTimeoutPacket_def ConvertCoinToERC20FromPacket_def names_pair_def emitErc_def split: option.splits prod.splits outcome.splits if_splits) blast+
  then show ?thesis using conv by (metis excess_def)
qed

lemma excess_grows:
  assumes "token_app w d" "token_reads L w d C tok" "token_transfers L w d C tok" "conversions L w I d C tok c0 c"
  shows "excess w d tok c0 \<le> excess w d tok c"
  using assms(4)
proof induction
  case (tokens c msg pair b c')
  then show ?case using excess_tokens [OF assms(1-3) tokens(2-6)] by simp
next
  case (coins c m pair b c')
  then show ?case using excess_coins [OF assms(1-3) coins(2-5)] by simp
next
  case (refund c data pair c')
  then show ?case using excess_refund [OF assms(1-3) refund(2-5)] by simp
qed (simp_all add: excess_def)

text \<open>The refund of a token whose transfers fail: the coins reach the module account and stay there.\<close>

lemma paused_conversion:
  assumes app: "token_app w d" and reads: "token_reads L w d C tok" and paused: "token_paused L w d C tok" and n: "0 < n"
    and pair: "tp_Denom pair = d" "GetERC20Contract (appErc20 L w) pair = C"
    and funds: "n \<le> d_spend (appPb (ew_App w)) d (pbOf c) sender"
  shows "\<exists>e c'. ConvertCoinNativeERC20 (appErc20 L w) pair n receiver sender c = (Err e, c') \<and> tok (ercRest c') = tok (ercRest c) \<and>
    d_bal (appPb (ew_App w)) d (pbOf c') = ledgerTransfer sender (AddressBytes (ew_ModuleAddress w)) n (d_bal (appPb (ew_App w)) d (pbOf c))"
proof -
  let ?P = "appPb (ew_App w)" and ?K = "appErc20 L w" and ?M = "ew_ModuleAddress w"
  obtain c1 where c1: "BalanceOf ?K C receiver c = (Ret (Some (tok (ercRest c) receiver)), c1)"
      "tok (ercRest c1) = tok (ercRest c)" "same_bank ?P d (pbOf c) (pbOf c1)"
    using BalanceOf_token [OF reads] by blast
  obtain p2 where p2: "onBankKeeper (ek_SendCoinsFromAccountToModule ?K sender erc20Module [NewCoin d n]) c1 = (Ret (), putPb p2 c1)"
      "d_bal ?P d p2 = ledgerTransfer sender (AddressBytes ?M) n (d_bal ?P d (pbOf c))"
    using escrow_coins [OF app n, of c1 sender L] c1(3) funds by (auto simp: same_bank_def split: if_splits)
  obtain data e t' where call: "el_Pack L (ERC20_transfer receiver n) = Inr data" "ew_Call w ?M (Some C) data True (ercRest (putPb p2 c1)) = (Err e, t')"
      "same_bank ?P d (sdkState (txVm (ercRest (putPb p2 c1)))) (sdkState (txVm t'))" "tok t' = tok (ercRest (putPb p2 c1))"
    using paused n unfolding token_paused_def by blast
  have "onEvm (ek_CallEVM ?K ?M C True (ERC20_transfer receiver n)) (putPb p2 c1) = (Err (ErrEvm e), (putPb p2 c1)\<lparr>ercRest := t'\<rparr>)"
    using call(1,2) by (simp add: onEvm_def ek_CallEVM_def appErc20_simps onRest_def go_zoom_def go_convErr_def)
  then have "ConvertCoinNativeERC20 ?K pair n receiver sender c = (Err (ErrEvm e), (putPb p2 c1)\<lparr>ercRest := t'\<rparr>)"
    using n c1(1) p2(1) pair by (simp add: ConvertCoinNativeERC20_def appErc20_simps(2) orErr_def Let_def)
  then show ?thesis
    using call(3,4) c1(2) p2(2) token_bank [OF reads, of p2 c1] by (simp add: same_bank_def)
qed

section \<open>An example\<close>

definition exTok :: "ledger pb_ctx tx_ctx \<Rightarrow> Address \<Rightarrow> int" where
  "exTok t a = int (length (tokenBalance t a))"

lemma ucast_address [simp]: "(ucast (a :: Address) :: Hash) = ucast b \<longleftrightarrow> a = b"
proof
  have u: "uint (ucast x :: Hash) = uint x" for x :: Address
  proof -
    have "uint x < 2 ^ 160" using unsigned_less [of x] by simp
    then have "take_bit 256 (uint x) = uint x" by (intro take_bit_int_eq_self) simp_all
    then show ?thesis by (simp add: unsigned_ucast_eq)
  qed
  assume "(ucast a :: Hash) = ucast b"
  then show "a = b" using u [of a] u [of b] by (simp add: word_uint_eq_iff)
qed simp

lemma tokenBalance_set: "tokenBalance (setTokenBalance a n t) b = (if b = a then replicate n 1 else tokenBalance t b)"
  by (simp add: tokenBalance_def setTokenBalance_def GetFastState_def vk_SetState_def)

lemma tokenBalance_sdk: "tokenBalance (t\<lparr>txVm := (txVm t)\<lparr>sdkState := p\<rparr>\<rparr>) a = tokenBalance t a"
  by (simp add: tokenBalance_def GetFastState_def)

lemma setTokenBalance_sdk [simp]: "sdkState (txVm (setTokenBalance a n t)) = sdkState (txVm t)"
  by (simp add: setTokenBalance_def vk_SetState_def)

lemma ex_token_app: "ew_App w = lgApp \<Longrightarrow> ew_ModuleAddress w = 7 \<Longrightarrow> token_app w ''erc20:5''"
  using ledger_contract by (simp add: token_app_def lgApp_def erc20_module_def erc20Module_def lgModules_def ModuleName_def HasPermission_def)

lemma ex_token_reads: "ew_Call w = tokenCall b \<Longrightarrow> token_reads exLib w d 5 exTok"
  by (auto simp: token_reads_def exTok_def tokenBalance_sdk exLib_def tokenCall_def tokenResponse_def same_bank_def)

lemma ex_token_transfers: "ew_Call w = tokenCall False \<Longrightarrow> token_transfers exLib w d 5 exTok"
  by (auto simp: token_transfers_def exTok_def exLib_def tokenCall_def tokenTransfer_def tokenResponse_def same_bank_def tokenBalance_set tokenMove_def Let_def fun_eq_iff)

lemma ex_token_paused: "ew_Call w = tokenCall True \<Longrightarrow> token_paused exLib w d 5 exTok"
  by (auto simp: token_paused_def exLib_def tokenCall_def same_bank_def)

text \<open>Address 3 has ten tokens, the account \<open>ab\<close> four coins, which four tokens in escrow back.\<close>

definition exBank :: "ledger pb_ctx" where
  "exBank = lgState\<lparr>bankState := \<lparr>lg_bal = (\<lambda>a d. if d = ''erc20:5'' \<and> a = charBytes ''ab'' then 4 else 0),
     lg_sup = (\<lambda>d. if d = ''erc20:5'' then 4 else 0), lg_acc = fmupd (AddressBytes 5) 0 fmempty\<rparr>\<rparr>"

definition exBacked :: "ledger pb_ctx tx_ctx erc_ctx" where
  "exBacked = exErc\<lparr>ercRest := \<lparr>txVm = lgChain\<lparr>sdkState := exBank, codeHashStore := fmupd 5 (HashBytes 9) fmempty,
     storageStore := fmupd (5, 7) (replicate 4 1) (fmupd (5, 3) (replicate 10 1) fmempty)\<rparr>, txMeter = \<lparr>consumed = 0, limit = 100\<rparr>\<rparr>\<rparr>"

abbreviation exK :: "(ledger, AccAddress \<times> u64) erc20_wiring \<Rightarrow> ledger pb_ctx tx_ctx erc20_keeper" where
  "exK w \<equiv> appErc20 exLib w"

lemma exPair_denom [simp]: "tp_Denom exPair = ''erc20:5''" "tp_Enabled exPair" "IsNativeERC20 exPair" "\<not> IsNativeCoin exPair"
  by (simp_all add: exPair_def IsNativeERC20_def IsNativeCoin_def)

lemma exBacked_store:
  "GetERC20Map (ercStore exBacked) 5 = Some (GetID (exK w) exPair)" "GetDenomMap (ercStore exBacked) ''erc20:5'' = Some (GetID (exK w) exPair)"
  "GetTokenPair (ercStore exBacked) (Some (GetID (exK w) exPair)) = Some exPair" "enableErc20 (ercStore exBacked)" "GetID (exK w) exPair \<noteq> []"
  by (simp_all add: exBacked_def exErc_store GetERC20Map_def GetDenomMap_def GetTokenPair_def SetERC20Map_def SetDenomMap_def SetTokenPair_def
      erc20_SetParams_def erc20_DefaultParams_def emptyErc20_def GetID_def charBytes_def)

lemma exBacked_bank:
  "d_bal lgKeeper ''erc20:5'' (pbOf exBacked) a = (if a = charBytes ''ab'' then 4 else 0)" "d_sup lgKeeper ''erc20:5'' (pbOf exBacked) = 4"
  "d_spend lgKeeper ''erc20:5'' (pbOf exBacked) a = (if a = charBytes ''ab'' then 4 else 0)"
  "exTok (ercRest exBacked) 7 = 4" "exTok (ercRest exBacked) 3 = 10"
  by (simp_all add: exBacked_def exBank_def d_bal_def d_sup_def d_spend_def lgKeeper_def lgBank_def exTok_def tokenBalance_def GetFastState_def)

lemma exBacked_pair:
  "names_pair (exK w) ''erc20:5'' exPair exBacked" "names_pair (exK w) (AddressString hexApi 5) exPair exBacked"
  "GetTokenPairID (exK w) (ercStore exBacked) ''erc20:5'' \<noteq> Some []" "GetTokenPairID (exK w) (ercStore exBacked) (AddressString hexApi 5) = Some (GetID (exK w) exPair)"
proof -
  have "\<not> IsHexAddress hexApi ''erc20:5''" by (simp add: hexApi_def)
  moreover have "IsHexAddress hexApi (AddressString hexApi 5)" "HexToAddress hexApi (AddressString hexApi 5) = 5"
    using hexApi_contract by (simp_all add: address_contract_def)
  ultimately show "names_pair (exK w) ''erc20:5'' exPair exBacked" "names_pair (exK w) (AddressString hexApi 5) exPair exBacked"
      "GetTokenPairID (exK w) (ercStore exBacked) ''erc20:5'' \<noteq> Some []" "GetTokenPairID (exK w) (ercStore exBacked) (AddressString hexApi 5) = Some (GetID (exK w) exPair)"
    using exBacked_store(1-3) [of w] exBacked_store(5) [of w] by (simp_all add: names_pair_def GetTokenPairID_def)
qed

lemma exBacked_alive: "ew_App w = lgApp \<Longrightarrow> \<not> selfDestructedToken (exK w) exPair (ercRest exBacked)"
proof -
  assume w: "ew_App w = lgApp"
  have "GetAccountWithoutBalance (appVm lgApp) (txVm (ercRest exBacked)) 5 = Some \<lparr>ka_Nonce = 0, ka_Balance = None, ka_CodeHash = 9\<rparr>"
    by (simp add: GetAccountWithoutBalance_def lgApp_def lgAuth_def exBacked_def exBank_def lgState_def vk_GetCodeHash_def)
  moreover have "vkEmptyCodeHash (appVm lgApp) = 0" by (simp add: vkEmptyCodeHash_def lgApp_def)
  ultimately show ?thesis
    by (simp add: selfDestructedToken_def acc_IsContract_def appErc20_simps w)
qed

section \<open>Properties\<close>

text \<open>
  C33.  Coins stay backed.  For a token that follows the ERC-20 standard, no sequence of conversions in
  either direction and of refunds lets the supply of its coin exceed the tokens that the module holds in escrow.
\<close>

theorem coins_backed:
  assumes "token_app w d" "token_reads L w d C tok" "token_transfers L w d C tok" "conversions L w I d C tok c0 c"
    and "d_sup (appPb (ew_App w)) d (pbOf c0) \<le> tok (ercRest c0) (ew_ModuleAddress w)"
  shows "d_sup (appPb (ew_App w)) d (pbOf c) \<le> tok (ercRest c) (ew_ModuleAddress w)"
  using excess_grows [OF assms(1-4)] assms(5) by (simp add: excess_def)

theorem coins_backed_witness:
  "\<exists>c. conversions exLib exWiring exIbc ''erc20:5'' 5 exTok exBacked c \<and> d_sup lgKeeper ''erc20:5'' (pbOf c) = 6 \<and>
    d_sup lgKeeper ''erc20:5'' (pbOf c) \<le> exTok (ercRest c) 7"
proof -
  let ?K = "exK exWiring" and ?msg = "\<lparr>ce_ContractAddress = AddressString hexApi 5, ce_Amount = 2, ce_Receiver = ''ab'', ce_Sender = AddressString hexApi 3\<rparr>"
  have w: "ew_App exWiring = lgApp" "ew_ModuleAddress exWiring = 7" "ew_Call exWiring = tokenCall False" "appPb (ew_App exWiring) = lgKeeper"
    by (simp_all add: exWiring_def lgApp_def)
  note tok = ex_token_app [OF w(1,2)] ex_token_reads [OF w(3)] ex_token_transfers [OF w(3)]
  have hex: "HexToAddress hexApi (AddressString hexApi a) = a" "IsHexAddress hexApi (AddressString hexApi a)" for a
    using hexApi_contract by (simp_all add: address_contract_def)
  have acc: "el_AccAddressFromBech32 exLib ''ab'' = Some (charBytes ''ab'')" by (simp add: exLib_def)
  have ab: "\<not> bk_BlockedAddr (bk lgKeeper) (charBytes ''ab'')" by (simp add: lgKeeper_def lgBank_def charBytes_def)
  obtain c where c: "convertERC20IntoCoinsForNativeToken ?K exPair ?msg (charBytes ''ab'') 3 exBacked = (Ret (), c)"
      "d_sup lgKeeper ''erc20:5'' (pbOf c) = 6"
    using ConvertERC20Native_token [OF tok, of ?msg exPair "charBytes ''ab''" exBacked 3] ab exBacked_bank w by auto
  have "MintingEnabled ?K (AddressBytes 3) (charBytes ''ab'') (AddressString hexApi 5) exBacked = (Ret exPair, exBacked)"
    using exBacked_pair(4) [of exWiring] exBacked_store(3) [of exWiring] exBacked_store(4) exBacked_store(5) [of exWiring] ab w(4)
    by (simp add: MintingEnabled_def appErc20_simps) (simp add: lgKeeper_def lgBank_def)
  then have conv: "ConvertERC20 ?K ?msg exBacked = (Ret True, c)"
    using c(1) exBacked_alive [OF w(1)] hex(1) acc by (simp add: ConvertERC20_def)
  have "conversions exLib exWiring exIbc ''erc20:5'' 5 exTok exBacked c"
    by (rule conversions.tokens [OF conversions.refl _ _ _ _ conv, of exPair]) (simp_all add: exBacked_pair ConvertERC20_ValidateBasic_def hex acc)
  then show ?thesis using coins_backed [OF tok, of exIbc exBacked c] exBacked_bank c(2) w by auto
qed

text \<open>
  C34.  Coins can be redeemed.  In every state that conversions reach from a backed state, a holder of the
  coin who may send it to the receiver can convert any positive spendable amount while conversion is
  enabled: the message succeeds, the receiver gets exactly that many tokens and the coins are burned.
\<close>

theorem coins_redeemable:
  assumes "token_app w d" "token_reads L w d C tok" "token_transfers L w d C tok" "conversions L w I d C tok c0 c"
    and "d_sup (appPb (ew_App w)) d (pbOf c0) \<le> tok (ercRest c0) (ew_ModuleAddress w)"
    and "names_pair (appErc20 L w) d pair c" "tp_Denom pair = d" "GetERC20Contract (appErc20 L w) pair = C"
    and "enableErc20 (ercStore c)" "tp_Enabled pair" "IsNativeERC20 pair" "\<not> selfDestructedToken (appErc20 L w) pair (ercRest c)"
    and "GetTokenPairID (appErc20 L w) (ercStore c) d \<noteq> Some []"
    and "ek_AccAddressFromBech32 (appErc20 L w) s = Some sender" "HexToAddress (ek_Api (appErc20 L w)) r = receiver" "receiver \<noteq> ew_ModuleAddress w"
    and "\<not> ek_BlockedAddr (appErc20 L w) (AddressBytes receiver)" "sender = AddressBytes receiver \<or> ek_IsSendEnabledCoin (appErc20 L w) (ercRest c) d"
    and "0 < n" "n \<le> d_spend (appPb (ew_App w)) d (pbOf c) sender"
    and "\<forall>a. d_bal (appPb (ew_App w)) d (pbOf c) a \<le> d_sup (appPb (ew_App w)) d (pbOf c)"
  shows "\<exists>c'. ConvertCoin (appErc20 L w) \<lparr>cc_Coin = NewCoin d n, cc_Receiver = r, cc_Sender = s\<rparr> c = (Ret True, c') \<and>
    tok (ercRest c') receiver = tok (ercRest c) receiver + n \<and>
    d_bal (appPb (ew_App w)) d (pbOf c') = ledgerAdd sender (- n) (d_bal (appPb (ew_App w)) d (pbOf c)) \<and>
    d_sup (appPb (ew_App w)) d (pbOf c') = d_sup (appPb (ew_App w)) d (pbOf c) - n"
proof -
  let ?K = "appErc20 L w"
  have "n \<le> tok (ercRest c) (ew_ModuleAddress w)"
    using excess_grows [OF assms(1-4)] assms(5,20,21) holding_bounds [of "appPb (ew_App w)" d "pbOf c" sender] assms(1)
    by (simp add: excess_def token_app_def) (smt (verit))
  then obtain c' where c': "ConvertCoinNativeERC20 ?K pair n receiver sender c = (Ret (), c')"
      "tok (ercRest c') = tokenMove (ew_ModuleAddress w) receiver n (tok (ercRest c))"
      "d_bal (appPb (ew_App w)) d (pbOf c') = ledgerAdd sender (- n) (d_bal (appPb (ew_App w)) d (pbOf c))"
      "d_sup (appPb (ew_App w)) d (pbOf c') = d_sup (appPb (ew_App w)) d (pbOf c) - n"
    using ConvertCoinNative_token [OF assms(1-3,19,7,8), of c sender receiver] assms(16,20) by auto
  have "GetTokenPairID ?K (ercStore c) d \<noteq> None" using assms(6) by (auto simp: names_pair_def GetTokenPair_def split: option.splits)
  then have "MintingEnabled ?K sender (AddressBytes receiver) d c = (Ret pair, c)"
    using assms(6,7,9,10,13,17,18) by (auto simp: MintingEnabled_def names_pair_def)
  then have "ConvertCoin ?K \<lparr>cc_Coin = NewCoin d n, cc_Receiver = r, cc_Sender = s\<rparr> c = (Ret True, c')"
    using assms(11,12,14,15) c'(1) by (simp add: ConvertCoin_def)
  then show ?thesis using c'(2-4) assms(16) by (simp add: tokenMove_def)
qed

theorem coins_redeemable_witness:
  "\<exists>c'. ConvertCoin (exK exWiring) \<lparr>cc_Coin = NewCoin ''erc20:5'' 3, cc_Receiver = AddressString hexApi 3, cc_Sender = ''ab''\<rparr> exBacked = (Ret True, c') \<and>
    exTok (ercRest c') 3 = 13 \<and> d_sup lgKeeper ''erc20:5'' (pbOf c') = 1"
proof -
  have w: "ew_App exWiring = lgApp" "ew_ModuleAddress exWiring = 7" "ew_Call exWiring = tokenCall False" "appPb (ew_App exWiring) = lgKeeper"
    by (simp_all add: exWiring_def lgApp_def)
  have hex: "HexToAddress hexApi (AddressString hexApi a) = a" for a using hexApi_contract by (simp add: address_contract_def)
  note red = coins_redeemable [OF ex_token_app [OF w(1,2)] ex_token_reads [OF w(3)] ex_token_transfers [OF w(3)] conversions.refl [of exLib exWiring exIbc "''erc20:5''" 5 exTok exBacked],
      of exPair "''ab''" "charBytes ''ab''" "AddressString hexApi 3" 3 3]
  have acc: "el_AccAddressFromBech32 exLib ''ab'' = Some (charBytes ''ab'')" by (simp add: exLib_def)
  have bank: "\<not> bk_BlockedAddr (bk lgKeeper) (AddressBytes 3)" "bk_IsSendEnabledCoin (bk lgKeeper) b x" for b x
    by (simp_all add: lgKeeper_def lgBank_def)
  have held: "\<forall>a. d_bal lgKeeper ''erc20:5'' (pbOf exBacked) a \<le> 4" by (simp add: exBacked_bank)
  show ?thesis
    using red exBacked_bank(2-5) exBacked_pair [of exWiring] exBacked_store(4) exBacked_alive [OF w(1)] w hex acc bank held
    by (simp add: appErc20_simps) blast
qed

text \<open>
  C37.  A refund whose conversion fails.  When a packet times out and the transfers of the token fail, the callback
  succeeds, and the coins that the sender got back are neither converted nor kept: they are on the module account.
\<close>

theorem refund_strands_coins:
  assumes "token_app w d" "token_reads L w d C tok" "token_paused L w d C tok"
    and "names_pair (appErc20 L w) (fd_Denom data) pair c" "tp_Denom pair = d" "GetERC20Contract (appErc20 L w) pair = C" "IsNativeERC20 pair"
    and "enableErc20 (ercStore c)" "GetSentCoin I (fd_Denom data) (fd_Amount data) = (d, Some n)" "IsDenomRegistered (ercStore c) d"
    and "ek_AccAddressFromBech32 (appErc20 L w) (fd_Sender data) = Some sender" "\<not> ek_IsModuleAccount (appErc20 L w) (ercRest c) sender"
    and "0 < n" "n \<le> d_spend (appPb (ew_App w)) d (pbOf c) sender" "sender \<noteq> AddressBytes (ew_ModuleAddress w)"
  shows "\<exists>c'. OnTimeoutPacket (appErc20 L w) I data c = (Ret (), c') \<and> tok (ercRest c') = tok (ercRest c) \<and>
    d_bal (appPb (ew_App w)) d (pbOf c') sender = d_bal (appPb (ew_App w)) d (pbOf c) sender - n \<and>
    d_bal (appPb (ew_App w)) d (pbOf c') (AddressBytes (ew_ModuleAddress w)) = d_bal (appPb (ew_App w)) d (pbOf c) (AddressBytes (ew_ModuleAddress w)) + n"
proof -
  let ?K = "appErc20 L w"
  obtain e c' where c': "ConvertCoinNativeERC20 ?K pair n (BytesToAddress sender) sender c = (Err e, c')" "tok (ercRest c') = tok (ercRest c)"
      "d_bal (appPb (ew_App w)) d (pbOf c') = ledgerTransfer sender (AddressBytes (ew_ModuleAddress w)) n (d_bal (appPb (ew_App w)) d (pbOf c))"
    using paused_conversion [OF assms(1-3,13,5,6,14)] by blast
  have "\<not> IsNativeCoin pair" using assms(7) by (simp add: IsNativeERC20_def IsNativeCoin_def)
  then have "OnTimeoutPacket ?K I data c = emitErc (EvFailedConvertERC20 (tp_Denom pair) (tp_Erc20Address pair)) c'"
    using assms(4,7-12) c'(1) by (simp add: OnTimeoutPacket_def ConvertCoinToERC20FromPacket_def names_pair_def convertReceived_def erc20_GetParams_def)
  then show ?thesis using c'(2,3) assms(15) by (simp add: emitErc_def ledgerTransfer_def)
qed

theorem refund_strands_coins_witness:
  "\<exists>c'. OnTimeoutPacket (exK (exWiring\<lparr>ew_Call := tokenCall True\<rparr>)) exIbc
      \<lparr>fd_Denom = ''erc20:5'', fd_Amount = ''abc'', fd_Sender = ''ab'', fd_Receiver = [], fd_Memo = []\<rparr> exBacked = (Ret (), c') \<and>
    d_bal lgKeeper ''erc20:5'' (pbOf c') (charBytes ''ab'') = 1 \<and> d_bal lgKeeper ''erc20:5'' (pbOf c') (AddressBytes 7) = 3"
proof -
  let ?w = "exWiring\<lparr>ew_Call := tokenCall True\<rparr>" and ?data = "\<lparr>fd_Denom = ''erc20:5'', fd_Amount = ''abc'', fd_Sender = ''ab'', fd_Receiver = [], fd_Memo = []\<rparr>"
  have w: "ew_App ?w = lgApp" "ew_ModuleAddress ?w = 7" "ew_Call ?w = tokenCall True" "appPb (ew_App ?w) = lgKeeper" "ew_IsModuleAccount ?w = (\<lambda>_ _. False)"
    by (simp_all add: exWiring_def lgApp_def)
  have ab: "charBytes ''ab'' \<noteq> AddressBytes 7" using length_AddressBytes [of 7] by (auto simp: charBytes_def dest: arg_cong [where f = length])
  have acc: "el_AccAddressFromBech32 exLib ''ab'' = Some (charBytes ''ab'')" by (simp add: exLib_def)
  have "IsDenomRegistered (ercStore exBacked) ''erc20:5''" using exBacked_store(2) [of exWiring] by (simp add: IsDenomRegistered_def GetDenomMap_def)
  moreover have "GetSentCoin exIbc ''erc20:5'' ''abc'' = (''erc20:5'', Some 3)" by (simp add: GetSentCoin_def exIbc_def)
  ultimately show ?thesis
    using refund_strands_coins [OF ex_token_app [OF w(1,2)] ex_token_reads [OF w(3)] ex_token_paused [OF w(3)], of ?data exPair exBacked exIbc 3 "charBytes ''ab''"]
      exBacked_bank exBacked_pair(1) [of ?w] exBacked_store(4) w ab acc
    by (simp add: appErc20_simps) blast
qed

end
