(* ===== verification/Erc20IbcV2.thy ===== *)
theory Erc20IbcV2
  imports Erc20Convert
begin

text \<open>
  The ERC-20 middleware of IBC version 2 (\<open>x/erc20/v2/ibc_middleware.go\<close>): a payload is turned into a
  packet of version 1 and handed to the callbacks of the keeper.
\<close>

section \<open>Model\<close>

datatype PacketStatus = PacketStatus_NONE | PacketStatus_Success | PacketStatus_Failure | PacketStatus_Async

text \<open>The acknowledgement of a result is already decoded; a decoding error is None.\<close>

record RecvPacketResult =
  rr_Status :: PacketStatus
  rr_Acknowledgement :: "ibc_ack option"

text \<open>What ibc-go makes of the value of a payload.\<close>

record InternalTransferRepresentation =
  it_Denom :: ibc_denom
  it_Amount :: string
  it_Sender :: string
  it_Receiver :: string
  it_Memo :: string

record v2_payload =
  pl_SourcePort :: string
  pl_DestinationPort :: string
  pl_Value :: "string + InternalTransferRepresentation"

text \<open>\<open>Denom.Path\<close>, and \<open>json.Marshal\<close> of packet data: an error, or what decoding gives for the bytes.\<close>

record v2_codec =
  vc_Path :: "ibc_denom \<Rightarrow> string"
  vc_Marshal :: "FungibleTokenPacketData \<Rightarrow> string + FungibleTokenPacketData option"

text \<open>An acknowledgement: the universal error of version 2, or the bytes of one of version 1.\<close>

datatype v2_ack = ErrorAcknowledgement | EncodedAck "ibc_ack option"

text \<open>The timeouts of the packet are zero.\<close>

definition v2ToV1Packet :: "v2_codec \<Rightarrow> v2_payload \<Rightarrow> string \<Rightarrow> string \<Rightarrow> u64 \<Rightarrow> string + ibc_packet" where
  "v2ToV1Packet X payload sourceClient destinationClient sequence =
    (case pl_Value payload of
       Inl e \<Rightarrow> Inl e
     | Inr r \<Rightarrow>
        let packetData = \<lparr>fd_Denom = vc_Path X (it_Denom r), fd_Amount = it_Amount r, fd_Sender = it_Sender r, fd_Receiver = it_Receiver r,
              fd_Memo = it_Memo r\<rparr>
        in case vc_Marshal X packetData of
             Inl e \<Rightarrow> Inl e
           | Inr packetDataBz \<Rightarrow>
              Inr \<lparr>pk_Sequence = sequence, pk_SourcePort = pl_SourcePort payload, pk_SourceChannel = sourceClient, pk_DestinationPort = pl_DestinationPort payload,
                pk_DestinationChannel = destinationClient, pk_Data = packetDataBz\<rparr>)"

text \<open>The acknowledgement that the keeper returns is dropped.\<close>

definition v2_OnRecvPacket ::
    "'c erc20_keeper \<Rightarrow> ibc_api \<Rightarrow> v2_codec \<Rightarrow> (v2_payload \<Rightarrow> ('c, RecvPacketResult) erc_go) \<Rightarrow> string \<Rightarrow> string \<Rightarrow> u64 \<Rightarrow> v2_payload \<Rightarrow> ('c, RecvPacketResult) erc_go" where
  "v2_OnRecvPacket K I X app sourceClient destinationClient sequence payload =
    go_bind (app payload) (\<lambda>recvResult.
      if rr_Status recvResult = PacketStatus_Failure then go_return recvResult
      else case v2ToV1Packet X payload sourceClient destinationClient sequence of
        Inl _ \<Rightarrow> go_return \<lparr>rr_Status = PacketStatus_Failure, rr_Acknowledgement = None\<rparr>
      | Inr packet \<Rightarrow>
         (case rr_Acknowledgement recvResult of
            None \<Rightarrow> go_return \<lparr>rr_Status = PacketStatus_Failure, rr_Acknowledgement = None\<rparr>
          | Some ack \<Rightarrow> go_bind (OnRecvPacket K I packet ack) (\<lambda>_. go_return recvResult)))"

definition v2_OnAcknowledgementPacket ::
    "'c erc20_keeper \<Rightarrow> ibc_api \<Rightarrow> v2_codec \<Rightarrow> (v2_payload \<Rightarrow> ('c, unit) erc_go) \<Rightarrow> string \<Rightarrow> string \<Rightarrow> u64 \<Rightarrow> v2_ack \<Rightarrow> v2_payload \<Rightarrow> ('c, unit) erc_go" where
  "v2_OnAcknowledgementPacket K I X app sourceClient destinationClient sequence acknowledgement payload =
    go_seq (app payload)
      (case v2ToV1Packet X payload sourceClient destinationClient sequence of
         Inl e \<Rightarrow> go_err (ErrErcOther e)
       | Inr packet \<Rightarrow>
          (case pk_Data packet of
             None \<Rightarrow> go_err (ErrErcOther ''cannot unmarshal packet data'')
           | Some data \<Rightarrow>
              (case acknowledgement of
                 ErrorAcknowledgement \<Rightarrow> OnAcknowledgementPacket K I data (AckError (ErrErcOther ''receive packet failed''))
               | EncodedAck None \<Rightarrow> go_err (ErrErcOther ''cannot unmarshal acknowledgement'')
               | EncodedAck (Some ack) \<Rightarrow> OnAcknowledgementPacket K I data ack)))"

definition v2_OnTimeoutPacket ::
    "'c erc20_keeper \<Rightarrow> ibc_api \<Rightarrow> v2_codec \<Rightarrow> (v2_payload \<Rightarrow> ('c, unit) erc_go) \<Rightarrow> string \<Rightarrow> string \<Rightarrow> u64 \<Rightarrow> v2_payload \<Rightarrow> ('c, unit) erc_go" where
  "v2_OnTimeoutPacket K I X app sourceClient destinationClient sequence payload =
    (case v2ToV1Packet X payload sourceClient destinationClient sequence of
       Inl e \<Rightarrow> go_err (ErrErcOther e)
     | Inr packet \<Rightarrow>
        (case pk_Data packet of
           None \<Rightarrow> go_err (ErrErcOther ''cannot unmarshal packet data'')
         | Some data \<Rightarrow> go_seq (app payload) (OnTimeoutPacket K I data)))"

section \<open>A received transfer whose conversion fails\<close>

text \<open>The conversion of received coins of a token whose transfers fail: an error, and the coins with the module.\<close>

lemma paused_receive:
  assumes "token_app w d" "token_reads L w d C tok" "token_paused L w d C tok"
    and "names_pair (appErc20 L w) d pair c" "tp_Denom pair = d" "GetERC20Contract (appErc20 L w) pair = C" "IsNativeERC20 pair" "tp_Enabled pair"
    and "enableErc20 (ercStore c)" "GetTokenPairID (appErc20 L w) (ercStore c) d \<noteq> Some []"
    and "pk_Data packet = Some data" "GetTransferSenderRecipient I data = Inr (sender, recipient)"
    and "GetReceivedCoin I packet (ib_ExtractDenomFromPath I (fd_Denom data)) (fd_Amount data) = (d, Some n)" "take 8 (fd_Denom data) \<noteq> ''factory/''"
    and "\<not> ek_IsModuleAccount (appErc20 L w) (ercRest c) recipient" "ek_BondDenom (appErc20 L w) (ercRest c) = Inr bond" "d \<noteq> bond"
    and "\<not> ek_BlockedAddr (appErc20 L w) recipient" "ek_IsSendEnabledCoin (appErc20 L w) (ercRest c) d"
    and "0 < n" "n \<le> d_spend (appPb (ew_App w)) d (pbOf c) recipient"
  shows "\<exists>e c'. OnRecvPacket (appErc20 L w) I packet ack c = (Ret (AckError e), c') \<and> tok (ercRest c') = tok (ercRest c) \<and>
    d_bal (appPb (ew_App w)) d (pbOf c') = ledgerTransfer recipient (AddressBytes (ew_ModuleAddress w)) n (d_bal (appPb (ew_App w)) d (pbOf c))"
proof -
  let ?K = "appErc20 L w"
  obtain e c' where c': "ConvertCoinNativeERC20 ?K pair n (BytesToAddress recipient) recipient c = (Err e, c')" "tok (ercRest c') = tok (ercRest c)"
      "d_bal (appPb (ew_App w)) d (pbOf c') = ledgerTransfer recipient (AddressBytes (ew_ModuleAddress w)) n (d_bal (appPb (ew_App w)) d (pbOf c))"
    using paused_conversion [OF assms(1-3,20,5,6,21)] by blast
  have pair: "GetTokenPair (ercStore c) (GetTokenPairID ?K (ercStore c) d) = Some pair" using assms(4) by (simp add: names_pair_def)
  then have "GetTokenPairID ?K (ercStore c) d \<noteq> None" by (auto simp: GetTokenPair_def split: option.splits)
  then have "MintingEnabled ?K sender recipient d c = (Ret pair, c)"
    using pair assms(5,8,9,10,18,19) by (auto simp: MintingEnabled_def)
  then have "OnRecvPacket ?K I packet ack c = (Ret (AckError e), c')"
    using pair c'(1) assms(7-9,11-17) by (simp add: OnRecvPacket_def ackErr_def convertReceived_def)
  then show ?thesis using c'(2,3) by blast
qed

text \<open>
  C38.  A transfer received over IBC version 2 whose conversion fails.  When the transfers of the token fail, the middleware
  reports the success of the transfer below it, and the received coins are on the module account instead of the receiver's.
\<close>

theorem v2_receive_strands_coins:
  assumes "token_app w d" "token_reads L w d C tok" "token_paused L w d C tok"
    and "app payload c0 = (Ret result, c)" "rr_Status result = PacketStatus_Success" "rr_Acknowledgement result = Some (AckResult bz)"
    and "v2ToV1Packet X payload source dest sequence = Inr packet"
    and "names_pair (appErc20 L w) d pair c" "tp_Denom pair = d" "GetERC20Contract (appErc20 L w) pair = C" "IsNativeERC20 pair" "tp_Enabled pair"
    and "enableErc20 (ercStore c)" "GetTokenPairID (appErc20 L w) (ercStore c) d \<noteq> Some []"
    and "pk_Data packet = Some data" "GetTransferSenderRecipient I data = Inr (sender, recipient)"
    and "GetReceivedCoin I packet (ib_ExtractDenomFromPath I (fd_Denom data)) (fd_Amount data) = (d, Some n)" "take 8 (fd_Denom data) \<noteq> ''factory/''"
    and "\<not> ek_IsModuleAccount (appErc20 L w) (ercRest c) recipient" "ek_BondDenom (appErc20 L w) (ercRest c) = Inr bond" "d \<noteq> bond"
    and "\<not> ek_BlockedAddr (appErc20 L w) recipient" "ek_IsSendEnabledCoin (appErc20 L w) (ercRest c) d"
    and "0 < n" "n \<le> d_spend (appPb (ew_App w)) d (pbOf c) recipient" "recipient \<noteq> AddressBytes (ew_ModuleAddress w)"
  shows "\<exists>c'. v2_OnRecvPacket (appErc20 L w) I X app source dest sequence payload c0 = (Ret result, c') \<and> tok (ercRest c') = tok (ercRest c) \<and>
    d_bal (appPb (ew_App w)) d (pbOf c') recipient = d_bal (appPb (ew_App w)) d (pbOf c) recipient - n \<and>
    d_bal (appPb (ew_App w)) d (pbOf c') (AddressBytes (ew_ModuleAddress w)) = d_bal (appPb (ew_App w)) d (pbOf c) (AddressBytes (ew_ModuleAddress w)) + n"
proof -
  obtain e c' where "OnRecvPacket (appErc20 L w) I packet (AckResult bz) c = (Ret (AckError e), c')" "tok (ercRest c') = tok (ercRest c)"
      "d_bal (appPb (ew_App w)) d (pbOf c') = ledgerTransfer recipient (AddressBytes (ew_ModuleAddress w)) n (d_bal (appPb (ew_App w)) d (pbOf c))"
    using paused_receive [OF assms(1-3,8-25)] by blast
  then show ?thesis using assms(4-7,26) by (simp add: v2_OnRecvPacket_def ledgerTransfer_def)
qed

definition exPayload :: v2_payload where
  "exPayload = \<lparr>pl_SourcePort = ''transfer'', pl_DestinationPort = ''transfer'',
     pl_Value = Inr \<lparr>it_Denom = \<lparr>id_Trace = [], id_Base = ''erc20:5''\<rparr>, it_Amount = ''abc'', it_Sender = ''s1'', it_Receiver = ''ab1'', it_Memo = []\<rparr>\<rparr>"

definition exCodec :: v2_codec where
  "exCodec = \<lparr>vc_Path = id_Base, vc_Marshal = Inr \<circ> Some\<rparr>"

theorem v2_receive_strands_coins_witness:
  "\<exists>c'. v2_OnRecvPacket (exK (exWiring\<lparr>ew_Call := tokenCall True\<rparr>)) (exIbc\<lparr>ib_GetFromBech32 := \<lambda>_ p. Some (charBytes p)\<rparr>) exCodec
      (\<lambda>_. go_return \<lparr>rr_Status = PacketStatus_Success, rr_Acknowledgement = Some (AckResult [1])\<rparr>) ''src'' ''dst'' 1 exPayload exBacked
      = (Ret \<lparr>rr_Status = PacketStatus_Success, rr_Acknowledgement = Some (AckResult [1])\<rparr>, c') \<and>
    d_bal lgKeeper ''erc20:5'' (pbOf c') (charBytes ''ab'') = 1 \<and> d_bal lgKeeper ''erc20:5'' (pbOf c') (AddressBytes 7) = 3"
proof -
  let ?w = "exWiring\<lparr>ew_Call := tokenCall True\<rparr>" and ?I = "exIbc\<lparr>ib_GetFromBech32 := \<lambda>_ p. Some (charBytes p)\<rparr>"
    and ?data = "\<lparr>fd_Denom = ''erc20:5'', fd_Amount = ''abc'', fd_Sender = ''s1'', fd_Receiver = ''ab1'', fd_Memo = []\<rparr>"
  let ?result = "\<lparr>rr_Status = PacketStatus_Success, rr_Acknowledgement = Some (AckResult [1])\<rparr>"
  let ?app = "\<lambda>_ :: v2_payload. go_return ?result" and ?packet = "\<lparr>pk_Sequence = 1, pk_SourcePort = ''transfer'', pk_SourceChannel = ''src'', pk_DestinationPort = ''transfer'', pk_DestinationChannel = ''dst'', pk_Data = Some ?data\<rparr>"
  have w: "ew_App ?w = lgApp" "ew_ModuleAddress ?w = 7" "ew_Call ?w = tokenCall True" "appPb (ew_App ?w) = lgKeeper" "ew_IsModuleAccount ?w = (\<lambda>_ _. False)"
      "ew_BondDenom ?w = (\<lambda>_. Inr ''stake'')"
    by (simp_all add: exWiring_def lgApp_def)
  have ab: "charBytes ''ab'' \<noteq> AddressBytes 7" using length_AddressBytes [of 7] by (auto simp: charBytes_def dest: arg_cong [where f = length])
  then have ab7: "charBytes ''ab'' \<noteq> AddressBytes (ew_ModuleAddress ?w)" by (simp only: w not_False_eq_True)
  have packet: "v2ToV1Packet exCodec exPayload ''src'' ''dst'' 1 = Inr ?packet" by (simp add: v2ToV1Packet_def exPayload_def exCodec_def)
  have parties: "GetTransferSenderRecipient ?I ?data = Inr (charBytes ''s'', charBytes ''ab'')"
    by (simp add: GetTransferSenderRecipient_def GetAccAddressFromBech32_def exIbc_def)
  have coin: "GetReceivedCoin ?I ?packet (ib_ExtractDenomFromPath exIbc ''erc20:5'') ''abc'' = (''erc20:5'', Some 3)"
    by (simp add: GetReceivedCoin_def exIbc_def)
  have lgPb: "appPb lgApp = lgKeeper" and bond: "ek_BondDenom (exK ?w) t = Inr ''stake''" for t
    by (simp_all add: lgApp_def appErc20_def exWiring_def Let_def)
  have bank: "\<not> bk_BlockedAddr lgBank (charBytes ''ab'')" "bk_IsSendEnabledCoin lgBank b x" for b x
    by (simp_all add: lgBank_def charBytes_def)
  have "\<exists>c'. v2_OnRecvPacket (exK ?w) ?I exCodec ?app ''src'' ''dst'' 1 exPayload exBacked = (Ret ?result, c') \<and> exTok (ercRest c') = exTok (ercRest exBacked) \<and>
      d_bal (appPb (ew_App ?w)) ''erc20:5'' (pbOf c') (charBytes ''ab'') = d_bal (appPb (ew_App ?w)) ''erc20:5'' (pbOf exBacked) (charBytes ''ab'') - 3 \<and>
      d_bal (appPb (ew_App ?w)) ''erc20:5'' (pbOf c') (AddressBytes (ew_ModuleAddress ?w)) = d_bal (appPb (ew_App ?w)) ''erc20:5'' (pbOf exBacked) (AddressBytes (ew_ModuleAddress ?w)) + 3"
    by (rule v2_receive_strands_coins [where bz = "[1]" and bond = "''stake''", OF ex_token_app [OF w(1,2)] ex_token_reads [OF w(3)] ex_token_paused [OF w(3)] _ _ _ packet exBacked_pair(1) [of ?w]
          exPair_denom(1) _ exPair_denom(3,2) exBacked_store(4) exBacked_pair(3) [of ?w] _ parties _ _ _ _ _ _ _ _ _ ab7])
      (simp_all add: coin w bank appErc20_simps exBacked_bank lgPb bond)
  then show ?thesis using exBacked_bank(1) w(2,4) ab by simp blast
qed

end
