(* ===== verification/Erc20Precompile.thy ===== *)
theory Erc20Precompile
  imports Erc20Convert
begin

text \<open>
  The ERC-20 precompile: a token contract whose balances are those of a coin in the bank and whose
  allowances are those of x/erc20.  \<open>precompiles/erc20/{erc20,tx,approve,query,types,events,msgsrv,errors}.go\<close>.

  The bank keeper, x/erc20 and the ABI codec enter as fields of \<open>erc20_precompile\<close>; a log is handed to
  \<open>AddLog\<close> of the state database, here appended to \<open>pcLogs\<close>.
\<close>

section \<open>State, errors, parameters\<close>

datatype prec_error = ErrTransferAmountExceedsBalance | ErrInsufficientAllowance | ErrDecreasedAllowanceBelowZero
  | ErrExecutionReverted | ErrNegativeAmount | ErrNoIBCVoucherDenom | ErrDenomNotFound
  | PrecErc erc20_error | PrecSdk sdk_error | PrecText string

record 'c prec_ctx =
  pcErc :: "'c erc_ctx"
  pcLogs :: "Log list"

type_synonym ('c, 'x) prec_go = "('c prec_ctx, prec_error, 'x) go"

datatype abi_value = AbiAddress Address | AbiUint int | AbiUint8 u8 | AbiBool bool | AbiString string

text \<open>The message server of the bank keeper: that of x/bank, that of x/precisebank, or none.\<close>

datatype 'c bank_server =
    BaseKeeperServer "MsgSend \<Rightarrow> ('c, sdk_error, unit) go"
  | PreciseBankServer "MsgSend \<Rightarrow> ('c, sdk_error, unit) go"
  | UnknownServer

record 'c cmn_bank =
  cb_Server :: "'c bank_server"
  cb_GetSupply :: "'c \<Rightarrow> denom \<Rightarrow> int"
  cb_GetDenomMetaData :: "'c \<Rightarrow> denom \<Rightarrow> Metadata option"
  cb_SpendableCoin :: "'c \<Rightarrow> AccAddress \<Rightarrow> denom \<Rightarrow> int"
  cb_SendCoins :: "AccAddress \<Rightarrow> AccAddress \<Rightarrow> coins \<Rightarrow> ('c, sdk_error, unit) go"

record 'c erc20_precompile =
  pcPair :: TokenPair
  pcKeeper :: "'c erc20_keeper"
  pcBank :: "'c cmn_bank"
  pcGetDenom :: "'c \<Rightarrow> bytes \<Rightarrow> ibc_denom option"
  pcErrorText :: "prec_error \<Rightarrow> string"
  pcAccString :: "AccAddress \<Rightarrow> string"
  pcValidate :: "coins \<Rightarrow> bool"
  pcTransferID :: Hash
  pcApprovalID :: Hash
  pcPackUint :: "int \<Rightarrow> string + bytes"
  pcPackOutput :: "abi_value \<Rightarrow> string + bytes"
  pcBlockHeight :: int

definition prec_Address :: "'c erc20_precompile \<Rightarrow> Address" where
  "prec_Address P = GetERC20Contract (pcKeeper P) (pcPair P)"

definition onErcStore :: "(erc20_store \<Rightarrow> erc20_error + erc20_store) \<Rightarrow> ('c prec_ctx, erc20_error, unit) go" where
  "onErcStore f = (\<lambda>c. case f (ercStore (pcErc c)) of
     Inl e \<Rightarrow> (Err e, c) | Inr s \<Rightarrow> (Ret (), c\<lparr>pcErc := (pcErc c)\<lparr>ercStore := s\<rparr>\<rparr>))"

definition onPrecBank :: "('c, sdk_error, 'x) go \<Rightarrow> ('c prec_ctx, sdk_error, 'x) go" where
  "onPrecBank m = go_zoom (\<lambda>c. ercRest (pcErc c)) (\<lambda>r c. c\<lparr>pcErc := (pcErc c)\<lparr>ercRest := r\<rparr>\<rparr>) m"

text \<open>\<open>strings.Contains\<close>.\<close>

definition containsText :: "string \<Rightarrow> string \<Rightarrow> bool" where
  "containsText s sub \<longleftrightarrow> list_ex (\<lambda>i. take (length sub) (drop i s) = sub) [0..<Suc (length s)]"

definition ConvertErrToERC20Error :: "'c erc20_precompile \<Rightarrow> prec_error \<Rightarrow> prec_error" where
  "ConvertErrToERC20Error P err =
    (let t = pcErrorText P err
     in if containsText t ''spendable balance'' then ErrTransferAmountExceedsBalance
        else if containsText t ''requested amount is more than spend limit'' then ErrInsufficientAllowance
        else if containsText t ''subtracted value cannot be greater than existing allowance'' then ErrDecreasedAllowanceBelowZero
        else if containsText t ''integer overflow when increasing allowance'' then ErrExecutionReverted
        else if err = ErrNoIBCVoucherDenom \<or> err = ErrDenomNotFound \<or> containsText t ''invalid base denomination''
          \<or> containsText t ''display denomination not found'' \<or> containsText t ''invalid decimals'' then ErrExecutionReverted
        else err)"

section \<open>Arguments\<close>

fun ParseTransferArgs :: "abi_value list \<Rightarrow> string + (Address \<times> int)" where
  "ParseTransferArgs [a, b] =
    (case a of
       AbiAddress to \<Rightarrow> (case b of AbiUint amount \<Rightarrow> Inr (to, amount) | _ \<Rightarrow> Inl ''invalid amount'')
     | _ \<Rightarrow> Inl ''invalid to address'')"
| "ParseTransferArgs _ = Inl ''invalid number of arguments; expected 2''"

fun ParseTransferFromArgs :: "abi_value list \<Rightarrow> string + (Address \<times> Address \<times> int)" where
  "ParseTransferFromArgs [a, b, v] =
    (case a of
       AbiAddress from \<Rightarrow>
         (case b of
            AbiAddress to \<Rightarrow> (case v of AbiUint amount \<Rightarrow> Inr (from, to, amount) | _ \<Rightarrow> Inl ''invalid amount'')
          | _ \<Rightarrow> Inl ''invalid to address'')
     | _ \<Rightarrow> Inl ''invalid from address'')"
| "ParseTransferFromArgs _ = Inl ''invalid number of arguments; expected 3''"

fun ParseApproveArgs :: "abi_value list \<Rightarrow> string + (Address \<times> int)" where
  "ParseApproveArgs [a, b] =
    (case a of
       AbiAddress spender \<Rightarrow> (case b of AbiUint amount \<Rightarrow> Inr (spender, amount) | _ \<Rightarrow> Inl ''invalid amount'')
     | _ \<Rightarrow> Inl ''invalid spender address'')"
| "ParseApproveArgs _ = Inl ''invalid number of arguments; expected 2''"

fun ParseAllowanceArgs :: "abi_value list \<Rightarrow> string + (Address \<times> Address)" where
  "ParseAllowanceArgs [a, b] =
    (case a of
       AbiAddress owner \<Rightarrow> (case b of AbiAddress spender \<Rightarrow> Inr (owner, spender) | _ \<Rightarrow> Inl ''invalid spender address'')
     | _ \<Rightarrow> Inl ''invalid owner address'')"
| "ParseAllowanceArgs _ = Inl ''invalid number of arguments; expected 2''"

fun ParseBalanceOfArgs :: "abi_value list \<Rightarrow> string + Address" where
  "ParseBalanceOfArgs [a] = (case a of AbiAddress acct \<Rightarrow> Inr acct | _ \<Rightarrow> Inl ''invalid account address'')"
| "ParseBalanceOfArgs _ = Inl ''invalid number of arguments; expected 1''"

definition orText :: "string + 'x \<Rightarrow> ('c, 'x) prec_go" where
  "orText r = (case r of Inl e \<Rightarrow> go_err (PrecText e) | Inr v \<Rightarrow> go_return v)"

section \<open>Events\<close>

text \<open>\<open>MakeTopic\<close> of an address: the address, padded on the left.\<close>

definition MakeTopic :: "Address \<Rightarrow> Hash" where
  "MakeTopic a = ucast a"

definition precAddLog :: "'c erc20_precompile \<Rightarrow> Hash list \<Rightarrow> bytes \<Rightarrow> ('c, unit) prec_go" where
  "precAddLog P topics packed = go_modify (\<lambda>c. c\<lparr>pcLogs := pcLogs c @
     [\<lparr>log_Address = prec_Address P, log_Topics = topics, log_Data = packed,
       log_BlockNumber = word_of_int (pcBlockHeight P), log_TxHash = 0, log_BlockHash = 0, log_TxIndex = 0, log_Index = 0\<rparr>]\<rparr>)"

definition EmitTransferEvent :: "'c erc20_precompile \<Rightarrow> Address \<Rightarrow> Address \<Rightarrow> int \<Rightarrow> ('c, unit) prec_go" where
  "EmitTransferEvent P from to v =
    go_bind (orText (pcPackUint P v)) (\<lambda>packed. precAddLog P [pcTransferID P, MakeTopic from, MakeTopic to] packed)"

definition EmitApprovalEvent :: "'c erc20_precompile \<Rightarrow> Address \<Rightarrow> Address \<Rightarrow> int \<Rightarrow> ('c, unit) prec_go" where
  "EmitApprovalEvent P owner spender v =
    go_bind (orText (pcPackUint P v)) (\<lambda>packed. precAddLog P [pcApprovalID P, MakeTopic owner, MakeTopic spender] packed)"

section \<open>Transactions\<close>

definition MsgServer_Send :: "'c erc20_precompile \<Rightarrow> MsgSend \<Rightarrow> ('c, unit) prec_go" where
  "MsgServer_Send P msg =
    (case cb_Server (pcBank P) of
       BaseKeeperServer send \<Rightarrow> go_convErr (\<lambda>e. ConvertErrToERC20Error P (PrecSdk e)) (onPrecBank (send msg))
     | PreciseBankServer send \<Rightarrow> go_convErr (\<lambda>e. ConvertErrToERC20Error P (PrecSdk e)) (onPrecBank (send msg))
     | UnknownServer \<Rightarrow> go_err (PrecText ''invalid keeper type''))"

definition spendAllowance :: "'c erc20_precompile \<Rightarrow> Address \<Rightarrow> Address \<Rightarrow> int \<Rightarrow> ('c, unit) prec_go" where
  "spendAllowance P from spender amount =
    go_bind (go_gets (\<lambda>c. GetAllowance (ercStore (pcErc c)) (prec_Address P) from spender)) (\<lambda>prevAllowance.
      let newAllowance = prevAllowance - amount
      in if newAllowance < 0 then go_err ErrInsufficientAllowance
         else go_convErr (\<lambda>e. ConvertErrToERC20Error P (PrecErc e))
           (onErcStore (if newAllowance = 0 then DeleteAllowance (pcKeeper P) (prec_Address P) from spender
             else SetAllowance (pcKeeper P) (prec_Address P) from spender (Some newAllowance))))"

text \<open>
  The variable that the Approval event reports is shadowed in the branch that computes the new allowance
  and is zero in every case.
\<close>

definition prec_transfer :: "'c erc20_precompile \<Rightarrow> Address \<Rightarrow> string \<Rightarrow> Address \<Rightarrow> Address \<Rightarrow> int \<Rightarrow> ('c, bytes) prec_go" where
  "prec_transfer P caller meth from to amount =
    (let coins = [NewCoin (tp_Denom (pcPair P)) amount];
         msg = \<lparr>FromAddress = pcAccString P (AddressBytes from), ToAddress = pcAccString P (AddressBytes to), MsgAmount = coins\<rparr>;
         isTransferFrom = (meth = ''transferFrom''); newAllowance = 0
     in if 2 ^ 256 \<le> \<bar>amount\<bar> then go_panic ''NewIntFromBigInt() out of bound''
        else if \<not> pcValidate P coins then go_err (PrecSdk ErrInvalidCoins)
        else go_seq (go_when isTransferFrom (spendAllowance P from caller amount))
          (go_seq (go_convErr (ConvertErrToERC20Error P) (MsgServer_Send P msg))
          (go_seq (EmitTransferEvent P from to amount)
          (go_seq (go_when isTransferFrom (EmitApprovalEvent P from caller newAllowance))
            (orText (pcPackOutput P (AbiBool True)))))))"

definition prec_Transfer :: "'c erc20_precompile \<Rightarrow> Address \<Rightarrow> string \<Rightarrow> abi_value list \<Rightarrow> ('c, bytes) prec_go" where
  "prec_Transfer P caller meth args =
    go_bind (orText (ParseTransferArgs args)) (\<lambda>(to, amount). prec_transfer P caller meth caller to amount)"

definition prec_TransferFrom :: "'c erc20_precompile \<Rightarrow> Address \<Rightarrow> string \<Rightarrow> abi_value list \<Rightarrow> ('c, bytes) prec_go" where
  "prec_TransferFrom P caller meth args =
    go_bind (orText (ParseTransferFromArgs args)) (\<lambda>(from, to, amount). prec_transfer P caller meth from to amount)"

text \<open>\<open>BitLen\<close> above 256 bits is refused.\<close>

definition prec_setAllowance :: "'c erc20_precompile \<Rightarrow> Address \<Rightarrow> Address \<Rightarrow> int \<Rightarrow> ('c, unit) prec_go" where
  "prec_setAllowance P owner spender allowance =
    (if 2 ^ 256 \<le> \<bar>allowance\<bar> then go_err (PrecText ''amount causes integer overflow'')
     else go_convErr PrecErc (onErcStore (SetAllowance (pcKeeper P) (prec_Address P) owner spender (Some allowance))))"

definition prec_Approve :: "'c erc20_precompile \<Rightarrow> Address \<Rightarrow> abi_value list \<Rightarrow> ('c, bytes) prec_go" where
  "prec_Approve P owner args =
    go_bind (orText (ParseApproveArgs args)) (\<lambda>(spender, amount).
    go_bind (go_gets (\<lambda>c. GetAllowance (ercStore (pcErc c)) (prec_Address P) owner spender)) (\<lambda>allowance.
    go_seq
      (if allowance = 0 \<and> amount < 0 then go_err ErrNegativeAmount
       else if allowance = 0 \<and> amount > 0 then prec_setAllowance P owner spender amount
       else if allowance > 0 \<and> amount \<le> 0
       then go_convErr PrecErc (onErcStore (DeleteAllowance (pcKeeper P) (prec_Address P) owner spender))
       else if allowance > 0 \<and> amount > 0 then prec_setAllowance P owner spender amount
       else go_return ())
      (go_seq (EmitApprovalEvent P owner spender amount) (orText (pcPackOutput P (AbiBool True))))))"

section \<open>Queries\<close>

definition upperChar :: "char \<Rightarrow> char" where
  "upperChar ch = (let n = of_char ch :: nat in if 97 \<le> n \<and> n \<le> 122 then char_of (n - 32) else ch)"

definition ibc_GetDenom :: "'c erc20_precompile \<Rightarrow> 'c \<Rightarrow> string \<Rightarrow> prec_error + ibc_denom" where
  "ibc_GetDenom P r voucherDenom =
    (if take 4 voucherDenom \<noteq> ''ibc/'' then Inl ErrNoIBCVoucherDenom
     else case ek_ParseHexHash (pcKeeper P) (drop 4 voucherDenom) of
       None \<Rightarrow> Inl (PrecText ''invalid denom hash'')
     | Some hash \<Rightarrow> (case pcGetDenom P r hash of None \<Rightarrow> Inl ErrDenomNotFound | Some d \<Rightarrow> Inr d))"

definition getBaseDenomFromIBCVoucher :: "'c erc20_precompile \<Rightarrow> 'c \<Rightarrow> string \<Rightarrow> prec_error + string" where
  "getBaseDenomFromIBCVoucher P r voucherDenom =
    (case ibc_GetDenom P r voucherDenom of
       Inl e \<Rightarrow> Inl e
     | Inr d \<Rightarrow> if length (id_Base d) < 3 then Inl (PrecText ''invalid base denomination'') else Inr (id_Base d))"

definition prec_Name :: "'c erc20_precompile \<Rightarrow> ('c, bytes) prec_go" where
  "prec_Name P = (\<lambda>c.
    case cb_GetDenomMetaData (pcBank P) (ercRest (pcErc c)) (tp_Denom (pcPair P)) of
      Some metadata \<Rightarrow> orText (pcPackOutput P (AbiString (md_Name metadata))) c
    | None \<Rightarrow>
       (case getBaseDenomFromIBCVoucher P (ercRest (pcErc c)) (tp_Denom (pcPair P)) of
          Inl e \<Rightarrow> (Err (ConvertErrToERC20Error P e), c)
        | Inr baseDenom \<Rightarrow> orText (pcPackOutput P (AbiString (upperChar (baseDenom ! 1) # drop 2 baseDenom))) c))"

definition prec_Symbol :: "'c erc20_precompile \<Rightarrow> ('c, bytes) prec_go" where
  "prec_Symbol P = (\<lambda>c.
    case cb_GetDenomMetaData (pcBank P) (ercRest (pcErc c)) (tp_Denom (pcPair P)) of
      Some metadata \<Rightarrow> orText (pcPackOutput P (AbiString (md_Symbol metadata))) c
    | None \<Rightarrow>
       (case getBaseDenomFromIBCVoucher P (ercRest (pcErc c)) (tp_Denom (pcPair P)) of
          Inl e \<Rightarrow> (Err (ConvertErrToERC20Error P e), c)
        | Inr baseDenom \<Rightarrow> orText (pcPackOutput P (AbiString (map upperChar (drop 1 baseDenom)))) c))"

text \<open>The last part of a display path, and the last unit that it names.\<close>

definition lastPart :: "string \<Rightarrow> string" where
  "lastPart s = rev (takeWhile (\<lambda>ch. ch \<noteq> CHR ''/'') (rev s))"

definition displayUnit :: "Metadata \<Rightarrow> DenomUnit option" where
  "displayUnit metadata =
    (let name = (if take 4 (md_Base metadata) = ''ibc/'' then lastPart (md_Display metadata) else md_Display metadata)
     in find (\<lambda>u. du_Denom u = name) (rev (md_DenomUnits metadata)))"

definition prec_Decimals :: "'c erc20_precompile \<Rightarrow> ('c, bytes) prec_go" where
  "prec_Decimals P = (\<lambda>c.
    case cb_GetDenomMetaData (pcBank P) (ercRest (pcErc c)) (tp_Denom (pcPair P)) of
      None \<Rightarrow>
       (case ibc_GetDenom P (ercRest (pcErc c)) (tp_Denom (pcPair P)) of
          Inl e \<Rightarrow> (Err (ConvertErrToERC20Error P e), c)
        | Inr d \<Rightarrow>
           (case DeriveDecimalsFromDenom (id_Base d) of
              Inl e \<Rightarrow> (Err (ConvertErrToERC20Error P (PrecText e)), c)
            | Inr decimals \<Rightarrow> orText (pcPackOutput P (AbiUint8 decimals)) c))
    | Some metadata \<Rightarrow>
       (case displayUnit metadata of
          None \<Rightarrow> (Err (ConvertErrToERC20Error P (PrecText ''display denomination not found for denom'')), c)
        | Some u \<Rightarrow>
           if du_Exponent u > 255 then (Err (ConvertErrToERC20Error P (PrecText ''uint8 overflow: invalid decimals'')), c)
           else orText (pcPackOutput P (AbiUint8 (ucast (du_Exponent u)))) c))"

definition prec_TotalSupply :: "'c erc20_precompile \<Rightarrow> ('c, bytes) prec_go" where
  "prec_TotalSupply P = (\<lambda>c. orText (pcPackOutput P (AbiUint (cb_GetSupply (pcBank P) (ercRest (pcErc c)) (tp_Denom (pcPair P))))) c)"

definition prec_BalanceOf :: "'c erc20_precompile \<Rightarrow> abi_value list \<Rightarrow> ('c, bytes) prec_go" where
  "prec_BalanceOf P args =
    go_bind (orText (ParseBalanceOfArgs args)) (\<lambda>acct c.
      orText (pcPackOutput P (AbiUint (cb_SpendableCoin (pcBank P) (ercRest (pcErc c)) (AddressBytes acct) (tp_Denom (pcPair P))))) c)"

definition prec_Allowance :: "'c erc20_precompile \<Rightarrow> abi_value list \<Rightarrow> ('c, bytes) prec_go" where
  "prec_Allowance P args =
    go_bind (orText (ParseAllowanceArgs args)) (\<lambda>(owner, spender) c.
      orText (pcPackOutput P (AbiUint (GetAllowance (ercStore (pcErc c)) (prec_Address P) owner spender))) c)"

section \<open>Dispatch\<close>

definition prec_IsTransaction :: "string \<Rightarrow> bool" where
  "prec_IsTransaction meth \<longleftrightarrow> meth \<in> {''transfer'', ''transferFrom'', ''approve''}"

definition prec_RequiredGas :: "(bytes \<Rightarrow> string option) \<Rightarrow> bytes \<Rightarrow> u64" where
  "prec_RequiredGas methodById input =
    (if length input < 4 then 0
     else case methodById (take 4 input) of
       None \<Rightarrow> 0
     | Some meth \<Rightarrow>
        if meth = ''transfer'' then 9000 else if meth = ''transferFrom'' then 30500 else if meth = ''approve'' then 8100
        else if meth = ''name'' then 3421 else if meth = ''symbol'' then 3464 else if meth = ''decimals'' then 427
        else if meth = ''totalSupply'' then 2480 else if meth = ''balanceOf'' then 2870 else if meth = ''allowance'' then 3225
        else 0)"

definition HandleMethod :: "'c erc20_precompile \<Rightarrow> Address \<Rightarrow> string \<Rightarrow> abi_value list \<Rightarrow> ('c, bytes) prec_go" where
  "HandleMethod P caller meth args =
    (if meth = ''transfer'' then prec_Transfer P caller meth args
     else if meth = ''transferFrom'' then prec_TransferFrom P caller meth args
     else if meth = ''approve'' then prec_Approve P caller args
     else if meth = ''name'' then prec_Name P
     else if meth = ''symbol'' then prec_Symbol P
     else if meth = ''decimals'' then prec_Decimals P
     else if meth = ''totalSupply'' then prec_TotalSupply P
     else if meth = ''balanceOf'' then prec_BalanceOf P args
     else if meth = ''allowance'' then prec_Allowance P args
     else go_err (PrecText ''unknown method''))"

section \<open>The wrapped coin\<close>

text \<open>
  \<open>precompiles/werc20/{werc20,tx,events}.go\<close>: a deposit sends the value of the call back to the caller; a withdrawal
  only reports.  The ABI type of the method is \<open>fallback\<close>, \<open>receive\<close> or a function.
\<close>

datatype abi_type = AbiFunction | AbiFallback | AbiReceive

record werc20_events =
  we_DepositID :: Hash
  we_WithdrawalID :: Hash

definition createWERC20Event :: "'c erc20_precompile \<Rightarrow> Hash \<Rightarrow> Address \<Rightarrow> int \<Rightarrow> ('c, unit) prec_go" where
  "createWERC20Event P evId addr amount =
    go_bind (orText (pcPackUint P amount)) (\<lambda>packed. precAddLog P [evId, MakeTopic addr] packed)"

definition Deposit :: "'c erc20_precompile \<Rightarrow> werc20_events \<Rightarrow> EvmCoinInfo \<Rightarrow> (coin \<Rightarrow> coins) \<Rightarrow> Address \<Rightarrow> u256 \<Rightarrow> ('c, bytes) prec_go" where
  "Deposit P W info newCoins caller depositedAmount =
    go_seq (go_convErr PrecSdk (onPrecBank (cb_SendCoins (pcBank P) (AddressBytes (prec_Address P)) (AddressBytes caller)
        (newCoins (NewCoin (eci_ExtendedDenom info) (uint depositedAmount))))))
      (go_seq (createWERC20Event P (we_DepositID W) caller (uint depositedAmount)) (go_return []))"

definition Withdraw :: "'c erc20_precompile \<Rightarrow> werc20_events \<Rightarrow> EvmCoinInfo \<Rightarrow> Address \<Rightarrow> abi_value list \<Rightarrow> ('c, bytes) prec_go" where
  "Withdraw P W info caller args =
    (case args of
       [] \<Rightarrow> go_panic ''index out of range''
     | AbiUint amount # _ \<Rightarrow>
        if 2 ^ 256 \<le> \<bar>amount\<bar> then go_panic ''NewIntFromBigInt() out of bound''
        else go_bind (go_gets (\<lambda>c. cb_SpendableCoin (pcBank P) (ercRest (pcErc c)) (AddressBytes caller) (eci_Denom info))) (\<lambda>nativeBalance.
          if nativeBalance * coinFactor info < amount then go_err (PrecText ''account balance is lower than withdraw balance'')
          else go_seq (createWERC20Event P (we_WithdrawalID W) caller amount) (go_return []))
     | _ \<Rightarrow> go_err (PrecText ''invalid argument type''))"

definition werc20_IsTransaction :: "string \<Rightarrow> abi_type \<Rightarrow> bool" where
  "werc20_IsTransaction meth ty \<longleftrightarrow> meth \<in> {''deposit'', ''withdraw''} \<or> ty \<in> {AbiFallback, AbiReceive} \<or> prec_IsTransaction meth"

definition werc20_method ::
    "'c erc20_precompile \<Rightarrow> werc20_events \<Rightarrow> EvmCoinInfo \<Rightarrow> (coin \<Rightarrow> coins) \<Rightarrow> Address \<Rightarrow> u256 \<Rightarrow> string \<Rightarrow> abi_type \<Rightarrow> abi_value list \<Rightarrow> ('c, bytes) prec_go" where
  "werc20_method P W info newCoins caller callValue meth ty args =
    (if ty = AbiFallback \<or> ty = AbiReceive \<or> meth = ''deposit'' then Deposit P W info newCoins caller callValue
     else if meth = ''withdraw'' then Withdraw P W info caller args
     else HandleMethod P caller meth args)"

end
