(* ===== verification/Erc20Token.thy ===== *)
theory Erc20Token
  imports Erc20Precompile
begin

text \<open>
  The ERC-20 precompile refines an abstract token.  The locale \<open>coin_ledger\<close> is what the precompile needs of
  the bank: messages that move a coin in a ledger.  x/precisebank provides it for every coin of the bank and
  for the extended coin.
\<close>

section \<open>The abstract token\<close>

text \<open>\<open>tFree\<close> is the part of a balance that may be spent, which is what \<open>balanceOf\<close> reports.\<close>

record erc20_token =
  tBal :: "Address \<Rightarrow> int"
  tFree :: "Address \<Rightarrow> int"
  tAllow :: "Address \<Rightarrow> Address \<Rightarrow> int"
  tSupply :: int

datatype token_call = TokTransfer Address int | TokTransferFrom Address Address int | TokApprove Address int

definition allowUpd :: "Address \<Rightarrow> Address \<Rightarrow> int \<Rightarrow> (Address \<Rightarrow> Address \<Rightarrow> int) \<Rightarrow> Address \<Rightarrow> Address \<Rightarrow> int" where
  "allowUpd own sp v A = A(own := (A own)(sp := v))"

definition tokMoved :: "Address \<Rightarrow> Address \<Rightarrow> int \<Rightarrow> erc20_token \<Rightarrow> erc20_token \<Rightarrow> bool" where
  "tokMoved f t n T T' \<longleftrightarrow> tBal T' = tokenMove f t n (tBal T) \<and>
     (\<forall>a. a \<noteq> t \<longrightarrow> tFree T' a = tFree T a - (if a = f then n else 0)) \<and> tSupply T' = tSupply T"

text \<open>\<open>admits\<close> tells who may receive an amount, \<open>live\<close> whether conversion of the pair is enabled.\<close>

fun tok_enabled :: "(Address \<Rightarrow> int \<Rightarrow> bool) \<Rightarrow> bool \<Rightarrow> Address \<Rightarrow> token_call \<Rightarrow> erc20_token \<Rightarrow> bool" where
  "tok_enabled admits live s (TokTransfer t n) T \<longleftrightarrow> 0 < n \<and> n \<le> tFree T s \<and> admits t n"
| "tok_enabled admits live s (TokTransferFrom f t n) T \<longleftrightarrow>
     0 < n \<and> n \<le> tFree T f \<and> admits t n \<and> n \<le> tAllow T f s \<and> live \<and> f \<noteq> 0 \<and> s \<noteq> 0"
| "tok_enabled admits live s (TokApprove sp n) T \<longleftrightarrow> (n = 0 \<and> tAllow T s sp = 0) \<or> (live \<and> s \<noteq> 0 \<and> sp \<noteq> 0)"

fun tok_step :: "Address \<Rightarrow> token_call \<Rightarrow> erc20_token \<Rightarrow> erc20_token \<Rightarrow> bool" where
  "tok_step s (TokTransfer t n) T T' \<longleftrightarrow> tokMoved s t n T T' \<and> tAllow T' = tAllow T"
| "tok_step s (TokTransferFrom f t n) T T' \<longleftrightarrow> tokMoved f t n T T' \<and> tAllow T' = allowUpd f s (tAllow T f s - n) (tAllow T)"
| "tok_step s (TokApprove sp n) T T' \<longleftrightarrow> T' = T\<lparr>tAllow := allowUpd s sp n (tAllow T)\<rparr>"

fun callMethod :: "token_call \<Rightarrow> string" where
  "callMethod (TokTransfer _ _) = ''transfer''"
| "callMethod (TokTransferFrom _ _ _) = ''transferFrom''"
| "callMethod (TokApprove _ _) = ''approve''"

fun callArgs :: "token_call \<Rightarrow> abi_value list" where
  "callArgs (TokTransfer t n) = [AbiAddress t, AbiUint n]"
| "callArgs (TokTransferFrom f t n) = [AbiAddress f, AbiAddress t, AbiUint n]"
| "callArgs (TokApprove sp n) = [AbiAddress sp, AbiUint n]"

fun callAmount :: "token_call \<Rightarrow> int" where
  "callAmount (TokTransfer _ n) = n"
| "callAmount (TokTransferFrom _ _ n) = n"
| "callAmount (TokApprove _ n) = n"

fun callParties :: "Address \<Rightarrow> token_call \<Rightarrow> (Address \<times> Address) set" where
  "callParties s (TokTransfer t _) = {(s, t)}"
| "callParties s (TokTransferFrom f t _) = {(f, t)}"
| "callParties s (TokApprove _ _) = {}"

section \<open>Allowances\<close>

definition pairLive :: "'c erc20_precompile \<Rightarrow> erc20_store \<Rightarrow> bool" where
  "pairLive P s \<longleftrightarrow> (case GetTokenPair s (GetERC20Map s (prec_Address P)) of None \<Rightarrow> False | Some tp \<Rightarrow> tp_Enabled tp)"

lemma setAllowance_run:
  assumes "0 \<le> v" "v < 2 ^ 256"
  shows "if pairLive P s \<and> own \<noteq> 0 \<and> sp \<noteq> 0
    then \<exists>s'. setAllowance K (prec_Address P) own sp (Some v) False s = Inr s' \<and> pairLive P s' = pairLive P s \<and>
      (\<forall>e o' sp'. GetAllowance s' e o' sp' = (if e = prec_Address P \<and> o' = own \<and> sp' = sp then v else GetAllowance s e o' sp'))
    else \<exists>e. setAllowance K (prec_Address P) own sp (Some v) False s = Inl e"
  using assms
  by (auto simp: setAllowance_def pairLive_def GetAllowance_def NewAllowance_def GetTokenPair_def GetERC20Map_def split: option.splits if_splits)

lemma GetAllowance_range:
  assumes "erc20_wf K s"
  shows "0 \<le> GetAllowance s e own sp" "GetAllowance s e own sp < 2 ^ 256"
proof -
  have "0 \<le> GetAllowance s e own sp \<and> GetAllowance s e own sp < 2 ^ 256"
  proof (cases "fmlookup (allowanceStore s) (AllowanceKey e own sp)")
    case (Some a)
    then obtain e' o' sp' v where "a = NewAllowance K e' o' sp' v" "0 < v" "v < 2 ^ 256"
      using assms unfolding erc20_wf_def allowances_wf_def by blast
    then show ?thesis using Some by (simp add: GetAllowance_def NewAllowance_def)
  qed (simp add: GetAllowance_def)
  then show "0 \<le> GetAllowance s e own sp" "GetAllowance s e own sp < 2 ^ 256" by simp_all
qed

abbreviation setErcStore :: "erc20_store \<Rightarrow> 'c prec_ctx \<Rightarrow> 'c prec_ctx" where
  "setErcStore s c \<equiv> c\<lparr>pcErc := (pcErc c)\<lparr>ercStore := s\<rparr>\<rparr>"

abbreviation allowOf :: "'c erc20_precompile \<Rightarrow> 'c prec_ctx \<Rightarrow> Address \<Rightarrow> Address \<Rightarrow> int" where
  "allowOf P c \<equiv> GetAllowance (ercStore (pcErc c)) (prec_Address P)"

lemma storeAllowance_run:
  assumes "0 \<le> v" "v < 2 ^ 256" "erc20_wf (pcKeeper P) (ercStore (pcErc c))" "\<And>s. f s = setAllowance (pcKeeper P) (prec_Address P) own sp (Some v) False s"
  shows "if pairLive P (ercStore (pcErc c)) \<and> own \<noteq> 0 \<and> sp \<noteq> 0
    then \<exists>s'. onErcStore f c = (Ret (), setErcStore s' c) \<and> pairLive P s' = pairLive P (ercStore (pcErc c)) \<and>
      erc20_wf (pcKeeper P) s' \<and> GetAllowance s' (prec_Address P) = allowUpd own sp v (allowOf P c)
    else \<exists>e. onErcStore f c = (Err e, c)"
proof (cases "pairLive P (ercStore (pcErc c)) \<and> own \<noteq> 0 \<and> sp \<noteq> 0")
  case True
  then obtain s' where s': "f (ercStore (pcErc c)) = Inr s'" "pairLive P s' = pairLive P (ercStore (pcErc c))"
      "\<forall>e o' sp'. GetAllowance s' e o' sp' = (if e = prec_Address P \<and> o' = own \<and> sp' = sp then v else GetAllowance (ercStore (pcErc c)) e o' sp')"
    using setAllowance_run [OF assms(1,2), of P "ercStore (pcErc c)" own sp "pcKeeper P", unfolded if_P [OF True]] unfolding assms(4) by blast
  moreover have "GetAllowance s' (prec_Address P) = allowUpd own sp v (allowOf P c)"
    unfolding allowUpd_def using s'(3) by (intro ext) simp
  moreover have "erc20_wf (pcKeeper P) s'" using erc20_wf_setAllowance [OF assms(3)] s'(1) unfolding assms(4) by blast
  ultimately show ?thesis using True by (auto simp: onErcStore_def)
next
  case False
  then obtain e where "f (ercStore (pcErc c)) = Inl e"
    using setAllowance_run [OF assms(1,2), of P "ercStore (pcErc c)" own sp "pcKeeper P"] unfolding assms(4) by (auto split: if_splits)
  then show ?thesis using False by (auto simp: onErcStore_def)
qed

lemma spendAllowance_run:
  assumes "0 < n" "erc20_wf (pcKeeper P) (ercStore (pcErc c))"
  shows "if n \<le> allowOf P c f sp \<and> pairLive P (ercStore (pcErc c)) \<and> f \<noteq> 0 \<and> sp \<noteq> 0
    then \<exists>s'. spendAllowance P f sp n c = (Ret (), setErcStore s' c) \<and> pairLive P s' = pairLive P (ercStore (pcErc c)) \<and>
      erc20_wf (pcKeeper P) s' \<and> GetAllowance s' (prec_Address P) = allowUpd f sp (allowOf P c f sp - n) (allowOf P c)
    else \<exists>e. spendAllowance P f sp n c = (Err e, c)"
proof -
  let ?v = "allowOf P c f sp - n"
  let ?g = "if ?v = 0 then DeleteAllowance (pcKeeper P) (prec_Address P) f sp else SetAllowance (pcKeeper P) (prec_Address P) f sp (Some ?v)"
  have run: "spendAllowance P f sp n c =
      (if ?v < 0 then (Err ErrInsufficientAllowance, c) else go_convErr (\<lambda>e. ConvertErrToERC20Error P (PrecErc e)) (onErcStore ?g) c)"
    by (simp add: spendAllowance_def Let_def)
  have g: "?g s = setAllowance (pcKeeper P) (prec_Address P) f sp (Some ?v) False s" for s
    by (simp add: DeleteAllowance_def SetAllowance_def)
  show ?thesis
  proof (cases "?v < 0")
    case False
    then have "0 \<le> ?v" "?v < 2 ^ 256" using GetAllowance_range(2) [OF assms(2), of "prec_Address P" f sp] assms(1) by linarith+
    from storeAllowance_run [OF this assms(2) g] False show ?thesis
      unfolding run by (auto simp: go_convErr_def split: if_splits)
  qed (simp add: run)
qed

section \<open>The bank behind a token\<close>

definition tokLog :: "'c erc20_precompile \<Rightarrow> Hash list \<Rightarrow> bytes \<Rightarrow> Log" where
  "tokLog P topics packed = \<lparr>log_Address = prec_Address P, log_Topics = topics, log_Data = packed,
     log_BlockNumber = word_of_int (pcBlockHeight P), log_TxHash = 0, log_BlockHash = 0, log_TxIndex = 0, log_Index = 0\<rparr>"

lemma precAddLog_tok: "precAddLog P topics packed c = (Ret (), c\<lparr>pcLogs := pcLogs c @ [tokLog P topics packed]\<rparr>)"
  by (simp add: precAddLog_def tokLog_def)

text \<open>Coins of one positive amount are valid; amounts below 2^256 and the result of a method can be packed.\<close>

definition prec_codec :: "'c erc20_precompile \<Rightarrow> bool" where
  "prec_codec P \<longleftrightarrow> (\<forall>n. pcValidate P [NewCoin (tp_Denom (pcPair P)) n] \<longleftrightarrow> 0 < n) \<and>
     (\<forall>v. 0 \<le> v \<longrightarrow> v < 2 ^ 256 \<longrightarrow> (\<exists>bz. pcPackUint P v = Inr bz)) \<and> (\<exists>bz. pcPackOutput P (AbiBool True) = Inr bz)"

text \<open>The message server moves coins of the pair by \<open>send\<close>.\<close>

definition sends_by :: "'c erc20_precompile \<Rightarrow> (AccAddress \<Rightarrow> AccAddress \<Rightarrow> int \<Rightarrow> ('c, sdk_error, unit) go) \<Rightarrow> bool" where
  "sends_by P send \<longleftrightarrow> (\<exists>srv. (cb_Server (pcBank P) = BaseKeeperServer srv \<or> cb_Server (pcBank P) = PreciseBankServer srv) \<and>
     (\<forall>f t n. srv \<lparr>FromAddress = pcAccString P (AddressBytes f), ToAddress = pcAccString P (AddressBytes t), MsgAmount = [NewCoin (tp_Denom (pcPair P)) n]\<rparr> =
        send (AddressBytes f) (AddressBytes t) n))"

lemma sends_by_run:
  assumes "sends_by P send"
  defines "M f t n \<equiv> \<lparr>FromAddress = pcAccString P (AddressBytes f), ToAddress = pcAccString P (AddressBytes t), MsgAmount = [NewCoin (tp_Denom (pcPair P)) n]\<rparr>"
  shows "send (AddressBytes f) (AddressBytes t) n (ercRest (pcErc c)) = (Ret (), r') \<Longrightarrow>
      MsgServer_Send P (M f t n) c = (Ret (), c\<lparr>pcErc := (pcErc c)\<lparr>ercRest := r'\<rparr>\<rparr>)"
    and "send (AddressBytes f) (AddressBytes t) n (ercRest (pcErc c)) = (Err e, r') \<Longrightarrow>
      \<exists>e'. MsgServer_Send P (M f t n) c = (Err e', c\<lparr>pcErc := (pcErc c)\<lparr>ercRest := r'\<rparr>\<rparr>)"
  using assms by (auto simp: sends_by_def MsgServer_Send_def onPrecBank_def go_convErr_def go_zoom_def)

lemma MsgServer_Send_keeps: "MsgServer_Send P m c = (Ret (), c') \<Longrightarrow> ercStore (pcErc c') = ercStore (pcErc c) \<and> pcLogs c' = pcLogs c"
  by (auto simp: MsgServer_Send_def onPrecBank_def go_zoom_iff split: bank_server.splits)

text \<open>A transfer by a spender that succeeds, over any bank.\<close>

lemma transferFrom_Ret:
  assumes "prec_codec P" "erc20_wf (pcKeeper P) (ercStore (pcErc c))" "prec_transfer P s ''transferFrom'' f t n c = (Ret out, c')"
  shows "\<exists>bz bz0. pcPackUint P n = Inr bz \<and> pcPackUint P 0 = Inr bz0 \<and> allowOf P c' f s = allowOf P c f s - n \<and>
    pcLogs c' = pcLogs c @ [tokLog P [pcTransferID P, MakeTopic f, MakeTopic t] bz, tokLog P [pcApprovalID P, MakeTopic f, MakeTopic s] bz0]"
proof -
  let ?M = "\<lparr>FromAddress = pcAccString P (AddressBytes f), ToAddress = pcAccString P (AddressBytes t), MsgAmount = [NewCoin (tp_Denom (pcPair P)) n]\<rparr>"
  have n: "0 < n" using assms(1,3) by (auto simp: prec_transfer_def Let_def prec_codec_def split: if_splits)
  obtain c1 c2 c3 c4 where run: "spendAllowance P f s n c = (Ret (), c1)" "MsgServer_Send P ?M c1 = (Ret (), c2)"
      "EmitTransferEvent P f t n c2 = (Ret (), c3)" "EmitApprovalEvent P f s 0 c3 = (Ret (), c4)" "c' = c4"
    using assms(3) by (auto simp: prec_transfer_def Let_def orText_def go_inv go_when_def split: if_splits sum.splits)
  from spendAllowance_run [OF n assms(2), of f s] run(1) obtain st where st: "c1 = setErcStore st c"
      "GetAllowance st (prec_Address P) = allowUpd f s (allowOf P c f s - n) (allowOf P c)"
    by (auto split: if_splits)
  have c2: "allowOf P c2 f s = allowOf P c f s - n" "pcLogs c2 = pcLogs c"
    using MsgServer_Send_keeps [OF run(2)] st by (simp_all add: allowUpd_def)
  show ?thesis
    using run(3-5) c2 by (auto simp: EmitTransferEvent_def EmitApprovalEvent_def orText_def precAddLog_tok split: sum.splits)
qed

definition tokAbs :: "('c \<Rightarrow> AccAddress \<Rightarrow> int) \<Rightarrow> ('c \<Rightarrow> AccAddress \<Rightarrow> int) \<Rightarrow> ('c \<Rightarrow> int) \<Rightarrow> 'c erc20_precompile \<Rightarrow> 'c prec_ctx \<Rightarrow> erc20_token" where
  "tokAbs B F S P c = \<lparr>tBal = (\<lambda>a. B (ercRest (pcErc c)) (AddressBytes a)), tFree = (\<lambda>a. F (ercRest (pcErc c)) (AddressBytes a)),
     tAllow = allowOf P c, tSupply = S (ercRest (pcErc c))\<rparr>"

lemma approve_run:
  assumes "prec_codec P" "erc20_wf (pcKeeper P) (ercStore (pcErc c))" "0 \<le> n" "n < 2 ^ 256"
  shows "if (n = 0 \<and> allowOf P c s sp = 0) \<or> (pairLive P (ercStore (pcErc c)) \<and> s \<noteq> 0 \<and> sp \<noteq> 0)
    then \<exists>out c'. prec_Approve P s [AbiAddress sp, AbiUint n] c = (Ret out, c') \<and> allowOf P c' = allowUpd s sp n (allowOf P c) \<and>
      ercRest (pcErc c') = ercRest (pcErc c) \<and> erc20_wf (pcKeeper P) (ercStore (pcErc c')) \<and> pairLive P (ercStore (pcErc c')) = pairLive P (ercStore (pcErc c))
    else \<exists>e c'. prec_Approve P s [AbiAddress sp, AbiUint n] c = (Err e, c')"
proof -
  obtain bz out where pack: "pcPackUint P n = Inr bz" "pcPackOutput P (AbiBool True) = Inr out"
    using assms(1,3,4) unfolding prec_codec_def by blast
  let ?a = "allowOf P c s sp"
  have a: "0 \<le> ?a" using GetAllowance_range(1) [OF assms(2)] .
  let ?g = "if n = 0 then DeleteAllowance (pcKeeper P) (prec_Address P) s sp else SetAllowance (pcKeeper P) (prec_Address P) s sp (Some n)"
  have run: "prec_Approve P s [AbiAddress sp, AbiUint n] c =
      go_seq (if ?a = 0 \<and> n = 0 then go_return () else go_convErr PrecErc (onErcStore ?g)) (go_seq (EmitApprovalEvent P s sp n) (orText (pcPackOutput P (AbiBool True)))) c"
    using a assms(3,4) by (auto simp: prec_Approve_def orText_def prec_setAllowance_def)
  have emit: "go_seq (EmitApprovalEvent P s sp n) (orText (pcPackOutput P (AbiBool True))) c1 =
      (Ret out, c1\<lparr>pcLogs := pcLogs c1 @ [tokLog P [pcApprovalID P, MakeTopic s, MakeTopic sp] bz]\<rparr>)" for c1
    using pack by (simp add: EmitApprovalEvent_def orText_def precAddLog_tok)
  show ?thesis
  proof (cases "?a = 0 \<and> n = 0")
    case True
    then have "allowUpd s sp n (allowOf P c) = allowOf P c" by (auto simp: allowUpd_def fun_eq_iff)
    moreover have "prec_Approve P s [AbiAddress sp, AbiUint n] c = (Ret out, c\<lparr>pcLogs := pcLogs c @ [tokLog P [pcApprovalID P, MakeTopic s, MakeTopic sp] bz]\<rparr>)"
      unfolding run using True emit [of c] by simp
    ultimately show ?thesis using True assms(2) by simp
  next
    case False
    have "?g st = setAllowance (pcKeeper P) (prec_Address P) s sp (Some n) False st" for st
      by (simp add: DeleteAllowance_def SetAllowance_def)
    note store = storeAllowance_run [OF assms(3,4,2) this]
    show ?thesis
    proof (cases "pairLive P (ercStore (pcErc c)) \<and> s \<noteq> 0 \<and> sp \<noteq> 0")
      case True
      then obtain s' where "onErcStore ?g c = (Ret (), setErcStore s' c)" "pairLive P s' = pairLive P (ercStore (pcErc c))"
          "erc20_wf (pcKeeper P) s'" "GetAllowance s' (prec_Address P) = allowUpd s sp n (allowOf P c)"
        using store by (auto split: if_splits)
      moreover from this(1) have "prec_Approve P s [AbiAddress sp, AbiUint n] c =
          (Ret out, (setErcStore s' c)\<lparr>pcLogs := pcLogs c @ [tokLog P [pcApprovalID P, MakeTopic s, MakeTopic sp] bz]\<rparr>)"
        unfolding run if_not_P [OF False] using emit [of "setErcStore s' c"] by (simp add: go_convErr_def)
      ultimately show ?thesis using True by simp
    next
      case no: False
      then obtain e where "onErcStore ?g c = (Err e, c)" using store by (auto split: if_splits)
      then have "prec_Approve P s [AbiAddress sp, AbiUint n] c = (Err (PrecErc e), c)"
        unfolding run if_not_P [OF False] by (simp add: go_convErr_def)
      then show ?thesis using no False by auto
    qed
  qed
qed

locale coin_ledger =
  fixes good :: "'w \<Rightarrow> bool" and inv :: "'w \<Rightarrow> 'c \<Rightarrow> bool"
    and send :: "'w \<Rightarrow> AccAddress \<Rightarrow> AccAddress \<Rightarrow> int \<Rightarrow> ('c, sdk_error, unit) go"
    and held :: "'w \<Rightarrow> 'c \<Rightarrow> AccAddress \<Rightarrow> int" and free :: "'w \<Rightarrow> 'c \<Rightarrow> AccAddress \<Rightarrow> int" and total :: "'w \<Rightarrow> 'c \<Rightarrow> int"
    and admits :: "'w \<Rightarrow> 'c \<Rightarrow> AccAddress \<Rightarrow> int \<Rightarrow> bool" and party :: "'w \<Rightarrow> AccAddress \<Rightarrow> AccAddress \<Rightarrow> bool"
  assumes paid: "good W \<Longrightarrow> inv W r \<Longrightarrow> party W f t \<Longrightarrow> 0 < n \<Longrightarrow> n \<le> free W r f \<Longrightarrow> admits W r t n \<Longrightarrow>
      \<exists>r'. send W f t n r = (Ret (), r') \<and> inv W r' \<and> held W r' = ledgerTransfer f t n (held W r) \<and>
        (\<forall>a. a \<noteq> t \<longrightarrow> free W r' a = free W r a - (if a = f then n else 0)) \<and> total W r' = total W r"
    and refused: "good W \<Longrightarrow> inv W r \<Longrightarrow> party W f t \<Longrightarrow> 0 < n \<Longrightarrow> \<not> (n \<le> free W r f \<and> admits W r t n) \<Longrightarrow>
      \<exists>e r'. send W f t n r = (Err e, r')"
begin

text \<open>A method that moves tokens: the outcome, the token, and the logs.\<close>

lemma transfer_run:
  assumes "good W" "inv W (ercRest (pcErc c))" "prec_codec P" "sends_by P (send W)" "erc20_wf (pcKeeper P) (ercStore (pcErc c))"
    and "0 \<le> n" "n < 2 ^ 256" "party W (AddressBytes f) (AddressBytes t)"
  shows "if 0 < n \<and> n \<le> free W (ercRest (pcErc c)) (AddressBytes f) \<and> admits W (ercRest (pcErc c)) (AddressBytes t) n \<and>
      (meth = ''transferFrom'' \<longrightarrow> n \<le> allowOf P c f s \<and> pairLive P (ercStore (pcErc c)) \<and> f \<noteq> 0 \<and> s \<noteq> 0)
    then \<exists>out bz bz0 c'. prec_transfer P s meth f t n c = (Ret out, c') \<and>
      tokMoved f t n (tokAbs (held W) (free W) (total W) P c) (tokAbs (held W) (free W) (total W) P c') \<and>
      allowOf P c' = (if meth = ''transferFrom'' then allowUpd f s (allowOf P c f s - n) (allowOf P c) else allowOf P c) \<and>
      inv W (ercRest (pcErc c')) \<and> erc20_wf (pcKeeper P) (ercStore (pcErc c')) \<and> pairLive P (ercStore (pcErc c')) = pairLive P (ercStore (pcErc c)) \<and>
      pcPackUint P n = Inr bz \<and> pcPackUint P 0 = Inr bz0 \<and>
      pcLogs c' = pcLogs c @ tokLog P [pcTransferID P, MakeTopic f, MakeTopic t] bz #
        (if meth = ''transferFrom'' then [tokLog P [pcApprovalID P, MakeTopic f, MakeTopic s] bz0] else [])
    else \<exists>e c'. prec_transfer P s meth f t n c = (Err e, c')"
proof (cases "0 < n")
  case False
  then have "\<not> pcValidate P [NewCoin (tp_Denom (pcPair P)) n]" using assms(3) by (simp add: prec_codec_def)
  then show ?thesis using False assms(6,7) by (simp add: prec_transfer_def Let_def)
next
  case True
  let ?r = "ercRest (pcErc c)" and ?M = "\<lparr>FromAddress = pcAccString P (AddressBytes f), ToAddress = pcAccString P (AddressBytes t), MsgAmount = [NewCoin (tp_Denom (pcPair P)) n]\<rparr>"
  let ?allowed = "meth = ''transferFrom'' \<longrightarrow> n \<le> allowOf P c f s \<and> pairLive P (ercStore (pcErc c)) \<and> f \<noteq> 0 \<and> s \<noteq> 0"
  let ?paid = "n \<le> free W ?r (AddressBytes f) \<and> admits W ?r (AddressBytes t) n"
  let ?m1 = "go_when (meth = ''transferFrom'') (spendAllowance P f s n)"
  let ?m2 = "go_convErr (ConvertErrToERC20Error P) (MsgServer_Send P ?M)"
  obtain bz bz0 out where pack: "pcPackUint P n = Inr bz" "pcPackUint P 0 = Inr bz0" "pcPackOutput P (AbiBool True) = Inr out"
    using assms(3,6,7) unfolding prec_codec_def by (metis zero_less_numeral zero_less_power order_refl)
  have run: "prec_transfer P s meth f t n c = go_seq ?m1 (go_seq ?m2 (go_seq (EmitTransferEvent P f t n)
      (go_seq (go_when (meth = ''transferFrom'') (EmitApprovalEvent P f s 0)) (orText (pcPackOutput P (AbiBool True)))))) c"
    using True assms(3,7) by (simp add: prec_transfer_def Let_def prec_codec_def)
  show ?thesis
  proof (cases ?allowed)
    case False
    then have "meth = ''transferFrom''" "\<not> (n \<le> allowOf P c f s \<and> pairLive P (ercStore (pcErc c)) \<and> f \<noteq> 0 \<and> s \<noteq> 0)" by auto
    then obtain e where "?m1 c = (Err e, c)"
      using spendAllowance_run [OF True assms(5), of f s] by (auto split: if_splits)
    then have "prec_transfer P s meth f t n c = (Err e, c)" unfolding run by (simp del: go_when_app)
    then show ?thesis using False by auto
  next
    case allowed: True
    obtain st where st: "?m1 c = (Ret (), setErcStore st c)" "pairLive P st = pairLive P (ercStore (pcErc c))" "erc20_wf (pcKeeper P) st"
        "GetAllowance st (prec_Address P) = (if meth = ''transferFrom'' then allowUpd f s (allowOf P c f s - n) (allowOf P c) else allowOf P c)"
    proof (cases "meth = ''transferFrom''")
      case tf: True
      then have "n \<le> allowOf P c f s \<and> pairLive P (ercStore (pcErc c)) \<and> f \<noteq> 0 \<and> s \<noteq> 0" using allowed by simp
      from spendAllowance_run [OF True assms(5), of f s, unfolded if_P [OF this]] that tf show thesis by auto
    next
      case False
      then show thesis using that [of "ercStore (pcErc c)"] assms(5) by simp
    qed
    show ?thesis
    proof (cases ?paid)
      case False
      obtain e r' where "send W (AddressBytes f) (AddressBytes t) n ?r = (Err e, r')"
        using refused [OF assms(1,2,8) True False] by blast
      then obtain e' c' where "?m2 (setErcStore st c) = (Err e', c')"
        using sends_by_run(2) [OF assms(4), of f t n "setErcStore st c"] by (fastforce simp: go_convErr_def)
      then have "prec_transfer P s meth f t n c = (Err e', c')" unfolding run using st(1) by (simp del: go_when_app)
      then show ?thesis using False by auto
    next
      case paid': True
      obtain r' where r': "send W (AddressBytes f) (AddressBytes t) n ?r = (Ret (), r')" "inv W r'"
          "held W r' = ledgerTransfer (AddressBytes f) (AddressBytes t) n (held W ?r)"
          "\<forall>a. a \<noteq> AddressBytes t \<longrightarrow> free W r' a = free W ?r a - (if a = AddressBytes f then n else 0)" "total W r' = total W ?r"
        using paid [OF assms(1,2,8) True] paid' by blast
      let ?c1 = "setErcStore st c" and ?c2 = "c\<lparr>pcErc := (pcErc c)\<lparr>ercStore := st, ercRest := r'\<rparr>\<rparr>"
      let ?logs = "tokLog P [pcTransferID P, MakeTopic f, MakeTopic t] bz #
        (if meth = ''transferFrom'' then [tokLog P [pcApprovalID P, MakeTopic f, MakeTopic s] bz0] else [])"
      have "?m2 ?c1 = (Ret (), ?c2)"
        using sends_by_run(1) [OF assms(4), of f t n ?c1 r'] r'(1) by simp
      then have "prec_transfer P s meth f t n c = (Ret out, ?c2\<lparr>pcLogs := pcLogs c @ ?logs\<rparr>)"
        unfolding run using st(1) pack
        by (simp add: EmitTransferEvent_def EmitApprovalEvent_def orText_def precAddLog_tok go_when_def del: go_when_app)
      moreover have "tokMoved f t n (tokAbs (held W) (free W) (total W) P c) (tokAbs (held W) (free W) (total W) P (?c2\<lparr>pcLogs := pcLogs c @ ?logs\<rparr>))"
        using r'(3-5) by (simp add: tokMoved_def tokAbs_def tokenMove_def ledgerTransfer_def)
      ultimately show ?thesis using True paid' allowed st(2-4) r'(2) pack by auto
    qed
  qed
qed

text \<open>Every transaction of the precompile is a step of the token, taken exactly when the token allows it.\<close>

lemma call_run:
  assumes "good W" "inv W (ercRest (pcErc c))" "prec_codec P" "sends_by P (send W)" "erc20_wf (pcKeeper P) (ercStore (pcErc c))"
    and "0 \<le> callAmount call" "callAmount call < 2 ^ 256" "\<forall>(f, t)\<in>callParties s call. party W (AddressBytes f) (AddressBytes t)"
  shows "if tok_enabled (\<lambda>t. admits W (ercRest (pcErc c)) (AddressBytes t)) (pairLive P (ercStore (pcErc c))) s call (tokAbs (held W) (free W) (total W) P c)
    then \<exists>out c'. HandleMethod P s (callMethod call) (callArgs call) c = (Ret out, c') \<and>
      tok_step s call (tokAbs (held W) (free W) (total W) P c) (tokAbs (held W) (free W) (total W) P c') \<and>
      inv W (ercRest (pcErc c')) \<and> erc20_wf (pcKeeper P) (ercStore (pcErc c'))
    else \<exists>e c'. HandleMethod P s (callMethod call) (callArgs call) c = (Err e, c')"
proof (cases call)
  case (TokTransfer t n)
  then have run: "HandleMethod P s (callMethod call) (callArgs call) c = prec_transfer P s ''transfer'' s t n c"
    by (simp add: HandleMethod_def prec_Transfer_def orText_def)
  show ?thesis
    using transfer_run [OF assms(1-5), of n s t "''transfer''" s] assms(6-8) TokTransfer unfolding run
    by (auto simp: tokAbs_def split: if_splits)
next
  case (TokTransferFrom f t n)
  then have run: "HandleMethod P s (callMethod call) (callArgs call) c = prec_transfer P s ''transferFrom'' f t n c"
    by (simp add: HandleMethod_def prec_TransferFrom_def orText_def)
  show ?thesis
    using transfer_run [OF assms(1-5), of n f t "''transferFrom''" s] assms(6-8) TokTransferFrom unfolding run
    by (auto simp: tokAbs_def split: if_splits)
next
  case (TokApprove sp n)
  then have run: "HandleMethod P s (callMethod call) (callArgs call) c = prec_Approve P s [AbiAddress sp, AbiUint n] c"
    by (simp add: HandleMethod_def)
  show ?thesis
    using approve_run [OF assms(3,5), of n s sp] assms(2,6,7) TokApprove unfolding run
    by (auto simp: tokAbs_def split: if_splits)
qed

end

section \<open>x/precisebank as the bank of a token\<close>

abbreviation pbIn :: "'b pb_ctx tx_ctx \<Rightarrow> 'b pb_ctx" where
  "pbIn r \<equiv> sdkState (txVm r)"

type_synonym 'b coin_in = "'b pb_keeper \<times> (AccAddress \<Rightarrow> string) \<times> denom"

definition coin_send :: "'b coin_in \<Rightarrow> AccAddress \<Rightarrow> AccAddress \<Rightarrow> int \<Rightarrow> ('b pb_ctx tx_ctx, sdk_error, unit) go" where
  "coin_send = (\<lambda>(P, str, d) f t n. onPb (Send P \<lparr>FromAddress = str f, ToAddress = str t, MsgAmount = [NewCoin d n]\<rparr>))"

definition coin_admits :: "'b coin_in \<Rightarrow> 'b pb_ctx tx_ctx \<Rightarrow> AccAddress \<Rightarrow> int \<Rightarrow> bool" where
  "coin_admits = (\<lambda>(P, str, d) r t n. IsSendEnabledCoin P (NewCoin d n) (pbIn r) \<and> \<not> BlockedAddr P t)"

text \<open>Addresses of at most 255 bytes are read back from their text.\<close>

definition addr_bytes :: "AccAddress \<Rightarrow> bool" where
  "addr_bytes a \<longleftrightarrow> a \<noteq> [] \<and> length a \<le> 255"

definition addr_codec :: "'b coin_in \<Rightarrow> bool" where
  "addr_codec = (\<lambda>(P, str, d). \<forall>a. addr_bytes a \<longrightarrow> ak_StringToBytes (ak P) (str a) = Some a)"

lemma addr_bytes_Address [simp]: "addr_bytes (AddressBytes a)"
proof -
  have l: "length (AddressBytes a) = 20" by (simp add: AddressBytes_def)
  then show ?thesis by (auto simp: addr_bytes_def)
qed

lemma one_coin:
  assumes "bank_contract P" "ValidDenom (coinsApi P) d" "0 < n"
  shows "IsValid (coinsApi P) [NewCoin d n]" "AmountOf (coinsApi P) [NewCoin d n] d' = (if d' = d then n else 0)" "IsAllPositive (coinsApi P) [NewCoin d n]"
proof -
  have c: "coins_contract (coinsApi P)" using assms(1) by (simp add: bank_contract_def)
  show v: "IsValid (coinsApi P) [NewCoin d n]" "AmountOf (coinsApi P) [NewCoin d n] d' = (if d' = d then n else 0)" for d'
    using c assms(2,3) unfolding coins_contract_def by auto
  have "AmountOf (coinsApi P) [NewCoin d n] d = n" using v(2) by simp
  then show "IsAllPositive (coinsApi P) [NewCoin d n]" using c v(1) assms(3) unfolding coins_contract_def by (metis less_irrefl)
qed

lemma coin_send_run:
  assumes "bank_contract P" "ValidDenom (coinsApi P) d" "addr_codec (P, str, d)" "0 < n" "addr_bytes f" "addr_bytes t"
  shows "coin_admits (P, str, d) r t n \<Longrightarrow> coin_send (P, str, d) f t n r = onPb (SendCoins P f t [NewCoin d n]) r"
    and "\<not> coin_admits (P, str, d) r t n \<Longrightarrow> \<exists>e. coin_send (P, str, d) f t n r = (Err e, r)"
proof -
  have str: "ak_StringToBytes (ak P) (str f) = Some f" "ak_StringToBytes (ak P) (str t) = Some t" using assms(3,5,6) by (simp_all add: addr_codec_def)
  have "Send P \<lparr>FromAddress = str f, ToAddress = str t, MsgAmount = [NewCoin d n]\<rparr> p =
      (if IsSendEnabledCoin P (NewCoin d n) p then (if BlockedAddr P t then (Err ErrUnauthorized, p) else SendCoins P f t [NewCoin d n] p)
       else (Err (ErrSendDisabled (Denom (NewCoin d n))), p))" for p
    using str one_coin(1,3) [OF assms(1,2,4)] by (simp add: Send_def)
  then show "coin_admits (P, str, d) r t n \<Longrightarrow> coin_send (P, str, d) f t n r = onPb (SendCoins P f t [NewCoin d n]) r"
    "\<not> coin_admits (P, str, d) r t n \<Longrightarrow> \<exists>e. coin_send (P, str, d) f t n r = (Err e, r)"
    by (auto simp: coin_send_def coin_admits_def onPb_def onVm_def go_zoom_def)
qed

lemma onPb_run: "m (pbIn r) = (x, p) \<Longrightarrow> onPb m r = (x, r\<lparr>txVm := (txVm r)\<lparr>sdkState := p\<rparr>\<rparr>)"
  by (simp add: onPb_def onVm_def go_zoom_def)

subsection \<open>Coins of x/bank\<close>

definition coin_good :: "'b coin_in \<Rightarrow> bool" where
  "coin_good = (\<lambda>(P, str, d). bank_contract P \<and> ValidDenom (coinsApi P) d \<and> d \<noteq> ExtendedCoinDenom P \<and> addr_codec (P, str, d))"

definition coin_bal :: "'b coin_in \<Rightarrow> 'b pb_ctx tx_ctx \<Rightarrow> AccAddress \<Rightarrow> int" where
  "coin_bal = (\<lambda>(P, str, d) r. d_bal P d (pbIn r))"

definition coin_free :: "'b coin_in \<Rightarrow> 'b pb_ctx tx_ctx \<Rightarrow> AccAddress \<Rightarrow> int" where
  "coin_free = (\<lambda>(P, str, d) r. d_spend P d (pbIn r))"

definition coin_sup :: "'b coin_in \<Rightarrow> 'b pb_ctx tx_ctx \<Rightarrow> int" where
  "coin_sup = (\<lambda>(P, str, d) r. d_sup P d (pbIn r))"

lemma SendCoins_spendable:
  assumes "bank_contract P" "ValidDenom (coinsApi P) d" "d \<noteq> ExtendedCoinDenom P" "0 < n" "SendCoins P f t [NewCoin d n] p = (Ret (), p')" "a \<noteq> t"
  shows "d_spend P d p' a = d_spend P d p a - (if a = f then n else 0)"
proof -
  note o = other_coin [OF assms(1-4)]
  have s: "SendCoins P f t [NewCoin d n] p = onBank (bk_SendCoins (bk P) f t [NewCoin d n]) p"
    using o(1-3) by (simp add: SendCoins_def Let_def go_bind_def split: prod.split outcome.split)
  have "transfers P f t [NewCoin d n] (bk_SendCoins (bk P) f t [NewCoin d n])" using assms(1) o(1) by (simp add: bank_contract_def)
  from spec [OF this [unfolded transfers_def], of "bankState p"] assms(5,6) show ?thesis
    unfolding s d_spend_def o(5) by (auto simp: onBank_def go_zoom_def split: prod.splits if_splits)
qed

interpretation coins: coin_ledger coin_good "\<lambda>_ _. True" coin_send coin_bal coin_free coin_sup coin_admits "\<lambda>_ f t. addr_bytes f \<and> addr_bytes t"
proof unfold_locales
  fix W :: "'b coin_in" and r and f t :: AccAddress and n :: int
  obtain P str d where W: "W = (P, str, d)" by (cases W)
  assume A: "coin_good W" "addr_bytes f \<and> addr_bytes t" "0 < n"
  then have g: "bank_contract P" "ValidDenom (coinsApi P) d" "d \<noteq> ExtendedCoinDenom P" "addr_codec (P, str, d)" by (simp_all add: coin_good_def W)
  note run = coin_send_run [OF g(1,2,4) A(3), of f t r] and send = SendCoins_other [OF g(1-3) A(3), of "pbIn r" f t]
  {
    assume "n \<le> coin_free W r f" "coin_admits W r t n"
    then obtain p where p: "SendCoins P f t [NewCoin d n] (pbIn r) = (Ret (), p)" "d_bal P d p = ledgerTransfer f t n (d_bal P d (pbIn r))" "d_sup P d p = d_sup P d (pbIn r)"
      using send by (auto simp: coin_free_def W)
    then have "coin_send W f t n r = (Ret (), r\<lparr>txVm := (txVm r)\<lparr>sdkState := p\<rparr>\<rparr>)"
      using run(1) A(2) \<open>coin_admits W r t n\<close> by (simp add: W onPb_run)
    then show "\<exists>r'. coin_send W f t n r = (Ret (), r') \<and> True \<and> coin_bal W r' = ledgerTransfer f t n (coin_bal W r) \<and>
        (\<forall>a. a \<noteq> t \<longrightarrow> coin_free W r' a = coin_free W r a - (if a = f then n else 0)) \<and> coin_sup W r' = coin_sup W r"
      using p SendCoins_spendable [OF g(1-3) A(3) p(1)] by (simp add: coin_bal_def coin_free_def coin_sup_def W)
  }
  show "\<exists>e r'. coin_send W f t n r = (Err e, r')" if no: "\<not> (n \<le> coin_free W r f \<and> coin_admits W r t n)"
  proof (cases "coin_admits W r t n")
    case True
    then obtain e where "SendCoins P f t [NewCoin d n] (pbIn r) = (Err e, pbIn r)" using no send by (auto simp: coin_free_def W)
    then show ?thesis using run(1) A(2) True by (simp add: W onPb_run)
  qed (use run(2) A(2) in \<open>auto simp: W\<close>)
qed

subsection \<open>The extended coin\<close>

definition ext_good :: "'b coin_in \<Rightarrow> bool" where
  "ext_good = (\<lambda>(P, str, d). bank_contract P \<and> pb_wired P \<and> d = ExtendedCoinDenom P \<and> \<not> IsExtendedDenomSameAsIntegerDenom P \<and> addr_codec (P, str, d))"

definition ext_inv :: "'b coin_in \<Rightarrow> 'b pb_ctx tx_ctx \<Rightarrow> bool" where
  "ext_inv = (\<lambda>(P, str, d) r. pb_inv P (pbIn r))"

definition ext_bal :: "'b coin_in \<Rightarrow> 'b pb_ctx tx_ctx \<Rightarrow> AccAddress \<Rightarrow> int" where
  "ext_bal = (\<lambda>(P, str, d) r. extBalance P (pbIn r))"

definition ext_free :: "'b coin_in \<Rightarrow> 'b pb_ctx tx_ctx \<Rightarrow> AccAddress \<Rightarrow> int" where
  "ext_free = (\<lambda>(P, str, d) r. extSpendable P (pbIn r))"

definition ext_sup :: "'b coin_in \<Rightarrow> 'b pb_ctx tx_ctx \<Rightarrow> int" where
  "ext_sup = (\<lambda>(P, str, d) r. extSupply P (pbIn r))"

definition ext_party :: "'b coin_in \<Rightarrow> AccAddress \<Rightarrow> AccAddress \<Rightarrow> bool" where
  "ext_party = (\<lambda>(P, str, d) f t. plain_pair P f t \<and> addr_bytes f \<and> addr_bytes t)"

text \<open>Coins of the extended denomination leave nothing for x/bank to move.\<close>

lemma SendCoins_ext_split:
  assumes "bank_contract P" "0 < n"
  shows "\<exists>b. SendCoins P f t [NewCoin (ExtendedCoinDenom P) n] p = sendExtendedCoins P f t n (p\<lparr>bankState := b\<rparr>) \<and>
    (\<forall>a d. bk_GetBalance (bk P) b a d = bk_GetBalance (bk P) (bankState p) a d) \<and>
    (\<forall>a d. a \<noteq> t \<longrightarrow> bk_SpendableCoin (bk P) b a d = bk_SpendableCoin (bk P) (bankState p) a d) \<and>
    (\<forall>d. bk_GetSupply (bk P) b d = bk_GetSupply (bk P) (bankState p) d)"
proof -
  let ?cs = "[NewCoin (ExtendedCoinDenom P) n]"
  have vd: "ValidDenom (coinsApi P) (ExtendedCoinDenom P)" using assms(1) by (simp add: bank_contract_def)
  note o = one_coin [OF assms(1) vd assms(2)]
  note pa = passthrough_amounts [OF assms(1) o(1)]
  have zero: "AmountOf (coinsApi P) (passthrough P ?cs) d = 0" for d using pa(2) o(2) by simp
  have "\<forall>d. AmountOf (coinsApi P) (passthrough P ?cs) d \<le> bk_SpendableCoin (bk P) (bankState p) f d"
    using zero assms(1) by (simp add: bank_contract_def)
  from passthrough_send(1) [OF assms(1) pa(1) this, of t] obtain b where
    b: "go_when (IsAllPositive (coinsApi P) (passthrough P ?cs)) (onBank (bk_SendCoins (bk P) f t (passthrough P ?cs))) p = (Ret (), p\<lparr>bankState := b\<rparr>)"
      "\<forall>a d. bk_GetBalance (bk P) b a d = bk_GetBalance (bk P) (bankState p) a d"
      "\<forall>a d. a \<noteq> t \<longrightarrow> bk_SpendableCoin (bk P) b a d = bk_SpendableCoin (bk P) (bankState p) a d"
      "\<forall>d. bk_GetSupply (bk P) b d = bk_GetSupply (bk P) (bankState p) d"
    unfolding zero by auto
  have "SendCoins P f t ?cs p = sendExtendedCoins P f t n (p\<lparr>bankState := b\<rparr>)"
    using b(1) o(2) assms(2) by (simp add: SendCoins_alt [OF o(1)] go_when_def del: go_when_app split: if_splits)
  then show ?thesis using b(2-4) by blast
qed

lemma SendCoins_ext:
  assumes "bank_contract P" "pb_wired P" "pb_inv P p" "plain_pair P f t" "0 < n"
  shows "n \<le> extSpendable P p f \<Longrightarrow> \<exists>p'. SendCoins P f t [NewCoin (ExtendedCoinDenom P) n] p = (Ret (), p') \<and> pb_inv P p' \<and>
      extBalance P p' = ledgerTransfer f t n (extBalance P p) \<and> (\<forall>a. a \<noteq> t \<longrightarrow> extSpendable P p' a = extSpendable P p a - (if a = f then n else 0)) \<and>
      extSupply P p' = extSupply P p" (is "?ok \<Longrightarrow> ?moved")
    and "\<not> n \<le> extSpendable P p f \<Longrightarrow> \<exists>e p'. SendCoins P f t [NewCoin (ExtendedCoinDenom P) n] p = (Err e, p')"
proof -
  note pp = assms(4) [unfolded plain_pair_def] and C = CF_pos [OF assms(2)]
  obtain b where b: "SendCoins P f t [NewCoin (ExtendedCoinDenom P) n] p = sendExtendedCoins P f t n (p\<lparr>bankState := b\<rparr>)"
      "\<And>a d. bk_GetBalance (bk P) b a d = bk_GetBalance (bk P) (bankState p) a d"
      "\<And>a d. a \<noteq> t \<Longrightarrow> bk_SpendableCoin (bk P) b a d = bk_SpendableCoin (bk P) (bankState p) a d"
      "\<And>d. bk_GetSupply (bk P) b d = bk_GetSupply (bk P) (bankState p) d"
    using SendCoins_ext_split [OF assms(1,5), of f t p] by blast
  let ?p = "p\<lparr>bankState := b\<rparr>"
  have inv: "pb_inv P ?p" by (rule passthrough_inv [OF assms(3)]) (simp add: b(2))
  have bal: "extBalance P ?p = extBalance P p"
  proof
    show "extBalance P ?p a = extBalance P p a" for a by (cases "a = reserveAddr P") (simp_all add: extBalance_eq b(2))
  qed
  have free: "extSpendable P ?p a = extSpendable P p a" if "a \<noteq> t" for a
    using that by (cases "a = reserveAddr P") (simp_all add: extSpendable_eq extSpendable_def [of P _ "reserveAddr P"] SpendableCoin_def [of P "reserveAddr P"] b(3))
  show "\<exists>e p'. SendCoins P f t [NewCoin (ExtendedCoinDenom P) n] p = (Err e, p')" if "\<not> n \<le> extSpendable P p f"
  proof -
    have "\<not> n \<le> extSpendable P ?p f" using that free [of f] pp by simp
    then show ?thesis using sendExtended_dichotomy(2) [OF assms(1,2) inv assms(4) less_imp_le [OF assms(5)]] unfolding b(1) by blast
  qed
  assume ?ok
  then have "n \<le> extSpendable P ?p f" using free [of f] pp by simp
  then have pay: "n div CF P + borrows P ?p f n \<le> spd P (bankState ?p) f"
    using payable_iff [OF inv C, of f n] pp by simp
  from sendExtended_run [OF assms(1,2) inv assms(4) less_imp_le [OF assms(5)] pay] obtain b' where
    b': "sendExtendedCoins P f t n ?p = (Ret (), ?p\<lparr>bankState := b', fracStore := sentFrac P ?p f t n,
         pbEvents := pbEvents ?p @ [FractionalBalanceChange f (borrows P ?p f n * CF P - n mod CF P),
           FractionalBalanceChange t (n mod CF P - carries P ?p t n * CF P)]\<rparr>)"
      "bankStep P (sentDelta P ?p f t n) {t, reserveAddr P} 0 (bankState ?p) b'" by blast
  let ?p' = "?p\<lparr>bankState := b', fracStore := sentFrac P ?p f t n, pbEvents := pbEvents ?p @ [FractionalBalanceChange f (borrows P ?p f n * CF P - n mod CF P),
           FractionalBalanceChange t (n mod CF P - carries P ?p t n * CF P)]\<rparr>"
  have "extSpendable P ?p' a = extSpendable P p a - (if a = f then n else 0)" if "a \<noteq> t" for a
  proof (cases "a = reserveAddr P")
    case True
    then show ?thesis using pp by (auto simp: extSpendable_def SpendableCoin_def)
  next
    case False
    have s: "spd P b' a = spd P b a + sentDelta P ?p f t n a" using bankStep_spd [OF b'(2), of a] that False by simp
    have "extSpendable P ?p' a = extSpendable P ?p a - (if a = f then n else 0)"
    proof (cases "a = f")
      case True
      let ?B = "borrows P ?p f n"
      have "spd P b f = spd P b' f + (n div CF P + ?B)" using s True that False by (simp add: sentDelta_def)
      then have "spd P b f * CF P = spd P b' f * CF P + n div CF P * CF P + ?B * CF P" by (simp add: distrib_right)
      moreover have "n div CF P * CF P + n mod CF P = n" by simp
      moreover have "extSpendable P ?p' f = spd P b' f * CF P + (fm_get0 (fracStore p) f - (n mod CF P - ?B * CF P))"
        using pp by (simp add: extSpendable_eq sentFrac_get)
      moreover have "extSpendable P ?p f = spd P b f * CF P + fm_get0 (fracStore p) f" using pp by (simp add: extSpendable_eq)
      ultimately have "extSpendable P ?p' f = extSpendable P ?p f - n" by linarith
      then show ?thesis using True by simp
    next
      case no: False
      then show ?thesis using s that False pp by (simp add: extSpendable_eq sentFrac_get sentDelta_def)
    qed
    then show ?thesis using free [OF that] by simp
  qed
  then show ?moved
    unfolding b(1) b'(1)
    using sent_inv [OF inv C assms(4) b'(2)] sent_ledger [OF assms(4) b'(2)] bankStep_sup [OF b'(2)] bal b(4)
    by (intro exI [of _ ?p']) (simp add: extSupply_def GetSupply_def GetRemainderAmount_def)
qed

interpretation ext: coin_ledger ext_good ext_inv coin_send ext_bal ext_free ext_sup coin_admits ext_party
proof unfold_locales
  fix W :: "'b coin_in" and r and f t :: AccAddress and n :: int
  obtain P str d where W: "W = (P, str, d)" by (cases W)
  assume A: "ext_good W" "ext_inv W r" "ext_party W f t" "0 < n"
  then have g: "bank_contract P" "pb_wired P" "d = ExtendedCoinDenom P" "addr_codec (P, str, d)" "pb_inv P (pbIn r)" "plain_pair P f t"
    by (auto simp: ext_good_def ext_inv_def ext_party_def W)
  have vd: "ValidDenom (coinsApi P) d" using g(1,3) by (simp add: bank_contract_def)
  have ne: "addr_bytes f" "addr_bytes t" using A(3) by (simp_all add: ext_party_def W)
  note run = coin_send_run [OF g(1) vd g(4) A(4) ne, of r] and send = SendCoins_ext [OF g(1,2,5,6) A(4), folded g(3)]
  {
    assume "n \<le> ext_free W r f" "coin_admits W r t n"
    then obtain p where p: "SendCoins P f t [NewCoin d n] (pbIn r) = (Ret (), p)" "pb_inv P p" "extBalance P p = ledgerTransfer f t n (extBalance P (pbIn r))"
        "\<forall>a. a \<noteq> t \<longrightarrow> extSpendable P p a = extSpendable P (pbIn r) a - (if a = f then n else 0)" "extSupply P p = extSupply P (pbIn r)"
      using send(1) by (auto simp: ext_free_def W)
    then have "coin_send W f t n r = (Ret (), r\<lparr>txVm := (txVm r)\<lparr>sdkState := p\<rparr>\<rparr>)"
      using run(1) \<open>coin_admits W r t n\<close> by (simp add: W onPb_run)
    then show "\<exists>r'. coin_send W f t n r = (Ret (), r') \<and> ext_inv W r' \<and> ext_bal W r' = ledgerTransfer f t n (ext_bal W r) \<and>
        (\<forall>a. a \<noteq> t \<longrightarrow> ext_free W r' a = ext_free W r a - (if a = f then n else 0)) \<and> ext_sup W r' = ext_sup W r"
      using p(2-5) by (simp add: ext_inv_def ext_bal_def ext_free_def ext_sup_def W)
  }
  show "\<exists>e r'. coin_send W f t n r = (Err e, r')" if no: "\<not> (n \<le> ext_free W r f \<and> coin_admits W r t n)"
  proof (cases "coin_admits W r t n")
    case True
    then have "\<not> n \<le> extSpendable P (pbIn r) f" using no by (simp add: ext_free_def W)
    then obtain e p where "SendCoins P f t [NewCoin d n] (pbIn r) = (Err e, p)" using send(2) by blast
    then show ?thesis using run(1) True by (simp add: W onPb_run)
  qed (use run(2) in \<open>auto simp: W\<close>)
qed

section \<open>The precompile of the application\<close>

definition appTokenBank :: "'b pb_keeper \<Rightarrow> ('b \<Rightarrow> denom \<Rightarrow> Metadata option) \<Rightarrow> 'b pb_ctx tx_ctx cmn_bank" where
  "appTokenBank P metadata = \<lparr>cb_Server = PreciseBankServer (\<lambda>m. onPb (Send P m)), cb_GetSupply = (\<lambda>r d. GetSupply P d (pbIn r)),
     cb_GetDenomMetaData = (\<lambda>r. metadata (bankState (pbIn r))), cb_SpendableCoin = (\<lambda>r a d. Amount (SpendableCoin P a d (pbIn r))),
     cb_SendCoins = (\<lambda>f t cs. onPb (SendCoins P f t cs))\<rparr>"

abbreviation pairCoin :: "'b pb_keeper \<Rightarrow> 'b pb_ctx tx_ctx erc20_precompile \<Rightarrow> 'b coin_in" where
  "pairCoin P X \<equiv> (P, pcAccString X, tp_Denom (pcPair X))"

definition bankToken :: "'b pb_keeper \<Rightarrow> 'b pb_ctx tx_ctx erc20_precompile \<Rightarrow> 'b pb_ctx tx_ctx prec_ctx \<Rightarrow> erc20_token" where
  "bankToken P X = tokAbs (coin_bal (pairCoin P X)) (coin_free (pairCoin P X)) (coin_sup (pairCoin P X)) X"

definition extToken :: "'b pb_keeper \<Rightarrow> 'b pb_ctx tx_ctx erc20_precompile \<Rightarrow> 'b pb_ctx tx_ctx prec_ctx \<Rightarrow> erc20_token" where
  "extToken P X = tokAbs (ext_bal (pairCoin P X)) (ext_free (pairCoin P X)) (ext_sup (pairCoin P X)) X"

lemma app_sends: "pcBank X = appTokenBank P metadata \<Longrightarrow> sends_by X (coin_send (pairCoin P X))"
  by (simp add: sends_by_def appTokenBank_def coin_send_def)

lemma HandleMethod_queries:
  "HandleMethod X s ''balanceOf'' [AbiAddress a] c =
    orText (pcPackOutput X (AbiUint (cb_SpendableCoin (pcBank X) (ercRest (pcErc c)) (AddressBytes a) (tp_Denom (pcPair X))))) c"
  "HandleMethod X s ''allowance'' [AbiAddress a, AbiAddress b] c = orText (pcPackOutput X (AbiUint (allowOf X c a b))) c"
  "HandleMethod X s ''totalSupply'' args c = orText (pcPackOutput X (AbiUint (cb_GetSupply (pcBank X) (ercRest (pcErc c)) (tp_Denom (pcPair X))))) c"
  by (simp_all add: HandleMethod_def prec_BalanceOf_def prec_Allowance_def prec_TotalSupply_def orText_def)

section \<open>An example\<close>

text \<open>Address 3 holds ten coins of the pair and five integer coins, and allows address 9 to spend six.\<close>

definition exHeld :: "ledger pb_ctx" where
  "exHeld = \<lparr>bankState = \<lparr>lg_bal = (\<lambda>a d. if a = AddressBytes 3 then (if d = ''erc20:5'' then 10 else if d = ''utest'' then 5 else 0) else 0),
     lg_sup = (\<lambda>d. if d = ''erc20:5'' then 10 else if d = ''utest'' then 5 else 0), lg_acc = fmempty\<rparr>, fracStore = fmempty, remStore = None, pbEvents = []\<rparr>"

definition exSpender :: erc20_store where
  "exSpender = (case SetAllowance (exK exWiring) 5 3 9 (Some 6) (ercStore exErc) of Inl _ \<Rightarrow> ercStore exErc | Inr s \<Rightarrow> s)"

definition exTokens :: "ledger pb_ctx tx_ctx prec_ctx" where
  "exTokens = \<lparr>pcErc = exErc\<lparr>ercStore := exSpender, ercRest := \<lparr>txVm = lgChain\<lparr>sdkState := exHeld\<rparr>, txMeter = \<lparr>consumed = 0, limit = 100\<rparr>\<rparr>\<rparr>, pcLogs = []\<rparr>"

definition exPrecompile :: "denom \<Rightarrow> ledger pb_ctx tx_ctx erc20_precompile" where
  "exPrecompile d = \<lparr>pcPair = exPair\<lparr>tp_Denom := d\<rparr>, pcKeeper = exK exWiring, pcBank = appTokenBank lgKeeper (\<lambda>_ _. None), pcGetDenom = (\<lambda>_ _. None),
     pcErrorText = (\<lambda>_. []), pcAccString = AccAddressString lgBech32, pcValidate = lgValid, pcTransferID = 1, pcApprovalID = 2,
     pcPackUint = (\<lambda>v. Inr [of_int v]), pcPackOutput = (\<lambda>_. Inr [1]), pcBlockHeight = 7\<rparr>"

lemma exPrecompile_sel [simp]:
  "pcBank (exPrecompile d) = appTokenBank lgKeeper (\<lambda>_ _. None)" "prec_Address (exPrecompile d) = 5" "tp_Denom (pcPair (exPrecompile d)) = d"
  "pcKeeper (exPrecompile d) = exK exWiring" "pcPackUint (exPrecompile d) v = Inr [of_int v]" "pcTransferID (exPrecompile d) = 1" "pcApprovalID (exPrecompile d) = 2"
  using exPair_contract(1) [of exWiring] by (simp_all add: exPrecompile_def prec_Address_def GetERC20Contract_def)

lemma exPrecompile_codec: "d \<noteq> [] \<Longrightarrow> prec_codec (exPrecompile d)" "addr_codec (pairCoin lgKeeper (exPrecompile d))"
proof -
  show "d \<noteq> [] \<Longrightarrow> prec_codec (exPrecompile d)" by (simp add: prec_codec_def exPrecompile_def lgValid_def)
  show "addr_codec (pairCoin lgKeeper (exPrecompile d))"
    using ledger_bech32 by (simp add: addr_codec_def addr_bytes_def exPrecompile_def bech32_contract_def)
qed

lemma exTokens_store: "erc20_wf (exK exWiring) (ercStore (pcErc exTokens))" "pairLive (exPrecompile d) (ercStore (pcErc exTokens))"
    "GetAllowance (ercStore (pcErc exTokens)) 5 3 9 = 6"
proof -
  have wf: "erc20_wf (exK exWiring) (ercStore exErc)" using reach_wf [OF appErc.erc20_env_axioms exErc_reach] .
  have live: "pairLive (exPrecompile d) (ercStore exErc)"
    by (simp add: pairLive_def exErc_store GetERC20Map_def GetTokenPair_def SetERC20Map_def SetDenomMap_def SetTokenPair_def)
  then obtain s where s: "SetAllowance (exK exWiring) 5 3 9 (Some 6) (ercStore exErc) = Inr s" "pairLive (exPrecompile d) s" "GetAllowance s 5 3 9 = 6"
    using setAllowance_run [of 6 "exPrecompile d" "ercStore exErc" 3 9 "exK exWiring"] by (auto simp: SetAllowance_def)
  then have "ercStore (pcErc exTokens) = s" by (simp add: exTokens_def exSpender_def)
  then show "erc20_wf (exK exWiring) (ercStore (pcErc exTokens))" "pairLive (exPrecompile d) (ercStore (pcErc exTokens))"
    "GetAllowance (ercStore (pcErc exTokens)) 5 3 9 = 6"
    using s erc20_wf_setAllowance [OF wf] unfolding SetAllowance_def by auto
qed

lemma exTokens_bank: "pbIn (ercRest (pcErc exTokens)) = exHeld" "coin_admits (pairCoin lgKeeper (exPrecompile d)) r (AddressBytes a) n"
  by (simp_all add: exTokens_def coin_admits_def IsSendEnabledCoin_def BlockedAddr_def) (simp_all add: lgBank_def)

lemma exCoin_good: "coin_good (pairCoin lgKeeper (exPrecompile ''erc20:5''))"
  using ledger_contract exPrecompile_codec(2) by (simp add: coin_good_def)

lemma exExt_good: "ext_good (pairCoin lgKeeper (exPrecompile ''atest''))"
  using ledger_contract ledger_wired ledger_denoms_differ exPrecompile_codec(2) by (simp add: ext_good_def)

lemma exCoin_token: "tBal (bankToken lgKeeper (exPrecompile ''erc20:5'') exTokens) a = (if a = 3 then 10 else 0)"
  "tFree (bankToken lgKeeper (exPrecompile ''erc20:5'') exTokens) a = (if a = 3 then 10 else 0)"
  "tAllow (bankToken lgKeeper (exPrecompile ''erc20:5'') exTokens) 3 9 = 6"
  using exTokens_store(3) by (simp_all add: bankToken_def tokAbs_def coin_bal_def coin_free_def d_bal_def d_spend_def exTokens_bank exHeld_def)

lemma exExt_token: "tBal (extToken lgKeeper (exPrecompile ''atest'') exTokens) a = (if a = 3 then 50 else 0)"
  "tFree (extToken lgKeeper (exPrecompile ''atest'') exTokens) a = (if a = 3 then 50 else 0)"
  by (simp_all add: extToken_def tokAbs_def ext_bal_def ext_free_def exTokens_bank exHeld_def extBalance_eq extSpendable_eq fm_get0_def)

lemma exCoin_enabled: "tok_enabled (\<lambda>t. coin_admits (pairCoin lgKeeper (exPrecompile ''erc20:5'')) (ercRest (pcErc exTokens)) (AddressBytes t))
    (pairLive (exPrecompile ''erc20:5'') (ercStore (pcErc exTokens))) 9 (TokTransferFrom 3 4 2) (bankToken lgKeeper (exPrecompile ''erc20:5'') exTokens)"
  using exCoin_token exTokens_bank(2) exTokens_store(2) by simp

section \<open>Properties\<close>

text \<open>
  C35.  A token backed by a coin of the bank.  Transfers, approvals and transfers by a spender succeed exactly when the
  abstract token allows them, and then change its balances, allowances and supply as an ERC-20 token does; \<open>balanceOf\<close>,
  \<open>allowance\<close> and \<open>totalSupply\<close> report them.
\<close>

theorem token_refines:
  assumes "pcBank X = appTokenBank P metadata" "prec_codec X" "coin_good (pairCoin P X)" "erc20_wf (pcKeeper X) (ercStore (pcErc c))"
    and "0 \<le> callAmount call" "callAmount call < 2 ^ 256"
  shows "(if tok_enabled (\<lambda>t. coin_admits (pairCoin P X) (ercRest (pcErc c)) (AddressBytes t)) (pairLive X (ercStore (pcErc c))) s call (bankToken P X c)
      then \<exists>out c'. HandleMethod X s (callMethod call) (callArgs call) c = (Ret out, c') \<and>
        tok_step s call (bankToken P X c) (bankToken P X c') \<and> erc20_wf (pcKeeper X) (ercStore (pcErc c'))
      else \<exists>e c'. HandleMethod X s (callMethod call) (callArgs call) c = (Err e, c')) \<and>
    HandleMethod X s ''balanceOf'' [AbiAddress a] c = orText (pcPackOutput X (AbiUint (tFree (bankToken P X c) a))) c \<and>
    HandleMethod X s ''allowance'' [AbiAddress a, AbiAddress b] c = orText (pcPackOutput X (AbiUint (tAllow (bankToken P X c) a b))) c \<and>
    HandleMethod X s ''totalSupply'' [] c = orText (pcPackOutput X (AbiUint (tSupply (bankToken P X c)))) c"
proof -
  have "\<forall>(f, t)\<in>callParties s call. addr_bytes (AddressBytes f) \<and> addr_bytes (AddressBytes t)" by simp
  note step = coins.call_run [OF assms(3) TrueI assms(2) app_sends [OF assms(1)] assms(4-6) this, folded bankToken_def]
  have "tp_Denom (pcPair X) \<noteq> ExtendedCoinDenom P" using assms(3) by (simp add: coin_good_def)
  then have reads: "tFree (bankToken P X c) a = cb_SpendableCoin (pcBank X) (ercRest (pcErc c)) (AddressBytes a) (tp_Denom (pcPair X))"
      "tAllow (bankToken P X c) = allowOf X c" "tSupply (bankToken P X c) = cb_GetSupply (pcBank X) (ercRest (pcErc c)) (tp_Denom (pcPair X))"
    unfolding assms(1)
    by (simp_all add: bankToken_def tokAbs_def coin_free_def coin_sup_def appTokenBank_def SpendableCoin_def d_spend_def GetSupply_def d_sup_def)
  show ?thesis unfolding HandleMethod_queries reads using step by (simp split: if_splits)
qed

theorem token_refines_witness:
  "\<exists>out c'. HandleMethod (exPrecompile ''erc20:5'') 9 ''transferFrom'' [AbiAddress 3, AbiAddress 4, AbiUint 2] exTokens = (Ret out, c') \<and>
    tBal (bankToken lgKeeper (exPrecompile ''erc20:5'') c') 3 = 8 \<and> tBal (bankToken lgKeeper (exPrecompile ''erc20:5'') c') 4 = 2 \<and>
    tAllow (bankToken lgKeeper (exPrecompile ''erc20:5'') c') 3 9 = 4"
proof -
  let ?X = "exPrecompile ''erc20:5''" and ?call = "TokTransferFrom 3 4 2"
  have wf: "erc20_wf (pcKeeper ?X) (ercStore (pcErc exTokens))" using exTokens_store(1) by simp
  obtain out c' where "HandleMethod ?X 9 (callMethod ?call) (callArgs ?call) exTokens = (Ret out, c')"
      "tok_step 9 ?call (bankToken lgKeeper ?X exTokens) (bankToken lgKeeper ?X c')"
    using token_refines [OF exPrecompile_sel(1) exPrecompile_codec(1) exCoin_good wf, of ?call 9, THEN conjunct1, unfolded if_P [OF exCoin_enabled]] by auto
  then show ?thesis using exCoin_token by (auto simp: tokMoved_def tokenMove_def allowUpd_def)
qed



text \<open>
  C39.  The \<open>Approval\<close> event of \<open>transferFrom\<close> carries the variable of the enclosing scope, which the branch that spends the
  allowance never assigns: whenever \<open>transferFrom\<close> succeeds, over any bank, it reports zero, whatever allowance is left.
\<close>

theorem approval_event_zero:
  assumes "prec_codec X" "erc20_wf (pcKeeper X) (ercStore (pcErc c))"
    and "HandleMethod X s ''transferFrom'' [AbiAddress f, AbiAddress t, AbiUint n] c = (Ret out, c')"
  shows "\<exists>bz bz0. pcPackUint X n = Inr bz \<and> pcPackUint X 0 = Inr bz0 \<and> allowOf X c' f s = allowOf X c f s - n \<and>
    pcLogs c' = pcLogs c @ [tokLog X [pcTransferID X, MakeTopic f, MakeTopic t] bz, tokLog X [pcApprovalID X, MakeTopic f, MakeTopic s] bz0]"
proof -
  have "prec_transfer X s ''transferFrom'' f t n c = (Ret out, c')"
    using assms(3) by (simp add: HandleMethod_def prec_TransferFrom_def orText_def)
  from transferFrom_Ret [OF assms(1,2) this] show ?thesis .
qed

theorem approval_event_zero_witness:
  "\<exists>out c'. HandleMethod (exPrecompile ''erc20:5'') 9 ''transferFrom'' [AbiAddress 3, AbiAddress 4, AbiUint 2] exTokens = (Ret out, c') \<and>
    allowOf (exPrecompile ''erc20:5'') c' 3 9 = 4 \<and>
    pcLogs c' = [tokLog (exPrecompile ''erc20:5'') [1, MakeTopic 3, MakeTopic 4] [2], tokLog (exPrecompile ''erc20:5'') [2, MakeTopic 3, MakeTopic 9] [0]]"
proof -
  let ?X = "exPrecompile ''erc20:5''" and ?call = "TokTransferFrom 3 4 2"
  note wf = exTokens_store(1)
  obtain out c' where run: "HandleMethod ?X 9 ''transferFrom'' [AbiAddress 3, AbiAddress 4, AbiUint 2] exTokens = (Ret out, c')"
    using coins.call_run [OF exCoin_good TrueI exPrecompile_codec(1) app_sends [OF exPrecompile_sel(1)], of exTokens ?call 9] wf exCoin_enabled
    unfolding bankToken_def by auto
  have "\<exists>bz bz0. pcPackUint ?X 2 = Inr bz \<and> pcPackUint ?X 0 = Inr bz0 \<and> allowOf ?X c' 3 9 = allowOf ?X exTokens 3 9 - 2 \<and>
    pcLogs c' = pcLogs exTokens @ [tokLog ?X [pcTransferID ?X, MakeTopic 3, MakeTopic 4] bz, tokLog ?X [pcApprovalID ?X, MakeTopic 3, MakeTopic 9] bz0]"
    by (rule approval_event_zero [OF exPrecompile_codec(1) _ run]) (simp_all add: wf)
  then show ?thesis using run exTokens_store(3) by (auto simp: exTokens_def)
qed

text \<open>
  C40.  A transfer of the extended coin to oneself is answered before any balance is looked at: it succeeds for every
  positive amount, with no assumption on the funds of the account, and emits a \<open>Transfer\<close> event of that amount while
  no balance changes.
\<close>

theorem self_transfer_unfunded:
  assumes "pcBank X = appTokenBank P metadata" "prec_codec X" "ext_good (pairCoin P X)"
    and "coin_admits (pairCoin P X) (ercRest (pcErc c)) (AddressBytes s) n" "AddressBytes s \<noteq> reserveAddr P" "0 < n" "n < 2 ^ 256"
  shows "\<exists>out bz c'. HandleMethod X s ''transfer'' [AbiAddress s, AbiUint n] c = (Ret out, c') \<and> pcPackUint X n = Inr bz \<and>
    pcLogs c' = pcLogs c @ [tokLog X [pcTransferID X, MakeTopic s, MakeTopic s] bz] \<and> tBal (extToken P X c') = tBal (extToken P X c)"
proof -
  let ?r = "ercRest (pcErc c)" and ?d = "tp_Denom (pcPair X)"
  have P: "bank_contract P" "?d = ExtendedCoinDenom P" "addr_codec (pairCoin P X)" using assms(3) unfolding ext_good_def by auto
  have vd: "ValidDenom (coinsApi P) ?d" using P(1,2) by (simp add: bank_contract_def)
  obtain b where "SendCoins P (AddressBytes s) (AddressBytes s) [NewCoin ?d n] (pbIn ?r) = (Ret (), (pbIn ?r)\<lparr>bankState := b\<rparr>)"
      and bal: "\<And>a d. bk_GetBalance (bk P) b a d = bk_GetBalance (bk P) (bankState (pbIn ?r)) a d"
    using SendCoins_ext_split [OF P(1) assms(6), of "AddressBytes s" "AddressBytes s" "pbIn ?r"] assms(5) P(2)
    by (auto simp: sendExtendedCoins_def reserveAddr_def)
  then have send: "coin_send (pairCoin P X) (AddressBytes s) (AddressBytes s) n ?r = (Ret (), ?r\<lparr>txVm := (txVm ?r)\<lparr>sdkState := (pbIn ?r)\<lparr>bankState := b\<rparr>\<rparr>\<rparr>)"
    using coin_send_run(1) [OF P(1) vd P(3) assms(6) _ _ assms(4)] onPb_run by simp
  obtain bz out where pack: "pcPackUint X n = Inr bz" "pcPackOutput X (AbiBool True) = Inr out" "pcValidate X [NewCoin ?d n]"
    using assms(2,6,7) unfolding prec_codec_def by (metis less_imp_le)
  let ?c = "c\<lparr>pcErc := (pcErc c)\<lparr>ercRest := ?r\<lparr>txVm := (txVm ?r)\<lparr>sdkState := (pbIn ?r)\<lparr>bankState := b\<rparr>\<rparr>\<rparr>\<rparr>,
    pcLogs := pcLogs c @ [tokLog X [pcTransferID X, MakeTopic s, MakeTopic s] bz]\<rparr>"
  have "HandleMethod X s ''transfer'' [AbiAddress s, AbiUint n] c = prec_transfer X s ''transfer'' s s n c"
    by (simp add: HandleMethod_def prec_Transfer_def orText_def)
  also have "\<dots> = (Ret out, ?c)"
    using sends_by_run(1) [OF app_sends [OF assms(1)] send] pack assms(6,7)
    by (simp add: prec_transfer_def Let_def EmitTransferEvent_def orText_def precAddLog_tok)
  finally have run: "HandleMethod X s ''transfer'' [AbiAddress s, AbiUint n] c = (Ret out, ?c)" .
  have "extBalance P ((pbIn ?r)\<lparr>bankState := b\<rparr>) a = extBalance P (pbIn ?r) a" for a
    by (cases "a = reserveAddr P") (simp_all add: extBalance_eq bal)
  then have "tBal (extToken P X ?c) = tBal (extToken P X c)" by (simp add: extToken_def tokAbs_def ext_bal_def)
  then show ?thesis using run pack(1) by auto
qed

theorem self_transfer_unfunded_witness:
  "tBal (extToken lgKeeper (exPrecompile ''atest'') exTokens) 4 = 0 \<and>
    (\<exists>out c'. HandleMethod (exPrecompile ''atest'') 4 ''transfer'' [AbiAddress 4, AbiUint 100] exTokens = (Ret out, c') \<and>
      pcLogs c' = [tokLog (exPrecompile ''atest'') [1, MakeTopic 4, MakeTopic 4] [100]] \<and>
      tBal (extToken lgKeeper (exPrecompile ''atest'') c') 4 = 0)"
proof -
  let ?X = "exPrecompile ''atest''"
  have zero: "tBal (extToken lgKeeper ?X exTokens) 4 = 0" by (simp add: exExt_token)
  have "\<exists>out bz c'. HandleMethod ?X 4 ''transfer'' [AbiAddress 4, AbiUint 100] exTokens = (Ret out, c') \<and> pcPackUint ?X 100 = Inr bz \<and>
    pcLogs c' = pcLogs exTokens @ [tokLog ?X [pcTransferID ?X, MakeTopic 4, MakeTopic 4] bz] \<and>
    tBal (extToken lgKeeper ?X c') = tBal (extToken lgKeeper ?X exTokens)"
    by (rule self_transfer_unfunded [OF exPrecompile_sel(1) exPrecompile_codec(1) exExt_good exTokens_bank(2)]) simp_all
  then show ?thesis using zero by (auto simp: exTokens_def)
qed

end
