(* ===== verification/Spec2Isabelle.thy ===== *)
theory Spec2Isabelle
  imports PreciseBankProps SnapshotStore VmTransitionProps VmFees VmBlockProps VmGenesis Erc20IbcV2 Erc20Token
begin

text \<open>
  A verification library for \<^verbatim>\<open>cosmos/evm\<close>, the Cosmos SDK modules that run an Ethereum virtual machine on a
  Cosmos chain.  Paths below are relative to \<^verbatim>\<open>src/\<close>.

  \<^bold>\<open>The program.\<close>  x/precisebank extends the coin of the chain, which may have fewer than 18 decimals, by
  fractional balances, so that the EVM sees an 18-decimal coin.  x/vm runs Ethereum transactions: a state
  database (x/vm/statedb) caches accounts over the keeper (x/vm/keeper), journals every change, undoes the
  journal on revert and commits to the stores at the end; balances are those of x/precisebank, reached through
  the wrappers of x/vm/wrappers.  x/feemarket keeps the EIP-1559 base fee.  x/erc20 pairs coins with token contracts
  and converts between them, also from the callbacks of IBC transfers.  Precompiled contracts write to the
  Cosmos stores in the middle of an EVM execution; the snapshot stores of x/vm/store make those writes revertible.

  \<^bold>\<open>How code becomes definitions.\<close>  A Go function with an error result is a state-keeping computation
  \<open>('s, 'e, 'a) go\<close> (\<open>EvmPrelude\<close>): it maps a state to \<open>Ret\<close>, \<open>Err\<close> or \<open>Panic\<close> together with the state it leaves, so that
  what a failing operation has already written is visible.  Structs are records, stores are finite maps, uint8, uint64 and
  uint256 are words that wrap, big.Int and math.Int are integers, a nil pointer is None.  Code that is not
  part of the sources (the Cosmos SDK, go-ethereum, ibc-go, codecs and hash functions) is a parameter: a record
  of functions, with what is relied on as a named predicate (\<open>bank_contract\<close>, \<open>auth_contract\<close>, \<open>erc20_lib_contract\<close>,
  \<open>token_reads\<close>, \<open>vm_consistent\<close>, ...).  \<open>PreciseBankLedger\<close> has a concrete x/bank that satisfies \<open>bank_contract\<close>, and \<open>VmCommit\<close>
  and \<open>Erc20Props\<close> build a concrete application on it, on which the witnesses run.

  \<^bold>\<open>Theories.\<close>
  \<^item> \<open>EvmPrelude\<close>: the computation type with its rules (\<open>go_inv\<close>, \<open>go_keeps\<close>), words, byte strings and finite maps.
  \<^item> \<open>EvmDenom\<close>: decimals, conversion factors and coin configuration (x/vm/types: denom.go, denom_config.go, scaling.go).
  \<^item> \<open>PreciseBankBase\<close>, \<open>PreciseBankLaws\<close>, \<open>PreciseBankSend\<close>, \<open>PreciseBankMint\<close>, \<open>PreciseBankGenesis\<close>, \<open>PreciseBankProps\<close>: x/precisebank
    (keeper/fractional_balance.go, remainder_amount.go, view.go, send.go, mint.go, burn.go, msg_server, grpc_query.go, invariants, genesis.go).
    \<open>pb_ctx\<close> is its store with the events and the state of x/bank below.
  \<^item> \<open>GasMeter\<close>: the infinite gas meter, block gas limit and safe casts (types/gasmeter.go, block.go, int.go), and the
    reset of the meter in x/vm/keeper/gas.go.
  \<^item> \<open>FeeMarket\<close>, \<open>FeeMarketProps\<close>: x/feemarket and \<open>CalcGasBaseFee\<close> of utils/utils.go.
  \<^item> \<open>SnapshotStore\<close>: x/vm/store/snapshotkv and snapshotmulti.
  \<^item> \<open>AccessList\<close>, \<open>StateDBModel\<close>: x/vm/statedb (access_list.go, transient_storage.go, journal.go, state_object.go, statedb.go).
    \<open>StateDBUndo\<close>, \<open>StateDBRevert\<close>, \<open>StateDBSnapshot\<close>, \<open>StateDBClean\<close>, \<open>StateDBCommit\<close>, \<open>StateDBProps\<close> hold its lemmas.
  \<^item> \<open>VmBank\<close>, \<open>VmKeeper\<close>, \<open>VmCommit\<close>: the bank wrapper, accounts, storage, code and transient values of the keeper
    (x/vm/wrappers/bank.go, x/vm/keeper/statedb.go, keeper.go, utils.go), and the keeper as the database of the state database.
  \<^item> \<open>VmParams\<close>: parameters, static precompiles, access control (x/vm/types: params.go, permissions.go, opcodes_hooks.go;
    x/vm/keeper: params.go, precompiles.go, static_precompiles.go).
  \<^item> \<open>VmGas\<close>, \<open>VmFees\<close>, \<open>VmTransition\<close>, \<open>VmTransitionLaws\<close>, \<open>VmTransitionProps\<close>: fees, gas and the state transition
    (x/vm/keeper: gas.go, fees.go, config.go, state_transition.go, call_evm.go; x/vm/types: utils.go, tx.go).
  \<^item> \<open>VmBlock\<close>, \<open>VmBlockProps\<close>, \<open>VmGenesis\<close>: messages, block hooks, block hashes, preinstalled contracts and genesis
    (x/vm/keeper: abci.go, hooks.go, msg_server.go, preinstalls.go; x/vm/genesis.go; x/vm/types: genesis.go, storage.go, preinstall.go).
  \<^item> \<open>Erc20Store\<close>, \<open>Erc20\<close>, \<open>Erc20IbcV2\<close>: x/erc20 with its IBC middleware of both versions, and ibc/utils.go.
    \<open>Erc20Inv\<close>, \<open>Erc20Props\<close>, \<open>Erc20Convert\<close> hold its lemmas and the keeper of the application, \<open>appErc20\<close>.
  \<^item> \<open>Erc20Precompile\<close>: the precompiles of token pairs and of the wrapped coin (precompiles/erc20, precompiles/werc20), each method with its
    events and the dispatch; \<open>prec_ctx\<close> is the state of x/erc20 and below with the logs.  \<open>Erc20Token\<close> has the abstract token and its refinement.

  \<^bold>\<open>Interfaces.\<close>  \<open>extended_bank\<close> (\<open>VmBank\<close>) is what x/vm needs of a bank with an 18-decimal coin; x/precisebank is its
  interpretation \<open>pb\<close>.  \<open>statedb_keeper\<close> (\<open>StateDBCommit\<close>) is what a commit needs of the keeper; the keeper of x/vm over
  x/precisebank and x/auth is its interpretation \<open>app\<close>.  \<open>snapshot_stack\<close> (\<open>SnapshotStore\<close>) is a stack of revertible layers, with
  the key-value and the multi store as interpretations.  \<open>gas_meter\<close> (\<open>GasMeter\<close>) is what the reset of the meter needs.
  \<open>erc20_env\<close> (\<open>Erc20Inv\<close>) is what the stores of x/erc20 need of their environment; \<open>appErc20\<close> is its interpretation \<open>appErc\<close>.
  \<open>coin_ledger\<close> (\<open>Erc20Token\<close>) is what a token precompile needs of the bank; its interpretations are the coins of x/bank (\<open>coins\<close>) and the
  extended coin (\<open>ext\<close>), both reached through x/precisebank.

  \<^bold>\<open>What is shown.\<close>
  \<^item> x/precisebank implements an exact ledger in extended units: transfers, mints and burns succeed exactly when they can
    be paid, move exactly the amount, and keep the reserve backing every fractional balance, from genesis on, and across
    export and import (\<open>PreciseBankProps\<close>).
  \<^item> Reverting a snapshot restores every read, in the state database for all sequences of operations with nested
    snapshots, and in the snapshot stores (\<open>StateDBProps\<close>, \<open>SnapshotStore\<close>).
  \<^item> A commit stores exactly what the transaction left, through all layers down to x/precisebank (\<open>VmCommit\<close>), an applied
    message persists what the interpreter left, a failed or uncommitted one leaves nothing (\<open>VmTransitionProps\<close>).
  \<^item> Gas arithmetic does not overflow, the gas charged is within its bounds, and the sender pays exactly gas used
    times price (\<open>VmTransitionProps\<close>, \<open>VmFees\<close>, \<open>VmGas\<close>); the binary search of gas estimation finds the least gas.
  \<^item> The base fee is that of EIP-1559 and bounded; parameters of x/feemarket and x/vm stay valid; access control is
    enforced as configured (\<open>FeeMarketProps\<close>, \<open>VmParams\<close>).
  \<^item> BLOCKHASH answers within the history window; the genesis of x/vm survives export and import (\<open>VmBlockProps\<close>, \<open>VmGenesis\<close>).
  \<^item> The stores of x/erc20 stay consistent, coins of token contracts stay backed by escrowed tokens and can
    always be redeemed (\<open>Erc20Props\<close>, \<open>Erc20Convert\<close>).
  \<^item> The token precompile is an ERC-20 token over the ledger of a coin: its calls succeed exactly when the abstract token allows them
    and make its steps (\<open>Erc20Token\<close>).
  \<^item> Where the code does something else than its comments or Ethereum say, a theorem states what it does: block hashes beyond the window,
    storage lost at export, contracts destroyed at a funded address, the wrapping precompile counter, access control entries in the wrong
    case, coins stranded by failed conversions, approval events that report zero, and transfers to oneself without funds.

  \<^bold>\<open>Bounds and fuel.\<close>  No definition uses fuel.  Loops over lists and stores are structural, \<open>BinSearch\<close> is a
  \<^verbatim>\<open>partial_function (option)\<close> whose termination is part of its theorem, the recursion of \<open>removeInvalidPrefixes\<close> and
  \<open>bigBytes\<close> is shown to end.  Iteration over a store visits its keys in their order.  The interpreter of go-ethereum is a
  parameter that makes a finite sequence of state database operations.

  \<^bold>\<open>Not modelled.\<close>  The interpreter, ABI and RLP encoding, signatures and tries of go-ethereum, and the Cosmos SDK modules below,
  are not in the sources.  Of the sources, the JSON-RPC server, indexer, command line and wallets are I/O
  around queries; codecs, generated code and module wiring have no behaviour of their own; tracing, telemetry and logging change no
  state.  The ante handlers are glue over the fee and balance checks that are modelled.  The mempool is a port of
  go-ethereum's transaction pool around goroutines and locks.  The other precompiles decode ABI arguments and call SDK keepers
  that are not in the sources; of the token precompiles, \<open>Run\<close>, which sets up the cached context and charges gas around
  the method, is left out.  Gas consumption of store accesses is left out; gas is what the EVM and the gas meter of
  the transaction count.
\<close>

end
